(* ===== verification/Prelude.thy ===== *)
theory Prelude
  imports Main
    "HOL-Library.List_Lexorder" "HOL-Library.Char_ord" "HOL-Library.Product_Lexorder"
    "HOL-Library.Word" "HOL-Library.Multiset"
begin

section \<open>Shared types, string routines and ordered containers\<close>

text \<open>
  What every component of the model uses: names for the machine integers, the byte-string
  routines of Rust's standard library that the code calls (a Rust \<open>String\<close> is its list of
  UTF-8 bytes, one \<open>char\<close> per byte), decimal printing, and the two ordered containers
  (\<open>BTreeMap\<close> as an association list kept strictly sorted by key, \<open>BTreeSet\<close> as a
  strictly sorted list). The interface the components rely on is the locale
  \<open>ordered_map\<close>; its interpretation on the sorted association list is \<open>bm\<close>.
\<close>

type_synonym u8 = "8 word"
type_synonym u16 = "16 word"
type_synonym u32 = "32 word"
type_synonym u64 = "64 word"

text \<open>
  An instant is its number of nanoseconds from the Unix epoch: the code compares, subtracts
  and orders \<open>OffsetDateTime\<close> values by instant only. A duration is in nanoseconds.
\<close>

type_synonym instant = int

named_theorems wire_simps \<open>wire spellings of the closed vocabularies\<close>
named_theorems gate_simps \<open>characterisations of the decision procedures\<close>

subsection \<open>Results\<close>

definition res_bind :: "'e + 'a \<Rightarrow> ('a \<Rightarrow> 'e + 'b) \<Rightarrow> 'e + 'b" where
  \<comment> \<open>the \<open>?\<close> operator: an error returns at once\<close>
  "res_bind r f = (case r of Inl e \<Rightarrow> Inl e | Inr a \<Rightarrow> f a)"

lemma res_bind_simps [simp]:
  "res_bind (Inl e) f = Inl e" "res_bind (Inr a) f = f a"
  by (simp_all add: res_bind_def)

lemma res_bind_Inr_iff: "res_bind r f = Inr b \<longleftrightarrow> (\<exists>a. r = Inr a \<and> f a = Inr b)"
  by (cases r) auto

lemma res_bind_Inl_iff:
  "res_bind r f = Inl e \<longleftrightarrow> r = Inl e \<or> (\<exists>a. r = Inr a \<and> f a = Inl e)"
  by (cases r) auto

fun first_error :: "('a \<Rightarrow> 'e option) \<Rightarrow> 'a list \<Rightarrow> 'e option" where
  \<comment> \<open>a \<open>for\<close> loop whose body is an early error return\<close>
  "first_error f [] = None"
| "first_error f (x # xs) = (case f x of Some e \<Rightarrow> Some e | None \<Rightarrow> first_error f xs)"

lemma first_error_None: "first_error f xs = None \<longleftrightarrow> (\<forall>x\<in>set xs. f x = None)"
  by (induction xs) (auto split: option.splits)

lemma first_error_Some: "first_error f xs = Some e \<Longrightarrow> \<exists>x\<in>set xs. f x = Some e"
  by (induction xs) (auto split: option.splits)

definition check_all :: "('a \<Rightarrow> 'e option) \<Rightarrow> 'a list \<Rightarrow> 'e + unit" where
  \<comment> \<open>such a loop as a statement of a fallible function\<close>
  "check_all f xs = (case first_error f xs of Some e \<Rightarrow> Inl e | None \<Rightarrow> Inr ())"

lemma check_all_Inr [simp]: "check_all f xs = Inr u \<longleftrightarrow> (\<forall>x\<in>set xs. f x = None)"
  using first_error_None[of f xs] by (auto simp: check_all_def split: option.splits)

lemma check_all_Inl: "check_all f xs = Inl e \<Longrightarrow> \<exists>x\<in>set xs. f x = Some e"
  by (auto simp: check_all_def dest: first_error_Some split: option.splits)

subsection \<open>Strings\<close>

fun strip_prefix :: "string \<Rightarrow> string \<Rightarrow> string option" where
  "strip_prefix [] s = Some s"
| "strip_prefix (p # ps) [] = None"
| "strip_prefix (p # ps) (c # cs) = (if p = c then strip_prefix ps cs else None)"

definition starts_with :: "string \<Rightarrow> string \<Rightarrow> bool" where
  "starts_with p s \<longleftrightarrow> strip_prefix p s \<noteq> None"

definition strip_suffix :: "string \<Rightarrow> string \<Rightarrow> string option" where
  "strip_suffix p s = map_option rev (strip_prefix (rev p) (rev s))"

definition ends_with :: "string \<Rightarrow> string \<Rightarrow> bool" where
  "ends_with p s \<longleftrightarrow> strip_suffix p s \<noteq> None"

lemma strip_prefix_Some_iff: "strip_prefix p s = Some r \<longleftrightarrow> s = p @ r"
  by (induction p s rule: strip_prefix.induct) auto

lemma strip_prefix_append [simp]: "strip_prefix p (p @ r) = Some r"
  by (simp add: strip_prefix_Some_iff)

lemma starts_with_iff: "starts_with p s \<longleftrightarrow> (\<exists>r. s = p @ r)"
  by (auto simp: starts_with_def strip_prefix_Some_iff)

lemma strip_suffix_Some_iff: "strip_suffix p s = Some r \<longleftrightarrow> s = r @ p"
proof -
  have "strip_suffix p s = Some r \<longleftrightarrow> rev s = rev p @ rev r"
    by (auto simp: strip_suffix_def strip_prefix_Some_iff)
  also have "\<dots> \<longleftrightarrow> s = r @ p"
    by (metis rev_append rev_rev_ident)
  finally show ?thesis .
qed

lemma ends_with_iff: "ends_with p s \<longleftrightarrow> (\<exists>r. s = r @ p)"
  by (auto simp: ends_with_def strip_suffix_Some_iff)

fun split_once :: "string \<Rightarrow> string \<Rightarrow> (string \<times> string) option" where
  \<comment> \<open>\<open>str::split_once\<close>: cut at the first occurrence of the separator\<close>
  "split_once sep [] = (if sep = [] then Some ([], []) else None)"
| "split_once sep (c # cs) =
     (case strip_prefix sep (c # cs) of
        Some r \<Rightarrow> Some ([], r)
      | None \<Rightarrow> map_option (\<lambda>(a, b). (c # a, b)) (split_once sep cs))"

lemma split_once_sound: "split_once sep s = Some (a, b) \<Longrightarrow> s = a @ sep @ b"
  by (induction sep s arbitrary: a rule: split_once.induct)
     (auto simp: strip_prefix_Some_iff split: if_splits option.splits)

lemma split_once_char_absent: "split_once [x] s = Some (a, b) \<Longrightarrow> x \<notin> set a"
  by (induction "[x]" s arbitrary: a rule: split_once.induct)
     (auto split: if_splits option.splits)

lemma split_once_char_first [simp]:
  "x \<notin> set a \<Longrightarrow> split_once [x] (a @ x # b) = Some (a, b)"
  by (induction a) auto

lemma split_once_char_None: "split_once [x] s = None \<longleftrightarrow> x \<notin> set s"
  by (induction "[x]" s rule: split_once.induct) auto

fun join_with :: "string \<Rightarrow> string list \<Rightarrow> string" where
  "join_with sep [] = []"
| "join_with sep [x] = x"
| "join_with sep (x # y # ys) = x @ sep @ join_with sep (y # ys)"

fun split_on :: "char \<Rightarrow> string \<Rightarrow> string list" where
  \<comment> \<open>\<open>split(c)\<close>: the pieces between the separators, one more than there are separators\<close>
  "split_on x [] = [[]]"
| "split_on x (c # cs) =
     (if c = x then [] # split_on x cs
      else (case split_on x cs of [] \<Rightarrow> [[c]] | p # ps \<Rightarrow> (c # p) # ps))"

lemma split_on_nonempty [simp]: "split_on x s \<noteq> []"
  by (induction s) (auto split: list.splits)

lemma split_on_append:
  "x \<notin> set l \<Longrightarrow> split_on x (l @ x # s) = l # split_on x s"
  by (induction l) auto

lemma split_on_sep: "split_on x (a @ x # s) = split_on x a @ split_on x s"
  by (induction a) (auto split: list.splits)

lemma split_on_free: "x \<notin> set l \<Longrightarrow> split_on x l = [l]"
  by (induction l) auto

definition ascii_lower :: "char \<Rightarrow> char" where
  "ascii_lower c =
     (let n = of_char c :: nat in if 65 \<le> n \<and> n \<le> 90 then char_of (n + 32) else c)"

definition eq_ignore_ascii_case :: "string \<Rightarrow> string \<Rightarrow> bool" where
  "eq_ignore_ascii_case a b \<longleftrightarrow> map ascii_lower a = map ascii_lower b"

definition is_digit_char :: "char \<Rightarrow> bool" where
  "is_digit_char c \<longleftrightarrow> (let n = of_char c :: nat in 48 \<le> n \<and> n \<le> 57)"

definition is_lower_hex_char :: "char \<Rightarrow> bool" where
  \<comment> \<open>\<open>is_ascii_hexdigit() && !is_ascii_uppercase()\<close>\<close>
  "is_lower_hex_char c \<longleftrightarrow>
     (let n = of_char c :: nat in (48 \<le> n \<and> n \<le> 57) \<or> (97 \<le> n \<and> n \<le> 102))"

fun show_nat :: "nat \<Rightarrow> string" where
  "show_nat n = (if n < 10 then [char_of (48 + n)]
                 else show_nat (n div 10) @ [char_of (48 + n mod 10)])"

declare show_nat.simps [simp del]

lemma show_nat_nonempty [simp]: "show_nat n \<noteq> []"
  by (subst show_nat.simps) simp

lemma show_nat_digits: "\<forall>c\<in>set (show_nat n). is_digit_char c"
proof (induction n rule: show_nat.induct)
  case (1 n)
  have d: "is_digit_char (char_of (48 + k))" if "k < 10" for k :: nat
    using that by (simp add: is_digit_char_def Let_def of_char_of)
  show ?case
    using 1 d by (subst show_nat.simps) auto
qed

lemma show_nat_no_char: "\<not> is_digit_char c \<Longrightarrow> c \<notin> set (show_nat n)"
  using show_nat_digits by blast

fun digits_val :: "string \<Rightarrow> nat" where
  \<comment> \<open>reads a decimal back, last digit first\<close>
  "digits_val [] = 0"
| "digits_val (c # cs) = (of_char c - 48) + 10 * digits_val cs"

lemma digits_val_show_nat: "digits_val (rev (show_nat n)) = n"
proof (induction n rule: show_nat.induct)
  case (1 n)
  show ?case
    using 1 by (subst show_nat.simps) (auto simp: of_char_of)
qed

lemma show_nat_inj: "show_nat a = show_nat b \<longleftrightarrow> a = b"
  by (metis digits_val_show_nat)

subsection \<open>Paths\<close>

text \<open>
  \<open>Path\<close> values compare by their components, not by their bytes: repeated separators, a
  trailing separator and inner dot components do not count. \<open>path_components\<close> is that view
  on Unix: whether the path is rooted, and its components (a leading dot of a relative path is
  kept).
\<close>

definition path_is_absolute :: "string \<Rightarrow> bool" where
  "path_is_absolute p \<longleftrightarrow> starts_with ''/'' p"

definition path_join :: "string \<Rightarrow> string \<Rightarrow> string" where
  \<comment> \<open>\<open>Path::join\<close> with a relative second path\<close>
  "path_join base p = (if base = [] \<or> ends_with ''/'' base then base @ p else base @ ''/'' @ p)"

definition path_components :: "string \<Rightarrow> bool \<times> string list" where
  "path_components p =
     (let rooted = starts_with ''/'' p;
          parts = filter (\<lambda>c. c \<noteq> []) (split_on CHR ''/'' p);
          lead = (if \<not> rooted \<and> (p = ''.'' \<or> starts_with ''./'' p) then [''.''] else [])
      in (rooted, lead @ filter (\<lambda>c. c \<noteq> ''.'') parts))"

definition path_eq :: "string \<Rightarrow> string \<Rightarrow> bool" where
  "path_eq p q \<longleftrightarrow> path_components p = path_components q"

definition path_in :: "string \<Rightarrow> string list \<Rightarrow> bool" where
  \<comment> \<open>membership in a \<open>BTreeSet<PathBuf>\<close>, held in insertion order\<close>
  "path_in p ps \<longleftrightarrow> list_ex (path_eq p) ps"

lemma path_eq_refl [simp]: "path_eq p p"
  by (simp add: path_eq_def)

lemma path_eq_sym: "path_eq p q \<longleftrightarrow> path_eq q p"
  by (auto simp: path_eq_def)

lemma path_in_iff: "path_in p ps \<longleftrightarrow> (\<exists>q\<in>set ps. path_eq p q)"
  by (simp add: path_in_def list_ex_iff)

subsection \<open>Ordered sets\<close>

definition bset :: "'a::linorder list \<Rightarrow> 'a list" where
  \<comment> \<open>\<open>collect::<BTreeSet<_>>()\<close>, in iteration order\<close>
  "bset xs = sort (remdups xs)"

lemma bset_set [simp]: "set (bset xs) = set xs"
  by (simp add: bset_def)

lemma bset_sorted [simp]: "sorted (bset xs)" and bset_distinct [simp]: "distinct (bset xs)"
  by (simp_all add: bset_def)

lemma bset_Nil_iff [simp]: "bset xs = [] \<longleftrightarrow> xs = []"
  by (metis bset_set set_empty)

lemma bset_eq_iff: "bset xs = bset ys \<longleftrightarrow> set xs = set ys"
  by (metis bset_distinct bset_set bset_sorted sorted_distinct_set_unique)

subsection \<open>Ordered maps\<close>

text \<open>
  The contract of \<open>BTreeMap\<close> the components use: lookup after insert and remove, and a key
  list that is strictly increasing and lists exactly the keys bound.
\<close>

locale ordered_map =
  fixes empty :: "'m"
    and get :: "'m \<Rightarrow> 'k::linorder \<Rightarrow> 'v option"
    and put :: "'k \<Rightarrow> 'v \<Rightarrow> 'm \<Rightarrow> 'm"
    and del :: "'k \<Rightarrow> 'm \<Rightarrow> 'm"
    and keys :: "'m \<Rightarrow> 'k list"
    and ok :: "'m \<Rightarrow> bool"
  assumes get_empty: "get empty k = None"
    and get_put: "get (put k v m) k' = (if k' = k then Some v else get m k')"
    and get_del: "get (del k m) k' = (if k' = k then None else get m k')"
    and ok_empty: "ok empty"
    and ok_put: "ok m \<Longrightarrow> ok (put k v m)"
    and ok_del: "ok m \<Longrightarrow> ok (del k m)"
    and keys_get: "set (keys m) = {k. get m k \<noteq> None}"
    and keys_strict: "ok m \<Longrightarrow> sorted_wrt (<) (keys m)"
begin

lemma keys_put: "set (keys (put k v m)) = insert k (set (keys m))"
  by (auto simp: keys_get get_put)

lemma keys_del: "set (keys (del k m)) = set (keys m) - {k}"
  by (auto simp: keys_get get_del)

lemma in_keys: "k \<in> set (keys m) \<longleftrightarrow> (\<exists>v. get m k = Some v)"
  by (simp add: keys_get)

lemma keys_unique:
  assumes "ok m" "ok m'" "\<And>k. get m k = None \<longleftrightarrow> get m' k = None"
  shows "keys m = keys m'"
proof -
  have "set (keys m) = set (keys m')"
    using assms(3) by (simp add: keys_get)
  moreover have "sorted (keys m) \<and> distinct (keys m)" "sorted (keys m') \<and> distinct (keys m')"
    using keys_strict[OF assms(1)] keys_strict[OF assms(2)]
    by (simp_all add: strict_sorted_iff)
  ultimately show ?thesis
    by (simp add: sorted_distinct_set_unique)
qed

lemma put_commutes:
  "k \<noteq> k' \<Longrightarrow> get (put k v (put k' v' m)) j = get (put k' v' (put k v m)) j"
  by (simp add: get_put)

end

type_synonym ('k, 'v) bmap = "('k \<times> 'v) list"

fun bm_put :: "'k::linorder \<Rightarrow> 'v \<Rightarrow> ('k, 'v) bmap \<Rightarrow> ('k, 'v) bmap" where
  "bm_put k v [] = [(k, v)]"
| "bm_put k v (e # m) =
     (if k < fst e then (k, v) # e # m
      else if k = fst e then (k, v) # m
      else e # bm_put k v m)"

definition bm_del :: "'k \<Rightarrow> ('k, 'v) bmap \<Rightarrow> ('k, 'v) bmap" where
  "bm_del k m = filter (\<lambda>e. fst e \<noteq> k) m"

abbreviation bm_keys :: "('k, 'v) bmap \<Rightarrow> 'k list" where
  "bm_keys m \<equiv> map fst m"

abbreviation bm_values :: "('k, 'v) bmap \<Rightarrow> 'v list" where
  "bm_values m \<equiv> map snd m"

definition bm_ok :: "('k::linorder, 'v) bmap \<Rightarrow> bool" where
  "bm_ok m \<longleftrightarrow> sorted_wrt (<) (bm_keys m)"

definition bm_alter :: "'k::linorder \<Rightarrow> 'v \<Rightarrow> ('v \<Rightarrow> 'v) \<Rightarrow> ('k, 'v) bmap \<Rightarrow> ('k, 'v) bmap" where
  \<comment> \<open>\<open>entry(k).or_insert(d)\<close>, then an update in place\<close>
  "bm_alter k d f m = bm_put k (f (case map_of m k of None \<Rightarrow> d | Some v \<Rightarrow> v)) m"

lemma map_of_bm_put [simp]:
  "map_of (bm_put k v m) k' = (if k' = k then Some v else map_of m k')"
  by (induction m) auto

lemma keys_bm_put [simp]: "set (bm_keys (bm_put k v m)) = insert k (set (bm_keys m))"
  by (induction m) auto

lemma set_bm_put: "e \<in> set (bm_put k v m) \<Longrightarrow> e = (k, v) \<or> e \<in> set m"
  by (induction m) (auto split: if_splits)

lemma map_of_bm_del: "map_of (bm_del k m) k' = (if k' = k then None else map_of m k')"
  by (induction m) (auto simp: bm_del_def)

lemma bm_ok_put [simp]: "bm_ok m \<Longrightarrow> bm_ok (bm_put k v m)"
proof (induction m)
  case (Cons e m)
  have "fst ` set (bm_put k v m) = insert k (fst ` set m)"
    using keys_bm_put[of k v m] by simp
  with Cons show ?case
    by (auto simp: bm_ok_def)
qed (simp add: bm_ok_def)

lemma bm_ok_del: "bm_ok m \<Longrightarrow> bm_ok (bm_del k m)"
  by (induction m) (auto simp: bm_ok_def bm_del_def)

lemma bm_ok_Nil [simp]: "bm_ok []"
  by (simp add: bm_ok_def)


interpretation bm: ordered_map
    "[] :: ('k::linorder, 'v) bmap" map_of bm_put bm_del "map fst" bm_ok
proof unfold_locales
  fix m :: "('k::linorder, 'v) bmap"
  show "set (map fst m) = {k. map_of m k \<noteq> None}"
    by (auto simp: map_of_eq_None_iff image_iff)
qed (simp_all add: map_of_bm_del bm_ok_del, simp add: bm_ok_def)

lemma bm_ok_alter [simp]: "bm_ok m \<Longrightarrow> bm_ok (bm_alter k d f m)"
  by (simp add: bm_alter_def)

lemma map_of_bm_alter:
  "map_of (bm_alter k d f m) k' =
     (if k' = k then Some (f (case map_of m k of None \<Rightarrow> d | Some v \<Rightarrow> v)) else map_of m k')"
  by (simp add: bm_alter_def)

lemma bm_ok_distinct: "bm_ok m \<Longrightarrow> distinct (map fst m)"
  by (simp add: bm_ok_def strict_sorted_iff)

lemma bm_ok_in_map_of: "bm_ok m \<Longrightarrow> (k, v) \<in> set m \<longleftrightarrow> map_of m k = Some v"
  by (simp add: bm_ok_distinct)

lemma bm_rebuild: "distinct (map fst m) \<Longrightarrow> map (\<lambda>k. (k, the (map_of m k))) (map fst m) = m"
  unfolding map_map by (rule map_idI) auto

lemma bm_ext:
  assumes "bm_ok m" "bm_ok m'" "\<And>k. map_of m k = map_of m' k"
  shows "m = m'"
proof -
  have "map fst m = map fst m'"
    using assms by (intro bm.keys_unique) auto
  moreover have "map_of m = map_of m'"
    using assms(3) by blast
  ultimately show ?thesis
    using bm_rebuild[OF bm_ok_distinct[OF assms(1)]] bm_rebuild[OF bm_ok_distinct[OF assms(2)]]
    by simp
qed

definition bm_group :: "('a \<Rightarrow> 'k::linorder) \<Rightarrow> 'a list \<Rightarrow> ('k, 'a list) bmap" where
  \<comment> \<open>a loop of \<open>entry(key(x)).or_default().push(x)\<close>\<close>
  "bm_group key xs = fold (\<lambda>x. bm_alter (key x) [] (\<lambda>g. g @ [x])) xs []"

lemma map_of_fold_group:
  "map_of (fold (\<lambda>x. bm_alter (key x) [] (\<lambda>g. g @ [x])) xs m) k =
     (let g = filter (\<lambda>x. key x = k) xs in
      if g = [] then map_of m k
      else Some ((case map_of m k of None \<Rightarrow> [] | Some h \<Rightarrow> h) @ g))"
  by (induction xs arbitrary: m) (auto simp: map_of_bm_alter Let_def split: option.splits)

lemma map_of_bm_group:
  "map_of (bm_group key xs) k =
     (let g = filter (\<lambda>x. key x = k) xs in if g = [] then None else Some g)"
  by (simp add: bm_group_def map_of_fold_group Let_def)

lemma bm_ok_fold_alter:
  "bm_ok m \<Longrightarrow> bm_ok (fold (\<lambda>x. bm_alter (key x) d (f x)) xs m)"
  by (induction xs arbitrary: m) auto

lemma bm_ok_group [simp]: "bm_ok (bm_group key xs)"
  by (simp add: bm_group_def bm_ok_fold_alter[where f = "\<lambda>x g. g @ [x]"])

lemma in_bm_group: "(k, g) \<in> set (bm_group key xs) \<longleftrightarrow> g = filter (\<lambda>x. key x = k) xs \<and> g \<noteq> []"
  by (auto simp: bm_ok_in_map_of[OF bm_ok_group] map_of_bm_group Let_def)

subsection \<open>Sorting\<close>

lemma all_equal_replicate: "(\<And>x. x \<in> set xs \<Longrightarrow> x = a) \<Longrightarrow> xs = replicate (length xs) a"
  by (induction xs) auto

lemma sort_key_mset_cong:
  assumes m: "mset xs = mset ys"
    and inj: "\<And>x y. x \<in> set xs \<Longrightarrow> y \<in> set xs \<Longrightarrow> f x = f y \<Longrightarrow> x = y"
  shows "sort_key f xs = sort_key f ys"
proof -
  have part: "filter (\<lambda>y. f k = f y) xs = filter (\<lambda>y. f k = f y) ys" if "k \<in> set xs" for k
  proof -
    have set: "set xs = set ys"
      using m by (rule mset_eq_setD)
    have "length (filter (\<lambda>y. f k = f y) xs) = length (filter (\<lambda>y. f k = f y) ys)"
      using m by (metis mset_filter size_mset)
    moreover have "filter (\<lambda>y. f k = f y) xs = replicate (length (filter (\<lambda>y. f k = f y) xs)) k"
      using inj[OF _ that] by (intro all_equal_replicate) auto
    moreover have "filter (\<lambda>y. f k = f y) ys = replicate (length (filter (\<lambda>y. f k = f y) ys)) k"
      using inj[OF _ that] set by (intro all_equal_replicate) auto
    ultimately show ?thesis by metis
  qed
  show ?thesis
  proof (rule properties_for_sort_key)
    show "mset (sort_key f ys) = mset xs"
      using m by simp
    show "sorted (map f (sort_key f ys))" by simp
    fix k assume "k \<in> set (sort_key f ys)"
    then have "k \<in> set xs"
      using m by (metis mset_eq_setD set_sort)
    with part[of k] sort_key_stable[of f "f k" ys]
    show "filter (\<lambda>x. f k = f x) (sort_key f ys) = filter (\<lambda>x. f k = f x) xs"
      by (simp add: eq_commute[of "f k"])
  qed
qed

end
