(* ===== verification/Fingerprints.thy ===== *)
theory Fingerprints
  imports Prelude
begin

section \<open>Content hashes, fingerprints and dependency identities\<close>

text \<open>
  \<open>freshdag-core/src/ir/hash.rs\<close>, \<open>dependency/fingerprint.rs\<close> and the identity part of
  \<open>dependency/mod.rs\<close>: the wire forms \<open>algo:digest\<close>, \<open>kind:payload\<close> and
  \<open>scheme://key\<close>, their constructors with the code's validation, and their parsers. The
  lemmas say which strings parse, that printing inverts parsing, and what a parsed value is.
\<close>

subsection \<open>Content hashes\<close>

datatype hash_algo = Blake3 | Sha256

fun hash_algo_wire :: "hash_algo \<Rightarrow> string" where
  "hash_algo_wire Blake3 = ''blake3''"
| "hash_algo_wire Sha256 = ''sha256''"

fun hex_len :: "hash_algo \<Rightarrow> nat" where
  "hex_len Blake3 = 64"
| "hex_len Sha256 = 64"

record hash =
  algo :: hash_algo
  digest_hex :: string

datatype hash_parse_error = MalformedTag string | UnknownAlgo string | BadDigest string

fun hash_parse_error_display :: "hash_parse_error \<Rightarrow> string" where
  "hash_parse_error_display (MalformedTag s) = ''hash string missing `algo:` prefix: '' @ s"
| "hash_parse_error_display (UnknownAlgo s) = ''unknown hash algorithm: '' @ s"
| "hash_parse_error_display (BadDigest s) = ''bad digest: '' @ s"

definition hash_algo_parse :: "string \<Rightarrow> hash_parse_error + hash_algo" where
  "hash_algo_parse s =
     (if s = ''blake3'' then Inr Blake3
      else if s = ''sha256'' then Inr Sha256
      else Inl (UnknownAlgo s))"

definition validate_digest :: "hash_algo \<Rightarrow> string \<Rightarrow> hash_parse_error option" where
  "validate_digest a d =
     (if length d \<noteq> hex_len a
      then Some (BadDigest (''expected '' @ show_nat (hex_len a) @ '' hex chars for ''
                            @ hash_algo_wire a @ '', got '' @ show_nat (length d)))
      else if \<not> list_all is_lower_hex_char d
      then Some (BadDigest ''digest must be lowercase hex'')
      else None)"

definition hash_new :: "hash_algo \<Rightarrow> string \<Rightarrow> hash_parse_error + hash" where
  "hash_new a d =
     (case validate_digest a d of
        Some e \<Rightarrow> Inl e
      | None \<Rightarrow> Inr \<lparr>algo = a, digest_hex = d\<rparr>)"

definition hash_display :: "hash \<Rightarrow> string" where
  "hash_display h = hash_algo_wire (algo h) @ '':'' @ digest_hex h"

definition hash_parse :: "string \<Rightarrow> hash_parse_error + hash" where
  "hash_parse s =
     (case split_once '':'' s of
        None \<Rightarrow> Inl (MalformedTag s)
      | Some (a, digest) \<Rightarrow> res_bind (hash_algo_parse a) (\<lambda>al. hash_new al digest))"

definition hash_wf :: "hash \<Rightarrow> bool" where
  \<comment> \<open>the invariant \<open>Hash\<close> documents for its \<open>digest_hex\<close>\<close>
  "hash_wf h \<longleftrightarrow> length (digest_hex h) = hex_len (algo h) \<and> list_all is_lower_hex_char (digest_hex h)"

definition zero_hash :: hash where
  "zero_hash = \<lparr>algo = Blake3, digest_hex = replicate 64 (CHR ''0'')\<rparr>"

lemma hash_algo_parse_Inr: "hash_algo_parse s = Inr a \<longleftrightarrow> s = hash_algo_wire a"
  by (cases a) (auto simp: hash_algo_parse_def)

lemma hash_new_Inr: "hash_new a d = Inr h \<longleftrightarrow> h = \<lparr>algo = a, digest_hex = d\<rparr> \<and> hash_wf h"
  by (auto simp: hash_new_def validate_digest_def hash_wf_def)

lemma colon_notin_algo: "CHR '':'' \<notin> set (hash_algo_wire a)"
  by (cases a) auto

lemma zero_hash_wf: "hash_wf zero_hash"
  by (simp add: hash_wf_def zero_hash_def is_lower_hex_char_def list_all_length)

lemma hash_parse_Inr: "hash_parse s = Inr h \<longleftrightarrow> s = hash_display h \<and> hash_wf h"
proof
  assume "hash_parse s = Inr h"
  then obtain a d al where s: "split_once '':'' s = Some (a, d)"
      and "hash_algo_parse a = Inr al" "hash_new al d = Inr h"
    by (auto simp: hash_parse_def res_bind_Inr_iff split: option.splits)
  then show "s = hash_display h \<and> hash_wf h"
    using split_once_sound[OF s] by (auto simp: hash_algo_parse_Inr hash_new_Inr hash_display_def)
next
  assume "s = hash_display h \<and> hash_wf h"
  then show "hash_parse s = Inr h"
    by (cases h) (auto simp: hash_parse_def hash_display_def colon_notin_algo hash_algo_parse_Inr
        hash_new_Inr res_bind_Inr_iff)
qed

text \<open>The parser accepts exactly the printed forms of the well-formed hashes, and returns the
  hash printed; so printing after parsing gives the input back, and two strings never parse to
  the same hash.\<close>

theorem hash_parse_iff: "hash_parse s = Inr h \<longleftrightarrow> s = hash_display h \<and> hash_wf h"
  by (rule hash_parse_Inr)

lemma hash_display_inj: "hash_wf h \<Longrightarrow> hash_wf h' \<Longrightarrow> hash_display h = hash_display h' \<longleftrightarrow> h = h'"
proof -
  assume "hash_wf h" "hash_wf h'"
  then have "length (digest_hex h) = 64" "length (digest_hex h') = 64"
    by (cases "algo h"; cases "algo h'"; simp add: hash_wf_def)+
  then show ?thesis
    by (cases "algo h"; cases "algo h'") (auto simp: hash_display_def intro: hash.equality)
qed

subsection \<open>Fingerprints\<close>

datatype fingerprint_kind = ContentHash | Version | Etag | Mtime | Custom

fun as_wire_prefix :: "fingerprint_kind \<Rightarrow> string" where
  "as_wire_prefix ContentHash = ''blake3''"
| "as_wire_prefix Version = ''version''"
| "as_wire_prefix Etag = ''etag''"
| "as_wire_prefix Mtime = ''mtime''"
| "as_wire_prefix Custom = ''custom''"

record fingerprint =
  fp_kind :: fingerprint_kind
  fp_payload :: string

definition fingerprint_new :: "fingerprint_kind \<Rightarrow> string \<Rightarrow> fingerprint option" where
  \<comment> \<open>\<open>None\<close> is the panic of the \<open>assert!\<close>\<close>
  "fingerprint_new k p = (if p = [] then None else Some \<lparr>fp_kind = k, fp_payload = p\<rparr>)"

definition fingerprint_display :: "fingerprint \<Rightarrow> string" where
  "fingerprint_display f =
     (case fp_kind f of
        ContentHash \<Rightarrow> fp_payload f
      | k \<Rightarrow> as_wire_prefix k @ '':'' @ fp_payload f)"

datatype fingerprint_parse_error = FpEmpty | FpMalformed string | UnknownIsNotFingerprint

fun fingerprint_parse_error_display :: "fingerprint_parse_error \<Rightarrow> string" where
  "fingerprint_parse_error_display FpEmpty =
     ''empty fingerprint (absence must be Option::None, not empty payload; invariant #7)''"
| "fingerprint_parse_error_display (FpMalformed s) =
     ''malformed fingerprint (expected `<kind>:<payload>`): '' @ s"
| "fingerprint_parse_error_display UnknownIsNotFingerprint =
     ''`unknown` is not a valid fingerprint; use Option::None to represent unknown state''"

definition fingerprint_parse :: "string \<Rightarrow> fingerprint_parse_error + fingerprint" where
  "fingerprint_parse s =
     (if s = [] then Inl FpEmpty
      else case split_once '':'' s of
        None \<Rightarrow> Inl (FpMalformed s)
      | Some (prefix, rest) \<Rightarrow>
          if prefix = [] then Inl (FpMalformed s)
          else if rest = [] then Inl FpEmpty
          else if eq_ignore_ascii_case prefix ''unknown'' then Inl UnknownIsNotFingerprint
          else Inr
            (if prefix = ''blake3'' \<or> prefix = ''sha256''
             then \<lparr>fp_kind = ContentHash, fp_payload = s\<rparr>
             else if prefix = ''version'' then \<lparr>fp_kind = Version, fp_payload = rest\<rparr>
             else if prefix = ''etag'' then \<lparr>fp_kind = Etag, fp_payload = rest\<rparr>
             else if prefix = ''mtime'' then \<lparr>fp_kind = Mtime, fp_payload = rest\<rparr>
             else \<lparr>fp_kind = Custom, fp_payload = rest\<rparr>))"

definition fingerprint_wf :: "fingerprint \<Rightarrow> bool" where
  \<comment> \<open>non-empty payload; a content hash carries its own algorithm prefix and a digest\<close>
  "fingerprint_wf f \<longleftrightarrow> fp_payload f \<noteq> [] \<and>
     (fp_kind f = ContentHash \<longrightarrow>
        strip_prefix ''blake3:'' (fp_payload f) \<notin> {None, Some []} \<or>
        strip_prefix ''sha256:'' (fp_payload f) \<notin> {None, Some []})"

lemma split_blake3: "split_once '':'' (''blake3:'' @ r) = Some (''blake3'', r)"
  and split_sha256: "split_once '':'' (''sha256:'' @ r) = Some (''sha256'', r)"
  by simp_all

lemma not_unknown_ci:
  "\<not> eq_ignore_ascii_case ''blake3'' ''unknown''" "\<not> eq_ignore_ascii_case ''sha256'' ''unknown''"
  "\<not> eq_ignore_ascii_case ''version'' ''unknown''" "\<not> eq_ignore_ascii_case ''etag'' ''unknown''"
  "\<not> eq_ignore_ascii_case ''mtime'' ''unknown''" "\<not> eq_ignore_ascii_case ''custom'' ''unknown''"
  by (simp_all add: eq_ignore_ascii_case_def ascii_lower_def)

lemma fingerprint_parse_wf: "fingerprint_parse s = Inr f \<Longrightarrow> fingerprint_wf f"
  by (auto simp: fingerprint_parse_def fingerprint_wf_def dest!: split_once_sound
      split: if_splits option.splits)

lemma strip_prefix_nonempty_iff:
  "strip_prefix p s \<notin> {None, Some []} \<longleftrightarrow> (\<exists>c cs. s = p @ c # cs)"
  by (cases "strip_prefix p s")
     (auto simp: strip_prefix_Some_iff neq_Nil_conv dest: strip_prefix_Some_iff[THEN iffD1])

lemma fingerprint_parse_display:
  assumes "fingerprint_wf f"
  shows "fingerprint_parse (fingerprint_display f) = Inr f"
proof (cases "fp_kind f = ContentHash")
  case True
  with assms obtain c cs where
    "fp_payload f = ''blake3:'' @ c # cs \<or> fp_payload f = ''sha256:'' @ c # cs"
    unfolding fingerprint_wf_def strip_prefix_nonempty_iff by blast
  with True show ?thesis
    by (cases f) (auto simp: fingerprint_parse_def fingerprint_display_def not_unknown_ci)
next
  case False
  with assms show ?thesis
    by (cases "fp_kind f"; cases f)
       (auto simp: fingerprint_parse_def fingerprint_wf_def fingerprint_display_def not_unknown_ci)
qed

text \<open>The fingerprints that survive printing and parsing are exactly the well-formed ones: a
  non-empty payload, and for a content hash a payload with its algorithm prefix. With
  \<open>fingerprint_parse_wf\<close> this covers every fingerprint that was itself parsed.\<close>

theorem fingerprint_roundtrip:
  "fingerprint_parse (fingerprint_display f) = Inr f \<longleftrightarrow> fingerprint_wf f"
  using fingerprint_parse_display fingerprint_parse_wf by blast

lemma fingerprint_parse_custom:
  assumes "p \<noteq> []" "CHR '':'' \<notin> set p" "r \<noteq> []" "\<not> eq_ignore_ascii_case p ''unknown''"
    "p \<notin> {''blake3'', ''sha256'', ''version'', ''etag'', ''mtime''}"
  shows "fingerprint_parse (p @ '':'' @ r) = Inr \<lparr>fp_kind = Custom, fp_payload = r\<rparr>"
  using assms by (auto simp: fingerprint_parse_def)

text \<open>A prefix the parser does not know is dropped: any two strings \<open>p:r\<close> and \<open>q:r\<close> whose
  prefixes are outside the five known ones parse to the same fingerprint, although their
  wire forms differ.\<close>

theorem fingerprint_custom_prefix_lost:
  assumes "p \<noteq> []" "CHR '':'' \<notin> set p" "\<not> eq_ignore_ascii_case p ''unknown''"
    "p \<notin> {''blake3'', ''sha256'', ''version'', ''etag'', ''mtime''}"
    and "q \<noteq> []" "CHR '':'' \<notin> set q" "\<not> eq_ignore_ascii_case q ''unknown''"
    "q \<notin> {''blake3'', ''sha256'', ''version'', ''etag'', ''mtime''}"
    and "r \<noteq> []"
  shows "fingerprint_parse (p @ '':'' @ r) = fingerprint_parse (q @ '':'' @ r) \<and>
    fingerprint_parse (p @ '':'' @ r) = Inr \<lparr>fp_kind = Custom, fp_payload = r\<rparr>"
  using assms fingerprint_parse_custom[of p r] fingerprint_parse_custom[of q r] by simp

theorem fingerprint_custom_prefix_lost_witness:
  "fingerprint_parse (''rowhash'' @ '':'' @ ''42'') = fingerprint_parse (''serial'' @ '':'' @ ''42'') \<and>
   fingerprint_parse (''rowhash'' @ '':'' @ ''42'') = Inr \<lparr>fp_kind = Custom, fp_payload = ''42''\<rparr>"
  by (rule fingerprint_custom_prefix_lost)
     (simp_all add: eq_ignore_ascii_case_def ascii_lower_def)

lemma fingerprint_parse_unknown:
  assumes "eq_ignore_ascii_case p ''unknown''"
  shows "\<exists>e. fingerprint_parse (p @ '':'' @ r) = Inl e"
proof -
  have "length p = 7"
    using arg_cong[OF assms[unfolded eq_ignore_ascii_case_def], of length] by simp
  moreover have "CHR '':'' \<notin> set p"
  proof
    assume "CHR '':'' \<in> set p"
    then have "ascii_lower (CHR '':'') \<in> set (map ascii_lower p)"
      by simp
    moreover have "ascii_lower (CHR '':'') = CHR '':''"
      "map ascii_lower ''unknown'' = ''unknown''"
      by (simp_all add: ascii_lower_def)
    ultimately show False
      using assms unfolding eq_ignore_ascii_case_def by simp
  qed
  ultimately show ?thesis
    using assms by (auto simp: fingerprint_parse_def)
qed

subsection \<open>Dependency identities\<close>

type_synonym dependency_id = string

definition from_scheme_key :: "string \<Rightarrow> string \<Rightarrow> dependency_id" where
  "from_scheme_key scheme key =
     (if starts_with (scheme @ ''://'') key \<or> starts_with (scheme @ '':'') key
      then key
      else scheme @ ''://'' @ key)"

lemma from_scheme_key_prefix: "starts_with (scheme @ '':'') (from_scheme_key scheme key)"
  by (auto simp: from_scheme_key_def starts_with_iff)

lemma from_scheme_key_idem [simp]:
  "from_scheme_key scheme (from_scheme_key scheme key) = from_scheme_key scheme key"
  using from_scheme_key_prefix[of scheme key] by (simp add: from_scheme_key_def[of scheme "from_scheme_key scheme key"])

lemma from_scheme_key_slashes [simp]:
  "from_scheme_key scheme (scheme @ ''://'' @ path) = scheme @ ''://'' @ path"
  by (auto simp: from_scheme_key_def starts_with_iff)

end
