(* ===== verification/Validity.thy ===== *)
theory Validity
  imports Fingerprints
begin

section \<open>Trust classes, validity statuses and their aggregation\<close>

text \<open>
  \<open>freshdag-core/src/dependency/trust.rs\<close>, \<open>dependency/validity.rs\<close>,
  \<open>dependency/mod.rs\<close>, \<open>artifact/mod.rs\<close> and \<open>probe.rs\<close>. Both \<open>TrustClass\<close> and
  \<open>ValidityStatus\<close> are ordered by their rank, so they are instances of \<open>linorder\<close>; the
  locale \<open>strict_min\<close> states what an aggregation by strict minimum promises and
  \<open>edge_min\<close> interprets it on the edge verdicts. \<open>aggregate\<close> is the code's fold; the lemmas show that it
  returns the minimum of the edge contributions and exactly the reasons the contract lists.
\<close>

subsection \<open>Trust classes\<close>

datatype trust_class = Exact | Versioned | Heuristic | Volatile

fun trust_rank :: "trust_class \<Rightarrow> nat" where
  "trust_rank Exact = 4"
| "trust_rank Versioned = 3"
| "trust_rank Heuristic = 2"
| "trust_rank Volatile = 1"

lemma trust_rank_inj: "trust_rank a = trust_rank b \<longleftrightarrow> a = b"
  by (cases a; cases b) auto

instantiation trust_class :: linorder
begin

definition less_eq_trust_class :: "trust_class \<Rightarrow> trust_class \<Rightarrow> bool" where
  "less_eq_trust_class a b \<longleftrightarrow> trust_rank a \<le> trust_rank b"

definition less_trust_class :: "trust_class \<Rightarrow> trust_class \<Rightarrow> bool" where
  "less_trust_class a b \<longleftrightarrow> trust_rank a < trust_rank b"

instance
  by standard (auto simp: less_eq_trust_class_def less_trust_class_def trust_rank_inj)

end

definition is_escalation_over :: "trust_class \<Rightarrow> trust_class \<Rightarrow> bool" where
  "is_escalation_over self previous \<longleftrightarrow> trust_rank self > trust_rank previous"

definition is_demotion_from :: "trust_class \<Rightarrow> trust_class \<Rightarrow> bool" where
  "is_demotion_from self previous \<longleftrightarrow> trust_rank self < trust_rank previous"

lemma trust_trichotomy:
  "is_escalation_over a b \<longleftrightarrow> b < a" "is_demotion_from a b \<longleftrightarrow> a < b"
  by (simp_all add: is_escalation_over_def is_demotion_from_def less_trust_class_def)

fun trust_wire :: "trust_class \<Rightarrow> string" where
  "trust_wire Exact = ''exact''"
| "trust_wire Versioned = ''versioned''"
| "trust_wire Heuristic = ''heuristic''"
| "trust_wire Volatile = ''volatile''"

subsection \<open>Statuses, verdicts and reason codes\<close>

datatype validity_status = Valid | LikelyValid | Stale | UnknownStatus

fun status_rank :: "validity_status \<Rightarrow> nat" where
  "status_rank Stale = 0"
| "status_rank UnknownStatus = 1"
| "status_rank LikelyValid = 2"
| "status_rank Valid = 3"

lemma status_rank_inj: "status_rank a = status_rank b \<longleftrightarrow> a = b"
  by (cases a; cases b) auto

instantiation validity_status :: linorder
begin

definition less_eq_validity_status :: "validity_status \<Rightarrow> validity_status \<Rightarrow> bool" where
  "less_eq_validity_status a b \<longleftrightarrow> status_rank a \<le> status_rank b"

definition less_validity_status :: "validity_status \<Rightarrow> validity_status \<Rightarrow> bool" where
  "less_validity_status a b \<longleftrightarrow> status_rank a < status_rank b"

instance
  by standard (auto simp: less_eq_validity_status_def less_validity_status_def status_rank_inj)

end

lemma status_le_Valid [simp]: "s \<le> Valid"
  by (cases s) (simp_all add: less_eq_validity_status_def)

lemma Valid_le_iff [simp]: "Valid \<le> s \<longleftrightarrow> s = Valid"
  by (cases s) (simp_all add: less_eq_validity_status_def)

lemma Stale_le [simp]: "Stale \<le> s"
  by (simp add: less_eq_validity_status_def)

lemma le_Stale_iff [simp]: "s \<le> Stale \<longleftrightarrow> s = Stale"
  by (cases s) (simp_all add: less_eq_validity_status_def)

datatype edge_verdict =
    MatchVerdict (recorded_trust_class: trust_class) (observed_trust: trust_class)
      (observed_fp: fingerprint)
  | DriftVerdict
  | UnknownVerdict

definition matched :: "trust_class \<Rightarrow> fingerprint \<Rightarrow> edge_verdict" where
  "matched c fp = MatchVerdict c c fp"

fun to_status :: "edge_verdict \<Rightarrow> validity_status" where
  "to_status (MatchVerdict Exact _ _) = Valid"
| "to_status (MatchVerdict Versioned _ _) = Valid"
| "to_status (MatchVerdict Heuristic _ _) = LikelyValid"
| "to_status (MatchVerdict Volatile _ _) = LikelyValid"
| "to_status DriftVerdict = Stale"
| "to_status UnknownVerdict = UnknownStatus"

datatype reason_code =
    Drift | ProbeUnknown | NoProbeAvailable | TrustClassHeuristicCapsAtLikelyValid
  | TrustClassVolatileCapsAtLikelyValid | VolatileWithinTtlUnprobed | TtlExpired
  | ProbeTrustDemoted | CoverageDeficit | ProducerMissingFromCoverage | NoDependenciesObserved
  | DependencyChangedDuringComputation | RecipeIdentityUnavailable | UnprovenDependency

fun reason_wire :: "reason_code \<Rightarrow> string" where
  "reason_wire Drift = ''drift''"
| "reason_wire ProbeUnknown = ''probe-unknown''"
| "reason_wire NoProbeAvailable = ''no-probe-available''"
| "reason_wire TrustClassHeuristicCapsAtLikelyValid = ''trust-class-heuristic-caps-at-likely-valid''"
| "reason_wire TrustClassVolatileCapsAtLikelyValid = ''trust-class-volatile-caps-at-likely-valid''"
| "reason_wire TtlExpired = ''ttl-expired''"
| "reason_wire ProbeTrustDemoted = ''probe-trust-demoted''"
| "reason_wire CoverageDeficit = ''coverage-deficit''"
| "reason_wire ProducerMissingFromCoverage = ''producer-missing-from-coverage''"
| "reason_wire NoDependenciesObserved = ''no-dependencies-observed''"
| "reason_wire VolatileWithinTtlUnprobed = ''volatile-within-ttl-unprobed''"
| "reason_wire DependencyChangedDuringComputation = ''dependency-changed-during-computation''"
| "reason_wire RecipeIdentityUnavailable = ''recipe-identity-unavailable''"
| "reason_wire UnprovenDependency = ''unproven-dependency''"

fun is_artifact_scoped :: "reason_code \<Rightarrow> bool" where
  "is_artifact_scoped CoverageDeficit = True"
| "is_artifact_scoped ProducerMissingFromCoverage = True"
| "is_artifact_scoped NoDependenciesObserved = True"
| "is_artifact_scoped RecipeIdentityUnavailable = True"
| "is_artifact_scoped UnprovenDependency = True"
| "is_artifact_scoped Drift = False"
| "is_artifact_scoped ProbeUnknown = False"
| "is_artifact_scoped NoProbeAvailable = False"
| "is_artifact_scoped TrustClassHeuristicCapsAtLikelyValid = False"
| "is_artifact_scoped TrustClassVolatileCapsAtLikelyValid = False"
| "is_artifact_scoped VolatileWithinTtlUnprobed = False"
| "is_artifact_scoped TtlExpired = False"
| "is_artifact_scoped ProbeTrustDemoted = False"
| "is_artifact_scoped DependencyChangedDuringComputation = False"

lemma reason_wire_inj: "reason_wire a = reason_wire b \<longleftrightarrow> a = b"
  by (cases a; cases b; simp)

record validity_reason =
  dependency_key :: string
  reason :: reason_code
  detail :: "string option"

record validity =
  validity_value :: validity_status
  validity_reasons :: "validity_reason list"

datatype aggregation_error = MismatchedLengths nat nat

subsection \<open>Aggregation\<close>

fun verdict_reason :: "edge_verdict \<Rightarrow> string \<Rightarrow> validity_reason list" where
  \<comment> \<open>the \<open>match v\<close> of the loop body: the reason an edge pushes\<close>
  "verdict_reason DriftVerdict k = [\<lparr>dependency_key = k, reason = Drift, detail = None\<rparr>]"
| "verdict_reason UnknownVerdict k = [\<lparr>dependency_key = k, reason = ProbeUnknown, detail = None\<rparr>]"
| "verdict_reason (MatchVerdict Heuristic _ _) k =
     [\<lparr>dependency_key = k, reason = TrustClassHeuristicCapsAtLikelyValid, detail = None\<rparr>]"
| "verdict_reason (MatchVerdict Volatile _ _) k =
     [\<lparr>dependency_key = k, reason = TrustClassVolatileCapsAtLikelyValid, detail = None\<rparr>]"
| "verdict_reason (MatchVerdict Exact _ _) k = []"
| "verdict_reason (MatchVerdict Versioned _ _) k = []"

fun aggregate_loop ::
  "validity_status \<Rightarrow> validity_reason list \<Rightarrow> (edge_verdict \<times> string) list
     \<Rightarrow> validity_status \<times> validity_reason list" where
  "aggregate_loop status reasons [] = (status, reasons)"
| "aggregate_loop status reasons ((v, key) # rest) =
     (let contribution = to_status v;
          status' = (if status_rank contribution < status_rank status then contribution else status)
      in aggregate_loop status' (reasons @ verdict_reason v key) rest)"

definition aggregate ::
  "edge_verdict list \<Rightarrow> string list \<Rightarrow> aggregation_error + validity" where
  "aggregate verdicts dependency_keys =
     (if length verdicts \<noteq> length dependency_keys
      then Inl (MismatchedLengths (length verdicts) (length dependency_keys))
      else if verdicts = []
      then Inr \<lparr>validity_value = UnknownStatus,
                validity_reasons = [\<lparr>dependency_key = [], reason = NoDependenciesObserved,
                                     detail = None\<rparr>]\<rparr>
      else let (status, rs) = aggregate_loop Valid [] (zip verdicts dependency_keys);
               sorted_rs = sort_key (\<lambda>r. is_artifact_scoped (reason r)) rs
           in Inr \<lparr>validity_value = status,
                   validity_reasons = (if status = Valid then [] else sorted_rs)\<rparr>)"

text \<open>
  What a fold that keeps the strictly smaller contribution promises, for any elements whose
  contributions lie in a linear order below a top element.
\<close>

locale strict_min =
  fixes contribution :: "'e \<Rightarrow> 's::linorder"
    and top :: 's
  assumes below_top: "contribution e \<le> top"
begin

lemma strict_min_step: "(if contribution e < s then contribution e else s) = min s (contribution e)"
  by (auto simp: min_def)

lemma Min_eq_top_iff:
  assumes "finite E" "E \<noteq> {}"
  shows "Min (contribution ` E) = top \<longleftrightarrow> (\<forall>e\<in>E. contribution e = top)"
proof
  assume m: "Min (contribution ` E) = top"
  show "\<forall>e\<in>E. contribution e = top"
  proof
    fix e assume "e \<in> E"
    then have "top \<le> contribution e"
      using assms(1) m Min_le[of "contribution ` E" "contribution e"] by simp
    with below_top[of e] show "contribution e = top" by (rule antisym)
  qed
next
  assume "\<forall>e\<in>E. contribution e = top"
  then have "contribution ` E = {top}"
    using assms(2) by auto
  then show "Min (contribution ` E) = top" by simp
qed

lemma Min_attained:
  assumes "finite E" "E \<noteq> {}"
  shows "\<exists>e\<in>E. contribution e = Min (contribution ` E)"
proof -
  have "Min (contribution ` E) \<in> contribution ` E"
    using assms by (intro Min_in) auto
  then show ?thesis by (auto simp: image_iff)
qed

end

interpretation edge_min: strict_min to_status Valid
  by unfold_locales simp

lemma status_rank_less [simp]: "status_rank a < status_rank b \<longleftrightarrow> a < b"
  by (simp add: less_validity_status_def)

lemma aggregate_loop_eq:
  "aggregate_loop s rs ps =
     (Min (insert s (to_status ` fst ` set ps)),
      rs @ concat (map (\<lambda>(v, k). verdict_reason v k) ps))"
proof (induction ps arbitrary: s rs)
  case (Cons p ps)
  obtain v k where p: "p = (v, k)" by (cases p)
  have "min s (to_status v) = Min {s, to_status v}"
    by simp
  then have "Min (insert (min s (to_status v)) (to_status ` fst ` set ps)) =
      Min (insert s (insert (to_status v) (to_status ` fst ` set ps)))"
    by (cases "set ps = {}") (simp_all add: min.assoc)
  then show ?case
    by (simp add: p Cons.IH Let_def edge_min.strict_min_step)
qed simp

lemma verdict_reason_edge_scoped:
  "r \<in> set (verdict_reason v k) \<Longrightarrow> \<not> is_artifact_scoped (reason r) \<and> dependency_key r = k"
  by (induction v k rule: verdict_reason.induct) auto

lemma verdict_reason_Nil: "verdict_reason v k = [] \<longleftrightarrow> to_status v = Valid"
  by (induction v k rule: verdict_reason.induct) auto

lemma sort_key_const: "(\<And>x. x \<in> set xs \<Longrightarrow> f x = c) \<Longrightarrow> sort_key f xs = xs"
  by (simp add: sort_key_id_if_sorted sorted_iff_nth_mono)

definition edge_reasons_spec :: "edge_verdict list \<Rightarrow> string list \<Rightarrow> validity_reason list" where
  "edge_reasons_spec vs ks = concat (map2 verdict_reason vs ks)"

lemma edge_reasons_spec_scoped:
  "r \<in> set (edge_reasons_spec vs ks) \<Longrightarrow> \<not> is_artifact_scoped (reason r)"
  by (auto simp: edge_reasons_spec_def dest: verdict_reason_edge_scoped)

lemma edge_reasons_spec_Nil:
  "length vs = length ks \<Longrightarrow> edge_reasons_spec vs ks = [] \<longleftrightarrow> (\<forall>v\<in>set vs. to_status v = Valid)"
  by (induction vs ks rule: list_induct2) (auto simp: edge_reasons_spec_def verdict_reason_Nil)

lemma aggregate_eq:
  assumes "length vs = length ks" "vs \<noteq> []"
  shows "aggregate vs ks =
    Inr \<lparr>validity_value = Min (to_status ` set vs), validity_reasons = edge_reasons_spec vs ks\<rparr>"
proof -
  let ?m = "Min (to_status ` set vs)"
  have fst_zip: "fst ` set (zip vs ks) = set vs"
    using assms(1) by (metis list.set_map map_fst_zip)
  have "Min (insert Valid (to_status ` set vs)) = ?m"
    using assms(2) by (subst Min_insert) (auto simp: min_def)
  then have loop: "aggregate_loop Valid [] (zip vs ks) = (?m, edge_reasons_spec vs ks)"
    by (simp add: aggregate_loop_eq fst_zip edge_reasons_spec_def case_prod_beta)
  have "?m = Valid \<Longrightarrow> edge_reasons_spec vs ks = []"
    using assms edge_min.Min_eq_top_iff[of "set vs"] by (simp add: edge_reasons_spec_Nil)
  moreover have "sort_key (\<lambda>r. is_artifact_scoped (reason r)) (edge_reasons_spec vs ks) =
      edge_reasons_spec vs ks"
    by (rule sort_key_const[where c = False]) (simp add: edge_reasons_spec_scoped)
  ultimately show ?thesis
    using assms by (simp add: aggregate_def loop Let_def)
qed

text \<open>For a non-empty evaluation with one key per verdict, the aggregated status is the worst
  edge contribution in the order Stale, Unknown, LikelyValid, Valid, and the reasons are those
  of the edges, one for each edge that is not unambiguously fresh, in dependency order.\<close>

theorem aggregate_worst_edge:
  assumes "length vs = length ks" and "vs \<noteq> []"
  shows "aggregate vs ks =
    Inr \<lparr>validity_value = Min (to_status ` set vs),
         validity_reasons = concat (map2 verdict_reason vs ks)\<rparr>"
  using aggregate_eq[OF assms] by (simp add: edge_reasons_spec_def)

theorem aggregate_worst_edge_witness:
  "aggregate [UnknownVerdict, DriftVerdict] [''a'', ''b''] =
    Inr \<lparr>validity_value = Min (to_status ` set [UnknownVerdict, DriftVerdict]),
         validity_reasons = concat (map2 verdict_reason [UnknownVerdict, DriftVerdict] [''a'', ''b''])\<rparr>"
  by (rule aggregate_worst_edge) simp_all

lemma to_status_Valid_iff:
  "to_status v = Valid \<longleftrightarrow> (\<exists>c oc fp. v = MatchVerdict c oc fp \<and> c \<in> {Exact, Versioned})"
proof (cases v)
  case (MatchVerdict c oc fp)
  then show ?thesis by (cases c) auto
qed auto

text \<open>Aggregation never returns Valid unless there is at least one edge, every edge matched,
  and every edge was recorded at trust class Exact or Versioned: no heuristic, volatile,
  drifted or unverified edge is ever reported as valid.\<close>

theorem aggregate_valid_iff:
  "(\<exists>rs. aggregate vs ks = Inr \<lparr>validity_value = Valid, validity_reasons = rs\<rparr>) \<longleftrightarrow>
    length vs = length ks \<and> vs \<noteq> [] \<and>
    (\<forall>v\<in>set vs. \<exists>c oc fp. v = MatchVerdict c oc fp \<and> c \<in> {Exact, Versioned})"
proof (cases "length vs = length ks \<and> vs \<noteq> []")
  case True
  then have "Min (to_status ` set vs) = Valid \<longleftrightarrow> (\<forall>v\<in>set vs. to_status v = Valid)"
    by (intro edge_min.Min_eq_top_iff) auto
  with True show ?thesis
    by (simp add: aggregate_eq to_status_Valid_iff)
next
  case False
  then show ?thesis by (auto simp: aggregate_def)
qed

theorem aggregate_valid_iff_witness:
  "\<exists>rs. aggregate [MatchVerdict Exact Exact \<lparr>fp_kind = Etag, fp_payload = ''e''\<rparr>] [''a''] =
     Inr \<lparr>validity_value = Valid, validity_reasons = rs\<rparr>"
  by (subst aggregate_valid_iff) simp

lemma aggregate_total: "length vs = length ks \<Longrightarrow> \<exists>v. aggregate vs ks = Inr v"
  by (cases "vs = []") (auto simp: aggregate_eq, simp add: aggregate_def)

lemma aggregate_reasons_iff:
  assumes "aggregate vs ks = Inr v"
  shows "validity_reasons v = [] \<longleftrightarrow> validity_value v = Valid"
proof (cases "vs = []")
  case True
  with assms show ?thesis by (auto simp: aggregate_def split: if_splits)
next
  case False
  with assms have l: "length vs = length ks" and v: "v = \<lparr>validity_value = Min (to_status ` set vs),
      validity_reasons = edge_reasons_spec vs ks\<rparr>"
    using aggregate_eq[of vs ks] by (auto simp: aggregate_def split: if_splits)
  then show ?thesis
    using False edge_min.Min_eq_top_iff[of "set vs"] by (simp add: edge_reasons_spec_Nil)
qed

subsection \<open>Artifacts, dependencies and probe results\<close>

type_synonym artifact_id = string
type_synonym computation_id = string

definition artifact_id_from_hash :: "hash \<Rightarrow> artifact_id" where
  "artifact_id_from_hash h = hash_display h"

record artifact =
  artifact_id :: artifact_id
  artifact_path :: "string option"
  artifact_kind :: string
  artifact_content_hash :: hash
  artifact_size :: u64

record dependency =
  dep_key :: string
  dep_scheme :: string
  dep_trust_class :: trust_class
  dep_fingerprint :: fingerprint
  dep_observed_at :: instant
  dep_produced_by :: "artifact_id option"
  dep_ttl_seconds :: "u64 option"

definition is_consistent :: "dependency \<Rightarrow> bool" where
  "is_consistent d \<longleftrightarrow> \<not> (dep_trust_class d = Volatile \<and> dep_ttl_seconds d = None)"

definition dep_id :: "dependency \<Rightarrow> dependency_id" where
  "dep_id d = from_scheme_key (dep_scheme d) (dep_key d)"

definition exact_file :: "string \<Rightarrow> hash \<Rightarrow> instant \<Rightarrow> dependency" where
  \<comment> \<open>the constructor's panic on an empty payload cannot fire: a printed hash has a prefix\<close>
  "exact_file path content_hash at =
     \<lparr>dep_key = ''file://'' @ path,
      dep_scheme = ''file'',
      dep_trust_class = Exact,
      dep_fingerprint = \<lparr>fp_kind = ContentHash, fp_payload = hash_display content_hash\<rparr>,
      dep_observed_at = at,
      dep_produced_by = None,
      dep_ttl_seconds = None\<rparr>"

lemma exact_file_no_panic:
  "fingerprint_new ContentHash (hash_display h) = Some (dep_fingerprint (exact_file p h t))"
  by (cases "algo h") (simp_all add: fingerprint_new_def hash_display_def exact_file_def)

lemma exact_file_id [simp]: "dep_id (exact_file p h t) = ''file://'' @ p"
  using from_scheme_key_slashes[of "''file''" p] by (simp add: dep_id_def exact_file_def)

datatype probe_result =
    ProbeMatch fingerprint trust_class
  | ProbeDrift fingerprint trust_class
  | ProbeUndecided string bool

end
