(* ===== verification/Probe_Registry.thy ===== *)
theory Probe_Registry
  imports Validity
begin

section \<open>Probe registration and arbitration (\<open>crates/freshdag-engine/src/registry.rs\<close>)\<close>

text \<open>
  The registry maps the identity of a registration, derived from its scheme, host pattern and
  priority, to the probe. Selecting a probe for a key picks the matching registration of
  highest priority; the lemmas show that this is never a choice between equals. A probe is a
  record of what the trait \<open>Probe\<close> (\<open>crates/freshdag-core/src/probe.rs\<close>) declares. Its
  \<open>check\<close> reads the outside world, which is the explicit argument of type \<open>'w\<close>: the program
  says nothing about it, so neither does the model.
\<close>

subsection \<open>Probes and registrations\<close>

record 'w probe =
  p_scheme :: string
  p_host_pattern :: "string option"
  p_priority :: u32
  p_check :: "'w \<Rightarrow> string \<Rightarrow> fingerprint \<Rightarrow> u64 option \<Rightarrow> probe_result"

type_synonym probe_identity = string

definition probe_identity_derive :: "string \<Rightarrow> string option \<Rightarrow> u32 \<Rightarrow> probe_identity" where
  "probe_identity_derive sch host_pattern prio =
     (case host_pattern of
        Some host \<Rightarrow> sch @ ''@'' @ host @ ''#'' @ show_nat (unat prio)
      | None \<Rightarrow> sch @ ''#'' @ show_nat (unat prio))"

record 'w registration =
  r_identity :: probe_identity
  r_scheme :: string
  r_host_pattern :: "string option"
  r_priority :: u32
  r_probe :: "'w probe"

record 'w selected =
  sel_identity :: probe_identity
  sel_probe :: "'w probe"

datatype no_probe =
    UnregisteredScheme string
  | NoHostMatch string
  | PriorityTie string u32 "probe_identity list"
  | ProbeRemoved probe_identity

fun no_probe_detail :: "no_probe \<Rightarrow> string" where
  "no_probe_detail (UnregisteredScheme sch) = ''no-probe-registered-for-scheme='' @ sch"
| "no_probe_detail (NoHostMatch sch) = ''no-host-pattern-match-for-scheme='' @ sch"
| "no_probe_detail (PriorityTie sch prio candidates) =
     ''arbitration-tie scheme='' @ sch @ '' priority='' @ show_nat (unat prio) @
     '' candidates='' @ join_with '','' candidates"
| "no_probe_detail (ProbeRemoved previous) = ''probe-removed='' @ previous"

datatype registration_error = Tie probe_identity

type_synonym 'w probe_registry = "(probe_identity, 'w registration) bmap"

subsection \<open>Registering\<close>

definition register_probe ::
  "'w probe \<Rightarrow> 'w probe_registry \<Rightarrow> (registration_error + probe_identity) \<times> 'w probe_registry" where
  "register_probe p reg =
     (let i = probe_identity_derive (p_scheme p) (p_host_pattern p) (p_priority p) in
      if map_of reg i \<noteq> None then (Inl (Tie i), reg)
      else (Inr i, bm_put i \<lparr>r_identity = i, r_scheme = p_scheme p,
                            r_host_pattern = p_host_pattern p, r_priority = p_priority p,
                            r_probe = p\<rparr> reg))"

definition deregister_probe :: "probe_identity \<Rightarrow> 'w probe_registry \<Rightarrow> bool \<times> 'w probe_registry" where
  "deregister_probe i reg = (map_of reg i \<noteq> None, bm_del i reg)"

definition registry_contains :: "'w probe_registry \<Rightarrow> probe_identity \<Rightarrow> bool" where
  "registry_contains reg i \<longleftrightarrow> map_of reg i \<noteq> None"

definition registry_identities :: "'w probe_registry \<Rightarrow> probe_identity list" where
  "registry_identities reg = bm_keys reg"

subsection \<open>Selecting\<close>

definition host_of :: "string \<Rightarrow> string option" where
  "host_of key =
     (case split_once ''://'' key of
        None \<Rightarrow> None
      | Some (_, rest) \<Rightarrow>
          let host = takeWhile (\<lambda>c. c \<notin> {CHR ''/'', CHR ''?'', CHR ''#''}) rest
          in if host = [] then None else Some host)"

fun host_pattern_matches :: "string option \<Rightarrow> string option \<Rightarrow> bool" where
  "host_pattern_matches None _ = True"
| "host_pattern_matches (Some pat) None = False"
| "host_pattern_matches (Some pat) (Some host) =
     (if pat = ''*'' then True
      else case strip_prefix ''*.'' pat of
          Some suffix \<Rightarrow> length host > length suffix + 1 \<and> ends_with (''.'' @ suffix) host
        | None \<Rightarrow> pat = host)"

definition select_probe ::
  "'w probe_registry \<Rightarrow> string \<Rightarrow> string \<Rightarrow> no_probe + 'w selected" where
  "select_probe reg sch key =
     (let for_scheme = filter (\<lambda>r. r_scheme r = sch) (bm_values reg) in
      if for_scheme = [] then Inl (UnregisteredScheme sch)
      else
       (let matching = filter (\<lambda>r. host_pattern_matches (r_host_pattern r) (host_of key)) for_scheme in
        if matching = [] then Inl (NoHostMatch sch)
        else
         (let top = Max (set (map r_priority matching));
              winners = sort_key r_identity (filter (\<lambda>r. r_priority r = top) matching) in
          if length winners > 1 then Inl (PriorityTie sch top (map r_identity winners))
          else Inr \<lparr>sel_identity = r_identity (hd winners), sel_probe = r_probe (hd winners)\<rparr>)))"

subsection \<open>Reachable registries\<close>

inductive registry_reach :: "'w probe_registry \<Rightarrow> bool" where
  reach_new: "registry_reach []"
| reach_register: "registry_reach reg \<Longrightarrow> registry_reach (snd (register_probe p reg))"
| reach_deregister: "registry_reach reg \<Longrightarrow> registry_reach (snd (deregister_probe i reg))"

definition registry_wf :: "'w probe_registry \<Rightarrow> bool" where
  "registry_wf reg \<longleftrightarrow> bm_ok reg \<and>
     (\<forall>(i, r)\<in>set reg. r_identity r = i \<and>
        i = probe_identity_derive (r_scheme r) (r_host_pattern r) (r_priority r) \<and>
        p_scheme (r_probe r) = r_scheme r \<and> p_host_pattern (r_probe r) = r_host_pattern r \<and>
        p_priority (r_probe r) = r_priority r)"

lemma registry_wf_Nil [simp]: "registry_wf []"
  by (simp add: registry_wf_def)

lemma registry_wf_register: "registry_wf reg \<Longrightarrow> registry_wf (snd (register_probe p reg))"
  by (auto simp: registry_wf_def register_probe_def Let_def dest!: set_bm_put)

lemma registry_wf_deregister: "registry_wf reg \<Longrightarrow> registry_wf (snd (deregister_probe i reg))"
  by (auto simp: registry_wf_def deregister_probe_def bm_ok_del) (auto simp: bm_del_def)

lemma registry_reach_wf: "registry_reach reg \<Longrightarrow> registry_wf reg"
  by (induction rule: registry_reach.induct)
     (simp_all add: registry_wf_register registry_wf_deregister)

lemma registry_wf_identities:
  assumes "registry_wf reg"
  shows "map r_identity (bm_values reg) = bm_keys reg" "distinct (map r_identity (bm_values reg))"
proof -
  show e: "map r_identity (bm_values reg) = bm_keys reg"
    using assms by (auto simp: registry_wf_def)
  show "distinct (map r_identity (bm_values reg))"
    unfolding e using assms bm_ok_distinct by (auto simp: registry_wf_def)
qed

definition applicable :: "string \<Rightarrow> string \<Rightarrow> 'w registration \<Rightarrow> bool" where
  \<comment> \<open>the registrations arbitration is between\<close>
  "applicable sch key r \<longleftrightarrow>
     r_scheme r = sch \<and> host_pattern_matches (r_host_pattern r) (host_of key)"

definition top_registrations :: "'w probe_registry \<Rightarrow> string \<Rightarrow> string \<Rightarrow> 'w registration list" where
  "top_registrations reg sch key =
     (let cs = filter (applicable sch key) (bm_values reg)
      in filter (\<lambda>r. \<forall>r'\<in>set cs. r_priority r' \<le> r_priority r) cs)"

lemma sort_key_identity_id:
  assumes "registry_wf reg"
  shows "sort_key r_identity (filter P (bm_values reg)) = filter P (bm_values reg)"
proof (rule sort_key_id_if_sorted)
  have "sorted (map r_identity (bm_values reg))"
    unfolding registry_wf_identities(1)[OF assms] using assms
    by (simp add: registry_wf_def bm_ok_def strict_sorted_imp_sorted)
  then show "sorted (map r_identity (filter P (bm_values reg)))"
    by (rule sorted_filter)
qed

lemma select_probe_eq:
  assumes "registry_wf reg"
  shows "select_probe reg sch key =
     (if \<forall>r\<in>set (bm_values reg). r_scheme r \<noteq> sch then Inl (UnregisteredScheme sch)
      else case top_registrations reg sch key of
          [] \<Rightarrow> Inl (NoHostMatch sch)
        | [r] \<Rightarrow> Inr \<lparr>sel_identity = r_identity r, sel_probe = r_probe r\<rparr>
        | r # _ \<Rightarrow> Inl (PriorityTie sch (r_priority r) (map r_identity (top_registrations reg sch key))))"
proof -
  define cs where "cs = filter (applicable sch key) (bm_values reg)"
  define top where "top = Max (set (map r_priority cs))"
  have cs: "filter (\<lambda>r. host_pattern_matches (r_host_pattern r) (host_of key))
      (filter (\<lambda>r. r_scheme r = sch) (bm_values reg)) = cs"
    by (simp add: cs_def applicable_def[abs_def])
  have is_top: "(\<forall>r'\<in>set cs. r_priority r' \<le> r_priority r) \<longleftrightarrow> r_priority r = top" if "r \<in> set cs" for r
    using that unfolding top_def by (auto intro!: Max_eqI[symmetric] Max_ge)
  have tops: "top_registrations reg sch key = filter (\<lambda>r. r_priority r = top) cs"
    unfolding top_registrations_def cs_def[symmetric] Let_def using is_top by (intro filter_cong) auto
  have sorted: "sort_key r_identity (filter (\<lambda>r. r_priority r = top) cs) = top_registrations reg sch key"
    unfolding tops cs_def filter_filter by (rule sort_key_identity_id[OF assms])
  have nonempty: "top_registrations reg sch key \<noteq> []" if ne: "cs \<noteq> []"
  proof -
    have "top \<in> set (map r_priority cs)"
      unfolding top_def using ne by (intro Max_in) simp_all
    then show ?thesis by (auto simp: tops filter_empty_conv)
  qed
  have none: "cs = [] \<Longrightarrow> top_registrations reg sch key = []"
    by (simp add: tops)
  have prio: "r_priority r = top" if "r \<in> set (top_registrations reg sch key)" for r
    using that by (simp add: tops)
  have schemes: "filter (\<lambda>r. r_scheme r = sch) (bm_values reg) = [] \<longleftrightarrow>
      (\<forall>r\<in>set (bm_values reg). r_scheme r \<noteq> sch)"
    by (simp only: filter_empty_conv)
  show ?thesis
  proof (cases "cs = []")
    case True
    then show ?thesis
      unfolding select_probe_def Let_def cs schemes by (simp add: none)
  next
    case False
    then have "filter (\<lambda>r. r_scheme r = sch) (bm_values reg) \<noteq> []"
      using cs by (metis filter.simps(1))
    moreover have "\<not> (\<forall>r\<in>set (bm_values reg). r_scheme r \<noteq> sch)"
      using False by (auto simp: cs_def filter_empty_conv applicable_def)
    ultimately show ?thesis
      unfolding select_probe_def Let_def cs top_def[symmetric] sorted
      using False nonempty[OF False] prio by (auto split: list.split)
  qed
qed

lemma top_registrations_iff:
  "r \<in> set (top_registrations reg sch key) \<longleftrightarrow>
     r \<in> set (bm_values reg) \<and> applicable sch key r \<and>
     (\<forall>r'\<in>set (bm_values reg). applicable sch key r' \<longrightarrow> r_priority r' \<le> r_priority r)"
  by (auto simp: top_registrations_def Let_def)

lemma distinct_top_registrations:
  "registry_wf reg \<Longrightarrow> distinct (map r_identity (top_registrations reg sch key))"
  unfolding top_registrations_def Let_def
  by (intro distinct_map_filter registry_wf_identities(2))

lemma identity_determines:
  "\<lbrakk>registry_wf reg; r \<in> set (bm_values reg); r' \<in> set (bm_values reg); r_identity r = r_identity r'\<rbrakk>
     \<Longrightarrow> r = r'"
  using registry_wf_identities(2) by (metis distinct_map inj_onD)

lemma top_singleton_iff:
  assumes wf: "registry_wf reg"
  shows "top_registrations reg sch key = [r] \<longleftrightarrow>
     r \<in> set (bm_values reg) \<and> applicable sch key r \<and>
     (\<forall>r'\<in>set (bm_values reg). applicable sch key r' \<and> r_identity r' \<noteq> r_identity r \<longrightarrow>
        r_priority r' < r_priority r)" (is "?l \<longleftrightarrow> ?r")
proof
  assume l: ?l
  then have top: "r \<in> set (top_registrations reg sch key)" by simp
  have "r_priority r' < r_priority r"
    if r': "r' \<in> set (bm_values reg)" "applicable sch key r'" "r_identity r' \<noteq> r_identity r" for r'
  proof (rule ccontr)
    assume "\<not> ?thesis"
    with top r' have "r_priority r' = r_priority r"
      unfolding top_registrations_iff by (meson order_antisym not_le order.strict_iff_not)
    with top r' have "r' \<in> set (top_registrations reg sch key)"
      unfolding top_registrations_iff by simp
    with l r' show False by simp
  qed
  with top show ?r unfolding top_registrations_iff by blast
next
  assume r: ?r
  have *: "r' \<in> set (top_registrations reg sch key) \<longleftrightarrow> r' = r" for r'
    unfolding top_registrations_iff using r identity_determines[OF wf]
    by (metis order.strict_implies_order order_less_le_trans order.irrefl order_refl)
  then have "set (top_registrations reg sch key) = {r}" by auto
  moreover have "distinct (top_registrations reg sch key)"
    using distinct_top_registrations[OF wf] by (simp add: distinct_map)
  ultimately show ?l
    by (metis distinct.simps(2) empty_iff list.exhaust list.set(1) list.set(2) list.set_intros(1)
        set_empty singletonD insert_iff)
qed

lemma top_registrations_scheme:
  "top_registrations reg sch key = r # rs \<Longrightarrow> \<not> (\<forall>r\<in>set (bm_values reg). r_scheme r \<noteq> sch)"
  using top_registrations_iff[of r reg sch key] by (auto simp: applicable_def)

lemma select_probe_Inr:
  assumes "registry_wf reg"
  shows "select_probe reg sch key = Inr s \<longleftrightarrow>
     (\<exists>r. top_registrations reg sch key = [r] \<and>
          s = \<lparr>sel_identity = r_identity r, sel_probe = r_probe r\<rparr>)"
  unfolding select_probe_eq[OF assms]
  using top_registrations_scheme[of reg sch key]
  by (cases "top_registrations reg sch key"; cases "tl (top_registrations reg sch key)") auto

lemma select_probe_not_removed: "select_probe reg sch key \<noteq> Inl (ProbeRemoved i)"
  by (simp add: select_probe_def Let_def)

lemma select_probe_registered:
  assumes wf: "registry_wf reg" and s: "select_probe reg sch key = Inr s"
  shows "\<exists>r. map_of reg (sel_identity s) = Some r \<and> sel_probe s = r_probe r \<and> applicable sch key r"
proof -
  obtain r where r: "top_registrations reg sch key = [r]"
      "s = \<lparr>sel_identity = r_identity r, sel_probe = r_probe r\<rparr>"
    using s unfolding select_probe_Inr[OF wf] by blast
  have "r \<in> set (bm_values reg)" "applicable sch key r"
    using r(1) top_singleton_iff[OF wf] by auto
  moreover from this have "map_of reg (r_identity r) = Some r"
    using wf by (auto simp: registry_wf_def bm_ok_in_map_of)
  ultimately show ?thesis using r(2) by simp
qed

subsection \<open>Properties\<close>

text \<open>In every registry that registrations and removals can produce, a probe is selected for a
  key exactly when one applicable registration (same scheme, host pattern admitting the key's
  host) has a priority strictly above every other applicable one; that one is selected.\<close>

theorem select_is_strict_maximum:
  assumes "registry_reach reg"
  shows "select_probe reg sch key = Inr s \<longleftrightarrow>
     (\<exists>r\<in>set (bm_values reg). applicable sch key r \<and>
        s = \<lparr>sel_identity = r_identity r, sel_probe = r_probe r\<rparr> \<and>
        (\<forall>r'\<in>set (bm_values reg). applicable sch key r' \<and> r_identity r' \<noteq> r_identity r \<longrightarrow>
           r_priority r' < r_priority r))"
  using select_probe_Inr[OF registry_reach_wf[OF assms], of sch key s]
    top_singleton_iff[OF registry_reach_wf[OF assms], of sch key]
  by auto

text \<open>Arbitration reports a tie exactly when two different applicable registrations share the
  highest applicable priority, and then names that priority and every registration holding it, in
  identity order.\<close>

theorem tie_is_reported:
  assumes "registry_reach reg"
  shows "select_probe reg sch key = Inl (PriorityTie sch' prio candidates) \<longleftrightarrow>
     sch' = sch \<and> candidates = map r_identity (top_registrations reg sch key) \<and>
     length candidates \<ge> 2 \<and> (\<forall>r\<in>set (top_registrations reg sch key). r_priority r = prio)"
proof -
  have wf: "registry_wf reg" using assms by (rule registry_reach_wf)
  have same: "r_priority a = r_priority b"
    if "a \<in> set (top_registrations reg sch key)" "b \<in> set (top_registrations reg sch key)" for a b
    using that unfolding top_registrations_iff by (meson order_antisym)
  show ?thesis
  proof (cases "top_registrations reg sch key")
    case Nil
    then show ?thesis by (simp add: select_probe_eq[OF wf])
  next
    case (Cons a as)
    have p: "(\<forall>r\<in>set (top_registrations reg sch key). r_priority r = prio) \<longleftrightarrow> r_priority a = prio"
      using same Cons by (metis list.set_intros(1))
    show ?thesis
      unfolding p using Cons top_registrations_scheme[OF Cons]
      by (cases as) (auto simp: select_probe_eq[OF wf])
  qed
qed

definition silent_probe :: "string \<Rightarrow> string option \<Rightarrow> u32 \<Rightarrow> unit probe" where
  \<comment> \<open>a probe that never decides\<close>
  "silent_probe sch host prio =
     \<lparr>p_scheme = sch, p_host_pattern = host, p_priority = prio,
      p_check = (\<lambda>_ _ _ _. ProbeUndecided ''stub'' False)\<rparr>"

definition two_https :: "u32 \<Rightarrow> unit probe_registry" where
  \<comment> \<open>one probe for every https host and one for the subdomains of a host, at priority 5\<close>
  "two_https prio =
     snd (register_probe (silent_probe ''https'' (Some ''*.b.c'') 5)
       (snd (register_probe (silent_probe ''https'' None prio) [])))"

lemma two_https_reach: "registry_reach (two_https prio)"
  unfolding two_https_def by (intro registry_reach.intros)

lemma show_nat_5: "show_nat 5 = ''5''"
  by code_simp

lemma two_https_eq:
  "two_https prio =
     [(''https#'' @ show_nat (unat prio),
       \<lparr>r_identity = ''https#'' @ show_nat (unat prio), r_scheme = ''https'', r_host_pattern = None,
        r_priority = prio, r_probe = silent_probe ''https'' None prio\<rparr>),
      (''https@*.b.c#5'',
       \<lparr>r_identity = ''https@*.b.c#5'', r_scheme = ''https'', r_host_pattern = Some ''*.b.c'',
        r_priority = 5, r_probe = silent_probe ''https'' (Some ''*.b.c'') 5\<rparr>)]"
  by (simp add: two_https_def register_probe_def silent_probe_def probe_identity_derive_def
      Let_def show_nat_5 less_char_def)

lemma two_https_host:
  "host_of ''https://a.b.c/x'' = Some ''a.b.c''"
  "host_pattern_matches (Some ''*.b.c'') (Some ''a.b.c'')"
  "host_pattern_matches None h"
  by (code_simp, code_simp, simp)

lemma select_is_strict_maximum_witness:
  "\<exists>s. select_probe (two_https 0) ''https'' ''https://a.b.c/x'' = Inr s \<and>
       sel_identity s = ''https@*.b.c#5''"
proof -
  have "select_probe (two_https 0) ''https'' ''https://a.b.c/x'' = Inr
      \<lparr>sel_identity = ''https@*.b.c#5'', sel_probe = silent_probe ''https'' (Some ''*.b.c'') 5\<rparr>"
    unfolding select_is_strict_maximum[OF two_https_reach]
    by (simp add: two_https_eq applicable_def two_https_host del: host_pattern_matches.simps)
  then show ?thesis by simp
qed

lemma tie_is_reported_witness:
  "select_probe (two_https 5) ''https'' ''https://a.b.c/x'' =
     Inl (PriorityTie ''https'' 5 [''https#5'', ''https@*.b.c#5''])"
  unfolding tie_is_reported[OF two_https_reach] top_registrations_def
  by (simp add: two_https_eq applicable_def two_https_host show_nat_5 del: host_pattern_matches.simps)

end
