(* ===== verification/Antithrash.thy ===== *)
theory Antithrash
  imports Probe_Registry
begin

section \<open>The anti-thrash ledger (\<open>crates/freshdag-engine/src/antithrash.rs\<close>)\<close>

text \<open>
  Per dependency key and probe identity the ledger keeps the trust class in force and a
  pending escalation. A lower observation takes effect at once, a higher one only when it is
  made twice in a row. \<open>entry_observe\<close> is the part of \<open>TrustLedger::observe\<close> that works on
  the one entry looked up; \<open>spec_observe\<close> is the protocol without counters and timestamps,
  and \<open>antithrash_refines\<close> relates the two over any interleaving of observations.
\<close>

subsection \<open>State and operations\<close>

definition escalation_threshold :: u8 where
  "escalation_threshold = 2"

datatype trust_transition =
    Unchanged trust_class
  | EscalationPending trust_class u8 trust_class
  | Escalated trust_class trust_class
  | Demoted trust_class trust_class

record pending =
  pen_class :: trust_class
  pen_count :: u8
  pen_first_seen :: instant

record trust_entry =
  last_adopted_trust_class :: trust_class
  pending_escalation :: "pending option"

record trust_ledger =
  led_entries :: "(string \<times> probe_identity, trust_entry) bmap"
  led_last_probe :: "(string, probe_identity) bmap"

definition ledger_new :: trust_ledger where
  "ledger_new = \<lparr>led_entries = [], led_last_probe = []\<rparr>"

definition last_probe_for :: "trust_ledger \<Rightarrow> string \<Rightarrow> probe_identity option" where
  "last_probe_for led key = map_of (led_last_probe led) key"

definition note_probe :: "string \<Rightarrow> probe_identity \<Rightarrow> trust_ledger \<Rightarrow> trust_ledger" where
  "note_probe key i led = led\<lparr>led_last_probe := bm_put key i (led_last_probe led)\<rparr>"

definition adopted_class :: "trust_ledger \<Rightarrow> string \<Rightarrow> probe_identity \<Rightarrow> trust_class option" where
  "adopted_class led key i = map_option last_adopted_trust_class (map_of (led_entries led) (key, i))"

definition saturating_add1 :: "u8 \<Rightarrow> u8" where
  "saturating_add1 n = (if n = 255 then n else n + 1)"

definition entry_observe :: "trust_class \<Rightarrow> instant \<Rightarrow> trust_entry \<Rightarrow> trust_transition \<times> trust_entry" where
  "entry_observe observed at e =
     (let cur = last_adopted_trust_class e in
      if observed = cur then (Unchanged cur, e\<lparr>pending_escalation := None\<rparr>)
      else if is_demotion_from observed cur
      then (Demoted cur observed,
            e\<lparr>pending_escalation := None, last_adopted_trust_class := observed\<rparr>)
      else
       (let count = (case pending_escalation e of
                Some p \<Rightarrow> if pen_class p = observed then saturating_add1 (pen_count p) else 1
              | None \<Rightarrow> 1) in
        if count \<ge> escalation_threshold
        then (Escalated cur observed,
              e\<lparr>pending_escalation := None, last_adopted_trust_class := observed\<rparr>)
        else
         (let seen = (case pending_escalation e of
                Some p \<Rightarrow> if pen_class p = observed then pen_first_seen p else at
              | None \<Rightarrow> at)
          in (EscalationPending observed count cur,
              e\<lparr>pending_escalation :=
                  Some \<lparr>pen_class = observed, pen_count = count, pen_first_seen = seen\<rparr>\<rparr>))))"

definition observe ::
  "string \<Rightarrow> probe_identity \<Rightarrow> trust_class \<Rightarrow> trust_class \<Rightarrow> instant \<Rightarrow> trust_ledger
     \<Rightarrow> trust_transition \<times> trust_ledger" where
  "observe key i recorded observed at led =
     (let led = note_probe key i led;
          e = (case map_of (led_entries led) (key, i) of
                 Some e \<Rightarrow> e
               | None \<Rightarrow> \<lparr>last_adopted_trust_class = recorded, pending_escalation = None\<rparr>);
          (t, e') = entry_observe observed at e
      in (t, led\<lparr>led_entries := bm_put (key, i) e' (led_entries led)\<rparr>))"

subsection \<open>The protocol\<close>

text \<open>
  The state of the protocol: the class in force and the class proposed by the last observation,
  when that was higher. A larger trust class is a stronger one.
\<close>

fun spec_observe :: "trust_class \<times> trust_class option \<Rightarrow> trust_class \<Rightarrow> trust_class \<times> trust_class option" where
  "spec_observe (a, c) obs =
     (if obs \<le> a then (obs, None)
      else if c = Some obs then (obs, None)
      else (a, Some obs))"

definition entry_abs :: "trust_entry \<Rightarrow> trust_class \<times> trust_class option" where
  "entry_abs e = (last_adopted_trust_class e, map_option pen_class (pending_escalation e))"

definition entry_ok :: "trust_entry \<Rightarrow> bool" where
  \<comment> \<open>a pending escalation has been seen once and is above the class in force\<close>
  "entry_ok e \<longleftrightarrow> (case pending_escalation e of
      None \<Rightarrow> True
    | Some p \<Rightarrow> pen_count p = 1 \<and> last_adopted_trust_class e < pen_class p)"

lemma below_threshold: "\<not> escalation_threshold \<le> 1"
  by (simp add: escalation_threshold_def word_le_nat_alt)

lemma entry_observe_cases:
  assumes "entry_ok e"
  obtains (same) "observed = last_adopted_trust_class e"
      "entry_observe observed at e = (Unchanged observed, e\<lparr>pending_escalation := None\<rparr>)"
  | (lower) "observed < last_adopted_trust_class e"
      "entry_observe observed at e = (Demoted (last_adopted_trust_class e) observed,
         e\<lparr>pending_escalation := None, last_adopted_trust_class := observed\<rparr>)"
  | (second) "last_adopted_trust_class e < observed" "snd (entry_abs e) = Some observed"
      "entry_observe observed at e = (Escalated (last_adopted_trust_class e) observed,
         e\<lparr>pending_escalation := None, last_adopted_trust_class := observed\<rparr>)"
  | (first) "last_adopted_trust_class e < observed" "snd (entry_abs e) \<noteq> Some observed"
      "entry_observe observed at e = (EscalationPending observed 1 (last_adopted_trust_class e),
         e\<lparr>pending_escalation :=
             Some \<lparr>pen_class = observed, pen_count = 1, pen_first_seen = at\<rparr>\<rparr>)"
proof -
  let ?cur = "last_adopted_trust_class e"
  consider "observed = ?cur" | "observed < ?cur" | "?cur < observed"
    by (rule linorder_cases)
  then show thesis
  proof cases
    case 1 then show thesis by (intro same) (simp_all add: entry_observe_def)
  next
    case 2
    then have "observed \<noteq> ?cur" by simp
    with 2 show thesis
      by (intro lower) (simp_all add: entry_observe_def trust_trichotomy Let_def)
  next
    case 3
    then have ne: "observed \<noteq> ?cur" "\<not> observed < ?cur" by auto
    show thesis
    proof (cases "snd (entry_abs e) = Some observed")
      case True
      with assms obtain p where "pending_escalation e = Some p" "pen_class p = observed" "pen_count p = 1"
        by (auto simp: entry_abs_def entry_ok_def)
      with ne 3 True show thesis
        by (intro second) (simp_all add: entry_observe_def trust_trichotomy Let_def
            saturating_add1_def escalation_threshold_def)
    next
      case False
      then have "pending_escalation e = None \<or>
          (\<exists>p. pending_escalation e = Some p \<and> pen_class p \<noteq> observed)"
        by (cases "pending_escalation e") (auto simp: entry_abs_def)
      with ne 3 False show thesis
        by (intro first) (auto simp: entry_observe_def trust_trichotomy Let_def below_threshold)
    qed
  qed
qed

lemma entry_observe_ok: "entry_ok e \<Longrightarrow> entry_ok (snd (entry_observe observed at e))"
  by (erule entry_observe_cases[where observed = observed and at = at]) (simp_all add: entry_ok_def)

lemma entry_observe_abs:
  "entry_ok e \<Longrightarrow> entry_abs (snd (entry_observe observed at e)) = spec_observe (entry_abs e) observed"
  by (erule entry_observe_cases[where observed = observed and at = at])
     (auto simp: entry_abs_def)

lemma entry_observe_escalated:
  assumes "entry_ok e"
  shows "fst (entry_observe observed at e) = Escalated f t \<longleftrightarrow>
     t = observed \<and> f = fst (entry_abs e) \<and> f < t \<and> snd (entry_abs e) = Some observed"
  using assms by (cases rule: entry_observe_cases[where observed = observed and at = at])
    (auto simp: entry_abs_def)

lemma entry_observe_demoted:
  assumes "entry_ok e"
  shows "fst (entry_observe observed at e) = Demoted f t \<longleftrightarrow>
     t = observed \<and> f = fst (entry_abs e) \<and> t < f"
  using assms by (cases rule: entry_observe_cases[where observed = observed and at = at])
    (auto simp: entry_abs_def)

subsection \<open>Interleaved observations\<close>

text \<open>
  The contract of a store in which an operation rewrites the one entry it names: after any
  sequence of operations an entry is the fold of the operations that name it.
\<close>

locale keyed_fold =
  fixes run_op :: "'o \<Rightarrow> 'm \<Rightarrow> 'm"
    and entry_at :: "'m \<Rightarrow> 'k \<Rightarrow> 'e option"
    and op_key :: "'o \<Rightarrow> 'k"
    and op_entry :: "'o \<Rightarrow> 'e option \<Rightarrow> 'e"
  assumes entry_run_op:
    "entry_at (run_op x m) k = (if op_key x = k then Some (op_entry x (entry_at m k)) else entry_at m k)"
begin

lemma entry_fold:
  "entry_at (fold run_op xs m) k =
     fold (\<lambda>x e. Some (op_entry x e)) (filter (\<lambda>x. op_key x = k) xs) (entry_at m k)"
  by (induction xs arbitrary: m) (auto simp: entry_run_op)

lemma entry_fold_other:
  "(\<And>x. x \<in> set xs \<Longrightarrow> op_key x \<noteq> k) \<Longrightarrow> entry_at (fold run_op xs m) k = entry_at m k"
  by (induction xs arbitrary: m) (auto simp: entry_run_op)

end

record observation =
  ob_key :: string
  ob_identity :: probe_identity
  ob_recorded :: trust_class
  ob_class :: trust_class
  ob_at :: instant

definition observe_one :: "observation \<Rightarrow> trust_ledger \<Rightarrow> trust_ledger" where
  "observe_one ob led =
     snd (observe (ob_key ob) (ob_identity ob) (ob_recorded ob) (ob_class ob) (ob_at ob) led)"

definition ledger_entry :: "trust_ledger \<Rightarrow> string \<times> probe_identity \<Rightarrow> trust_entry option" where
  "ledger_entry led = map_of (led_entries led)"

definition seeded_entry :: "trust_class \<Rightarrow> trust_entry option \<Rightarrow> trust_entry" where
  "seeded_entry recorded e =
     (case e of Some e \<Rightarrow> e
      | None \<Rightarrow> \<lparr>last_adopted_trust_class = recorded, pending_escalation = None\<rparr>)"

lemma observe_fst:
  "fst (observe key i recorded observed at led) =
     fst (entry_observe observed at (seeded_entry recorded (ledger_entry led (key, i))))"
  by (simp add: observe_def Let_def note_probe_def ledger_entry_def seeded_entry_def split: prod.split)

interpretation ledger: keyed_fold observe_one ledger_entry
    "\<lambda>ob. (ob_key ob, ob_identity ob)"
    "\<lambda>ob e. snd (entry_observe (ob_class ob) (ob_at ob) (seeded_entry (ob_recorded ob) e))"
  by unfold_locales
     (simp add: observe_one_def observe_def Let_def note_probe_def ledger_entry_def seeded_entry_def
        split: prod.split)

definition observations_of :: "string \<Rightarrow> probe_identity \<Rightarrow> observation list \<Rightarrow> observation list" where
  "observations_of key i obs = filter (\<lambda>ob. (ob_key ob, ob_identity ob) = (key, i)) obs"

definition protocol_state :: "trust_class \<Rightarrow> trust_class list \<Rightarrow> trust_class \<times> trust_class option" where
  "protocol_state recorded cs = fold (\<lambda>c s. spec_observe s c) cs (recorded, None)"

lemma protocol_state_snoc:
  "protocol_state r (cs @ [c]) = spec_observe (protocol_state r cs) c"
  by (simp add: protocol_state_def)

lemma fold_entry_abs:
  assumes "entry_ok e"
  shows "\<exists>e'. fold (\<lambda>ob e. Some (snd (entry_observe (ob_class ob) (ob_at ob)
               (seeded_entry (ob_recorded ob) e)))) obs (Some e) = Some e' \<and>
       entry_ok e' \<and> entry_abs e' = fold (\<lambda>c s. spec_observe s c) (map ob_class obs) (entry_abs e)"
  using assms
proof (induction obs arbitrary: e)
  case (Cons ob obs)
  then show ?case
    using Cons.IH[OF entry_observe_ok[OF Cons.prems, of "ob_class ob" "ob_at ob"]]
    by (simp add: seeded_entry_def entry_observe_abs)
qed simp

lemma ledger_after:
  assumes "observations_of key i obs = ob # rest"
  shows "\<exists>e. ledger_entry (fold observe_one obs ledger_new) (key, i) = Some e \<and> entry_ok e \<and>
       entry_abs e = protocol_state (ob_recorded ob) (map ob_class (ob # rest))"
proof -
  let ?start = "\<lparr>last_adopted_trust_class = ob_recorded ob, pending_escalation = None\<rparr>"
  let ?e = "snd (entry_observe (ob_class ob) (ob_at ob) ?start)"
  have ok: "entry_ok ?start" by (simp add: entry_ok_def)
  have abs: "entry_abs ?e = spec_observe (ob_recorded ob, None) (ob_class ob)"
    unfolding entry_observe_abs[OF ok] by (simp add: entry_abs_def)
  have start: "ledger_entry ledger_new (key, i) = None"
    by (simp add: ledger_entry_def ledger_new_def)
  show ?thesis
    using fold_entry_abs[OF entry_observe_ok[OF ok, of "ob_class ob" "ob_at ob"], of rest]
    unfolding ledger.entry_fold start assms[unfolded observations_of_def] protocol_state_def
    by (simp add: seeded_entry_def abs del: spec_observe.simps)
qed

lemma protocol_last:
  \<comment> \<open>a proposal is the last observation, and is above the class in force\<close>
  "cs \<noteq> [] \<Longrightarrow> (case protocol_state r cs of (a, c) \<Rightarrow>
      (a = last cs \<and> c = None) \<or> (c = Some (last cs) \<and> a < last cs))"
proof (induction cs rule: rev_induct)
  case (snoc x xs)
  then show ?case
    by (cases "protocol_state r xs") (auto simp: protocol_state_snoc)
qed simp

lemma protocol_flapping:
  "successively (\<noteq>) cs \<Longrightarrow> fst (protocol_state r cs) = Min (insert r (set cs))"
proof (induction cs rule: rev_induct)
  case Nil
  then show ?case by (simp add: protocol_state_def)
next
  case (snoc x xs)
  then have IH: "fst (protocol_state r xs) = Min (insert r (set xs))"
    and last: "xs \<noteq> [] \<Longrightarrow> last xs \<noteq> x"
    by (auto simp: successively_append_iff)
  obtain a c where ac: "protocol_state r xs = (a, c)" by force
  have "c \<noteq> Some x"
  proof (cases "xs = []")
    case True
    with ac show ?thesis by (simp add: protocol_state_def)
  next
    case False
    with protocol_last[of xs r] last ac show ?thesis by auto
  qed
  then have "fst (protocol_state r (xs @ [x])) = min x a"
    by (auto simp: protocol_state_snoc ac min_def)
  also have "\<dots> = Min (insert r (set (xs @ [x])))"
    using IH ac by (cases "xs = []") (simp_all add: min.commute min.left_commute)
  finally show ?case .
qed

subsection \<open>Properties\<close>

lemma adopted_after:
  "adopted_class (fold observe_one obs ledger_new) key i =
     (case observations_of key i obs of
        [] \<Rightarrow> None
      | ob # rest \<Rightarrow> Some (fst (protocol_state (ob_recorded ob) (map ob_class (ob # rest)))))"
proof (cases "observations_of key i obs")
  case Nil
  then have "ledger_entry (fold observe_one obs ledger_new) (key, i) = None"
    using ledger.entry_fold_other[of obs "(key, i)" ledger_new]
    by (auto simp: observations_of_def filter_empty_conv ledger_entry_def ledger_new_def)
  with Nil show ?thesis by (simp add: adopted_class_def ledger_entry_def)
next
  case (Cons ob rest)
  with ledger_after[OF Cons] show ?thesis
    by (auto simp: adopted_class_def ledger_entry_def entry_abs_def) (metis fst_conv)
qed

lemma entry_after_cases:
  fixes recorded :: trust_class and obs :: "observation list"
  defines "led \<equiv> fold observe_one obs ledger_new"
  shows "entry_ok (seeded_entry recorded (ledger_entry led (key, i)))"
    "entry_abs (seeded_entry recorded (ledger_entry led (key, i))) =
       (case observations_of key i obs of
          [] \<Rightarrow> (recorded, None)
        | ob # rest \<Rightarrow> protocol_state (ob_recorded ob) (map ob_class (ob # rest)))"
proof -
  have "entry_ok (seeded_entry recorded (ledger_entry led (key, i))) \<and>
    entry_abs (seeded_entry recorded (ledger_entry led (key, i))) =
       (case observations_of key i obs of
          [] \<Rightarrow> (recorded, None)
        | ob # rest \<Rightarrow> protocol_state (ob_recorded ob) (map ob_class (ob # rest)))"
  proof (cases "observations_of key i obs")
    case Nil
    then have "ledger_entry led (key, i) = None"
      using ledger.entry_fold_other[of obs "(key, i)" ledger_new]
      by (auto simp: observations_of_def filter_empty_conv ledger_entry_def ledger_new_def led_def)
    with Nil show ?thesis by (simp add: seeded_entry_def entry_ok_def entry_abs_def)
  next
    case (Cons ob rest)
    with ledger_after[OF Cons] show ?thesis
      by (auto simp: seeded_entry_def led_def)
  qed
  then show "entry_ok (seeded_entry recorded (ledger_entry led (key, i)))"
    "entry_abs (seeded_entry recorded (ledger_entry led (key, i))) =
       (case observations_of key i obs of
          [] \<Rightarrow> (recorded, None)
        | ob # rest \<Rightarrow> protocol_state (ob_recorded ob) (map ob_class (ob # rest)))"
    by blast+
qed

text \<open>C40: After any interleaving of observations of any dependencies by any probes, the trust class
  in force for one key and probe is what the escalation protocol gives on that pair's own
  observations, started from the class recorded at the first of them: a class no higher takes
  effect at once, a higher one only when observed twice in a row.\<close>

theorem ledger_follows_protocol:
  "adopted_class (fold observe_one obs ledger_new) key i =
     (case observations_of key i obs of
        [] \<Rightarrow> None
      | ob # rest \<Rightarrow> Some (fst (protocol_state (ob_recorded ob) (map ob_class (ob # rest)))))"
  by (rule adopted_after)

text \<open>An observation is reported as an escalation exactly when it is above the class in force
  and the immediately preceding observation of the same pair was of that same class.\<close>

theorem escalation_needs_two:
  "fst (observe key i recorded c at (fold observe_one obs ledger_new)) = Escalated f t \<longleftrightarrow>
     t = c \<and> f < t \<and> adopted_class (fold observe_one obs ledger_new) key i = Some f \<and>
     observations_of key i obs \<noteq> [] \<and> ob_class (last (observations_of key i obs)) = t"
proof (cases "observations_of key i obs")
  case Nil
  then show ?thesis
    unfolding observe_fst entry_observe_escalated[OF entry_after_cases(1)] entry_after_cases(2)
    by simp
next
  case (Cons ob rest)
  let ?s = "protocol_state (ob_recorded ob) (map ob_class (ob # rest))"
  have last: "(fst ?s = ob_class (last (ob # rest)) \<and> snd ?s = None) \<or>
      (snd ?s = Some (ob_class (last (ob # rest))) \<and> fst ?s < ob_class (last (ob # rest)))"
    using protocol_last[of "map ob_class (ob # rest)" "ob_recorded ob"]
    by (auto simp: last_map split: prod.splits)
  show ?thesis
    unfolding observe_fst entry_observe_escalated[OF entry_after_cases(1)] entry_after_cases(2)
      adopted_after Cons list.case
    using last by auto
qed

text \<open>A source whose observations never repeat a class twice in a row never gains trust: the
  class in force is the weakest of the recorded class and everything observed.\<close>

theorem flapping_never_escalates:
  assumes "observations_of key i obs = ob # rest"
    and "successively (\<noteq>) (map ob_class (observations_of key i obs))"
  shows "adopted_class (fold observe_one obs ledger_new) key i =
     Some (Min (insert (ob_recorded ob) (ob_class ` set (observations_of key i obs))))"
  using protocol_flapping[OF assms(2), of "ob_recorded ob"] assms(1)
  by (simp add: adopted_after)

definition sample_observations :: "observation list" where
  "sample_observations = map (\<lambda>c. \<lparr>ob_key = ''k'', ob_identity = ''https#0'',
     ob_recorded = Heuristic, ob_class = c, ob_at = 0\<rparr>)
     [Versioned, Heuristic, Versioned, Exact, Versioned]"

lemma sample_observations_of [simp]:
  "observations_of ''k'' ''https#0'' sample_observations = sample_observations"
  by (simp add: observations_of_def sample_observations_def)

lemma flapping_never_escalates_witness:
  "adopted_class (fold observe_one sample_observations ledger_new) ''k'' ''https#0'' = Some Heuristic"
proof -
  have split: "observations_of ''k'' ''https#0'' sample_observations =
      hd sample_observations # tl sample_observations"
    unfolding sample_observations_of by (simp add: sample_observations_def)
  have flaps: "successively (\<noteq>) (map ob_class (observations_of ''k'' ''https#0'' sample_observations))"
    unfolding sample_observations_of by (simp add: sample_observations_def)
  have "Min (insert (ob_recorded (hd sample_observations)) (ob_class ` set sample_observations))
      = Heuristic"
    by (simp add: sample_observations_def min_def less_eq_trust_class_def)
  then show ?thesis
    using flapping_never_escalates[OF split flaps] unfolding sample_observations_of by simp
qed

text \<open>A demotion is reported exactly when the observation is strictly below the class in force
  (the recorded class, for a pair not seen before), and it takes effect at once.\<close>

theorem demotion_is_immediate:
  "(fst (observe key i recorded c at (fold observe_one obs ledger_new)) = Demoted f t \<longleftrightarrow>
     t = c \<and> t < f \<and>
     f = (case adopted_class (fold observe_one obs ledger_new) key i of Some a \<Rightarrow> a | None \<Rightarrow> recorded)) \<and>
   (c \<le> f \<and> adopted_class (fold observe_one obs ledger_new) key i = Some f \<longrightarrow>
     adopted_class (snd (observe key i recorded c at (fold observe_one obs ledger_new))) key i = Some c)"
proof -
  let ?led = "fold observe_one obs ledger_new"
  let ?e = "seeded_entry recorded (ledger_entry ?led (key, i))"
  have f: "fst (entry_abs ?e) = (case adopted_class ?led key i of Some a \<Rightarrow> a | None \<Rightarrow> recorded)"
    unfolding entry_after_cases(2) adopted_after by (simp split: list.split)
  have after: "adopted_class (snd (observe key i recorded c at ?led)) key i =
      Some (fst (entry_abs (snd (entry_observe c at ?e))))"
    using ledger.entry_run_op[of "\<lparr>ob_key = key, ob_identity = i, ob_recorded = recorded,
        ob_class = c, ob_at = at\<rparr>" ?led "(key, i)"]
    by (simp add: adopted_class_def ledger_entry_def[symmetric] observe_one_def entry_abs_def)
  show ?thesis
    unfolding observe_fst entry_observe_demoted[OF entry_after_cases(1)] f after
      entry_observe_abs[OF entry_after_cases(1)]
    using f by (cases "entry_abs ?e") auto
qed

lemma demotion_is_immediate_witness:
  "fst (observe ''k'' ''https#0'' Heuristic Volatile 0 (fold observe_one sample_observations ledger_new))
     = Demoted Heuristic Volatile"
proof -
  have "adopted_class (fold observe_one sample_observations ledger_new) ''k'' ''https#0'' = Some Heuristic"
    unfolding adopted_after sample_observations_of
    by (simp add: sample_observations_def protocol_state_def less_eq_trust_class_def)
  then show ?thesis
    using demotion_is_immediate[of "''k''" "''https#0''" Heuristic Volatile 0 sample_observations
        Heuristic Volatile]
    by (simp add: less_trust_class_def)
qed

end
