(* ===== verification/Json.thy ===== *)
theory Json
  imports Prelude
begin

section \<open>JSON values\<close>

text \<open>
  The payloads of the execution IR are \<open>serde_json::Value\<close>s. The model keeps the variants the
  code inspects: a number is an unsigned 64-bit integer, a negative one, or a float, of which
  only the bit pattern is kept since no code reads it. An object is \<open>serde_json::Map\<close>,
  which in this build is a \<open>BTreeMap\<close>: a list sorted by key. The accessors are the ones
  the code calls on a \<open>Value\<close>.
\<close>

datatype json =
    JNull
  | JBool bool
  | JUInt u64
  | JNegInt int
  | JFloat u64
  | JStr string
  | JArr "json list"
  | JObj "(string, json) bmap"

fun json_get :: "json \<Rightarrow> string \<Rightarrow> json option" where
  "json_get (JObj m) k = map_of m k"
| "json_get _ k = None"

fun as_str :: "json \<Rightarrow> string option" where
  "as_str (JStr s) = Some s"
| "as_str _ = None"

fun as_u64 :: "json \<Rightarrow> u64 option" where
  "as_u64 (JUInt n) = Some n"
| "as_u64 _ = None"

fun as_bool :: "json \<Rightarrow> bool option" where
  "as_bool (JBool b) = Some b"
| "as_bool _ = None"

fun as_object :: "json \<Rightarrow> (string, json) bmap option" where
  "as_object (JObj m) = Some m"
| "as_object _ = None"

definition str_at :: "json \<Rightarrow> string \<Rightarrow> string option" where
  \<comment> \<open>\<open>payload.get(k).and_then(Value::as_str)\<close>\<close>
  "str_at v k = Option.bind (json_get v k) as_str"

definition u64_at :: "json \<Rightarrow> string \<Rightarrow> u64 option" where
  \<comment> \<open>\<open>payload.get(k).and_then(Value::as_u64)\<close>\<close>
  "u64_at v k = Option.bind (json_get v k) as_u64"

fun json_insert :: "string \<Rightarrow> json \<Rightarrow> json \<Rightarrow> json" where
  \<comment> \<open>insertion into \<open>as_object_mut()\<close>, a no-op on anything else\<close>
  "json_insert k v (JObj m) = JObj (bm_put k v m)"
| "json_insert k v j = j"

definition json_obj :: "(string \<times> json) list \<Rightarrow> json" where
  \<comment> \<open>the \<open>json!\<close> macro on an object literal, or a run of \<open>Map::insert\<close>\<close>
  "json_obj kvs = JObj (fold (\<lambda>(k, v). bm_put k v) kvs [])"

definition opt_field :: "string \<Rightarrow> json option \<Rightarrow> (string \<times> json) list" where
  \<comment> \<open>a field inserted only when a value is present\<close>
  "opt_field k v = (case v of None \<Rightarrow> [] | Some j \<Rightarrow> [(k, j)])"

lemma str_at_Some: "str_at v k = Some s \<longleftrightarrow> json_get v k = Some (JStr s)"
  by (cases "json_get v k"; cases "the (json_get v k)") (auto simp: str_at_def)

lemma json_get_insert:
  "json_get (json_insert k v (JObj m)) k' = (if k' = k then Some v else json_get (JObj m) k')"
  by simp

lemma map_of_fold_put:
  "map_of (fold (\<lambda>(k, v). bm_put k v) kvs m) k =
     (case map_of (rev kvs) k of None \<Rightarrow> map_of m k | Some v \<Rightarrow> Some v)"
  by (induction kvs arbitrary: m) (auto simp: map_of_append map_add_def split: option.splits)

lemma json_get_obj: "json_get (json_obj kvs) k = map_of (rev kvs) k"
  by (simp add: json_obj_def map_of_fold_put split: option.splits)

lemma bm_ok_fold_put: "bm_ok m \<Longrightarrow> bm_ok (fold (\<lambda>(k, v). bm_put k v) kvs m)"
  by (induction kvs arbitrary: m) auto

end
