(* ===== verification/Ir.thy ===== *)
theory Ir
  imports Validity Json
begin

section \<open>The execution IR: event kinds, coverage manifests, payloads, the envelope\<close>

text \<open>
  \<open>freshdag-core/src/ir/{kind,coverage,payload,envelope}.rs\<close>. The event kinds with their wire
  names; the wildcard patterns of coverage manifests and the predicate that decides whether a
  producer's silence can be trusted (\<open>declares_dischargeable\<close>); the decoding of a partial
  coverage declaration; the typed payloads with their decoders, written out as the derived
  deserialisers of the annotated structs behave on a \<open>Value\<close> (an object by field name, an
  array by position, a missing field an error unless it has a default, unknown fields ignored).
  The texts of serde's error messages are not under src/ and are a parameter (\<open>msg\<close>).
\<close>

subsection \<open>Event kinds\<close>

datatype event_kind =
    SessionStarted | SessionEnded | ComputationStarted | ComputationEnded
  | ToolInvoked | ToolCompleted | FsRead | FsWrite | FsStat | FsRename | FsUnlink | FsDirlist
  | ProcSpawn | ProcExit | NetConnect | NetFetch | ProbeChecked | ArtifactProduced | Diagnostic

fun event_wire :: "event_kind \<Rightarrow> string" where
  "event_wire SessionStarted = ''session.started''"
| "event_wire SessionEnded = ''session.ended''"
| "event_wire ComputationStarted = ''computation.started''"
| "event_wire ComputationEnded = ''computation.ended''"
| "event_wire ToolInvoked = ''tool.invoked''"
| "event_wire ToolCompleted = ''tool.completed''"
| "event_wire FsRead = ''fs.read''"
| "event_wire FsWrite = ''fs.write''"
| "event_wire FsStat = ''fs.stat''"
| "event_wire FsRename = ''fs.rename''"
| "event_wire FsUnlink = ''fs.unlink''"
| "event_wire FsDirlist = ''fs.dirlist''"
| "event_wire ProcSpawn = ''proc.spawn''"
| "event_wire ProcExit = ''proc.exit''"
| "event_wire NetConnect = ''net.connect''"
| "event_wire NetFetch = ''net.fetch''"
| "event_wire ProbeChecked = ''probe.checked''"
| "event_wire ArtifactProduced = ''artifact.produced''"
| "event_wire Diagnostic = ''diagnostic''"

text \<open>The derived \<open>Ord\<close>: declaration order.\<close>

fun event_index :: "event_kind \<Rightarrow> nat" where
  "event_index SessionStarted = 0" | "event_index SessionEnded = 1"
| "event_index ComputationStarted = 2" | "event_index ComputationEnded = 3"
| "event_index ToolInvoked = 4" | "event_index ToolCompleted = 5"
| "event_index FsRead = 6" | "event_index FsWrite = 7" | "event_index FsStat = 8"
| "event_index FsRename = 9" | "event_index FsUnlink = 10" | "event_index FsDirlist = 11"
| "event_index ProcSpawn = 12" | "event_index ProcExit = 13" | "event_index NetConnect = 14"
| "event_index NetFetch = 15" | "event_index ProbeChecked = 16"
| "event_index ArtifactProduced = 17" | "event_index Diagnostic = 18"

lemma event_index_inj: "event_index a = event_index b \<longleftrightarrow> a = b"
  by (cases a; cases b; simp)

lemma event_wire_inj: "event_wire a = event_wire b \<longleftrightarrow> a = b"
  by (cases a; cases b; simp)

instantiation event_kind :: linorder
begin

definition less_eq_event_kind :: "event_kind \<Rightarrow> event_kind \<Rightarrow> bool" where
  "less_eq_event_kind a b \<longleftrightarrow> event_index a \<le> event_index b"

definition less_event_kind :: "event_kind \<Rightarrow> event_kind \<Rightarrow> bool" where
  "less_event_kind a b \<longleftrightarrow> event_index a < event_index b"

instance
  by standard (auto simp: less_eq_event_kind_def less_event_kind_def event_index_inj)

end

subsection \<open>Coverage: patterns, partial declarations and the discharge predicate\<close>

type_synonym event_kind_pattern = string

definition pattern_matches :: "event_kind_pattern \<Rightarrow> event_kind \<Rightarrow> bool" where
  "pattern_matches p k =
     (let wire = event_wire k in
      case strip_suffix ''.*'' p of
        Some prefix \<Rightarrow>
          (case strip_prefix prefix wire of
             None \<Rightarrow> False
           | Some rest \<Rightarrow> starts_with ''.'' rest)
      | None \<Rightarrow> p = wire)"

datatype producer_role = Adapter | Observer | ProbeRole

datatype partial_reason = OverApproximates | UnderApproximates | BlindInScope

fun partial_reason_wire :: "partial_reason \<Rightarrow> string" where
  "partial_reason_wire OverApproximates = ''over-approximates''"
| "partial_reason_wire UnderApproximates = ''under-approximates''"
| "partial_reason_wire BlindInScope = ''blind-in-scope''"

fun reason_discharges :: "partial_reason \<Rightarrow> bool" where
  "reason_discharges OverApproximates = True"
| "reason_discharges UnderApproximates = False"
| "reason_discharges BlindInScope = False"

fun partial_reason_index :: "partial_reason \<Rightarrow> nat" where
  "partial_reason_index OverApproximates = 0"
| "partial_reason_index UnderApproximates = 1"
| "partial_reason_index BlindInScope = 2"

lemma partial_reason_index_inj: "partial_reason_index a = partial_reason_index b \<longleftrightarrow> a = b"
  by (cases a; cases b; simp)

instantiation partial_reason :: linorder
begin

definition less_eq_partial_reason :: "partial_reason \<Rightarrow> partial_reason \<Rightarrow> bool" where
  "less_eq_partial_reason a b \<longleftrightarrow> partial_reason_index a \<le> partial_reason_index b"

definition less_partial_reason :: "partial_reason \<Rightarrow> partial_reason \<Rightarrow> bool" where
  "less_partial_reason a b \<longleftrightarrow> partial_reason_index a < partial_reason_index b"

instance
  by standard (auto simp: less_eq_partial_reason_def less_partial_reason_def
      partial_reason_index_inj)

end

record partial_coverage =
  pc_reason :: partial_reason
  pc_note :: string

definition partial_coverage_new :: "partial_reason \<Rightarrow> string \<Rightarrow> partial_coverage" where
  "partial_coverage_new r n = \<lparr>pc_reason = r, pc_note = n\<rparr>"

definition from_legacy_note :: "string \<Rightarrow> partial_coverage" where
  "from_legacy_note n = partial_coverage_new UnderApproximates n"

definition pc_discharges :: "partial_coverage \<Rightarrow> bool" where
  "pc_discharges p = reason_discharges (pc_reason p)"

fun unit_enum_name :: "json \<Rightarrow> string option" where
  \<comment> \<open>a derived unit enum: its name as a string, or as the only key of an object, with null\<close>
  "unit_enum_name (JStr s) = Some s"
| "unit_enum_name (JObj [(s, JNull)]) = Some s"
| "unit_enum_name _ = None"

definition de_partial_reason :: "json \<Rightarrow> partial_reason option" where
  "de_partial_reason j =
     (case unit_enum_name j of
        None \<Rightarrow> None
      | Some s \<Rightarrow>
          if s = ''over-approximates'' then Some OverApproximates
          else if s = ''under-approximates'' then Some UnderApproximates
          else if s = ''blind-in-scope'' then Some BlindInScope
          else None)"

datatype pc_error =
    PcDuplicateField string
  | PcMissingReason
  | PcBadReason
  | PcBadNote
  | PcInvalidType

fun pc_visit_map ::
  "partial_reason option \<Rightarrow> string option \<Rightarrow> (string \<times> json) list \<Rightarrow> pc_error + partial_coverage" where
  "pc_visit_map r0 n0 [] =
     (case r0 of
        None \<Rightarrow> Inl PcMissingReason
      | Some r \<Rightarrow> Inr \<lparr>pc_reason = r, pc_note = (case n0 of None \<Rightarrow> [] | Some n \<Rightarrow> n)\<rparr>)"
| "pc_visit_map r0 n0 ((key, v) # rest) =
     (if key = ''reason''
      then (if r0 \<noteq> None then Inl (PcDuplicateField ''reason'')
            else case de_partial_reason v of
              None \<Rightarrow> Inl PcBadReason
            | Some r \<Rightarrow> pc_visit_map (Some r) n0 rest)
      else if key = ''note''
      then (if n0 \<noteq> None then Inl (PcDuplicateField ''note'')
            else case as_str v of
              None \<Rightarrow> Inl PcBadNote
            | Some n \<Rightarrow> pc_visit_map r0 (Some n) rest)
      else pc_visit_map r0 n0 rest)"

fun de_partial_coverage :: "json \<Rightarrow> pc_error + partial_coverage" where
  \<comment> \<open>the entries of an object are visited in document order, repeated keys included\<close>
  "de_partial_coverage (JStr s) = Inr (from_legacy_note s)"
| "de_partial_coverage (JObj entries) = pc_visit_map None None entries"
| "de_partial_coverage _ = Inl PcInvalidType"

type_synonym partial_map = "(string, partial_coverage) bmap"

definition partial_key_matches :: "string \<Rightarrow> event_kind \<Rightarrow> bool" where
  "partial_key_matches pat k \<longleftrightarrow> pat = event_wire k \<or> pattern_matches pat k"

definition matching_partial :: "partial_map \<Rightarrow> event_kind \<Rightarrow> partial_coverage list" where
  "matching_partial partial k = map snd (filter (\<lambda>(pat, e). partial_key_matches pat k) partial)"

definition declares_dischargeable ::
  "event_kind_pattern list \<Rightarrow> partial_map \<Rightarrow> event_kind \<Rightarrow> bool" where
  "declares_dischargeable emits partial k \<longleftrightarrow>
     list_ex (\<lambda>p. pattern_matches p k) emits \<and> list_all pc_discharges (matching_partial partial k)"

definition lookup_partial :: "partial_map \<Rightarrow> event_kind \<Rightarrow> partial_coverage option" where
  "lookup_partial partial k =
     (case map_of partial (event_wire k) of
        Some e \<Rightarrow> Some e
      | None \<Rightarrow> map_option snd (find (\<lambda>(pat, _). pattern_matches pat k) partial))"

record coverage_manifest =
  cm_producer :: string
  cm_version :: string
  cm_role :: producer_role
  cm_platforms :: "string list"
  cm_emits :: "event_kind_pattern list"
  cm_partial :: partial_map
  cm_capabilities :: "(string, json) bmap"
  cm_known_limitations :: "string list"

definition manifest_covers :: "coverage_manifest \<Rightarrow> event_kind \<Rightarrow> bool" where
  "manifest_covers m k = list_ex (\<lambda>p. pattern_matches p k) (cm_emits m)"

definition manifest_discharges :: "coverage_manifest \<Rightarrow> event_kind \<Rightarrow> bool" where
  "manifest_discharges m k = declares_dischargeable (cm_emits m) (cm_partial m) k"

definition manifest_partial_coverage :: "coverage_manifest \<Rightarrow> event_kind \<Rightarrow> partial_coverage option" where
  "manifest_partial_coverage m k = lookup_partial (cm_partial m) k"

definition manifest_partial_note :: "coverage_manifest \<Rightarrow> event_kind \<Rightarrow> string option" where
  "manifest_partial_note m k = map_option pc_note (manifest_partial_coverage m k)"

lemma pattern_matches_iff:
  "pattern_matches p k \<longleftrightarrow>
     (\<exists>q r. p = q @ ''.*'' \<and> event_wire k = q @ ''.'' @ r) \<or>
     ((\<nexists>q. p = q @ ''.*'') \<and> p = event_wire k)"
proof (cases "strip_suffix ''.*'' p")
  case None
  then have "\<nexists>q. p = q @ ''.*''"
    by (metis option.distinct(1) strip_suffix_Some_iff)
  with None show ?thesis by (auto simp: pattern_matches_def Let_def)
next
  case (Some q)
  then have "p = q @ ''.*''" by (simp add: strip_suffix_Some_iff)
  with Some show ?thesis
    by (auto simp: pattern_matches_def Let_def starts_with_iff strip_prefix_Some_iff
        split: option.splits dest: strip_prefix_Some_iff[THEN iffD2])
qed

lemma pattern_matches_wildcard: "pattern_matches (q @ ''.*'') k \<longleftrightarrow> (\<exists>r. event_wire k = q @ ''.'' @ r)"
  by (auto simp: pattern_matches_iff)

lemma wire_no_star: "event_wire k \<noteq> q @ ''.*''"
proof
  assume "event_wire k = q @ ''.*''"
  then have "last (event_wire k) = CHR ''*''" by simp
  then show False by (cases k) simp_all
qed

lemma pattern_matches_exact [simp]: "pattern_matches (event_wire k) k' \<longleftrightarrow> k = k'"
  by (auto simp: pattern_matches_iff wire_no_star event_wire_inj)

subsection \<open>What a declaration can and cannot do\<close>

lemma declares_dischargeable_iff:
  "declares_dischargeable emits partial k \<longleftrightarrow>
     (\<exists>p\<in>set emits. pattern_matches p k) \<and>
     (\<forall>(pat, e)\<in>set partial. partial_key_matches pat k \<longrightarrow> pc_reason e = OverApproximates)"
proof -
  have "reason_discharges r \<longleftrightarrow> r = OverApproximates" for r
    by (cases r) simp_all
  then show ?thesis
    by (auto simp: declares_dischargeable_def list_ex_iff list_all_iff matching_partial_def
        pc_discharges_def)
qed

lemma manifest_discharges_covers: "manifest_discharges m k \<Longrightarrow> manifest_covers m k"
  by (auto simp: manifest_discharges_def manifest_covers_def declares_dischargeable_def)

lemma pc_visit_map_discharges:
  assumes "pc_visit_map r0 n0 es = Inr p"
  shows "r0 = Some (pc_reason p) \<or>
    (r0 = None \<and> (\<exists>v. (''reason'', v) \<in> set es \<and> de_partial_reason v = Some (pc_reason p)))"
  using assms
  by (induction r0 n0 es rule: pc_visit_map.induct)
     (force split: if_splits option.splits)+

lemma de_partial_reason_over:
  "de_partial_reason v = Some OverApproximates \<longleftrightarrow> unit_enum_name v = Some ''over-approximates''"
  by (auto simp: de_partial_reason_def split: option.splits if_splits)

text \<open>Decoding a partial-coverage declaration fails closed. The only declaration that still
  discharges an observation obligation is an object with an explicit reason field that reads
  over-approximates; a bare string, a missing reason or an unknown reason never does.\<close>

theorem partial_decode_fail_closed:
  "(\<exists>p. de_partial_coverage j = Inr p \<and> pc_discharges p) \<longrightarrow>
   (\<exists>entries v. j = JObj entries \<and> (''reason'', v) \<in> set entries \<and>
      unit_enum_name v = Some ''over-approximates'')"
proof (intro impI, elim exE conjE)
  fix p assume d: "de_partial_coverage j = Inr p" and r: "pc_discharges p"
  from r have p: "pc_reason p = OverApproximates"
    by (cases "pc_reason p") (simp_all add: pc_discharges_def)
  from d show "\<exists>entries v. j = JObj entries \<and> (''reason'', v) \<in> set entries \<and>
      unit_enum_name v = Some ''over-approximates''"
  proof (cases j)
    case (JStr s)
    with d p show ?thesis by (auto simp: from_legacy_note_def partial_coverage_new_def)
  next
    case (JObj es)
    with d p pc_visit_map_discharges[of None None es p] show ?thesis
      by (auto simp: de_partial_reason_over)
  qed auto
qed

theorem partial_decode_fail_closed_witness:
  "\<exists>entries v. JObj [(''note'', JStr ''n''), (''reason'', JStr ''over-approximates'')] = JObj entries
     \<and> (''reason'', v) \<in> set entries \<and> unit_enum_name v = Some ''over-approximates''"
  by (rule partial_decode_fail_closed[THEN mp])
     (simp add: de_partial_reason_def pc_discharges_def)

subsection \<open>Typed payloads\<close>

datatype fs_read_kind = DirectRead | MmapPessimistic

record fs_read =
  fr_path :: string
  fr_size :: u64
  fr_hash :: "hash option"
  fr_follow_symlink_target :: "string option"
  fr_raw_path :: "string option"
  fr_read_kind :: fs_read_kind
  fr_impure :: bool

definition is_default_read_kind :: "fs_read_kind \<Rightarrow> bool" where
  "is_default_read_kind k \<longleftrightarrow> k = DirectRead"

datatype fs_write_mode = CreateMode | AppendMode | TruncateMode

record fs_write =
  fw_path :: string
  fw_size :: u64
  fw_hash :: "hash option"
  fw_mode :: fs_write_mode
  fw_raw_path :: "string option"

datatype tool_kind = Builtin | Mcp | Skill | Task | Bash

record tool_invoked =
  ti_tool_name :: string
  ti_tool_kind :: tool_kind
  ti_tool_input :: json
  ti_cwd :: "string option"

record tool_completed =
  tc_tool_output :: json
  tc_is_error :: bool
  tc_duration_ms :: u64

datatype typed_payload =
    FsReadPayload fs_read
  | FsWritePayload fs_write
  | ToolInvokedPayload tool_invoked
  | ToolCompletedPayload tool_completed

text \<open>
  A derived struct deserialiser on a \<open>Value\<close>: the fields of an object by name, the elements
  of an array by position (surplus elements are an error), nothing else. \<open>struct_fields\<close> gives
  the lookup by field name; a field is then read as required, optional (a missing field and
  \<open>null\<close> are both \<open>None\<close>) or defaulted.
\<close>

fun struct_fields :: "string list \<Rightarrow> json \<Rightarrow> (string \<rightharpoonup> json) option" where
  "struct_fields names (JObj m) = Some (map_of m)"
| "struct_fields names (JArr xs) =
     (if length xs \<le> length names then Some (map_of (zip names xs)) else None)"
| "struct_fields names _ = None"

definition req_field :: "(json \<Rightarrow> 'a option) \<Rightarrow> (string \<rightharpoonup> json) \<Rightarrow> string \<Rightarrow> 'a option" where
  "req_field dec m k = Option.bind (m k) dec"

definition maybe_field :: "(json \<Rightarrow> 'a option) \<Rightarrow> (string \<rightharpoonup> json) \<Rightarrow> string \<Rightarrow> 'a option option" where
  "maybe_field dec m k =
     (case m k of
        None \<Rightarrow> Some None
      | Some JNull \<Rightarrow> Some None
      | Some v \<Rightarrow> map_option Some (dec v))"

definition default_field :: "'a \<Rightarrow> (json \<Rightarrow> 'a option) \<Rightarrow> (string \<rightharpoonup> json) \<Rightarrow> string \<Rightarrow> 'a option" where
  "default_field d dec m k = (case m k of None \<Rightarrow> Some d | Some v \<Rightarrow> dec v)"

definition de_hash :: "json \<Rightarrow> hash option" where
  "de_hash v = (case as_str v of
      None \<Rightarrow> None
    | Some s \<Rightarrow> (case hash_parse s of Inl _ \<Rightarrow> None | Inr h \<Rightarrow> Some h))"

definition de_enum :: "(string \<times> 'a) list \<Rightarrow> json \<Rightarrow> 'a option" where
  "de_enum names v = Option.bind (unit_enum_name v) (map_of names)"

definition de_fs_read_kind :: "json \<Rightarrow> fs_read_kind option" where
  "de_fs_read_kind = de_enum [(''direct'', DirectRead), (''mmap-pessimistic'', MmapPessimistic)]"

definition de_fs_write_mode :: "json \<Rightarrow> fs_write_mode option" where
  "de_fs_write_mode =
     de_enum [(''create'', CreateMode), (''append'', AppendMode), (''truncate'', TruncateMode)]"

definition de_tool_kind :: "json \<Rightarrow> tool_kind option" where
  "de_tool_kind = de_enum [(''builtin'', Builtin), (''mcp'', Mcp), (''skill'', Skill),
     (''task'', Task), (''bash'', Bash)]"

definition de_fs_read :: "json \<Rightarrow> fs_read option" where
  "de_fs_read j =
     Option.bind (struct_fields [''path'', ''size'', ''hash'', ''follow_symlink_target'',
                   ''raw_path'', ''read_kind'', ''impure''] j) (\<lambda>m.
     Option.bind (req_field as_str m ''path'') (\<lambda>path.
     Option.bind (req_field as_u64 m ''size'') (\<lambda>sz.
     Option.bind (maybe_field de_hash m ''hash'') (\<lambda>h.
     Option.bind (maybe_field as_str m ''follow_symlink_target'') (\<lambda>target.
     Option.bind (maybe_field as_str m ''raw_path'') (\<lambda>raw.
     Option.bind (default_field DirectRead de_fs_read_kind m ''read_kind'') (\<lambda>kind.
     Option.bind (default_field False as_bool m ''impure'') (\<lambda>impure.
       Some \<lparr>fr_path = path, fr_size = sz, fr_hash = h, fr_follow_symlink_target = target,
             fr_raw_path = raw, fr_read_kind = kind, fr_impure = impure\<rparr>))))))))"

definition de_fs_write :: "json \<Rightarrow> fs_write option" where
  "de_fs_write j =
     Option.bind (struct_fields [''path'', ''size'', ''hash'', ''mode'', ''raw_path''] j) (\<lambda>m.
     Option.bind (req_field as_str m ''path'') (\<lambda>path.
     Option.bind (req_field as_u64 m ''size'') (\<lambda>sz.
     Option.bind (maybe_field de_hash m ''hash'') (\<lambda>h.
     Option.bind (req_field de_fs_write_mode m ''mode'') (\<lambda>mode.
     Option.bind (maybe_field as_str m ''raw_path'') (\<lambda>raw.
       Some \<lparr>fw_path = path, fw_size = sz, fw_hash = h, fw_mode = mode, fw_raw_path = raw\<rparr>))))))"

definition de_tool_invoked :: "json \<Rightarrow> tool_invoked option" where
  "de_tool_invoked j =
     Option.bind (struct_fields [''tool_name'', ''tool_kind'', ''tool_input'', ''cwd''] j) (\<lambda>m.
     Option.bind (req_field as_str m ''tool_name'') (\<lambda>name.
     Option.bind (req_field de_tool_kind m ''tool_kind'') (\<lambda>kind.
     Option.bind (req_field Some m ''tool_input'') (\<lambda>input.
     Option.bind (maybe_field as_str m ''cwd'') (\<lambda>cwd.
       Some \<lparr>ti_tool_name = name, ti_tool_kind = kind, ti_tool_input = input, ti_cwd = cwd\<rparr>)))))"

definition de_tool_completed :: "json \<Rightarrow> tool_completed option" where
  "de_tool_completed j =
     Option.bind (struct_fields [''tool_output'', ''is_error'', ''duration_ms''] j) (\<lambda>m.
     Option.bind (req_field Some m ''tool_output'') (\<lambda>out.
     Option.bind (req_field as_bool m ''is_error'') (\<lambda>err.
     Option.bind (req_field as_u64 m ''duration_ms'') (\<lambda>ms.
       Some \<lparr>tc_tool_output = out, tc_is_error = err, tc_duration_ms = ms\<rparr>))))"

subsection \<open>The event envelope\<close>

type_synonym uuid = "128 word"

record ir_event =
  ev_event_id :: uuid
  ev_producer :: string
  ev_producer_version :: string
  ev_session_id :: string
  ev_computation_id :: "computation_id option"
  ev_parent_id :: "uuid option"
  ev_causal_inputs :: "uuid list option"
  ev_ts :: instant
  ev_kind :: event_kind
  ev_payload :: json

datatype decode_error =
    DecodeUnsupported event_kind
  | DecodeMalformed string

definition typed_or :: "(event_kind \<Rightarrow> json \<Rightarrow> string) \<Rightarrow> ir_event \<Rightarrow> ('a \<Rightarrow> typed_payload)
    \<Rightarrow> (json \<Rightarrow> 'a option) \<Rightarrow> decode_error + typed_payload" where
  "typed_or msg e wrap dec =
     (case dec (ev_payload e) of
        None \<Rightarrow> Inl (DecodeMalformed (msg (ev_kind e) (ev_payload e)))
      | Some v \<Rightarrow> Inr (wrap v))"

definition decode_payload ::
  "(event_kind \<Rightarrow> json \<Rightarrow> string) \<Rightarrow> ir_event \<Rightarrow> decode_error + typed_payload" where
  "decode_payload msg e =
     (case ev_kind e of
        FsRead \<Rightarrow> typed_or msg e FsReadPayload de_fs_read
      | FsWrite \<Rightarrow> typed_or msg e FsWritePayload de_fs_write
      | ToolInvoked \<Rightarrow> typed_or msg e ToolInvokedPayload de_tool_invoked
      | ToolCompleted \<Rightarrow> typed_or msg e ToolCompletedPayload de_tool_completed
      | other \<Rightarrow> Inl (DecodeUnsupported other))"

definition typed_kind :: "typed_payload \<Rightarrow> event_kind" where
  "typed_kind p = (case p of FsReadPayload _ \<Rightarrow> FsRead | FsWritePayload _ \<Rightarrow> FsWrite
     | ToolInvokedPayload _ \<Rightarrow> ToolInvoked | ToolCompletedPayload _ \<Rightarrow> ToolCompleted)"

lemma decode_payload_kind: "decode_payload msg e = Inr p \<Longrightarrow> typed_kind p = ev_kind e"
  by (auto simp: decode_payload_def typed_or_def typed_kind_def
      split: event_kind.splits option.splits)

lemma decode_payload_unsupported_iff:
  "decode_payload msg e = Inl (DecodeUnsupported k) \<longleftrightarrow>
     k = ev_kind e \<and> k \<notin> {FsRead, FsWrite, ToolInvoked, ToolCompleted}"
  by (auto simp: decode_payload_def typed_or_def split: event_kind.splits option.splits)

lemma de_hash_wf: "de_hash v = Some h \<Longrightarrow> hash_wf h \<and> v = JStr (hash_display h)"
  by (cases v) (auto simp: de_hash_def hash_parse_Inr split: option.splits sum.splits)

end
