(* ===== verification/Certificate.thy ===== *)
theory Certificate
  imports Ir
begin

section \<open>Certificates and their invariants\<close>

text \<open>
  \<open>freshdag-core/src/certificate/mod.rs\<close> and \<open>computation/mod.rs\<close>: the certificate record and
  its parts, the two checks every certificate has to pass (\<open>check_invariants\<close>,
  \<open>check_coverage_deficit\<close>), how a violation is translated into emission
  (\<open>reason_mapping\<close>), and the derivation of computation and certificate identifiers. BLAKE3
  (\<open>hex\<close>, from bytes to the printed digest) and the JSON serialiser of a certificate
  (\<open>to_vec\<close>) are libraries the sources call: parameters.
\<close>

subsection \<open>Computations\<close>

record computation =
  comp_id :: computation_id
  comp_recipe :: "string option"
  comp_recipe_hash :: "hash option"
  comp_adapter :: string
  comp_started :: instant
  comp_ended :: instant

definition computation_id_derive ::
  "(string \<Rightarrow> string) \<Rightarrow> string \<Rightarrow> string \<Rightarrow> string \<Rightarrow> computation_id" where
  "computation_id_derive hex recipe_id_or_hash inputs rule_version =
     ''comp:'' @ hex (recipe_id_or_hash @ [char_of (0::nat)] @ inputs @ [char_of (0::nat)] @ rule_version)"

definition computation_id_as_hash :: "computation_id \<Rightarrow> hash option" where
  "computation_id_as_hash c =
     (case strip_prefix ''comp:'' c of
        None \<Rightarrow> None
      | Some digest \<Rightarrow> (case hash_new Blake3 digest of Inl _ \<Rightarrow> None | Inr h \<Rightarrow> Some h))"

lemma hash_new_wf [simp]: "hash_wf \<lparr>algo = a, digest_hex = d\<rparr> \<Longrightarrow> hash_new a d = Inr \<lparr>algo = a, digest_hex = d\<rparr>"
  by (simp add: hash_new_Inr)

lemma computation_id_as_hash_iff:
  "computation_id_as_hash c = Some h \<longleftrightarrow> algo h = Blake3 \<and> hash_wf h \<and> c = ''comp:'' @ digest_hex h"
  by (cases h) (auto simp: computation_id_as_hash_def hash_new_Inr strip_prefix_Some_iff
      split: option.splits sum.splits)

subsection \<open>The certificate\<close>

record produced_by =
  pb_computation_id :: computation_id
  pb_recipe :: "string option"
  pb_recipe_hash :: "hash option"
  pb_adapter :: string
  pb_started :: instant
  pb_ended :: instant

record comparator =
  cmp_name :: string
  cmp_config :: "json option"

record status =
  st_value :: validity_status
  st_checked :: instant
  st_reasons :: "validity_reason list"

record coverage_entry =
  ce_producer :: string
  ce_version :: string
  ce_role :: producer_role
  ce_emits :: "event_kind_pattern list"
  ce_partial :: partial_map
  ce_known_limitations :: "string list"

record certificate =
  ct_cert_id :: hash
  ct_schema :: string
  ct_artifact :: artifact
  ct_produced_by :: produced_by
  ct_depends_on :: "dependency list"
  ct_comparator :: "comparator option"
  ct_status :: status
  ct_observation_coverage :: "coverage_entry list"

definition certificate_schema_v0_1 :: string where
  "certificate_schema_v0_1 = ''freshdag.certificate/v0.1''"

definition entry_from_manifest :: "coverage_manifest \<Rightarrow> coverage_entry" where
  "entry_from_manifest m =
     \<lparr>ce_producer = cm_producer m, ce_version = cm_version m, ce_role = cm_role m,
      ce_emits = cm_emits m, ce_partial = cm_partial m,
      ce_known_limitations = cm_known_limitations m\<rparr>"

definition entry_covers :: "coverage_entry \<Rightarrow> event_kind \<Rightarrow> bool" where
  "entry_covers c k = list_ex (\<lambda>p. pattern_matches p k) (ce_emits c)"

definition entry_discharges :: "coverage_entry \<Rightarrow> event_kind \<Rightarrow> bool" where
  "entry_discharges c k = declares_dischargeable (ce_emits c) (ce_partial c) k"

definition discharges_subprocess_obligation :: "coverage_entry \<Rightarrow> bool" where
  "discharges_subprocess_obligation c \<longleftrightarrow> ce_role c = Observer \<and> entry_discharges c FsRead"

lemma entry_from_manifest_agree:
  "entry_covers (entry_from_manifest m) k = manifest_covers m k"
  "entry_discharges (entry_from_manifest m) k = manifest_discharges m k"
  by (simp_all add: entry_from_manifest_def entry_covers_def manifest_covers_def
      entry_discharges_def manifest_discharges_def)

subsection \<open>Violations\<close>

datatype invariant_error =
    SchemaMismatch string
  | CoverageDeficitError (deficit_tool_kind: string)
  | ProducerMissing (missing_producer: string)
  | ValidWithLowerTrust string trust_class
  | MissingRecipeHash validity_status
  | MissingReasons validity_status
  | NakedVolatile string
  | EmptyObservationCoverage

datatype reason_mapping = Downgrade reason_code | StructuralDefect

fun reason_mapping_of :: "invariant_error \<Rightarrow> reason_mapping" where
  "reason_mapping_of (CoverageDeficitError _) = Downgrade CoverageDeficit"
| "reason_mapping_of (ProducerMissing _) = Downgrade ProducerMissingFromCoverage"
| "reason_mapping_of (SchemaMismatch _) = StructuralDefect"
| "reason_mapping_of (ValidWithLowerTrust _ _) = StructuralDefect"
| "reason_mapping_of (MissingRecipeHash _) = StructuralDefect"
| "reason_mapping_of (MissingReasons _) = StructuralDefect"
| "reason_mapping_of (NakedVolatile _) = StructuralDefect"
| "reason_mapping_of EmptyObservationCoverage = StructuralDefect"

subsection \<open>The checks\<close>

definition check_invariants :: "certificate \<Rightarrow> invariant_error + unit" where
  "check_invariants c =
     (let value = st_value (ct_status c) in
      if ct_schema c \<noteq> certificate_schema_v0_1 then Inl (SchemaMismatch (ct_schema c))
      else if ct_observation_coverage c = [] then Inl EmptyObservationCoverage
      else res_bind
        (if value = Valid
         then check_all (\<lambda>dep. if dep_trust_class dep \<in> {Heuristic, Volatile}
                 then Some (ValidWithLowerTrust (dep_key dep) (dep_trust_class dep))
                 else None) (ct_depends_on c)
         else Inr ()) (\<lambda>_.
      if value \<in> {Valid, LikelyValid} \<and> pb_recipe_hash (ct_produced_by c) = None
      then Inl (MissingRecipeHash value)
      else if value \<noteq> Valid \<and> st_reasons (ct_status c) = []
      then Inl (MissingReasons value)
      else check_all (\<lambda>dep. if dep_trust_class dep = Volatile \<and> dep_ttl_seconds dep = None
              then Some (NakedVolatile (dep_key dep)) else None) (ct_depends_on c)))"

definition check_coverage_deficit :: "certificate \<Rightarrow> ir_event list \<Rightarrow> invariant_error + unit" where
  "check_coverage_deficit c events =
     (let declared = map ce_producer (ct_observation_coverage c) in
      res_bind (check_all (\<lambda>ev. if ev_producer ev \<notin> set declared
                  then Some (ProducerMissing (ev_producer ev)) else None) events) (\<lambda>_.
      if st_value (ct_status c) \<noteq> Valid then Inr ()
      else
        (let has_fs_covered_observer =
               list_ex discharges_subprocess_obligation (ct_observation_coverage c) in
         check_all (\<lambda>ev.
            if ev_kind ev \<noteq> ToolInvoked then None
            else case str_at (ev_payload ev) ''tool_kind'' of
                None \<Rightarrow> None
              | Some tool_kind \<Rightarrow>
                  if tool_kind \<in> {''bash'', ''task''} \<and> \<not> has_fs_covered_observer
                  then Some (CoverageDeficitError tool_kind) else None) events)))"

definition derive_cert_id ::
  "(string \<Rightarrow> string) \<Rightarrow> (certificate \<Rightarrow> 'je + string) \<Rightarrow> certificate \<Rightarrow> 'je + hash" where
  "derive_cert_id hex to_vec c =
     res_bind (to_vec (c\<lparr>ct_cert_id := zero_hash\<rparr>)) (\<lambda>bytes.
       Inr \<lparr>algo = Blake3, digest_hex = hex bytes\<rparr>)"

subsection \<open>Characterisations\<close>

definition spawns_subprocess :: "ir_event \<Rightarrow> bool" where
  "spawns_subprocess ev \<longleftrightarrow> ev_kind ev = ToolInvoked \<and>
     str_at (ev_payload ev) ''tool_kind'' \<in> {Some ''bash'', Some ''task''}"

lemma check_invariants_ok [gate_simps]:
  "check_invariants c = Inr () \<longleftrightarrow>
     ct_schema c = certificate_schema_v0_1 \<and>
     ct_observation_coverage c \<noteq> [] \<and>
     (st_value (ct_status c) = Valid \<longrightarrow>
        (\<forall>d\<in>set (ct_depends_on c). dep_trust_class d \<in> {Exact, Versioned})) \<and>
     (st_value (ct_status c) \<in> {Valid, LikelyValid} \<longrightarrow> pb_recipe_hash (ct_produced_by c) \<noteq> None) \<and>
     (st_value (ct_status c) \<noteq> Valid \<longrightarrow> st_reasons (ct_status c) \<noteq> []) \<and>
     (\<forall>d\<in>set (ct_depends_on c). is_consistent d)"
proof -
  have low: "t \<in> {Exact, Versioned} \<longleftrightarrow> t \<notin> {Heuristic, Volatile}" for t
    by (cases t) simp_all
  show ?thesis
    unfolding low
    by (auto simp: check_invariants_def Let_def is_consistent_def res_bind_Inr_iff
        split: if_splits)
qed

lemma check_coverage_ok [gate_simps]:
  "check_coverage_deficit c events = Inr () \<longleftrightarrow>
     (\<forall>ev\<in>set events. ev_producer ev \<in> ce_producer ` set (ct_observation_coverage c)) \<and>
     (st_value (ct_status c) = Valid \<longrightarrow>
        (\<exists>e\<in>set (ct_observation_coverage c). discharges_subprocess_obligation e) \<or>
        \<not> (\<exists>ev\<in>set events. spawns_subprocess ev))"
proof -
  have deficit: "(if ev_kind ev \<noteq> ToolInvoked then None
      else case str_at (ev_payload ev) ''tool_kind'' of None \<Rightarrow> None
        | Some tool_kind \<Rightarrow> if tool_kind \<in> {''bash'', ''task''} \<and> \<not> obs
            then Some (CoverageDeficitError tool_kind) else None) = None \<longleftrightarrow>
      obs \<or> \<not> spawns_subprocess ev" for ev obs
    by (auto simp: spawns_subprocess_def split: option.splits)
  show ?thesis
    unfolding check_coverage_deficit_def Let_def res_bind_Inr_iff
    by (simp only: check_all_Inr deficit list_ex_iff split: if_split) auto
qed

lemma check_coverage_error_kind:
  "check_coverage_deficit c events = Inl e \<Longrightarrow>
     (\<exists>p. e = ProducerMissing p) \<or> (\<exists>t. e = CoverageDeficitError t \<and> t \<in> {''bash'', ''task''})"
  by (auto simp: check_coverage_deficit_def Let_def res_bind_Inl_iff dest!: check_all_Inl
      split: option.splits if_splits)

text \<open>The certificate self-check accepts exactly the certificates with the expected schema, a
  non-empty observation coverage, no heuristic or volatile dependency behind a Valid status, a
  recipe hash behind a Valid or LikelyValid one, reasons behind every other one, and no volatile
  dependency without a time to live.\<close>

theorem check_invariants_iff:
  "check_invariants c = Inr () \<longleftrightarrow>
     ct_schema c = certificate_schema_v0_1 \<and>
     ct_observation_coverage c \<noteq> [] \<and>
     (st_value (ct_status c) = Valid \<longrightarrow>
        (\<forall>d\<in>set (ct_depends_on c). dep_trust_class d \<in> {Exact, Versioned})) \<and>
     (st_value (ct_status c) \<in> {Valid, LikelyValid} \<longrightarrow> pb_recipe_hash (ct_produced_by c) \<noteq> None) \<and>
     (st_value (ct_status c) \<noteq> Valid \<longrightarrow> st_reasons (ct_status c) \<noteq> []) \<and>
     (\<forall>d\<in>set (ct_depends_on c). is_consistent d)"
  by (rule check_invariants_ok)

text \<open>A certificate that claims Valid passes the coverage check on an event stream only when
  every producer of the stream is listed and either no bash or task tool ran or some listed
  producer is an observer that emits file reads, every matching partial declaration of which
  errs by over-approximation; for any other status only the listing of producers counts.\<close>

theorem coverage_deficit_iff:
  "check_coverage_deficit c events = Inr () \<longleftrightarrow>
     (\<forall>ev\<in>set events. ev_producer ev \<in> ce_producer ` set (ct_observation_coverage c)) \<and>
     (st_value (ct_status c) = Valid \<and> (\<exists>ev\<in>set events. spawns_subprocess ev) \<longrightarrow>
        (\<exists>e\<in>set (ct_observation_coverage c). ce_role e = Observer \<and>
           (\<exists>p\<in>set (ce_emits e). pattern_matches p FsRead) \<and>
           (\<forall>(pat, d)\<in>set (ce_partial e).
              partial_key_matches pat FsRead \<longrightarrow> pc_reason d = OverApproximates)))"
  unfolding check_coverage_ok discharges_subprocess_obligation_def entry_discharges_def
    declares_dischargeable_iff
  by blast

lemma derive_cert_id_idem:
  "derive_cert_id hex to_vec (c\<lparr>ct_cert_id := h\<rparr>) = derive_cert_id hex to_vec c"
  by (simp add: derive_cert_id_def)

subsection \<open>Sample certificates\<close>

definition sample_hash :: hash where
  "sample_hash = \<lparr>algo = Blake3, digest_hex = replicate 64 CHR ''a''\<rparr>"

definition sample_certificate :: "validity_status \<Rightarrow> coverage_entry list \<Rightarrow> certificate" where
  "sample_certificate value coverage =
     \<lparr>ct_cert_id = zero_hash, ct_schema = certificate_schema_v0_1,
      ct_artifact = \<lparr>artifact_id = ''a'', artifact_path = None, artifact_kind = ''file'',
        artifact_content_hash = sample_hash, artifact_size = 1\<rparr>,
      ct_produced_by = \<lparr>pb_computation_id = ''c'', pb_recipe = None, pb_recipe_hash = Some sample_hash,
        pb_adapter = ''p/1'', pb_started = 0, pb_ended = 1\<rparr>,
      ct_depends_on = [exact_file ''/x'' sample_hash 0], ct_comparator = None,
      ct_status = \<lparr>st_value = value, st_checked = 2, st_reasons = []\<rparr>,
      ct_observation_coverage = coverage\<rparr>"

definition adapter_entry :: coverage_entry where
  "adapter_entry = \<lparr>ce_producer = ''p'', ce_version = ''1'', ce_role = Adapter,
     ce_emits = [''fs.read'', ''tool.invoked''], ce_partial = [], ce_known_limitations = []\<rparr>"

definition bash_call :: ir_event where
  "bash_call = \<lparr>ev_event_id = 1, ev_producer = ''p'', ev_producer_version = ''1'', ev_session_id = ''s'',
     ev_computation_id = Some ''c'', ev_parent_id = None, ev_causal_inputs = None, ev_ts = 0,
     ev_kind = ToolInvoked, ev_payload = JObj [(''tool_kind'', JStr ''bash'')]\<rparr>"

lemma bash_call_spawns [simp]: "spawns_subprocess bash_call"
  by (simp add: spawns_subprocess_def bash_call_def str_at_def)

lemma adapter_entry_discharges_not [simp]: "\<not> discharges_subprocess_obligation adapter_entry"
  by (simp add: discharges_subprocess_obligation_def adapter_entry_def)

theorem check_invariants_iff_witness:
  "check_invariants (sample_certificate Valid [adapter_entry]) = Inr ()"
  unfolding check_invariants_iff by (simp add: sample_certificate_def exact_file_def is_consistent_def)

theorem coverage_deficit_iff_witness:
  "check_coverage_deficit (sample_certificate Valid [adapter_entry]) [bash_call] \<noteq> Inr ()"
proof -
  have "\<exists>ev\<in>set [bash_call]. spawns_subprocess ev" by simp
  moreover have "ce_role adapter_entry \<noteq> Observer"
    by (simp add: adapter_entry_def)
  ultimately show ?thesis
    unfolding coverage_deficit_iff by (auto simp: sample_certificate_def)
qed

end
