(* ===== verification/Engine_Coverage.thy ===== *)
theory Engine_Coverage
  imports Certificate
begin

section \<open>Coverage deficits, engine side (\<open>crates/freshdag-engine/src/coverage.rs\<close>)\<close>

text \<open>
  The effect kinds seen but declared by nobody, and the observation obligation of the bash and
  task tools. The engine evaluates both at every status; the certificate's own check repeats
  the second one for a Valid status, and the two agree by \<open>engine_and_certificate_agree\<close>.
\<close>

definition effect_kinds :: "event_kind list" where
  "effect_kinds = [FsRead, FsWrite, FsStat, FsRename, FsUnlink, FsDirlist, ProcSpawn, ProcExit,
     NetConnect, NetFetch]"

definition is_effect_kind :: "event_kind \<Rightarrow> bool" where
  "is_effect_kind k \<longleftrightarrow> k \<in> set effect_kinds"

definition effect_deficit :: "ir_event list \<Rightarrow> coverage_entry list \<Rightarrow> event_kind list" where
  "effect_deficit events coverage =
     bset (List.map_filter (\<lambda>event.
       if \<not> is_effect_kind (ev_kind event) then None
       else if \<not> list_ex (\<lambda>c. entry_covers c (ev_kind event)) coverage then Some (ev_kind event)
       else None) events)"

definition effect_deficit_detail :: "event_kind list \<Rightarrow> string" where
  "effect_deficit_detail deficit =
     ''uncovered-effect-kinds='' @ join_with '','' (map event_wire deficit)"

definition has_fs_covered_observer :: "coverage_entry list \<Rightarrow> bool" where
  "has_fs_covered_observer coverage = list_ex discharges_subprocess_obligation coverage"

definition obligation_detail :: "string list \<Rightarrow> string" where
  "obligation_detail tool_kinds =
     ''undischarged-observation-obligation tool_kind='' @ join_with '','' tool_kinds"

lemma is_effect_kind_wire:
  "is_effect_kind k \<longleftrightarrow>
     starts_with ''fs.'' (event_wire k) \<or> starts_with ''proc.'' (event_wire k) \<or>
     starts_with ''net.'' (event_wire k)"
  by (cases k; simp add: is_effect_kind_def effect_kinds_def starts_with_def)

lemma in_effect_deficit:
  "k \<in> set (effect_deficit events coverage) \<longleftrightarrow>
     is_effect_kind k \<and> (\<exists>ev\<in>set events. ev_kind ev = k) \<and>
     \<not> (\<exists>c\<in>set coverage. entry_covers c k)"
  by (auto simp: effect_deficit_def map_filter_def list_ex_iff split: if_splits)

text \<open>The effect deficit of a computation holds exactly the kinds of the fs, proc and net
  families that occur in its events and that no declared pattern of any coverage entry matches,
  once each and in the order of the kinds.\<close>

theorem effect_deficit_exact:
  "set (effect_deficit events coverage) =
     {k. (starts_with ''fs.'' (event_wire k) \<or> starts_with ''proc.'' (event_wire k) \<or>
          starts_with ''net.'' (event_wire k)) \<and>
         k \<in> ev_kind ` set events \<and>
         \<not> (\<exists>c\<in>set coverage. \<exists>p\<in>set (ce_emits c). pattern_matches p k)} \<and>
   sorted_wrt (<) (effect_deficit events coverage)"
proof -
  have "sorted_wrt (<) (effect_deficit events coverage)"
    by (simp add: effect_deficit_def strict_sorted_iff)
  then show ?thesis
    by (auto simp: in_effect_deficit is_effect_kind_wire entry_covers_def list_ex_iff)
qed

text \<open>For a certificate whose producers are all listed, the certificate's own coverage check
  accepts a Valid status exactly when the engine's obligation rule does: no bash or task tool
  ran, or some listed observer discharges the obligation.\<close>

theorem engine_and_certificate_agree:
  assumes "\<forall>ev\<in>set events. ev_producer ev \<in> ce_producer ` set (ct_observation_coverage c)"
    and "st_value (ct_status c) = Valid"
  shows "check_coverage_deficit c events = Inr () \<longleftrightarrow>
     has_fs_covered_observer (ct_observation_coverage c) \<or> \<not> (\<exists>ev\<in>set events. spawns_subprocess ev)"
  using assms by (auto simp: check_coverage_ok has_fs_covered_observer_def list_ex_iff)

theorem engine_and_certificate_agree_witness:
  "check_coverage_deficit (sample_certificate Valid [adapter_entry]) [bash_call] = Inr () \<longleftrightarrow> False"
  using engine_and_certificate_agree[of "[bash_call]" "sample_certificate Valid [adapter_entry]"]
  by (simp add: sample_certificate_def has_fs_covered_observer_def)
     (simp add: bash_call_def adapter_entry_def)

text \<open>The deficit is rendered in declaration order of the event kinds, not in the order of
  their wire strings: an uncovered process spawn precedes an uncovered network fetch.\<close>

theorem deficit_detail_not_wire_order:
  "effect_deficit_detail (bset [NetFetch, ProcSpawn]) =
     ''uncovered-effect-kinds=proc.spawn,net.fetch'' \<and>
   \<not> sorted (map event_wire (bset [NetFetch, ProcSpawn]))"
  by (simp add: effect_deficit_detail_def bset_def insort_key.simps less_eq_event_kind_def
      less_char_def less_eq_char_def)

end
