(* ===== verification/Seal.thy ===== *)
theory Seal
  imports Engine_Coverage
begin

section \<open>Sealing a certificate (\<open>crates/freshdag-engine/src/seal.rs\<close>, \<open>error.rs\<close>)\<close>

text \<open>
  Every certificate the engine emits is built by \<open>seal\<close>: aggregate the edge verdicts, run the
  coverage gate on the certificate, cap the status, order the reasons, and re-check the
  invariants before the id is derived. The lemmas give the sealed status in closed form, show
  that the internal audits of the function never reject a consistent evaluation, and that the
  result passes the certificate's own checks. The hash and the serialisation are parameters.
\<close>

subsection \<open>Errors\<close>

datatype inconsistency =
    \<comment> \<open>the self-audits, one constructor per message of the code\<close>
    LedgerPoisoned
  | ConflictWithoutEdge string
  | ArtifactScopedEdgeReason string reason_code
  | EdgeReasonsDisagree "string list" "string list"
  | ReasonMappingDisagrees invariant_error
  | ValidWithReasons nat
  | StatusWithoutReasons validity_status
  | CertIdDerivation string

datatype engine_error =
    UnknownArtifact artifact_id
  | AmbiguousArtifact artifact_id "computation_id list"
  | NondeterministicReplay
  | MalformedArtifactEvent artifact_id string
  | EngineMissingRecipeHash validity_status
  | MalformedCertificate invariant_error
  | CoverageAssemblyBug string
  | Aggregation aggregation_error
  | InternalInconsistency inconsistency

subsection \<open>Input\<close>

datatype coverage_authority = EngineAssembled | FromDocument

record edge_outcome =
  eo_dependency :: dependency
  eo_verdict :: edge_verdict
  eo_reason :: "(reason_code \<times> string option) option"

record seal_input =
  si_artifact :: artifact
  si_produced_by :: produced_by
  si_edges :: "edge_outcome list"
  si_artifact_reasons :: "validity_reason list"
  si_coverage :: "coverage_entry list"
  si_events :: "ir_event list"
  si_authority :: coverage_authority
  si_accounted_missing :: "string list"
  si_checked_at :: instant
  si_comparator :: "comparator option"

fun artifact_reason_rank :: "reason_code \<Rightarrow> nat" where
  "artifact_reason_rank CoverageDeficit = 0"
| "artifact_reason_rank ProducerMissingFromCoverage = 1"
| "artifact_reason_rank NoDependenciesObserved = 2"
| "artifact_reason_rank RecipeIdentityUnavailable = 3"
| "artifact_reason_rank UnprovenDependency = 4"
| "artifact_reason_rank _ = 255"

fun cap_at_unknown :: "validity_status \<Rightarrow> validity_status" where
  "cap_at_unknown Valid = UnknownStatus"
| "cap_at_unknown LikelyValid = UnknownStatus"
| "cap_at_unknown Stale = Stale"
| "cap_at_unknown UnknownStatus = UnknownStatus"

subsection \<open>The gate\<close>

record gate_outcome =
  gate_reasons :: "validity_reason list"
  gate_cap :: bool

definition unaccounted_producers :: "certificate \<Rightarrow> ir_event list \<Rightarrow> string list \<Rightarrow> string list" where
  "unaccounted_producers c events accounted_missing =
     bset (filter (\<lambda>p. p \<notin> set (map ce_producer (ct_observation_coverage c)) \<and>
                        p \<notin> set accounted_missing) (map ev_producer events))"

definition run_gate ::
  "certificate \<Rightarrow> ir_event list \<Rightarrow> coverage_authority \<Rightarrow> string list \<Rightarrow> engine_error + gate_outcome" where
  "run_gate c events authority accounted_missing =
     (let unaccounted = unaccounted_producers c events accounted_missing in
      if authority = EngineAssembled \<and> unaccounted \<noteq> []
      then Inl (CoverageAssemblyBug (hd unaccounted))
      else case check_coverage_deficit c events of
          Inr _ \<Rightarrow> Inr \<lparr>gate_reasons = [], gate_cap = False\<rparr>
        | Inl violation \<Rightarrow>
            (case reason_mapping_of violation of
               Downgrade code \<Rightarrow>
                 if code = ProducerMissingFromCoverage
                 then (case violation of
                         ProducerMissing producer \<Rightarrow>
                           if authority = EngineAssembled \<and> producer \<notin> set accounted_missing
                           then Inl (CoverageAssemblyBug producer)
                           else Inr \<lparr>gate_reasons =
                                  [\<lparr>dependency_key = [], reason = ProducerMissingFromCoverage,
                                    detail = Some (''producer='' @ producer)\<rparr>],
                                gate_cap = True\<rparr>
                       | _ \<Rightarrow> Inl (InternalInconsistency (ReasonMappingDisagrees violation)))
                 else Inr \<lparr>gate_reasons =
                        [\<lparr>dependency_key = [], reason = code,
                          detail = (case violation of
                              CoverageDeficitError tool_kind \<Rightarrow> Some (''tool_kind='' @ tool_kind)
                            | _ \<Rightarrow> None)\<rparr>],
                      gate_cap = True\<rparr>
             | StructuralDefect \<Rightarrow> Inl (MalformedCertificate violation)))"

subsection \<open>The seal\<close>

fun edge_reasons_of :: "edge_outcome list \<Rightarrow> engine_error + validity_reason list" where
  \<comment> \<open>the loop over the edges that collects \<open>edge_reasons\<close>\<close>
  "edge_reasons_of [] = Inr []"
| "edge_reasons_of (e # es) =
     (case eo_reason e of
        None \<Rightarrow> edge_reasons_of es
      | Some (code, d) \<Rightarrow>
          if is_artifact_scoped code
          then Inl (InternalInconsistency (ArtifactScopedEdgeReason (dep_key (eo_dependency e)) code))
          else res_bind (edge_reasons_of es) (\<lambda>rs.
                 Inr (\<lparr>dependency_key = dep_key (eo_dependency e), reason = code, detail = d\<rparr> # rs)))"

definition adopt_reason :: "validity_reason \<Rightarrow> validity_reason list \<Rightarrow> validity_reason list" where
  \<comment> \<open>push a reason unless its code is already there\<close>
  "adopt_reason r rs = (if list_ex (\<lambda>x. reason x = reason r) rs then rs else rs @ [r])"

definition capping_codes :: "reason_code set" where
  "capping_codes =
     {CoverageDeficit, ProducerMissingFromCoverage, RecipeIdentityUnavailable, UnprovenDependency}"

definition self_audit :: "validity \<Rightarrow> validity_reason list \<Rightarrow> engine_error + unit" where
  "self_audit aggregated edge_reasons =
     (let ours = bset (map dependency_key edge_reasons);
          theirs = bset (map dependency_key
                     (filter (\<lambda>r. \<not> is_artifact_scoped (reason r)) (validity_reasons aggregated)))
      in if validity_value aggregated \<noteq> Valid \<and> ours \<noteq> theirs
         then Inl (InternalInconsistency (EdgeReasonsDisagree ours theirs))
         else Inr ())"

definition unsealed :: "seal_input \<Rightarrow> validity_status \<Rightarrow> certificate" where
  \<comment> \<open>the one construction site\<close>
  "unsealed inp value =
     \<lparr>ct_cert_id = zero_hash, ct_schema = certificate_schema_v0_1, ct_artifact = si_artifact inp,
      ct_produced_by = si_produced_by inp, ct_depends_on = map eo_dependency (si_edges inp),
      ct_comparator = si_comparator inp,
      ct_status = \<lparr>st_value = value, st_checked = si_checked_at inp, st_reasons = []\<rparr>,
      ct_observation_coverage = si_coverage inp\<rparr>"

definition artifact_scoped_reasons ::
  "seal_input \<Rightarrow> validity \<Rightarrow> gate_outcome \<Rightarrow> validity_reason list" where
  \<comment> \<open>the artifact-scoped reasons: the engine's, the aggregate's, the gate's, the recipe's\<close>
  "artifact_scoped_reasons inp aggregated gate =
     (let adopted = fold adopt_reason
            (filter (\<lambda>r. is_artifact_scoped (reason r)) (validity_reasons aggregated))
            (si_artifact_reasons inp);
          gated = fold adopt_reason (gate_reasons gate) adopted
      in if pb_recipe_hash (si_produced_by inp) = None \<and>
            validity_value aggregated \<in> {Valid, LikelyValid} \<and>
            \<not> list_ex (\<lambda>r. reason r = RecipeIdentityUnavailable) gated
         then gated @ [\<lparr>dependency_key = [], reason = RecipeIdentityUnavailable, detail = None\<rparr>]
         else gated)"

definition seal ::
  "(string \<Rightarrow> string) \<Rightarrow> (certificate \<Rightarrow> string + string) \<Rightarrow> seal_input \<Rightarrow> engine_error + certificate" where
  "seal hex to_vec inp =
     (case aggregate (map eo_verdict (si_edges inp)) (map (dep_key \<circ> eo_dependency) (si_edges inp)) of
        Inl e \<Rightarrow> Inl (Aggregation e)
      | Inr aggregated \<Rightarrow>
          res_bind (edge_reasons_of (si_edges inp)) (\<lambda>edge_reasons.
          res_bind (self_audit aggregated edge_reasons) (\<lambda>_.
          let status_value = validity_value aggregated;
              c = unsealed inp status_value
          in res_bind (run_gate c (si_events inp) (si_authority inp) (si_accounted_missing inp)) (\<lambda>gate.
          let artifact_scoped = artifact_scoped_reasons inp aggregated gate;
              capped = (gate_cap gate \<or> list_ex (\<lambda>r. reason r \<in> capping_codes) artifact_scoped);
              final_status = (if capped then cap_at_unknown status_value else status_value);
              reasons = edge_reasons @ sort_key (\<lambda>r. artifact_reason_rank (reason r)) artifact_scoped
          in if final_status = Valid \<and> reasons \<noteq> []
             then Inl (InternalInconsistency (ValidWithReasons (length reasons)))
             else if final_status \<noteq> Valid \<and> reasons = []
             then Inl (InternalInconsistency (StatusWithoutReasons final_status))
             else if final_status \<in> {Valid, LikelyValid} \<and> pb_recipe_hash (si_produced_by inp) = None
             then Inl (EngineMissingRecipeHash final_status)
             else
              (let c = c\<lparr>ct_status := (ct_status c)\<lparr>st_value := final_status, st_reasons := reasons\<rparr>\<rparr> in
               case check_invariants c of
                 Inl violation \<Rightarrow> Inl (MalformedCertificate violation)
               | Inr _ \<Rightarrow>
                   (case derive_cert_id hex to_vec c of
                      Inl e \<Rightarrow> Inl (InternalInconsistency (CertIdDerivation e))
                    | Inr h \<Rightarrow> Inr (c\<lparr>ct_cert_id := h\<rparr>)))))))"

subsection \<open>Aggregation and the audits\<close>

definition worst_edge :: "edge_outcome list \<Rightarrow> validity_status" where
  "worst_edge es = (if es = [] then UnknownStatus else Min (to_status ` eo_verdict ` set es))"

definition edge_consistent :: "edge_outcome \<Rightarrow> bool" where
  \<comment> \<open>an edge carries a reason exactly when its verdict is not plainly fresh, and an edge-scoped one\<close>
  "edge_consistent e \<longleftrightarrow>
     (eo_reason e = None \<longleftrightarrow> to_status (eo_verdict e) = Valid) \<and>
     (\<forall>code d. eo_reason e = Some (code, d) \<longrightarrow> \<not> is_artifact_scoped code)"

definition edge_reason_list :: "edge_outcome list \<Rightarrow> validity_reason list" where
  "edge_reason_list = List.map_filter (\<lambda>e. map_option (\<lambda>(code, d).
     \<lparr>dependency_key = dep_key (eo_dependency e), reason = code, detail = d\<rparr>) (eo_reason e))"

lemma worst_edge_Valid_iff:
  "worst_edge es = Valid \<longleftrightarrow> es \<noteq> [] \<and> (\<forall>e\<in>set es. to_status (eo_verdict e) = Valid)"
proof (cases "es = []")
  case False
  then show ?thesis
    using edge_min.Min_eq_top_iff[of "eo_verdict ` set es"] by (simp add: worst_edge_def)
qed (simp add: worst_edge_def)

lemma to_status_Stale_iff [simp]: "to_status v = Stale \<longleftrightarrow> v = DriftVerdict"
proof (cases v)
  case (MatchVerdict c oc fp)
  then show ?thesis by (cases c) auto
qed auto

lemma worst_edge_Stale_iff: "worst_edge es = Stale \<longleftrightarrow> (\<exists>e\<in>set es. eo_verdict e = DriftVerdict)"
proof (cases "es = []")
  case False
  have "Min (to_status ` eo_verdict ` set es) = Stale \<longleftrightarrow>
      Min (to_status ` eo_verdict ` set es) \<le> Stale"
    by simp
  also have "\<dots> \<longleftrightarrow> (\<exists>e\<in>set es. to_status (eo_verdict e) \<le> Stale)"
    using False by (subst Min_le_iff) (auto simp del: le_Stale_iff to_status_Stale_iff)
  also have "\<dots> \<longleftrightarrow> (\<exists>e\<in>set es. eo_verdict e = DriftVerdict)"
    by simp
  finally show ?thesis using False by (simp add: worst_edge_def)
qed (simp add: worst_edge_def)

lemma seal_aggregate:
  "aggregate (map eo_verdict es) (map (dep_key \<circ> eo_dependency) es) =
     Inr \<lparr>validity_value = worst_edge es,
          validity_reasons =
            (if es = [] then [\<lparr>dependency_key = [], reason = NoDependenciesObserved, detail = None\<rparr>]
             else edge_reasons_spec (map eo_verdict es) (map (dep_key \<circ> eo_dependency) es))\<rparr>"
proof (cases "es = []")
  case True
  then show ?thesis by (simp add: aggregate_def worst_edge_def)
next
  case False
  then show ?thesis by (simp add: aggregate_eq worst_edge_def)
qed

lemma edge_reasons_of_Inr: "edge_reasons_of es = Inr rs \<Longrightarrow> rs = edge_reason_list es"
  by (induction es arbitrary: rs)
     (auto simp: edge_reason_list_def res_bind_Inr_iff
        split: option.splits prod.splits if_splits)

lemma edge_reasons_of_consistent:
  "(\<And>e. e \<in> set es \<Longrightarrow> edge_consistent e) \<Longrightarrow> edge_reasons_of es = Inr (edge_reason_list es)"
  by (induction es)
     (fastforce simp: edge_reason_list_def edge_consistent_def
        split: option.splits prod.splits)+

lemma edge_reasons_of_scoped:
  "edge_reasons_of es = Inr rs \<Longrightarrow> r \<in> set rs \<Longrightarrow> \<not> is_artifact_scoped (reason r)"
  by (induction es arbitrary: rs)
     (auto simp: res_bind_Inr_iff split: option.splits prod.splits if_splits)

lemma edge_reason_list_keys:
  "dependency_key ` set (edge_reason_list es) =
     (dep_key \<circ> eo_dependency) ` {e \<in> set es. eo_reason e \<noteq> None}"
  by (induction es) (auto simp: edge_reason_list_def split: option.splits prod.splits)

lemma edge_reason_list_Nil: "edge_reason_list es = [] \<longleftrightarrow> (\<forall>e\<in>set es. eo_reason e = None)"
  by (induction es) (auto simp: edge_reason_list_def split: option.splits)

lemma edge_reasons_spec_keys:
  "dependency_key ` set (edge_reasons_spec (map eo_verdict es) (map (dep_key \<circ> eo_dependency) es)) =
     (dep_key \<circ> eo_dependency) ` {e \<in> set es. to_status (eo_verdict e) \<noteq> Valid}"
proof (induction es)
  case (Cons e es)
  have one: "dependency_key ` set (verdict_reason v k) = (if to_status v = Valid then {} else {k})" for v k
    using verdict_reason_Nil[of v k] verdict_reason_edge_scoped[of _ v k]
    by (cases "verdict_reason v k") (auto simp: image_iff)
  show ?case
    using Cons by (auto simp: edge_reasons_spec_def image_Un one split: if_splits)
qed (simp add: edge_reasons_spec_def)

lemma filter_edge_reasons_spec:
  "filter (\<lambda>r. \<not> is_artifact_scoped (reason r)) (edge_reasons_spec vs ks) = edge_reasons_spec vs ks"
  "filter (\<lambda>r. is_artifact_scoped (reason r)) (edge_reasons_spec vs ks) = []"
  using edge_reasons_spec_scoped by (auto simp: filter_empty_conv filter_id_conv)

lemma self_audit_consistent:
  assumes "\<And>e. e \<in> set es \<Longrightarrow> edge_consistent e"
    and "aggregate (map eo_verdict es) (map (dep_key \<circ> eo_dependency) es) = Inr aggregated"
  shows "self_audit aggregated (edge_reason_list es) = Inr ()"
proof -
  have "{e \<in> set es. eo_reason e \<noteq> None} = {e \<in> set es. to_status (eo_verdict e) \<noteq> Valid}"
    by (intro Collect_cong conj_cong refl) (metis edge_consistent_def assms(1))
  moreover have "filter (\<lambda>r. \<not> is_artifact_scoped (reason r)) (validity_reasons aggregated) =
      edge_reasons_spec (map eo_verdict es) (map (dep_key \<circ> eo_dependency) es)"
    using assms(2) unfolding seal_aggregate
    by (cases "es = []") (auto simp: filter_edge_reasons_spec, simp add: edge_reasons_spec_def)
  ultimately have "bset (map dependency_key (edge_reason_list es)) =
      bset (map dependency_key (filter (\<lambda>r. \<not> is_artifact_scoped (reason r)) (validity_reasons aggregated)))"
    unfolding bset_eq_iff set_map by (simp only: edge_reason_list_keys edge_reasons_spec_keys)
  then show ?thesis by (simp add: self_audit_def)
qed

subsection \<open>The gate\<close>

lemma unaccounted_Nil:
  "unaccounted_producers c events accounted = [] \<longleftrightarrow>
     (\<forall>ev\<in>set events. ev_producer ev \<in> ce_producer ` set (ct_observation_coverage c) \<or>
                       ev_producer ev \<in> set accounted)"
  by (auto simp: unaccounted_producers_def filter_empty_conv)

lemma producer_missing_in_stream:
  "check_coverage_deficit c events = Inl (ProducerMissing p) \<Longrightarrow>
     \<exists>ev\<in>set events. ev_producer ev = p \<and> p \<notin> ce_producer ` set (ct_observation_coverage c)"
  by (auto simp: check_coverage_deficit_def Let_def res_bind_Inl_iff dest!: check_all_Inl
      split: option.splits if_splits)

lemma missing_producer_found:
  assumes "ev \<in> set events" "ev_producer ev \<notin> ce_producer ` set coverage"
  shows "\<exists>p. \<forall>c. ct_observation_coverage c = coverage \<longrightarrow>
     check_coverage_deficit c events = Inl (ProducerMissing p)"
proof -
  let ?f = "\<lambda>ev. if ev_producer ev \<notin> ce_producer ` set coverage
      then Some (ProducerMissing (ev_producer ev)) else None"
  have "first_error ?f events \<noteq> None"
    using assms by (auto simp: first_error_None simp del: not_None_eq)
  then obtain e where e: "first_error ?f events = Some e" by blast
  then obtain p where "e = ProducerMissing p"
    by (auto dest!: first_error_Some split: if_splits)
  with e have "\<forall>c. ct_observation_coverage c = coverage \<longrightarrow>
     check_coverage_deficit c events = Inl (ProducerMissing p)"
    by (simp add: check_coverage_deficit_def check_all_def Let_def)
  then show ?thesis ..
qed

lemma run_gate_total:
  assumes "authority = FromDocument \<or> unaccounted_producers c events accounted = []"
  shows "\<exists>gate. run_gate c events authority accounted = Inr gate"
proof (cases "check_coverage_deficit c events")
  case (Inr u)
  then show ?thesis using assms by (auto simp: run_gate_def Let_def)
next
  case (Inl violation)
  with check_coverage_error_kind[OF this] show ?thesis
  proof (elim disjE exE conjE)
    fix p assume p: "violation = ProducerMissing p"
    with Inl producer_missing_in_stream[of c events p] assms show ?thesis
      by (auto simp: run_gate_def Let_def unaccounted_Nil)
  next
    fix t assume "violation = CoverageDeficitError t"
    with Inl assms show ?thesis by (auto simp: run_gate_def Let_def)
  qed
qed

lemma run_gate_Inr:
  assumes "run_gate c events authority accounted = Inr gate"
  shows "gate_cap gate \<longleftrightarrow> check_coverage_deficit c events \<noteq> Inr ()"
    and "gate_reasons gate = [] \<longleftrightarrow> \<not> gate_cap gate"
    and "r \<in> set (gate_reasons gate) \<Longrightarrow> reason r \<in> {CoverageDeficit, ProducerMissingFromCoverage}"
    and "check_coverage_deficit c events = Inl (ProducerMissing p) \<Longrightarrow>
      gate_reasons gate = [\<lparr>dependency_key = [], reason = ProducerMissingFromCoverage,
        detail = Some (''producer='' @ p)\<rparr>]"
proof -
  have "(gate_cap gate \<longleftrightarrow> check_coverage_deficit c events \<noteq> Inr ()) \<and>
      (gate_reasons gate = [] \<longleftrightarrow> \<not> gate_cap gate) \<and>
      (\<forall>r\<in>set (gate_reasons gate). reason r \<in> {CoverageDeficit, ProducerMissingFromCoverage}) \<and>
      (\<forall>p. check_coverage_deficit c events = Inl (ProducerMissing p) \<longrightarrow>
        gate_reasons gate = [\<lparr>dependency_key = [], reason = ProducerMissingFromCoverage,
          detail = Some (''producer='' @ p)\<rparr>])"
  proof (cases "check_coverage_deficit c events")
    case (Inr u)
    with assms show ?thesis by (auto simp: run_gate_def Let_def split: if_splits)
  next
    case (Inl violation)
    with check_coverage_error_kind[OF this] assms show ?thesis
      by (auto simp: run_gate_def Let_def split: if_splits)
  qed
  then show "gate_cap gate \<longleftrightarrow> check_coverage_deficit c events \<noteq> Inr ()"
    and "gate_reasons gate = [] \<longleftrightarrow> \<not> gate_cap gate"
    and "r \<in> set (gate_reasons gate) \<Longrightarrow> reason r \<in> {CoverageDeficit, ProducerMissingFromCoverage}"
    and "check_coverage_deficit c events = Inl (ProducerMissing p) \<Longrightarrow>
      gate_reasons gate = [\<lparr>dependency_key = [], reason = ProducerMissingFromCoverage,
        detail = Some (''producer='' @ p)\<rparr>]"
    by blast+
qed

subsection \<open>The sealed certificate\<close>

lemma adopt_reason_codes [simp]: "reason ` set (adopt_reason r rs) = insert (reason r) (reason ` set rs)"
  by (auto simp: adopt_reason_def list_ex_iff intro: rev_image_eqI)

lemma fold_adopt_codes [simp]:
  "reason ` set (fold adopt_reason xs rs) = reason ` set xs \<union> reason ` set rs"
  by (induction xs arbitrary: rs) auto

definition must_cap :: "seal_input \<Rightarrow> bool" where
  \<comment> \<open>the evidence, other than the edges, that keeps a status at Unknown or below\<close>
  "must_cap inp \<longleftrightarrow>
     (\<exists>r\<in>set (si_artifact_reasons inp). reason r \<in> capping_codes) \<or>
     (\<exists>ev\<in>set (si_events inp). ev_producer ev \<notin> ce_producer ` set (si_coverage inp)) \<or>
     (worst_edge (si_edges inp) = Valid \<and> (\<exists>ev\<in>set (si_events inp). spawns_subprocess ev) \<and>
        \<not> has_fs_covered_observer (si_coverage inp)) \<or>
     pb_recipe_hash (si_produced_by inp) = None"

definition sealed_status :: "seal_input \<Rightarrow> validity_status" where
  "sealed_status inp =
     (if must_cap inp then cap_at_unknown (worst_edge (si_edges inp)) else worst_edge (si_edges inp))"

lemma unsealed_coverage_ok:
  "check_coverage_deficit (unsealed inp v) (si_events inp) = Inr () \<longleftrightarrow>
     (\<forall>ev\<in>set (si_events inp). ev_producer ev \<in> ce_producer ` set (si_coverage inp)) \<and>
     (v = Valid \<longrightarrow> has_fs_covered_observer (si_coverage inp) \<or>
        \<not> (\<exists>ev\<in>set (si_events inp). spawns_subprocess ev))"
  by (simp add: check_coverage_ok unsealed_def has_fs_covered_observer_def list_ex_iff)

lemma cap_at_unknown_usable: "cap_at_unknown s \<noteq> s \<longleftrightarrow> s \<in> {Valid, LikelyValid}"
  by (cases s) auto

lemma capped_status:
  assumes agg: "aggregate (map eo_verdict (si_edges inp)) (map (dep_key \<circ> eo_dependency) (si_edges inp))
      = Inr aggregated"
    and gate: "run_gate (unsealed inp (worst_edge (si_edges inp))) (si_events inp) (si_authority inp)
      (si_accounted_missing inp) = Inr gate"
  shows "(if gate_cap gate \<or> list_ex (\<lambda>r. reason r \<in> capping_codes)
              (artifact_scoped_reasons inp aggregated gate)
          then cap_at_unknown (worst_edge (si_edges inp)) else worst_edge (si_edges inp))
         = sealed_status inp"
proof -
  let ?w = "worst_edge (si_edges inp)"
  let ?agg = "reason ` set (filter (\<lambda>r. is_artifact_scoped (reason r)) (validity_reasons aggregated))"
  have val: "validity_value aggregated = ?w"
    using agg by (auto simp: seal_aggregate)
  have "?agg \<subseteq> {NoDependenciesObserved}"
    using agg unfolding seal_aggregate
    by (cases "si_edges inp = []") (auto simp add: filter_edge_reasons_spec simp del: set_filter)
  then have aggc: "?agg \<inter> capping_codes = {}"
    by (auto simp: capping_codes_def)
  have gc: "reason ` set (gate_reasons gate) \<inter> capping_codes \<noteq> {} \<longrightarrow> gate_cap gate"
    using run_gate_Inr(2)[OF gate] by auto
  have codes: "list_ex (\<lambda>r. reason r \<in> capping_codes) rs \<longleftrightarrow> reason ` set rs \<inter> capping_codes \<noteq> {}" for rs
    by (auto simp: list_ex_iff)
  define recipe where "recipe \<longleftrightarrow> pb_recipe_hash (si_produced_by inp) = None \<and> ?w \<in> {Valid, LikelyValid}"
  have list: "gate_cap gate \<or> list_ex (\<lambda>r. reason r \<in> capping_codes) (artifact_scoped_reasons inp aggregated gate)
      \<longleftrightarrow> gate_cap gate \<or> reason ` set (si_artifact_reasons inp) \<inter> capping_codes \<noteq> {} \<or> recipe"
  proof -
    let ?g = "fold adopt_reason (gate_reasons gate) (fold adopt_reason
        (filter (\<lambda>r. is_artifact_scoped (reason r)) (validity_reasons aggregated)) (si_artifact_reasons inp))"
    have g: "gate_cap gate \<or> reason ` set ?g \<inter> capping_codes \<noteq> {} \<longleftrightarrow>
        gate_cap gate \<or> reason ` set (si_artifact_reasons inp) \<inter> capping_codes \<noteq> {}"
      using aggc gc by (simp add: Int_Un_distrib2) blast
    have has: "list_ex (\<lambda>r. reason r = RecipeIdentityUnavailable) ?g \<Longrightarrow> reason ` set ?g \<inter> capping_codes \<noteq> {}"
      by (auto simp only: list_ex_iff capping_codes_def)
    show ?thesis
      unfolding codes artifact_scoped_reasons_def Let_def val recipe_def
      using g has by (auto simp: capping_codes_def simp del: fold_adopt_codes)
  qed
  have "gate_cap gate \<longleftrightarrow>
      (\<exists>ev\<in>set (si_events inp). ev_producer ev \<notin> ce_producer ` set (si_coverage inp)) \<or>
      (?w = Valid \<and> (\<exists>ev\<in>set (si_events inp). spawns_subprocess ev) \<and>
        \<not> has_fs_covered_observer (si_coverage inp))"
    unfolding run_gate_Inr(1)[OF gate] unsealed_coverage_ok by blast
  moreover have "reason ` set (si_artifact_reasons inp) \<inter> capping_codes \<noteq> {} \<longleftrightarrow>
      (\<exists>r\<in>set (si_artifact_reasons inp). reason r \<in> capping_codes)"
    by blast
  moreover have "pb_recipe_hash (si_produced_by inp) = None \<and> \<not> recipe \<Longrightarrow> cap_at_unknown ?w = ?w"
    using cap_at_unknown_usable[of ?w] by (auto simp: recipe_def)
  ultimately show ?thesis
    unfolding list sealed_status_def must_cap_def recipe_def by auto
qed

lemma check_invariants_cert_id: "check_invariants (c\<lparr>ct_cert_id := h\<rparr>) = check_invariants c"
  by (simp add: check_invariants_def Let_def cong: if_cong)

lemma check_coverage_cert_id:
  "check_coverage_deficit (c\<lparr>ct_cert_id := h\<rparr>) es = check_coverage_deficit c es"
  by (simp add: check_coverage_deficit_def Let_def cong: if_cong)

definition sealed_body :: "seal_input \<Rightarrow> validity_reason list \<Rightarrow> certificate" where
  "sealed_body inp rs = (unsealed inp (sealed_status inp))
     \<lparr>ct_status := \<lparr>st_value = sealed_status inp, st_checked = si_checked_at inp, st_reasons = rs\<rparr>\<rparr>"

definition sealed_reasons :: "seal_input \<Rightarrow> validity \<Rightarrow> gate_outcome \<Rightarrow> validity_reason list" where
  "sealed_reasons inp aggregated gate = edge_reason_list (si_edges inp) @
     sort_key (\<lambda>r. artifact_reason_rank (reason r)) (artifact_scoped_reasons inp aggregated gate)"

lemma seal_steps:
  assumes agg: "aggregate (map eo_verdict (si_edges inp)) (map (dep_key \<circ> eo_dependency) (si_edges inp))
      = Inr aggregated"
    and er: "edge_reasons_of (si_edges inp) = Inr (edge_reason_list (si_edges inp))"
    and gate: "run_gate (unsealed inp (worst_edge (si_edges inp))) (si_events inp) (si_authority inp)
      (si_accounted_missing inp) = Inr gate"
    and rs: "rs = sealed_reasons inp aggregated gate"
  shows "seal hex to_vec inp = res_bind (self_audit aggregated (edge_reason_list (si_edges inp))) (\<lambda>_.
      if sealed_status inp = Valid \<and> rs \<noteq> []
      then Inl (InternalInconsistency (ValidWithReasons (length rs)))
      else if sealed_status inp \<noteq> Valid \<and> rs = []
      then Inl (InternalInconsistency (StatusWithoutReasons (sealed_status inp)))
      else if sealed_status inp \<in> {Valid, LikelyValid} \<and> pb_recipe_hash (si_produced_by inp) = None
      then Inl (EngineMissingRecipeHash (sealed_status inp))
      else case check_invariants (sealed_body inp rs) of
          Inl violation \<Rightarrow> Inl (MalformedCertificate violation)
        | Inr _ \<Rightarrow>
            (case derive_cert_id hex to_vec (sealed_body inp rs) of
               Inl e \<Rightarrow> Inl (InternalInconsistency (CertIdDerivation e))
             | Inr h \<Rightarrow> Inr ((sealed_body inp rs)\<lparr>ct_cert_id := h\<rparr>)))"
proof -
  have val: "validity_value aggregated = worst_edge (si_edges inp)"
    using agg by (auto simp: seal_aggregate)
  have d: "sealed_body inp rs = (unsealed inp (worst_edge (si_edges inp)))\<lparr>ct_status :=
      (ct_status (unsealed inp (worst_edge (si_edges inp))))
        \<lparr>st_value := sealed_status inp, st_reasons := rs\<rparr>\<rparr>"
    by (simp add: sealed_body_def unsealed_def)
  show ?thesis
    unfolding d unfolding rs sealed_reasons_def
    by (simp only: seal_def agg sum.case er res_bind_simps val gate Let_def capped_status[OF agg gate])
qed

lemma seal_Inr:
  assumes "seal hex to_vec inp = Inr c"
  obtains aggregated gate where
    "aggregate (map eo_verdict (si_edges inp)) (map (dep_key \<circ> eo_dependency) (si_edges inp)) = Inr aggregated"
    "edge_reasons_of (si_edges inp) = Inr (edge_reason_list (si_edges inp))"
    "self_audit aggregated (edge_reason_list (si_edges inp)) = Inr ()"
    "run_gate (unsealed inp (worst_edge (si_edges inp))) (si_events inp) (si_authority inp)
       (si_accounted_missing inp) = Inr gate"
    "c = (sealed_body inp (sealed_reasons inp aggregated gate))\<lparr>ct_cert_id := ct_cert_id c\<rparr>"
    "check_invariants c = Inr ()"
    "derive_cert_id hex to_vec c = Inr (ct_cert_id c)"
proof -
  from assms obtain aggregated where agg: "aggregate (map eo_verdict (si_edges inp))
      (map (dep_key \<circ> eo_dependency) (si_edges inp)) = Inr aggregated"
    by (auto simp: seal_aggregate)
  have val: "validity_value aggregated = worst_edge (si_edges inp)"
    using agg by (auto simp: seal_aggregate)
  from assms obtain er where "edge_reasons_of (si_edges inp) = Inr er"
    unfolding seal_def agg by (auto simp: res_bind_Inr_iff)
  then have er: "edge_reasons_of (si_edges inp) = Inr (edge_reason_list (si_edges inp))"
    using edge_reasons_of_Inr by blast
  from assms obtain gate where gate: "run_gate (unsealed inp (worst_edge (si_edges inp))) (si_events inp)
      (si_authority inp) (si_accounted_missing inp) = Inr gate"
    unfolding seal_def agg by (auto simp: res_bind_Inr_iff val Let_def)
  define d where "d = sealed_body inp (sealed_reasons inp aggregated gate)"
  note steps = seal_steps[OF agg er gate refl, of hex to_vec, folded d_def]
  have audit: "self_audit aggregated (edge_reason_list (si_edges inp)) = Inr ()"
    and inv: "check_invariants d = Inr ()"
    and h: "\<exists>h. derive_cert_id hex to_vec d = Inr h \<and> c = d\<lparr>ct_cert_id := h\<rparr>"
    using assms unfolding steps by (auto simp: res_bind_Inr_iff split: if_splits sum.splits)
  from h obtain h where h: "derive_cert_id hex to_vec d = Inr h" "c = d\<lparr>ct_cert_id := h\<rparr>" by blast
  show thesis
    by (rule that[OF agg er audit gate])
       (simp_all add: h check_invariants_cert_id inv derive_cert_id_idem flip: d_def)
qed

lemma artifact_scoped_codes:
  "reason ` set (artifact_scoped_reasons inp aggregated gate) =
     reason ` set (si_artifact_reasons inp) \<union>
     reason ` set (filter (\<lambda>r. is_artifact_scoped (reason r)) (validity_reasons aggregated)) \<union>
     reason ` set (gate_reasons gate) \<union>
     (if pb_recipe_hash (si_produced_by inp) = None \<and> validity_value aggregated \<in> {Valid, LikelyValid}
      then {RecipeIdentityUnavailable} else {})"
proof -
  let ?g = "fold adopt_reason (gate_reasons gate) (fold adopt_reason
      (filter (\<lambda>r. is_artifact_scoped (reason r)) (validity_reasons aggregated)) (si_artifact_reasons inp))"
  have has: "list_ex (\<lambda>r. reason r = RecipeIdentityUnavailable) ?g \<longleftrightarrow>
      RecipeIdentityUnavailable \<in> reason ` set ?g"
    by (force simp only: list_ex_iff image_iff)
  have "reason ` set ?g = reason ` set (si_artifact_reasons inp) \<union>
      reason ` set (filter (\<lambda>r. is_artifact_scoped (reason r)) (validity_reasons aggregated)) \<union>
      reason ` set (gate_reasons gate)"
    unfolding fold_adopt_codes by blast
  then show ?thesis
    unfolding artifact_scoped_reasons_def Let_def has
    by (simp add: insert_absorb del: fold_adopt_codes set_filter)
qed

lemma sealed_fields:
  assumes "seal hex to_vec inp = Inr c"
  shows "st_value (ct_status c) = sealed_status inp"
    and "ct_observation_coverage c = si_coverage inp"
    and "ct_depends_on c = map eo_dependency (si_edges inp)"
    and "ct_produced_by c = si_produced_by inp"
    and "ct_artifact c = si_artifact inp"
    and "derive_cert_id hex to_vec c = Inr (ct_cert_id c)"
proof -
  obtain aggregated gate where
    c: "c = (sealed_body inp (sealed_reasons inp aggregated gate))\<lparr>ct_cert_id := ct_cert_id c\<rparr>"
    and h: "derive_cert_id hex to_vec c = Inr (ct_cert_id c)"
    using assms by (rule seal_Inr)
  show "derive_cert_id hex to_vec c = Inr (ct_cert_id c)" by (rule h)
  show "st_value (ct_status c) = sealed_status inp" "ct_observation_coverage c = si_coverage inp"
    "ct_depends_on c = map eo_dependency (si_edges inp)" "ct_produced_by c = si_produced_by inp"
    "ct_artifact c = si_artifact inp"
    by (subst c, simp add: sealed_body_def unsealed_def)+
qed

lemma sealed_status_Valid_iff:
  "sealed_status inp = Valid \<longleftrightarrow> worst_edge (si_edges inp) = Valid \<and> \<not> must_cap inp"
  by (cases "worst_edge (si_edges inp)") (auto simp: sealed_status_def)

lemma sealed_status_Stale_iff: "sealed_status inp = Stale \<longleftrightarrow> worst_edge (si_edges inp) = Stale"
  by (cases "worst_edge (si_edges inp)") (auto simp: sealed_status_def)

subsection \<open>The audits never fire\<close>

definition edge_wf :: "edge_outcome \<Rightarrow> bool" where
  "edge_wf e \<longleftrightarrow> edge_consistent e \<and> is_consistent (eo_dependency e) \<and>
     (\<forall>tc oc fp. eo_verdict e = MatchVerdict tc oc fp \<longrightarrow> tc = dep_trust_class (eo_dependency e))"

definition seal_ready :: "seal_input \<Rightarrow> bool" where
  \<comment> \<open>what the engine hands over: consistent edges, capping reasons only, coverage of its own\<close>
  "seal_ready inp \<longleftrightarrow>
     (\<forall>e\<in>set (si_edges inp). edge_wf e) \<and>
     (\<forall>r\<in>set (si_artifact_reasons inp). reason r \<in> capping_codes) \<and>
     si_coverage inp \<noteq> [] \<and>
     (si_authority inp = FromDocument \<or>
       (\<forall>ev\<in>set (si_events inp). ev_producer ev \<in> ce_producer ` set (si_coverage inp) \<or>
          ev_producer ev \<in> set (si_accounted_missing inp)))"

lemma sealed_reasons_Nil:
  assumes ready: "seal_ready inp"
    and agg: "aggregate (map eo_verdict (si_edges inp)) (map (dep_key \<circ> eo_dependency) (si_edges inp))
      = Inr aggregated"
    and gate: "run_gate (unsealed inp (worst_edge (si_edges inp))) (si_events inp) (si_authority inp)
      (si_accounted_missing inp) = Inr gate"
  shows "sealed_reasons inp aggregated gate = [] \<longleftrightarrow> sealed_status inp = Valid"
proof -
  let ?es = "si_edges inp"
  let ?scoped = "artifact_scoped_reasons inp aggregated gate"
  have val: "validity_value aggregated = worst_edge ?es"
    using agg by (auto simp: seal_aggregate)
  have codes: "?scoped = [] \<longleftrightarrow> si_artifact_reasons inp = [] \<and>
      filter (\<lambda>r. is_artifact_scoped (reason r)) (validity_reasons aggregated) = [] \<and>
      gate_reasons gate = [] \<and>
      \<not> (pb_recipe_hash (si_produced_by inp) = None \<and> worst_edge ?es \<in> {Valid, LikelyValid})"
    using arg_cong[OF artifact_scoped_codes[of inp aggregated gate], of "\<lambda>S. S = {}"]
    unfolding val by (simp del: set_filter split: if_splits)
  have agg_nil: "filter (\<lambda>r. is_artifact_scoped (reason r)) (validity_reasons aggregated) = [] \<longleftrightarrow> ?es \<noteq> []"
    using agg unfolding seal_aggregate
    by (cases "?es = []") (auto simp: filter_edge_reasons_spec)
  have gate_nil: "gate_reasons gate = [] \<longleftrightarrow>
      (\<forall>ev\<in>set (si_events inp). ev_producer ev \<in> ce_producer ` set (si_coverage inp)) \<and>
      (worst_edge ?es = Valid \<longrightarrow> has_fs_covered_observer (si_coverage inp) \<or>
        \<not> (\<exists>ev\<in>set (si_events inp). spawns_subprocess ev))"
    unfolding run_gate_Inr(2)[OF gate] run_gate_Inr(1)[OF gate] not_not unsealed_coverage_ok ..
  have edges: "edge_reason_list ?es = [] \<longleftrightarrow> (\<forall>e\<in>set ?es. to_status (eo_verdict e) = Valid)"
    unfolding edge_reason_list_Nil using ready by (auto simp: seal_ready_def edge_wf_def edge_consistent_def)
  have arts: "si_artifact_reasons inp = [] \<longleftrightarrow> \<not> (\<exists>r\<in>set (si_artifact_reasons inp). reason r \<in> capping_codes)"
    using ready by (cases "si_artifact_reasons inp") (auto simp: seal_ready_def)
  have sort_nil: "sort_key f xs = [] \<longleftrightarrow> xs = []" for f :: "validity_reason \<Rightarrow> nat" and xs
    by (metis length_0_conv length_sort)
  show ?thesis
    unfolding sealed_reasons_def append_is_Nil_conv sort_nil codes agg_nil edges arts gate_nil
      sealed_status_Valid_iff must_cap_def
    using worst_edge_Valid_iff[of ?es] by auto
qed

lemma seal_total:
  assumes ready: "seal_ready inp" and ser: "\<And>c. \<exists>s. to_vec c = Inr s"
  shows "\<exists>c. seal hex to_vec inp = Inr c"
proof -
  let ?es = "si_edges inp"
  obtain aggregated where agg: "aggregate (map eo_verdict ?es) (map (dep_key \<circ> eo_dependency) ?es) = Inr aggregated"
    by (simp add: seal_aggregate)
  have cons: "\<And>e. e \<in> set ?es \<Longrightarrow> edge_consistent e"
    using ready by (simp add: seal_ready_def edge_wf_def)
  have er: "edge_reasons_of ?es = Inr (edge_reason_list ?es)"
    using cons by (rule edge_reasons_of_consistent)
  have audit: "self_audit aggregated (edge_reason_list ?es) = Inr ()"
    using cons agg by (rule self_audit_consistent)
  have "si_authority inp = FromDocument \<or>
      unaccounted_producers (unsealed inp (worst_edge ?es)) (si_events inp) (si_accounted_missing inp) = []"
    using ready by (auto simp: seal_ready_def unaccounted_Nil unsealed_def)
  then obtain gate where gate: "run_gate (unsealed inp (worst_edge ?es)) (si_events inp) (si_authority inp)
      (si_accounted_missing inp) = Inr gate"
    using run_gate_total by blast
  let ?rs = "sealed_reasons inp aggregated gate"
  note nil = sealed_reasons_Nil[OF ready agg gate]
  have recipe: "sealed_status inp \<in> {Valid, LikelyValid} \<longrightarrow> pb_recipe_hash (si_produced_by inp) \<noteq> None"
    by (cases "worst_edge ?es") (auto simp: sealed_status_def must_cap_def)
  have classes: "dep_trust_class (eo_dependency e) \<in> {Exact, Versioned}"
    if "sealed_status inp = Valid" "e \<in> set ?es" for e
    using that ready
    by (auto simp: sealed_status_Valid_iff worst_edge_Valid_iff to_status_Valid_iff seal_ready_def edge_wf_def)
  have "check_invariants (sealed_body inp ?rs) = Inr ()"
    unfolding check_invariants_ok using nil recipe classes ready
    by (auto simp: sealed_body_def unsealed_def seal_ready_def edge_wf_def)
  moreover obtain h where "derive_cert_id hex to_vec (sealed_body inp ?rs) = Inr h"
    using ser by (metis derive_cert_id_def res_bind_simps(2))
  ultimately show ?thesis
    unfolding seal_steps[OF agg er gate refl] audit res_bind_simps
    using nil recipe by auto
qed

text \<open>C32: A sealed certificate is Valid exactly when there is at least one dependency edge, every
  edge was matched at recorded class Exact or Versioned, the recipe hash is known, no artifact
  reason of a capping code was raised, every producer in the event stream is listed in the
  coverage, and no bash or task tool ran without an observer that discharges it.\<close>

theorem sealed_valid_iff:
  assumes "seal hex to_vec inp = Inr c"
  shows "st_value (ct_status c) = Valid \<longleftrightarrow>
     si_edges inp \<noteq> [] \<and>
     (\<forall>e\<in>set (si_edges inp). \<exists>tc oc fp. eo_verdict e = MatchVerdict tc oc fp \<and> tc \<in> {Exact, Versioned}) \<and>
     pb_recipe_hash (si_produced_by inp) \<noteq> None \<and>
     (\<forall>r\<in>set (si_artifact_reasons inp). reason r \<notin> capping_codes) \<and>
     (\<forall>ev\<in>set (si_events inp). ev_producer ev \<in> ce_producer ` set (si_coverage inp)) \<and>
     (has_fs_covered_observer (si_coverage inp) \<or> \<not> (\<exists>ev\<in>set (si_events inp). spawns_subprocess ev))"
  unfolding sealed_fields[OF assms] sealed_status_Valid_iff worst_edge_Valid_iff must_cap_def
    to_status_Valid_iff
  by blast

text \<open>The status of a sealed certificate is Stale exactly when some edge drifted: no missing
  evidence hides a drift, and nothing else is reported as one.\<close>

theorem sealed_stale_iff:
  assumes "seal hex to_vec inp = Inr c"
  shows "st_value (ct_status c) = Stale \<longleftrightarrow> (\<exists>e\<in>set (si_edges inp). eo_verdict e = DriftVerdict)"
  unfolding sealed_fields[OF assms] sealed_status_Stale_iff worst_edge_Stale_iff ..


text \<open>A sealed certificate passes its own invariant check, carries the id derived from its
  content, and when it is Valid passes the coverage check on the event stream it was sealed
  over; at any status it fails that check only by a producer missing from the coverage, which
  its reasons then report.\<close>

theorem sealed_passes_checks:
  assumes "seal hex to_vec inp = Inr c"
  shows "check_invariants c = Inr () \<and> derive_cert_id hex to_vec c = Inr (ct_cert_id c) \<and>
     (st_value (ct_status c) = Valid \<longrightarrow> check_coverage_deficit c (si_events inp) = Inr ()) \<and>
     (\<forall>e. check_coverage_deficit c (si_events inp) = Inl e \<longrightarrow>
        (\<exists>p. e = ProducerMissing p) \<and>
        (\<exists>r\<in>set (st_reasons (ct_status c)). reason r = ProducerMissingFromCoverage))"
proof -
  let ?u = "unsealed inp (worst_edge (si_edges inp))"
  obtain aggregated gate where
    gate: "run_gate ?u (si_events inp) (si_authority inp) (si_accounted_missing inp) = Inr gate"
    and c: "c = (sealed_body inp (sealed_reasons inp aggregated gate))\<lparr>ct_cert_id := ct_cert_id c\<rparr>"
    and inv: "check_invariants c = Inr ()" "derive_cert_id hex to_vec c = Inr (ct_cert_id c)"
    using assms by (rule seal_Inr)
  have cov: "ct_observation_coverage c = si_coverage inp" and st: "st_value (ct_status c) = sealed_status inp"
    using sealed_fields[OF assms] by simp_all
  have valid: "check_coverage_deficit c (si_events inp) = Inr ()" if "sealed_status inp = Valid"
    using that unfolding check_coverage_ok cov st sealed_status_Valid_iff must_cap_def
      has_fs_covered_observer_def list_ex_iff by blast
  have missing: "(\<exists>p. e = ProducerMissing p) \<and>
      (\<exists>r\<in>set (st_reasons (ct_status c)). reason r = ProducerMissingFromCoverage)"
    if e: "check_coverage_deficit c (si_events inp) = Inl e" for e
  proof -
    have "\<not> (\<forall>ev\<in>set (si_events inp). ev_producer ev \<in> ce_producer ` set (si_coverage inp))"
      using e valid check_coverage_ok[of c "si_events inp"] st cov by force
    then obtain p where p: "check_coverage_deficit c (si_events inp) = Inl (ProducerMissing p)"
        "check_coverage_deficit ?u (si_events inp) = Inl (ProducerMissing p)"
      using missing_producer_found[of _ "si_events inp" "si_coverage inp"] cov
      by (fastforce simp: unsealed_def)
    have "ProducerMissingFromCoverage \<in> reason ` set (gate_reasons gate)"
      using run_gate_Inr(4)[OF gate p(2)] by simp
    then have "ProducerMissingFromCoverage \<in> reason ` set (st_reasons (ct_status c))"
      by (subst c) (simp add: sealed_body_def sealed_reasons_def image_Un artifact_scoped_codes)
    then have "\<exists>r\<in>set (st_reasons (ct_status c)). reason r = ProducerMissingFromCoverage"
      by (metis imageE)
    with p(1) e show ?thesis by auto
  qed
  show ?thesis
    unfolding st by (intro conjI impI allI inv valid) (use missing in auto)
qed

text \<open>C33: On an input with consistent edges, capping artifact reasons only, and every producer
  listed or accounted for, sealing always produces a certificate: none of its internal audits
  and structural checks rejects it.\<close>

theorem seal_succeeds:
  assumes "seal_ready inp" and "\<And>c. \<exists>s. to_vec c = Inr s"
  shows "\<exists>c. seal hex to_vec inp = Inr c"
  using assms by (rule seal_total)

text \<open>The reasons of a sealed certificate are those of its edges, in dependency order and none
  artifact-scoped, followed by the artifact-scoped ones in order of rank; every edge that is not
  plainly fresh is named among them whenever the certificate is not Valid.\<close>

theorem sealed_reasons_ordered:
  assumes "seal hex to_vec inp = Inr c"
  shows "\<exists>scoped. st_reasons (ct_status c) = edge_reason_list (si_edges inp) @ scoped \<and>
     (\<forall>r\<in>set (edge_reason_list (si_edges inp)). \<not> is_artifact_scoped (reason r)) \<and>
     sorted (map (\<lambda>r. artifact_reason_rank (reason r)) scoped) \<and>
     (st_value (ct_status c) \<noteq> Valid \<longrightarrow> st_reasons (ct_status c) \<noteq> []) \<and>
     (worst_edge (si_edges inp) \<noteq> Valid \<longrightarrow>
        (\<forall>e\<in>set (si_edges inp). to_status (eo_verdict e) \<noteq> Valid \<longrightarrow>
           (\<exists>r\<in>set (edge_reason_list (si_edges inp)).
              dependency_key r = dep_key (eo_dependency e))))"
proof -
  obtain aggregated gate where
    agg: "aggregate (map eo_verdict (si_edges inp)) (map (dep_key \<circ> eo_dependency) (si_edges inp)) = Inr aggregated"
    and er: "edge_reasons_of (si_edges inp) = Inr (edge_reason_list (si_edges inp))"
    and audit: "self_audit aggregated (edge_reason_list (si_edges inp)) = Inr ()"
    and c: "c = (sealed_body inp (sealed_reasons inp aggregated gate))\<lparr>ct_cert_id := ct_cert_id c\<rparr>"
    and inv: "check_invariants c = Inr ()"
    using assms by (rule seal_Inr)
  have rs: "st_reasons (ct_status c) = sealed_reasons inp aggregated gate"
    by (subst c) (simp add: sealed_body_def)
  have named: "\<exists>r\<in>set (edge_reason_list (si_edges inp)). dependency_key r = dep_key (eo_dependency e)"
    if w: "worst_edge (si_edges inp) \<noteq> Valid" and e: "e \<in> set (si_edges inp)" "to_status (eo_verdict e) \<noteq> Valid"
    for e
  proof -
    have "si_edges inp \<noteq> []" using e(1) by auto
    then have a: "validity_value aggregated = worst_edge (si_edges inp)" "validity_reasons aggregated =
        edge_reasons_spec (map eo_verdict (si_edges inp)) (map (dep_key \<circ> eo_dependency) (si_edges inp))"
      using agg by (auto simp: seal_aggregate)
    have "dependency_key ` set (edge_reason_list (si_edges inp)) =
        dependency_key ` set (edge_reasons_spec (map eo_verdict (si_edges inp))
          (map (dep_key \<circ> eo_dependency) (si_edges inp)))"
      using audit w by (simp add: self_audit_def a filter_edge_reasons_spec bset_eq_iff Let_def split: if_splits)
    then show ?thesis
      using e unfolding edge_reasons_spec_keys by (force simp: image_iff)
  qed
  have "st_value (ct_status c) \<noteq> Valid \<longrightarrow> st_reasons (ct_status c) \<noteq> []"
    using inv unfolding check_invariants_ok by blast
  moreover have "\<forall>r\<in>set (edge_reason_list (si_edges inp)). \<not> is_artifact_scoped (reason r)"
    using edge_reasons_of_scoped[OF er] by blast
  moreover have "sorted (map (\<lambda>r. artifact_reason_rank (reason r))
      (sort_key (\<lambda>r. artifact_reason_rank (reason r)) (artifact_scoped_reasons inp aggregated gate)))"
    by simp
  ultimately show ?thesis
    using named unfolding rs sealed_reasons_def by blast
qed

subsection \<open>Sample inputs\<close>

definition sample_edge :: "edge_verdict \<Rightarrow> (reason_code \<times> string option) option \<Rightarrow> edge_outcome" where
  "sample_edge v r = \<lparr>eo_dependency = exact_file ''/x'' sample_hash 0, eo_verdict = v, eo_reason = r\<rparr>"

definition sample_input :: "edge_outcome list \<Rightarrow> ir_event list \<Rightarrow> seal_input" where
  "sample_input es events =
     \<lparr>si_artifact = ct_artifact (sample_certificate Valid []),
      si_produced_by = ct_produced_by (sample_certificate Valid []),
      si_edges = es, si_artifact_reasons = [], si_coverage = [adapter_entry], si_events = events,
      si_authority = EngineAssembled, si_accounted_missing = [], si_checked_at = 5,
      si_comparator = None\<rparr>"

definition matched_edge :: edge_outcome where
  "matched_edge = sample_edge (MatchVerdict Exact Exact (dep_fingerprint (exact_file ''/x'' sample_hash 0))) None"

definition drifted_edge :: edge_outcome where
  "drifted_edge = sample_edge DriftVerdict (Some (Drift, None))"

lemma sample_ready:
  assumes "set es \<subseteq> {matched_edge, drifted_edge}" and "set events \<subseteq> {bash_call}"
  shows "seal_ready (sample_input es events)"
proof -
  have "edge_wf matched_edge" "edge_wf drifted_edge"
    by (auto simp: edge_wf_def edge_consistent_def matched_edge_def drifted_edge_def sample_edge_def
        is_consistent_def exact_file_def)
  moreover have "ev_producer bash_call = ce_producer adapter_entry"
    by (simp add: bash_call_def adapter_entry_def)
  ultimately show ?thesis
    using assms by (auto simp: seal_ready_def sample_input_def)
qed

lemma sample_sealed:
  assumes "set es \<subseteq> {matched_edge, drifted_edge}" and "set events \<subseteq> {bash_call}"
  obtains c where "seal (\<lambda>_. []) (\<lambda>_. Inr []) (sample_input es events) = Inr c"
  using seal_total[OF sample_ready[OF assms], of "\<lambda>_. Inr []" "\<lambda>_. []"] by blast

theorem sealed_valid_iff_witness:
  "\<exists>c d. seal (\<lambda>_. []) (\<lambda>_. Inr []) (sample_input [matched_edge] []) = Inr c \<and>
     st_value (ct_status c) = Valid \<and>
     seal (\<lambda>_. []) (\<lambda>_. Inr []) (sample_input [matched_edge] [bash_call]) = Inr d \<and>
     st_value (ct_status d) \<noteq> Valid"
proof -
  obtain c where c: "seal (\<lambda>_. []) (\<lambda>_. Inr []) (sample_input [matched_edge] []) = Inr c"
    by (rule sample_sealed[of "[matched_edge]" "[]"]) auto
  obtain d where d: "seal (\<lambda>_. []) (\<lambda>_. Inr []) (sample_input [matched_edge] [bash_call]) = Inr d"
    by (rule sample_sealed[of "[matched_edge]" "[bash_call]"]) auto
  have "st_value (ct_status c) = Valid"
    unfolding sealed_valid_iff[OF c]
    by (simp add: sample_input_def matched_edge_def sample_edge_def sample_certificate_def)
  moreover have "st_value (ct_status d) \<noteq> Valid"
    unfolding sealed_valid_iff[OF d]
    by (simp add: sample_input_def has_fs_covered_observer_def)
  ultimately show ?thesis using c d by blast
qed

theorem sealed_stale_iff_witness:
  "\<exists>c. seal (\<lambda>_. []) (\<lambda>_. Inr []) (sample_input [matched_edge, drifted_edge] [bash_call]) = Inr c \<and>
     st_value (ct_status c) = Stale"
proof -
  obtain c where c: "seal (\<lambda>_. []) (\<lambda>_. Inr []) (sample_input [matched_edge, drifted_edge] [bash_call]) = Inr c"
    by (rule sample_sealed[of "[matched_edge, drifted_edge]" "[bash_call]"]) auto
  moreover have "st_value (ct_status c) = Stale"
    unfolding sealed_stale_iff[OF c] by (simp add: sample_input_def drifted_edge_def sample_edge_def)
  ultimately show ?thesis by blast
qed

theorem sealed_passes_checks_witness:
  "\<exists>c. seal (\<lambda>_. []) (\<lambda>_. Inr []) (sample_input [matched_edge] []) = Inr c \<and>
     check_invariants c = Inr () \<and> check_coverage_deficit c [] = Inr ()"
proof -
  obtain c where c: "seal (\<lambda>_. []) (\<lambda>_. Inr []) (sample_input [matched_edge] []) = Inr c"
    by (rule sample_sealed[of "[matched_edge]" "[]"]) auto
  moreover have "check_coverage_deficit c [] = Inr ()"
    by (simp add: check_coverage_ok)
  ultimately show ?thesis using sealed_passes_checks[OF c] by blast
qed

theorem seal_succeeds_witness:
  "\<exists>c. seal (\<lambda>_. []) (\<lambda>_. Inr []) (sample_input [drifted_edge] [bash_call]) = Inr c"
  by (rule seal_succeeds) (auto intro!: sample_ready)

theorem sealed_reasons_ordered_witness:
  "\<exists>c r. seal (\<lambda>_. []) (\<lambda>_. Inr []) (sample_input [drifted_edge] []) = Inr c \<and>
     r \<in> set (st_reasons (ct_status c)) \<and> dependency_key r = ''file:///x''"
proof -
  obtain c where c: "seal (\<lambda>_. []) (\<lambda>_. Inr []) (sample_input [drifted_edge] []) = Inr c"
    by (rule sample_sealed[of "[drifted_edge]" "[]"]) auto
  have "worst_edge (si_edges (sample_input [drifted_edge] [])) \<noteq> Valid"
    by (simp add: sample_input_def worst_edge_def drifted_edge_def sample_edge_def)
  then have "\<exists>r\<in>set (st_reasons (ct_status c)). dependency_key r = dep_key (eo_dependency drifted_edge)"
    using sealed_reasons_ordered[OF c]
    by (auto simp: sample_input_def) (auto simp: drifted_edge_def sample_edge_def)
  then show ?thesis
    using c by (auto simp: drifted_edge_def sample_edge_def exact_file_def)
qed

end
