(* ===== verification/Determinism.thy ===== *)
theory Determinism
  imports Ir
begin

section \<open>Injected time and identity sources\<close>

text \<open>
  \<open>freshdag-core/src/determinism.rs\<close>: the deterministic clock and identifier generator. Words
  keep their widths; a UUID is a \<open>128 word\<close>, built from its sixteen bytes in big-endian order
  as \<open>Uuid::from_bytes\<close> does, so that the order of words is the byte-wise order of UUIDs. A
  panic is \<open>None\<close>. The arithmetic of the \<open>time\<close> crate on instants (\<open>tadd\<close>, \<open>None\<close>
  out of the representable range) is a parameter.
\<close>

definition conformance_epoch_unix_ms :: u64 where
  "conformance_epoch_unix_ms = 1767225600000"

record fixed_clock =
  fc_base :: instant
  fc_step :: int
  fc_calls :: u32

definition fixed_clock_new :: "instant \<Rightarrow> int \<Rightarrow> fixed_clock" where
  "fixed_clock_new base step = \<lparr>fc_base = base, fc_step = step, fc_calls = 0\<rparr>"

definition fixed_clock_conformance :: fixed_clock where
  "fixed_clock_conformance = fixed_clock_new (uint conformance_epoch_unix_ms * 1000000) 1000000"

definition fixed_clock_now ::
  "(instant \<Rightarrow> int \<Rightarrow> instant option) \<Rightarrow> fixed_clock \<Rightarrow> (instant \<times> fixed_clock) option" where
  \<comment> \<open>the counter is incremented with overflow checks, as in a debug build\<close>
  "fixed_clock_now tadd c =
     (let n = fc_calls c in
      if n = - 1 then None
      else map_option (\<lambda>t. (t, c\<lparr>fc_calls := n + 1\<rparr>)) (tadd (fc_base c) (fc_step c * uint n)))"

record seeded_id_gen =
  sg_epoch_ms :: u64
  sg_producer_tag :: u16
  sg_counter :: u32

definition seeded_new :: "u64 \<Rightarrow> u32 \<Rightarrow> seeded_id_gen" where
  "seeded_new epoch_ms start = \<lparr>sg_epoch_ms = epoch_ms, sg_producer_tag = 0, sg_counter = start\<rparr>"

definition seeded_conformance :: seeded_id_gen where
  "seeded_conformance = seeded_new conformance_epoch_unix_ms 1"

fun fnv1a :: "u64 \<Rightarrow> string \<Rightarrow> u64" where
  "fnv1a h [] = h"
| "fnv1a h (b # bs) = fnv1a ((xor h (of_char b)) * 0x100000001b3) bs"

definition producer_tag :: "string \<Rightarrow> u16" where
  "producer_tag producer =
     (let h = fnv1a 0xcbf29ce484222325 producer;
          low = xor (xor (xor h (drop_bit 16 h)) (drop_bit 32 h)) (drop_bit 48 h);
          folded = (ucast low :: u16)
      in 1 + folded mod (0xFFFF - 1))"

definition for_producer :: "string \<Rightarrow> seeded_id_gen" where
  "for_producer producer =
     \<lparr>sg_epoch_ms = conformance_epoch_unix_ms, sg_producer_tag = producer_tag producer,
      sg_counter = 1\<rparr>"

definition byte_at :: "'a::len word \<Rightarrow> nat \<Rightarrow> u8" where
  "byte_at w i = ucast (drop_bit (8 * i) w)"

definition be_bytes :: "nat \<Rightarrow> 'a::len word \<Rightarrow> u8 list" where
  \<comment> \<open>the low \<open>n\<close> bytes of a word, big-endian\<close>
  "be_bytes n w = map (byte_at w) (rev [0..<n])"

definition uuid_from_bytes :: "u8 list \<Rightarrow> uuid" where
  "uuid_from_bytes bs = foldl (\<lambda>acc b. acc * 256 + ucast b) 0 bs"

definition seeded_bytes :: "seeded_id_gen \<Rightarrow> u8 list" where
  "seeded_bytes g =
     be_bytes 6 (sg_epoch_ms g) @ [0x70, 0x00, 0x80, 0x00] @
     be_bytes 2 (sg_producer_tag g) @ be_bytes 4 (sg_counter g)"

definition seeded_next_id :: "seeded_id_gen \<Rightarrow> (uuid \<times> seeded_id_gen) option" where
  "seeded_next_id g =
     (if sg_counter g = - 1 then None
      else Some (uuid_from_bytes (seeded_bytes g), g\<lparr>sg_counter := sg_counter g + 1\<rparr>))"

fun seeded_ids :: "nat \<Rightarrow> seeded_id_gen \<Rightarrow> (uuid list \<times> seeded_id_gen) option" where
  \<comment> \<open>the identifiers of a run of events\<close>
  "seeded_ids 0 g = Some ([], g)"
| "seeded_ids (Suc n) g =
     (case seeded_next_id g of
        None \<Rightarrow> None
      | Some (i, g') \<Rightarrow> map_option (\<lambda>(is, g''). (i # is, g'')) (seeded_ids n g'))"

subsection \<open>The value of an identifier\<close>

lemma unat_less: "unat w < 2 ^ LENGTH('a)" for w :: "'a::len word"
  by (rule unsigned_less)

lemma unat_byte_at: "unat (byte_at w i) = unat w div 2 ^ (8 * i) mod 256"
proof -
  have "unat (drop_bit (8 * i) w) = unat w div 2 ^ (8 * i)"
    by (subst unat_drop_bit_eq) (rule drop_bit_eq_div)
  then show ?thesis
    by (simp add: byte_at_def unsigned_ucast_eq take_bit_eq_mod)
qed

lemma fold_be_bytes:
  "foldl (\<lambda>a b. a * 256 + unat b) a (be_bytes n w) = a * 2 ^ (8 * n) + unat w mod 2 ^ (8 * n)"
proof (induction n arbitrary: a)
  case (Suc n)
  let ?q = "unat w div 2 ^ (8 * n) mod 256"
  have "unat w mod 2 ^ (8 * Suc n) = unat w mod (2 ^ (8 * n) * 256)"
    by (simp add: power_add mult.commute)
  also have "\<dots> = 2 ^ (8 * n) * ?q + unat w mod 2 ^ (8 * n)"
    by (rule mod_mult2_eq)
  finally have split: "unat w mod 2 ^ (8 * Suc n) = 2 ^ (8 * n) * ?q + unat w mod 2 ^ (8 * n)" .
  have "be_bytes (Suc n) w = byte_at w n # be_bytes n w"
    by (simp add: be_bytes_def)
  then have "foldl (\<lambda>a b. a * 256 + unat b) a (be_bytes (Suc n) w) =
      (a * 256 + ?q) * 2 ^ (8 * n) + unat w mod 2 ^ (8 * n)"
    by (simp add: Suc.IH unat_byte_at)
  then show ?case
    by (simp only: split) (simp add: power_add algebra_simps)
qed (simp add: be_bytes_def)

lemma be_bytes_length [simp]: "length (be_bytes n w) = n"
  by (simp add: be_bytes_def)

lemma unat_fold_bytes:
  fixes acc :: uuid and bs :: "u8 list"
  assumes "(unat acc + 1) * 256 ^ length bs \<le> 2 ^ 128"
  shows "unat (foldl (\<lambda>acc b. acc * 256 + ucast b) acc bs) =
    foldl (\<lambda>a b. a * 256 + unat b) (unat acc) bs"
  using assms
proof (induction bs arbitrary: acc)
  case (Cons b bs)
  have b: "unat b < 256"
    by (rule order.strict_trans2[OF unat_less]) simp
  have le: "(unat acc + 1) * 256 * 256 ^ length bs \<le> 2 ^ 128"
    using Cons.prems by (simp only: list.size power_Suc add_Suc_right add_0_right mult.assoc)
  have "(unat acc + 1) * 256 * 1 \<le> (unat acc + 1) * 256 * 256 ^ length bs"
    by (intro mult_le_mono) simp_all
  then have "(unat acc + 1) * 256 \<le> 2 ^ 128"
    using le by (simp only: mult_1_right)
  then have small: "unat acc * 256 + 256 \<le> 2 ^ 128"
    by (simp only: distrib_right mult_1)
  have "unat (acc * 256 + ucast b) = (unat acc * 256 + unat b) mod 2 ^ 128"
    by (simp add: unat_word_ariths unsigned_ucast_eq take_bit_eq_mod mod_simps b)
  then have step: "unat (acc * 256 + ucast b) = unat acc * 256 + unat b"
    using small b by simp
  have "(unat acc * 256 + unat b + 1) * 256 ^ length bs \<le> (unat acc + 1) * 256 * 256 ^ length bs"
    using b by (intro mult_le_mono1) simp
  then have "(unat (acc * 256 + ucast b) + 1) * 256 ^ length bs \<le> 2 ^ 128"
    using le by (simp only: step)
  then show ?case
    by (simp add: Cons.IH step)
qed simp

definition seeded_value :: "seeded_id_gen \<Rightarrow> nat" where
  "seeded_value g = ((unat (sg_epoch_ms g) mod 2 ^ 48 * 2 ^ 32 + 0x70008000) * 2 ^ 16
      + unat (sg_producer_tag g)) * 2 ^ 32 + unat (sg_counter g)"

lemma unat_seeded: "unat (uuid_from_bytes (seeded_bytes g)) = seeded_value g"
proof -
  have "unat (sg_producer_tag g) < 2 ^ 16" "unat (sg_counter g) < 2 ^ 32"
    by (rule order.strict_trans2[OF unat_less], simp)+
  then show ?thesis
    unfolding uuid_from_bytes_def seeded_bytes_def
    by (subst unat_fold_bytes) (simp_all add: fold_be_bytes seeded_value_def)
qed

subsection \<open>Properties of a run of identifiers\<close>

definition uuid_version :: "uuid \<Rightarrow> uuid" where
  "uuid_version u = take_bit 4 (drop_bit 76 u)"

definition uuid_variant :: "uuid \<Rightarrow> uuid" where
  "uuid_variant u = take_bit 2 (drop_bit 62 u)"

definition uuid_tag :: "uuid \<Rightarrow> u16" where
  "uuid_tag u = ucast (drop_bit 32 u)"

lemma seeded_value_decode:
  assumes "unat u = seeded_value g"
  shows "uuid_version u = 7" "uuid_variant u = 2" "uuid_tag u = sg_producer_tag g"
proof -
  have t: "unat (sg_producer_tag g) < 65536"
    by (rule order.strict_trans2[OF unat_less]) simp
  have c: "unat (sg_counter g) < 4294967296"
    by (rule order.strict_trans2[OF unat_less]) simp
  let ?e = "unat (sg_epoch_ms g) mod 2 ^ 48"
  have v: "unat u = ((?e * 2 ^ 32 + 0x70008000) * 2 ^ 16 + unat (sg_producer_tag g)) * 2 ^ 32
      + unat (sg_counter g)"
    using assms by (simp add: seeded_value_def)
  have d32: "unat u div 2 ^ 32 = (?e * 2 ^ 32 + 0x70008000) * 2 ^ 16 + unat (sg_producer_tag g)"
    unfolding v using c by simp
  have d48: "unat u div 2 ^ 48 = ?e * 2 ^ 32 + 0x70008000"
  proof -
    have "unat u div 2 ^ 48 = unat u div 2 ^ 32 div 2 ^ 16"
      by (simp add: div_mult2_eq)
    then show ?thesis
      unfolding d32 using t by simp
  qed
  have d62: "unat u div 2 ^ 62 = (?e * 2 ^ 32 + 0x70008000) div 2 ^ 14"
  proof -
    have "unat u div 2 ^ 62 = unat u div 2 ^ 48 div 2 ^ 14"
      by (simp add: div_mult2_eq)
    then show ?thesis by (simp only: d48)
  qed
  have d76: "unat u div 2 ^ 76 = (?e * 2 ^ 32 + 0x70008000) div 2 ^ 28"
  proof -
    have "unat u div 2 ^ 76 = unat u div 2 ^ 48 div 2 ^ 28"
      by (simp add: div_mult2_eq)
    then show ?thesis by (simp only: d48)
  qed
  have unat_bits: "unat (take_bit m (drop_bit n u)) = unat u div 2 ^ n mod 2 ^ m" for m n
    by (subst unsigned_take_bit_eq, subst unat_drop_bit_eq)
       (simp only: drop_bit_eq_div take_bit_eq_mod)
  have q76: "(?e * 2 ^ 32 + 0x70008000) div 2 ^ 28 mod 2 ^ 4 = 7"
  proof -
    have "?e * 2 ^ 32 + 0x70008000 = 0x8000 + (7 + 2 ^ 4 * ?e) * 2 ^ 28" by simp
    then have "(?e * 2 ^ 32 + 0x70008000) div 2 ^ 28 = 7 + 2 ^ 4 * ?e"
      by (simp only: div_mult_self1) simp
    then show ?thesis by (simp only: mod_mult_self2) simp
  qed
  have q62: "(?e * 2 ^ 32 + 0x70008000) div 2 ^ 14 mod 2 ^ 2 = 2"
  proof -
    have "?e * 2 ^ 32 + 0x70008000 = (0x1C002 + 2 ^ 2 * (2 ^ 16 * ?e)) * 2 ^ 14" by simp
    then have "(?e * 2 ^ 32 + 0x70008000) div 2 ^ 14 = 0x1C002 + 2 ^ 2 * (2 ^ 16 * ?e)"
      by (simp only: nonzero_mult_div_cancel_right) simp
    then show ?thesis by (simp only: mod_mult_self2) simp
  qed
  have "unat (uuid_version u) = 7"
    unfolding uuid_version_def unat_bits d76 by (rule q76)
  then show "uuid_version u = 7"
    by (simp add: word_unat_eq_iff)
  have "unat (uuid_variant u) = 2"
    unfolding uuid_variant_def unat_bits d62 by (rule q62)
  then show "uuid_variant u = 2"
    by (simp add: word_unat_eq_iff)
  have "unat (uuid_tag u) = unat u div 2 ^ 32 mod 2 ^ 16"
    unfolding uuid_tag_def
    by (subst unsigned_ucast_eq, subst unat_drop_bit_eq)
       (simp add: take_bit_eq_mod drop_bit_eq_div)
  also have "\<dots> = (unat (sg_producer_tag g) + (?e * 2 ^ 32 + 0x70008000) * 2 ^ 16) mod 2 ^ 16"
    unfolding d32 by (simp only: add.commute)
  also have "\<dots> = unat (sg_producer_tag g)"
    unfolding mod_mult_self1 using t by simp
  finally show "uuid_tag u = sg_producer_tag g"
    by (simp only: word_unat_eq_iff)
qed

lemma seeded_next_id_Some:
  "seeded_next_id g = Some (i, g') \<longleftrightarrow>
     unat (sg_counter g) + 1 < 2 ^ 32 \<and> i = uuid_from_bytes (seeded_bytes g) \<and>
     g' = g\<lparr>sg_counter := sg_counter g + 1\<rparr>"
proof -
  have "unat (- 1 :: u32) = 2 ^ 32 - 1"
    by (simp add: unsigned_minus_1_eq_mask mask_eq_exp_minus_1)
  then have "sg_counter g = - 1 \<longleftrightarrow> unat (sg_counter g) = 2 ^ 32 - 1"
    unfolding word_unat_eq_iff by (simp only:)
  moreover have "unat (sg_counter g) < 2 ^ 32"
    by (rule order.strict_trans2[OF unat_less]) simp
  ultimately have "sg_counter g = - 1 \<longleftrightarrow> \<not> unat (sg_counter g) + 1 < 2 ^ 32"
    by linarith
  then show ?thesis
    by (auto simp: seeded_next_id_def)
qed

lemma unat_counter_succ:
  "unat (sg_counter g) + 1 < 2 ^ 32 \<Longrightarrow> unat (sg_counter g + 1) = unat (sg_counter g) + 1"
  by (simp add: unat_word_ariths)

lemma seeded_ids_Some:
  "unat (sg_counter g) + n < 2 ^ 32 \<Longrightarrow>
   \<exists>is. seeded_ids n g = Some (is, g\<lparr>sg_counter := sg_counter g + of_nat n\<rparr>) \<and>
     map unat is = map (\<lambda>k. seeded_value g + k) [0..<n]"
proof (induction n arbitrary: g)
  case (Suc n)
  let ?g = "g\<lparr>sg_counter := sg_counter g + 1\<rparr>"
  have c: "unat (sg_counter ?g) = unat (sg_counter g) + 1"
    using Suc.prems by (simp add: unat_counter_succ)
  then obtain "is" where i: "seeded_ids n ?g = Some (is, ?g\<lparr>sg_counter := sg_counter ?g + of_nat n\<rparr>)"
      "map unat is = map (\<lambda>k. seeded_value ?g + k) [0..<n]"
    using Suc.IH[of ?g] Suc.prems by auto
  have v: "seeded_value ?g = seeded_value g + 1"
    using c by (simp add: seeded_value_def)
  have "[0..<Suc n] = 0 # map Suc [0..<n]"
    by (metis map_Suc_upt upt_conv_Cons zero_less_Suc)
  then have l: "map (\<lambda>k. seeded_value g + k) [0..<Suc n] =
      seeded_value g # map (\<lambda>k. seeded_value ?g + k) [0..<n]"
    by (simp only: v list.map map_map) simp
  have nx: "seeded_next_id g = Some (uuid_from_bytes (seeded_bytes g), ?g)"
    using Suc.prems by (simp add: seeded_next_id_Some)
  have g: "?g\<lparr>sg_counter := sg_counter ?g + of_nat n\<rparr> = g\<lparr>sg_counter := sg_counter g + of_nat (Suc n)\<rparr>"
    by (simp add: algebra_simps)
  show ?case
    unfolding l seeded_ids.simps nx using i(2)
    by (intro exI[of _ "uuid_from_bytes (seeded_bytes g) # is"])
       (simp only: option.case prod.case i(1) g option.map list.map unat_seeded simp_thms)
qed simp

lemma seeded_ids_None:
  "2 ^ 32 \<le> unat (sg_counter g) + n \<Longrightarrow> seeded_ids n g = None"
proof (induction n arbitrary: g)
  case 0
  have "unat (sg_counter g) < 2 ^ 32"
    by (rule order.strict_trans2[OF unat_less]) simp
  with 0 show ?case by simp
next
  case (Suc n)
  show ?case
  proof (cases "unat (sg_counter g) + 1 < 2 ^ 32")
    case True
    then show ?thesis
      using Suc seeded_next_id_Some[of g] by (auto simp: unat_counter_succ split: option.splits)
  next
    case False
    then have "seeded_next_id g = None"
      using seeded_next_id_Some[of g] by (cases "seeded_next_id g") auto
    then show ?thesis by simp
  qed
qed

lemma producer_tag_range: "1 \<le> unat (producer_tag p) \<and> unat (producer_tag p) \<le> 0xFFFE"
proof -
  define f where "f = (ucast (xor (xor (xor (fnv1a 0xcbf29ce484222325 p)
      (drop_bit 16 (fnv1a 0xcbf29ce484222325 p))) (drop_bit 32 (fnv1a 0xcbf29ce484222325 p)))
      (drop_bit 48 (fnv1a 0xcbf29ce484222325 p))) :: u16)"
  have m: "unat (f mod (0xFFFF - 1)) = unat f mod 0xFFFE"
    by (simp add: unat_mod)
  have "unat f mod 0xFFFE < 0xFFFE" by simp
  then have "unat (1 + f mod (0xFFFF - 1)) = 1 + unat f mod 0xFFFE"
    by (simp add: unat_word_ariths m del: m)
  then show ?thesis
    unfolding producer_tag_def Let_def f_def[symmetric] by simp
qed

lemma seeded_ids_spec:
  "(seeded_ids n g = None \<longleftrightarrow> 2 ^ 32 \<le> unat (sg_counter g) + n) \<and>
   (case seeded_ids n g of
      None \<Rightarrow> True
    | Some (is, g') \<Rightarrow>
        length is = n \<and> sorted_wrt (<) is \<and>
        list_all (\<lambda>i. uuid_version i = 7 \<and> uuid_variant i = 2 \<and> uuid_tag i = sg_producer_tag g) is \<and>
        g' = g\<lparr>sg_counter := sg_counter g + of_nat n\<rparr>)"
proof (cases "unat (sg_counter g) + n < 2 ^ 32")
  case False
  then show ?thesis using seeded_ids_None[of g n] by simp
next
  case True
  then obtain "is" where i: "seeded_ids n g = Some (is, g\<lparr>sg_counter := sg_counter g + of_nat n\<rparr>)"
      and m: "map unat is = map (\<lambda>k. seeded_value g + k) [0..<n]"
    using seeded_ids_Some by blast
  have len: "length is = n"
    using m by (metis length_map length_upt diff_zero)
  have nth: "unat (is ! k) = seeded_value g + k" if "k < n" for k
  proof -
    have "map unat is ! k = map (\<lambda>k. seeded_value g + k) [0..<n] ! k"
      by (simp only: m)
    with that len show ?thesis by simp
  qed
  have "sorted_wrt (<) is"
    unfolding sorted_wrt_iff_nth_less using len nth by (auto simp: word_less_nat_alt)
  moreover have "uuid_version i = 7 \<and> uuid_variant i = 2 \<and> uuid_tag i = sg_producer_tag g"
    if "i \<in> set is" for i
  proof -
    obtain k where k: "k < n" "i = is ! k"
      using \<open>i \<in> set is\<close> len by (metis in_set_conv_nth)
    have "unat (sg_counter g + of_nat k) = unat (sg_counter g) + k"
      using True k(1) by (simp add: unat_word_ariths unat_of_nat mod_simps)
    then have "unat i = seeded_value (g\<lparr>sg_counter := sg_counter g + of_nat k\<rparr>)"
      using nth[OF k(1)] k(2) by (simp add: seeded_value_def)
    from seeded_value_decode[OF this] show ?thesis by simp
  qed
  ultimately show ?thesis
    using True i len by (simp add: list_all_iff)
qed

text \<open>A run of n identifiers from a seeded generator panics exactly when the 32-bit counter
  would pass its maximum. Otherwise the identifiers are consecutive numbers, hence strictly
  increasing, each is shaped as a UUIDv7 (version 7, variant binary 10) and carries the
  generator's producer tag in its tag field.\<close>

theorem seeded_run:
  "(seeded_ids n g = None \<longleftrightarrow> 2 ^ 32 \<le> unat (sg_counter g) + n) \<and>
   (case seeded_ids n g of
      None \<Rightarrow> True
    | Some (is, g') \<Rightarrow>
        length is = n \<and> sorted_wrt (<) is \<and>
        list_all (\<lambda>i. uuid_version i = 7 \<and> uuid_variant i = 2 \<and> uuid_tag i = sg_producer_tag g) is \<and>
        g' = g\<lparr>sg_counter := sg_counter g + of_nat n\<rparr>)"
  by (rule seeded_ids_spec)

lemma seeded_ids_tags:
  "seeded_ids n g = Some (is, g') \<Longrightarrow> i \<in> set is \<Longrightarrow> uuid_tag i = sg_producer_tag g"
  using seeded_ids_spec[of n g] by (auto simp: list_all_iff)

lemma seeded_ids_disjoint:
  assumes "seeded_ids n g = Some (is, g')" "seeded_ids m h = Some (js, h')"
    and "sg_producer_tag g \<noteq> sg_producer_tag h"
  shows "set is \<inter> set js = {}"
  using assms(3) seeded_ids_tags[OF assms(1)] seeded_ids_tags[OF assms(2)] by force

lemma for_producer_tag [simp]: "sg_producer_tag (for_producer p) = producer_tag p"
  by (simp add: for_producer_def)

lemma conformance_tag: "sg_producer_tag (for_producer p) \<noteq> sg_producer_tag seeded_conformance"
  using producer_tag_range[of p] by (auto simp: seeded_conformance_def seeded_new_def)

text \<open>The tag derived from a producer name is never zero and never 0xFFFF, so a named producer's
  identifiers are disjoint from those of the untagged conformance generator, and from those of
  every producer whose name has another tag.\<close>

theorem producer_spaces_disjoint:
  assumes "seeded_ids n (for_producer p) = Some (is, g)"
  shows "unat (producer_tag p) \<in> {1..0xFFFE} \<and>
    (\<forall>m js g'. seeded_ids m seeded_conformance = Some (js, g') \<longrightarrow> set is \<inter> set js = {}) \<and>
    (\<forall>q m js g'. producer_tag q \<noteq> producer_tag p \<longrightarrow>
       seeded_ids m (for_producer q) = Some (js, g') \<longrightarrow> set is \<inter> set js = {})"
proof (intro conjI allI impI)
  show "unat (producer_tag p) \<in> {1..0xFFFE}"
    using producer_tag_range[of p] by simp
next
  fix m js g' assume "seeded_ids m seeded_conformance = Some (js, g')"
  with assms show "set is \<inter> set js = {}"
    by (rule seeded_ids_disjoint) (rule conformance_tag)
next
  fix q m js g' assume q: "producer_tag q \<noteq> producer_tag p"
    "seeded_ids m (for_producer q) = Some (js, g')"
  show "set is \<inter> set js = {}"
    using q(1) by (intro seeded_ids_disjoint[OF assms q(2)]) simp
qed

theorem producer_spaces_disjoint_witness:
  "unat (producer_tag ''zub'') \<in> {1..0xFFFE} \<and>
    uuid_from_bytes (seeded_bytes (for_producer ''zub'')) \<noteq> uuid_from_bytes (seeded_bytes seeded_conformance)"
proof -
  have one: "seeded_ids 1 g = Some ([uuid_from_bytes (seeded_bytes g)], g\<lparr>sg_counter := sg_counter g + 1\<rparr>)"
    if "sg_counter g = 1" for g
    using that by (simp add: seeded_next_id_def)
  have "sg_counter (for_producer ''zub'') = 1" "sg_counter seeded_conformance = 1"
    by (simp_all add: for_producer_def seeded_conformance_def seeded_new_def)
  from producer_spaces_disjoint[OF one[OF this(1)]] one[OF this(2)] show ?thesis
    by fastforce
qed

end
