(* ===== verification/Engine_Edge.thy ===== *)
theory Engine_Edge
  imports Antithrash Seal Determinism
begin

section \<open>Evaluating one edge (\<open>crates/freshdag-engine/src/engine.rs\<close>, first half)\<close>

text \<open>
  The decision procedure of the engine for one recorded dependency: the TTL gate of volatile
  dependencies, the probe-removal check, arbitration, dispatch, the anti-thrash fold and the
  verdict, with the events it emits. The state threaded through is the trust ledger, the events
  emitted so far and the sequence number their ids are made of. \<open>tadd\<close> is the checked addition
  of the \<open>time\<close> crate (a duration in nanoseconds), a parameter; \<open>w\<close> is the outside world as
  the selected probe finds it.
\<close>

subsection \<open>Constants\<close>

definition engine_producer :: string where
  "engine_producer = ''freshdag-engine''"

definition engine_version :: string where
  \<comment> \<open>\<open>CARGO_PKG_VERSION\<close>, the version of the workspace manifest\<close>
  "engine_version = ''0.0.0''"

definition max_detail_bytes :: nat where
  "max_detail_bytes = 512"

definition default_max_volatile_ttl :: nat where
  \<comment> \<open>in nanoseconds\<close>
  "default_max_volatile_ttl = 24 * 60 * 60 * 10 ^ 9"

definition max_clock_skew_secs :: nat where
  "max_clock_skew_secs = 60"

definition duration_as_secs :: "nat \<Rightarrow> nat" where
  "duration_as_secs d = d div 10 ^ 9"

subsection \<open>Event emission\<close>

definition unix_millis :: "instant \<Rightarrow> u64" where
  \<comment> \<open>a division that truncates towards zero, then \<open>u64::try_from(..).unwrap_or(0)\<close>\<close>
  "unix_millis at =
     (let millis = (if at < 0 then - ((- at) div 1000000) else at div 1000000)
      in if 0 \<le> millis \<and> millis < 2 ^ 64 then word_of_int millis else 0)"

definition engine_event_bytes :: "instant \<Rightarrow> u16 \<Rightarrow> u8 list" where
  "engine_event_bytes at sequence =
     (let ms = and (unix_millis at) 0x0000FFFFFFFFFFFF in
      take 6 (drop 2 (be_bytes 8 ms)) @
      [or 0x70 (ucast (and (drop_bit 8 sequence) 0x0F)), ucast (and sequence 0x00FF),
       0x80, 0, 0, 0, 0, 0, 0, 0])"

definition engine_event_id :: "instant \<Rightarrow> u16 \<Rightarrow> uuid" where
  "engine_event_id at sequence = uuid_from_bytes (engine_event_bytes at sequence)"

record eval_state =
  es_ledger :: trust_ledger
  es_emitted :: "ir_event list"
  es_sequence :: u16

definition emit_event ::
  "computation_id \<Rightarrow> instant \<Rightarrow> event_kind \<Rightarrow> json \<Rightarrow> eval_state \<Rightarrow> eval_state" where
  \<comment> \<open>\<open>Engine::event\<close>, pushed on the emitted events\<close>
  "emit_event c now k payload st =
     st\<lparr>es_emitted := es_emitted st @
          [\<lparr>ev_event_id = engine_event_id now (es_sequence st), ev_producer = engine_producer,
            ev_producer_version = engine_version, ev_session_id = ''check:'' @ c,
            ev_computation_id = Some c, ev_parent_id = None, ev_causal_inputs = None, ev_ts = now,
            ev_kind = k, ev_payload = payload\<rparr>],
        es_sequence := (if es_sequence st = - 1 then es_sequence st else es_sequence st + 1)\<rparr>"

definition diagnostic ::
  "computation_id \<Rightarrow> instant \<Rightarrow> string \<Rightarrow> (string \<times> json) list \<Rightarrow> eval_state \<Rightarrow> eval_state" where
  "diagnostic c now message extra st =
     emit_event c now Diagnostic (json_insert ''message'' (JStr message) (json_obj extra)) st"

definition trust_demoted ::
  "computation_id \<Rightarrow> instant \<Rightarrow> dependency \<Rightarrow> probe_identity \<Rightarrow> trust_class \<Rightarrow> trust_class
     \<Rightarrow> eval_state \<Rightarrow> eval_state" where
  "trust_demoted c now dep i f t st =
     diagnostic c now ''probe.trust_demoted''
       [(''dependency_key'', JStr (dep_key dep)), (''probe_identity'', JStr i),
        (''from_trust_class'', JStr (trust_wire f)), (''to_trust_class'', JStr (trust_wire t))] st"

definition probe_checked ::
  "computation_id \<Rightarrow> instant \<Rightarrow> dependency \<Rightarrow> string \<Rightarrow> string option \<Rightarrow> trust_class \<Rightarrow> trust_class
     \<Rightarrow> bool option \<Rightarrow> eval_state \<Rightarrow> eval_state" where
  "probe_checked c now dep result observed tc observed_tc retryable st =
     emit_event c now ProbeChecked
       (json_obj
         ([(''scheme'', JStr (dep_scheme dep)), (''key'', JStr (dep_key dep))] @
          opt_field ''observed_fingerprint'' (map_option JStr observed) @
          [(''trust_class'', JStr (trust_wire tc)),
           (''observed_trust_class'', JStr (trust_wire observed_tc)),
           (''result'', JStr result)] @
          opt_field ''ttl_seconds'' (map_option JUInt (dep_ttl_seconds dep)) @
          opt_field ''retryable'' (map_option JBool retryable))) st"

fun probe_checked_for ::
  "computation_id \<Rightarrow> instant \<Rightarrow> dependency \<Rightarrow> probe_result \<Rightarrow> eval_state \<Rightarrow> eval_state" where
  "probe_checked_for c now dep (ProbeMatch ofp otc) st =
     probe_checked c now dep ''match'' (Some (fingerprint_display ofp)) (dep_trust_class dep) otc None st"
| "probe_checked_for c now dep (ProbeDrift ofp otc) st =
     probe_checked c now dep ''drift'' (Some (fingerprint_display ofp)) (dep_trust_class dep) otc None st"
| "probe_checked_for c now dep (ProbeUndecided why retryable) st =
     probe_checked c now dep ''unknown'' None (dep_trust_class dep) (dep_trust_class dep)
       (Some retryable) st"

subsection \<open>Verdicts\<close>

definition ttl_expiry :: "(instant \<Rightarrow> int \<Rightarrow> instant option) \<Rightarrow> instant \<Rightarrow> u64 \<Rightarrow> instant option" where
  "ttl_expiry tadd at ttl_seconds =
     (if uint ttl_seconds < 2 ^ 63 then tadd at (uint ttl_seconds * 10 ^ 9) else None)"

definition skew_tolerance :: int where
  "skew_tolerance = int max_clock_skew_secs * 10 ^ 9"

definition unknown_edge :: "dependency \<Rightarrow> reason_code \<Rightarrow> string \<Rightarrow> edge_outcome" where
  "unknown_edge dep code d =
     \<lparr>eo_dependency = dep, eo_verdict = UnknownVerdict, eo_reason = Some (code, Some d)\<rparr>"

definition ttl_gate ::
  "(instant \<Rightarrow> int \<Rightarrow> instant option) \<Rightarrow> nat \<Rightarrow> instant \<Rightarrow> dependency \<Rightarrow> string option" where
  \<comment> \<open>step 1: the detail of the \<open>TtlExpired\<close> a volatile dependency is refused with\<close>
  "ttl_gate tadd max_ttl now dep =
     (case dep_ttl_seconds dep of
        None \<Rightarrow> Some ''ttl_seconds=absent''
      | Some secs \<Rightarrow>
          (case ttl_expiry tadd (dep_observed_at dep) secs of
             None \<Rightarrow> Some (''ttl_seconds='' @ show_nat (unat secs) @ '' not-representable'')
           | Some expires_at \<Rightarrow>
               (let max_secs = duration_as_secs max_ttl in
                if unat secs > max_secs
                then Some (''ttl_seconds='' @ show_nat (unat secs) @ '' exceeds max_volatile_ttl='' @
                       show_nat max_secs)
                else if (case tadd now skew_tolerance of None \<Rightarrow> False
                         | Some horizon \<Rightarrow> dep_observed_at dep > horizon)
                then Some (''observed_at-in-future skew_tolerance_seconds='' @ show_nat max_clock_skew_secs)
                else if now > expires_at then Some (''ttl_seconds='' @ show_nat (unat secs))
                else None)))"

fun caps_reason :: "trust_class \<Rightarrow> (reason_code \<times> string option) option" where
  "caps_reason Heuristic = Some (TrustClassHeuristicCapsAtLikelyValid, None)"
| "caps_reason Volatile = Some (TrustClassVolatileCapsAtLikelyValid, None)"
| "caps_reason Exact = None"
| "caps_reason Versioned = None"

definition volatile_match :: "dependency \<Rightarrow> edge_verdict" where
  "volatile_match dep = MatchVerdict Volatile Volatile (dep_fingerprint dep)"

definition volatile_within_ttl_verdict :: "dependency \<Rightarrow> probe_result option \<Rightarrow> edge_outcome" where
  "volatile_within_ttl_verdict dep probed =
     (case probed of
        Some (ProbeDrift _ _) \<Rightarrow>
          \<lparr>eo_dependency = dep, eo_verdict = DriftVerdict, eo_reason = Some (Drift, None)\<rparr>
      | Some (ProbeMatch _ _) \<Rightarrow>
          \<lparr>eo_dependency = dep, eo_verdict = volatile_match dep, eo_reason = caps_reason Volatile\<rparr>
      | Some (ProbeUndecided _ _) \<Rightarrow>
          \<lparr>eo_dependency = dep, eo_verdict = volatile_match dep, eo_reason = Some (ProbeUnknown, None)\<rparr>
      | None \<Rightarrow>
          \<lparr>eo_dependency = dep, eo_verdict = volatile_match dep,
           eo_reason = Some (VolatileWithinTtlUnprobed, None)\<rparr>)"

definition is_char_boundary :: "string \<Rightarrow> nat \<Rightarrow> bool" where
  \<comment> \<open>of UTF-8 bytes: not inside a character, that is not before a continuation byte\<close>
  "is_char_boundary s n \<longleftrightarrow> n = 0 \<or> n = length s \<or>
     (n < length s \<and> (let b = of_char (s ! n) :: nat in b < 128 \<or> 192 \<le> b))"

fun boundary_below :: "string \<Rightarrow> nat \<Rightarrow> nat" where
  "boundary_below s 0 = 0"
| "boundary_below s (Suc n) = (if is_char_boundary s (Suc n) then Suc n else boundary_below s n)"

definition sanitize_detail :: "string \<Rightarrow> string" where
  "sanitize_detail s =
     (if length s \<le> max_detail_bytes then s else take (boundary_below s max_detail_bytes) s)"

subsection \<open>The decision procedure\<close>

definition note_transition ::
  "computation_id \<Rightarrow> instant \<Rightarrow> dependency \<Rightarrow> probe_identity \<Rightarrow> trust_transition option \<Rightarrow> eval_state
     \<Rightarrow> eval_state" where
  \<comment> \<open>the two diagnostics after the ledger has been updated\<close>
  "note_transition c now dep i transition st =
     (case transition of
        Some (Escalated f t) \<Rightarrow>
          diagnostic c now ''probe.trust_escalated''
            [(''dependency_key'', JStr (dep_key dep)), (''probe_identity'', JStr i),
             (''from_trust_class'', JStr (trust_wire f)), (''to_trust_class'', JStr (trust_wire t))] st
      | Some (Demoted f t) \<Rightarrow> trust_demoted c now dep i f t st
      | _ \<Rightarrow> st)"

definition fold_result ::
  "instant \<Rightarrow> dependency \<Rightarrow> probe_identity \<Rightarrow> probe_result \<Rightarrow> eval_state
     \<Rightarrow> trust_transition option \<times> eval_state" where
  \<comment> \<open>what the probe said, folded into the ledger: only a match carries a class to fold\<close>
  "fold_result now dep i result st =
     (case result of
        ProbeMatch _ otc \<Rightarrow>
          (let (t, led) = observe (dep_key dep) i (dep_trust_class dep) otc now (es_ledger st)
           in (Some t, st\<lparr>es_ledger := led\<rparr>))
      | _ \<Rightarrow> (None, st\<lparr>es_ledger := note_probe (dep_key dep) i (es_ledger st)\<rparr>))"

definition probe_verdict :: "dependency \<Rightarrow> probe_result \<Rightarrow> trust_transition option \<Rightarrow> edge_outcome" where
  \<comment> \<open>step 4b, for a dependency that is not volatile\<close>
  "probe_verdict dep result transition =
     (case result of
        ProbeMatch ofp otc \<Rightarrow>
          (case transition of
             Some (Demoted f t) \<Rightarrow>
               unknown_edge dep ProbeTrustDemoted (''from='' @ trust_wire f @ '' to='' @ trust_wire t)
           | _ \<Rightarrow> \<lparr>eo_dependency = dep, eo_verdict = MatchVerdict (dep_trust_class dep) otc ofp,
                    eo_reason = caps_reason (dep_trust_class dep)\<rparr>)
      | ProbeDrift _ _ \<Rightarrow>
          \<lparr>eo_dependency = dep, eo_verdict = DriftVerdict, eo_reason = Some (Drift, None)\<rparr>
      | ProbeUndecided why _ \<Rightarrow> unknown_edge dep ProbeUnknown (sanitize_detail why))"

definition dispatch ::
  "computation_id \<Rightarrow> instant \<Rightarrow> 'w \<Rightarrow> dependency \<Rightarrow> 'w selected \<Rightarrow> eval_state \<Rightarrow> edge_outcome \<times> eval_state" where
  \<comment> \<open>step 4\<close>
  "dispatch c now w dep sel st =
     (let result = p_check (sel_probe sel) w (dep_key dep) (dep_fingerprint dep) (dep_ttl_seconds dep);
          st = probe_checked_for c now dep result st;
          (transition, st) = fold_result now dep (sel_identity sel) result st;
          st = note_transition c now dep (sel_identity sel) transition st
      in (if dep_trust_class dep = Volatile then volatile_within_ttl_verdict dep (Some result)
          else probe_verdict dep result transition, st))"

definition unprobed :: "dependency \<Rightarrow> no_probe \<Rightarrow> edge_outcome" where
  \<comment> \<open>the verdict when no probe could be consulted\<close>
  "unprobed dep why =
     (if dep_trust_class dep = Volatile then volatile_within_ttl_verdict dep None
      else unknown_edge dep NoProbeAvailable (no_probe_detail why))"

definition removed_probe :: "'w probe_registry \<Rightarrow> dependency \<Rightarrow> trust_ledger \<Rightarrow> probe_identity option" where
  \<comment> \<open>step 2: the probe that last answered for the key, when it is gone\<close>
  "removed_probe reg dep led =
     (case last_probe_for led (dep_key dep) of
        Some previous \<Rightarrow> if registry_contains reg previous then None else Some previous
      | None \<Rightarrow> None)"

definition evaluate_edge ::
  "(instant \<Rightarrow> int \<Rightarrow> instant option) \<Rightarrow> 'w probe_registry \<Rightarrow> nat \<Rightarrow> computation_id \<Rightarrow> instant \<Rightarrow> 'w
     \<Rightarrow> dependency \<Rightarrow> eval_state \<Rightarrow> edge_outcome \<times> eval_state" where
  "evaluate_edge tadd reg max_ttl c now w dep st =
     (case (if dep_trust_class dep = Volatile then ttl_gate tadd max_ttl now dep else None) of
        Some d \<Rightarrow> (unknown_edge dep TtlExpired d, st)
      | None \<Rightarrow>
          (case removed_probe reg dep (es_ledger st) of
             Some previous \<Rightarrow>
               (unprobed dep (ProbeRemoved previous),
                diagnostic c now ''probe.removed''
                  [(''dependency_key'', JStr (dep_key dep)), (''previous_probe'', JStr previous)] st)
           | None \<Rightarrow>
               (case select_probe reg (dep_scheme dep) (dep_key dep) of
                  Inl why \<Rightarrow>
                    (unprobed dep why,
                     case why of
                       PriorityTie sch prio candidates \<Rightarrow>
                         diagnostic c now ''probe.arbitration_tie''
                           [(''scheme'', JStr sch), (''priority'', JUInt (ucast prio)),
                            (''candidates'', JArr (map JStr candidates))] st
                     | _ \<Rightarrow> st)
                | Inr sel \<Rightarrow> dispatch c now w dep sel st)))"

fun evaluate_edges ::
  "(instant \<Rightarrow> int \<Rightarrow> instant option) \<Rightarrow> 'w probe_registry \<Rightarrow> nat \<Rightarrow> computation_id \<Rightarrow> instant
     \<Rightarrow> (nat \<Rightarrow> 'w) \<Rightarrow> nat \<Rightarrow> dependency list \<Rightarrow> eval_state \<Rightarrow> edge_outcome list \<times> eval_state" where
  \<comment> \<open>the loop over the node's dependencies; the world of the i-th edge is \<open>world i\<close>\<close>
  "evaluate_edges tadd reg max_ttl c now world i [] st = ([], st)"
| "evaluate_edges tadd reg max_ttl c now world i (dep # deps) st =
     (let (e, st) = evaluate_edge tadd reg max_ttl c now (world i) dep st;
          (es, st) = evaluate_edges tadd reg max_ttl c now world (Suc i) deps st
      in (e # es, st))"

subsection \<open>Event identifiers\<close>

lemma unat_low_nibble:
  fixes s :: u16
  shows "unat (or 0x70 (ucast (and (drop_bit 8 s) 0x0F)) :: u8) = 0x70 + unat s div 256 mod 16"
proof -
  define h :: u8 where "h = ucast (and (drop_bit 8 s) 0x0F)"
  have "and (drop_bit 8 s) 0x0F = take_bit 4 (drop_bit 8 s)"
    by (simp add: take_bit_eq_mask mask_eq_exp_minus_1)
  then have "unat (and (drop_bit 8 s) 0x0F) = unat s div 256 mod 16"
    by (simp add: unsigned_take_bit_eq unat_drop_bit_eq drop_bit_eq_div take_bit_eq_mod unat_mod unat_div)
  then have h: "unat h = unat s div 256 mod 16"
    by (simp add: h_def unsigned_ucast_eq take_bit_eq_mod)
  then have "unat h < 16" by simp
  then have "unat h \<in> set [0..<16]" by simp
  then have "unat (or 0x70 h) = 0x70 + unat h"
  proof -
    have "h = word_of_nat (unat h)" by simp
    moreover have "\<forall>n\<in>set [0..<16]. unat (or 0x70 (word_of_nat n) :: u8) = 0x70 + n"
      by (simp add: upt_rec)
    ultimately show ?thesis
      using \<open>unat h \<in> set [0..<16]\<close> by metis
  qed
  then show ?thesis by (simp add: h flip: h_def)
qed

lemma unat_low_byte:
  fixes s :: u16
  shows "unat (ucast (and s 0x00FF) :: u8) = unat s mod 256"
proof -
  have "and s 0x00FF = take_bit 8 s"
    by (simp add: take_bit_eq_mask mask_eq_exp_minus_1)
  then show ?thesis
    by (simp add: unsigned_ucast_eq unsigned_take_bit_eq take_bit_eq_mod unat_mod)
qed

lemma unat_engine_event_id:
  "unat (engine_event_id at s) =
     (unat (unix_millis at) mod 2 ^ 48) * 2 ^ 80 + 7 * 2 ^ 76 + (unat s mod 4096) * 2 ^ 64 + 2 ^ 63"
proof -
  let ?ms = "and (unix_millis at) 0x0000FFFFFFFFFFFF"
  have "?ms = take_bit 48 (unix_millis at)"
    by (simp add: take_bit_eq_mask mask_eq_exp_minus_1)
  then have ms: "unat ?ms = unat (unix_millis at) mod 2 ^ 48"
    by (simp add: unsigned_take_bit_eq take_bit_eq_mod unat_mod)
  have six: "take 6 (drop 2 (be_bytes 8 ?ms)) = be_bytes 6 ?ms"
    by (simp add: be_bytes_def upt_rec)
  have fold6: "foldl (\<lambda>a b. a * 256 + unat b) 0 (be_bytes 6 ?ms) = unat (unix_millis at) mod 2 ^ 48"
    by (simp only: fold_be_bytes ms) simp
  have x80: "unat (0x80 :: u8) = 128" by simp
  have split: "unat s mod 4096 = unat s div 256 mod 16 * 256 + unat s mod 256"
    using mod_mult2_eq[of "unat s" 256 16] by simp
  show ?thesis
    unfolding engine_event_id_def uuid_from_bytes_def engine_event_bytes_def Let_def six split
    by (subst unat_fold_bytes) (simp_all add: fold6 unat_low_nibble unat_low_byte x80)
qed

lemma engine_event_id_code [code]:
  "engine_event_id at s = word_of_int
     ((uint (unix_millis at) mod 2 ^ 48) * 2 ^ 80 + 7 * 2 ^ 76 + (uint s mod 4096) * 2 ^ 64 + 2 ^ 63)"
proof -
  have "engine_event_id at s = word_of_int (int (unat (engine_event_id at s)))" by simp
  also have "\<dots> = word_of_int ((uint (unix_millis at) mod 2 ^ 48) * 2 ^ 80 + 7 * 2 ^ 76 + (uint s mod 4096) * 2 ^ 64 + 2 ^ 63)"
    unfolding unat_engine_event_id by (simp add: zmod_int)
  finally show ?thesis .
qed

lemma engine_event_id_eq_iff:
  "engine_event_id at s = engine_event_id at' s' \<longleftrightarrow>
     unat (unix_millis at) mod 2 ^ 48 = unat (unix_millis at') mod 2 ^ 48 \<and>
     unat s mod 4096 = unat s' mod 4096"
proof -
  have arith: "m * 2 ^ 80 + 7 * 2 ^ 76 + a * 2 ^ 64 + 2 ^ 63 = n * 2 ^ 80 + 7 * 2 ^ 76 + b * 2 ^ 64 + 2 ^ 63
      \<longleftrightarrow> m = n \<and> a = b" if "a < 4096" "b < 4096" for m n a b :: nat
  proof
    assume "m * 2 ^ 80 + 7 * 2 ^ 76 + a * 2 ^ 64 + 2 ^ 63 = n * 2 ^ 80 + 7 * 2 ^ 76 + b * 2 ^ 64 + 2 ^ 63"
    then have e: "m * 65536 + a = n * 65536 + b" by simp
    have "m = (m * 65536 + a) div 65536" "n = (n * 65536 + b) div 65536"
      using that by simp_all
    with e have "m = n" by metis
    with e show "m = n \<and> a = b" by simp
  qed simp
  have "engine_event_id at s = engine_event_id at' s' \<longleftrightarrow>
      unat (engine_event_id at s) = unat (engine_event_id at' s')"
    by (simp add: word_unat_eq_iff)
  also have "\<dots> \<longleftrightarrow> unat (unix_millis at) mod 2 ^ 48 = unat (unix_millis at') mod 2 ^ 48 \<and>
      unat s mod 4096 = unat s' mod 4096"
    unfolding unat_engine_event_id by (rule arith) simp_all
  finally show ?thesis .
qed

end
