(* ===== verification/Order.thy ===== *)
theory Order
  imports Ir
begin

section \<open>Canonical linearization and per-producer streams\<close>

text \<open>
  \<open>freshdag-store/src/order.rs\<close>: the sort into the canonical order (timestamp, producer,
  event id), the detection of duplicated event ids, and the grouping of a log into producer
  streams. The timestamp part of the key is the pair of whole seconds and nanoseconds of the
  instant, rounding down. The main result is that a linearization reported as deterministic is
  the same for every physical order of the same events.
\<close>

definition order_key :: "ir_event \<Rightarrow> int \<times> int \<times> string \<times> uuid" where
  "order_key e = (ev_ts e div 1000000000, ev_ts e mod 1000000000, ev_producer e, ev_event_id e)"

definition linearize :: "ir_event list \<Rightarrow> ir_event list" where
  "linearize events = sort_key order_key events"

record duplicate_event_id =
  du_event_id :: uuid
  du_producer :: string
  du_count :: nat
  du_divergent :: bool

record linearization =
  ln_events :: "ir_event list"
  ln_duplicate_event_ids :: "duplicate_event_id list"

definition is_deterministic :: "linearization \<Rightarrow> bool" where
  "is_deterministic l \<longleftrightarrow> \<not> list_ex du_divergent (ln_duplicate_event_ids l)"

definition duplicate_of :: "uuid \<times> ir_event list \<Rightarrow> duplicate_event_id" where
  \<comment> \<open>the closure of the \<open>map\<close>; it is applied to groups of two or more\<close>
  "duplicate_of p =
     (let (i, group) = p in
      \<lparr>du_event_id = i, du_producer = ev_producer (group ! 0), du_count = length group,
       du_divergent = list_ex (\<lambda>e. e \<noteq> group ! 0) group\<rparr>)"

definition linearize_checked :: "ir_event list \<Rightarrow> linearization" where
  "linearize_checked es =
     (let events = linearize es;
          by_id = bm_group ev_event_id events
      in \<lparr>ln_events = events,
          ln_duplicate_event_ids =
            map duplicate_of (filter (\<lambda>(_, group). length group > 1) by_id)\<rparr>)"

record producer_order_violation =
  pv_producer :: string
  pv_previous :: uuid
  pv_observed :: uuid
  pv_log_index :: nat

record producer_streams =
  ps_streams :: "(string, ir_event list) bmap"
  ps_violations :: "producer_order_violation list"

fun log_order_step ::
  "(string, ir_event list) bmap \<times> producer_order_violation list \<Rightarrow> nat \<times> ir_event
     \<Rightarrow> (string, ir_event list) bmap \<times> producer_order_violation list" where
  "log_order_step (streams, violations) (log_index, event) =
     (let stream = (case map_of streams (ev_producer event) of None \<Rightarrow> [] | Some s \<Rightarrow> s);
          violations' =
            (if stream \<noteq> [] \<and> ev_event_id event < ev_event_id (last stream)
             then violations @ [\<lparr>pv_producer = ev_producer event,
                    pv_previous = ev_event_id (last stream),
                    pv_observed = ev_event_id event, pv_log_index = log_index\<rparr>]
             else violations)
      in (bm_alter (ev_producer event) [] (\<lambda>s. s @ [event]) streams, violations'))"

definition from_log_order :: "ir_event list \<Rightarrow> producer_streams" where
  "from_log_order events =
     (let (streams, violations) = foldl log_order_step ([], []) (enumerate 0 events)
      in \<lparr>ps_streams = map (\<lambda>(p, s). (p, sort_key ev_event_id s)) streams,
          ps_violations = violations\<rparr>)"

definition stream_producers :: "producer_streams \<Rightarrow> string list" where
  "stream_producers s = bm_keys (ps_streams s)"

definition producer_stream :: "producer_streams \<Rightarrow> string \<Rightarrow> ir_event list option" where
  "producer_stream s p = map_of (ps_streams s) p"

definition streams_into_events :: "producer_streams \<Rightarrow> ir_event list" where
  "streams_into_events s = concat (bm_values (ps_streams s))"

subsection \<open>The canonical order\<close>

lemma instant_split:
  "x = y \<longleftrightarrow> x div 1000000000 = y div 1000000000 \<and> x mod 1000000000 = y mod 1000000000"
  for x y :: int
  by (metis div_mult_mod_eq)

lemma order_key_le:
  "order_key a \<le> order_key b \<longleftrightarrow>
     ev_ts a < ev_ts b \<or> ev_ts a = ev_ts b \<and>
       (ev_producer a < ev_producer b \<or>
        ev_producer a = ev_producer b \<and> ev_event_id a \<le> ev_event_id b)"
proof -
  have lt: "x < y \<longleftrightarrow> x div 1000000000 < y div 1000000000 \<or>
      x div 1000000000 = y div 1000000000 \<and> x mod 1000000000 < y mod 1000000000" for x y :: int
    by (smt (verit, best) div_mult_mod_eq zdiv_mono1 pos_mod_bound pos_mod_sign)
  show ?thesis
    using lt[of "ev_ts a" "ev_ts b"] instant_split[of "ev_ts a" "ev_ts b"]
    by (simp only: order_key_def less_eq_prod_simp) (simp only: le_less, blast)
qed

lemma order_key_inj_id: "order_key a = order_key b \<Longrightarrow> ev_event_id a = ev_event_id b"
  by (simp add: order_key_def)

lemma linearize_set [simp]: "set (linearize es) = set es"
  by (simp add: linearize_def)

lemma linearize_mset [simp]: "mset (linearize es) = mset es"
  by (simp add: linearize_def)

lemma in_duplicates:
  "d \<in> set (ln_duplicate_event_ids (linearize_checked es)) \<longleftrightarrow>
     (\<exists>i. let g = filter (\<lambda>e. ev_event_id e = i) (linearize es) in
        1 < length g \<and> d = duplicate_of (i, g))"
proof -
  have "d \<in> set (ln_duplicate_event_ids (linearize_checked es)) \<longleftrightarrow>
      (\<exists>i g. (i, g) \<in> set (bm_group ev_event_id (linearize es)) \<and> 1 < length g \<and> d = duplicate_of (i, g))"
    by (auto simp: linearize_checked_def Let_def image_iff)
  then show ?thesis
    by (simp add: in_bm_group Let_def) (metis list.size(3) not_less_zero)
qed

lemma divergent_group:
  "g \<noteq> [] \<Longrightarrow> du_divergent (duplicate_of (i, g)) \<longleftrightarrow> (\<exists>a\<in>set g. \<exists>b\<in>set g. a \<noteq> b)"
proof (cases g)
  case (Cons x xs)
  have "du_divergent (duplicate_of (i, g)) \<longleftrightarrow> (\<exists>e\<in>set g. e \<noteq> x)"
    by (simp add: duplicate_of_def list_ex_iff Cons)
  also have "\<dots> \<longleftrightarrow> (\<exists>a\<in>set g. \<exists>b\<in>set g. a \<noteq> b)"
    unfolding Cons by (metis list.set_intros(1))
  finally show ?thesis .
qed simp

lemma two_distinct_length: "a \<in> set g \<Longrightarrow> b \<in> set g \<Longrightarrow> a \<noteq> b \<Longrightarrow> 1 < length g"
  by (cases g rule: list.exhaust; cases "tl g") auto

lemma deterministic_iff:
  "is_deterministic (linearize_checked es) \<longleftrightarrow>
     (\<forall>a\<in>set es. \<forall>b\<in>set es. ev_event_id a = ev_event_id b \<longrightarrow> a = b)"
  (is "?l \<longleftrightarrow> ?r")
proof
  assume ?l
  show ?r
  proof (intro ballI impI, rule ccontr)
    fix a b assume ab: "a \<in> set es" "b \<in> set es" "ev_event_id a = ev_event_id b" "a \<noteq> b"
    define g where "g = filter (\<lambda>e. ev_event_id e = ev_event_id a) (linearize es)"
    have g: "a \<in> set g" "b \<in> set g"
      using ab by (auto simp: g_def)
    then have "1 < length g" "du_divergent (duplicate_of (ev_event_id a, g))"
      using ab(4) two_distinct_length[OF g] divergent_group[of g] by (blast, fastforce)
    then show False
      using \<open>?l\<close> in_duplicates[of "duplicate_of (ev_event_id a, g)" es]
      by (auto simp: is_deterministic_def list_ex_iff Let_def g_def)
  qed
next
  assume r: ?r
  then have "\<not> du_divergent d" if d: "d \<in> set (ln_duplicate_event_ids (linearize_checked es))" for d
  proof -
    from d obtain i g where g: "g = filter (\<lambda>e. ev_event_id e = i) (linearize es)"
        "1 < length g" "d = duplicate_of (i, g)"
      by (auto simp: in_duplicates Let_def)
    then have "g \<noteq> []" by auto
    then show ?thesis
      unfolding g(3) divergent_group[OF \<open>g \<noteq> []\<close>] using r by (auto simp: g(1))
  qed
  then show ?l
    by (auto simp: is_deterministic_def list_ex_iff)
qed

lemma linearize_order_independent:
  assumes "\<forall>a\<in>set es. \<forall>b\<in>set es. ev_event_id a = ev_event_id b \<longrightarrow> a = b"
    and "mset es' = mset es"
  shows "linearize es' = linearize es"
  unfolding linearize_def
  using assms(1) order_key_inj_id
  by (intro sort_key_mset_cong[OF assms(2)]) (metis assms(2) mset_eq_setD)

lemma linearize_sorted: "sorted (map order_key (linearize es))"
  by (simp add: linearize_def)

text \<open>Linearization is the stable sort of the events by instant, producer and event id: it loses
  and invents no event, every pair in the output respects that order, and events with the same
  instant, producer and id keep their input order.\<close>

theorem linearize_spec:
  "mset (linearize es) = mset es \<and>
   sorted_wrt (\<lambda>a b. (ev_ts a, ev_producer a, ev_event_id a) \<le> (ev_ts b, ev_producer b, ev_event_id b))
     (linearize es) \<and>
   filter (\<lambda>e. (ev_ts e, ev_producer e, ev_event_id e) = k) (linearize es) =
     filter (\<lambda>e. (ev_ts e, ev_producer e, ev_event_id e) = k) es"
proof (intro conjI)
  have "sorted_wrt (\<lambda>a b. order_key a \<le> order_key b) (linearize es)"
    using linearize_sorted by (simp add: sorted_map)
  then show "sorted_wrt (\<lambda>a b. (ev_ts a, ev_producer a, ev_event_id a)
      \<le> (ev_ts b, ev_producer b, ev_event_id b)) (linearize es)"
    by (rule sorted_wrt_mono_rel[rotated]) (auto simp: order_key_le less_eq_prod_simp)
  have key: "(ev_ts e, ev_producer e, ev_event_id e) = k \<longleftrightarrow>
      order_key e = (fst k div 1000000000, fst k mod 1000000000, snd k)" for e
    using instant_split[of "ev_ts e" "fst k"] by (cases k) (simp add: order_key_def)
  show "filter (\<lambda>e. (ev_ts e, ev_producer e, ev_event_id e) = k) (linearize es) =
     filter (\<lambda>e. (ev_ts e, ev_producer e, ev_event_id e) = k) es"
    unfolding key linearize_def by (rule sort_key_stable)
qed simp

text \<open>When the checked linearization of an event log reports itself deterministic, every
  physical order of the same events has the same linearization, findings included. It reports
  so exactly when no two different events of the log share an event id.\<close>

theorem deterministic_replay:
  assumes "is_deterministic (linearize_checked es)" and "mset es' = mset es"
  shows "linearize_checked es' = linearize_checked es \<and> is_deterministic (linearize_checked es') \<and>
    inj_on ev_event_id (set es)"
proof -
  have i: "\<forall>a\<in>set es. \<forall>b\<in>set es. ev_event_id a = ev_event_id b \<longrightarrow> a = b"
    using assms(1) deterministic_iff by blast
  have "linearize es' = linearize es"
    using i assms(2) by (rule linearize_order_independent)
  then have "linearize_checked es' = linearize_checked es"
    by (simp add: linearize_checked_def)
  moreover have "inj_on ev_event_id (set es)"
    using i by (auto simp: inj_on_def)
  ultimately show ?thesis
    using assms(1) by simp
qed

definition sample_event :: "uuid \<Rightarrow> string \<Rightarrow> instant \<Rightarrow> ir_event" where
  "sample_event i p t = \<lparr>ev_event_id = i, ev_producer = p, ev_producer_version = ''0.1.0'',
     ev_session_id = ''s'', ev_computation_id = None, ev_parent_id = None, ev_causal_inputs = None,
     ev_ts = t, ev_kind = Diagnostic, ev_payload = JNull\<rparr>"

theorem deterministic_replay_witness:
  "let es = [sample_event 2 ''b'' 7, sample_event 1 ''a'' 7, sample_event 2 ''b'' 7] in
   linearize_checked (rev es) = linearize_checked es \<and>
   is_deterministic (linearize_checked (rev es)) \<and> inj_on ev_event_id (set es)"
  unfolding Let_def
  by (rule deterministic_replay)
     (simp_all add: is_deterministic_def linearize_checked_def linearize_def bm_group_def
       bm_alter_def duplicate_of_def order_key_def sample_event_def less_eq_prod_simp)

subsection \<open>Producer streams\<close>

definition own_before :: "ir_event list \<Rightarrow> nat \<Rightarrow> ir_event list" where
  \<comment> \<open>the earlier events of the producer of the \<open>i\<close>-th one\<close>
  "own_before es i = filter (\<lambda>d. ev_producer d = ev_producer (es ! i)) (take i es)"

definition went_backwards :: "ir_event list \<Rightarrow> nat \<Rightarrow> bool" where
  "went_backwards es i \<longleftrightarrow>
     own_before es i \<noteq> [] \<and> ev_event_id (es ! i) < ev_event_id (last (own_before es i))"

definition violation_at :: "ir_event list \<Rightarrow> nat \<Rightarrow> producer_order_violation" where
  "violation_at es i =
     \<lparr>pv_producer = ev_producer (es ! i), pv_previous = ev_event_id (last (own_before es i)),
      pv_observed = ev_event_id (es ! i), pv_log_index = i\<rparr>"

definition backward_violations :: "ir_event list \<Rightarrow> producer_order_violation list" where
  "backward_violations es = map (violation_at es) (filter (went_backwards es) [0..<length es])"

lemma own_before_append [simp]: "i < length es \<Longrightarrow> own_before (es @ [e]) i = own_before es i"
  by (simp add: own_before_def nth_append)

lemma backward_violations_snoc:
  "backward_violations (es @ [e]) =
     backward_violations es @
     (if went_backwards (es @ [e]) (length es) then [violation_at (es @ [e]) (length es)] else [])"
proof -
  have "filter (went_backwards (es @ [e])) [0..<length es] = filter (went_backwards es) [0..<length es]"
    by (rule filter_cong) (auto simp: went_backwards_def nth_append)
  moreover have "map (violation_at (es @ [e])) (filter (went_backwards es) [0..<length es]) =
      map (violation_at es) (filter (went_backwards es) [0..<length es])"
    by (rule map_cong) (auto simp: violation_at_def nth_append)
  ultimately show ?thesis
    by (simp add: backward_violations_def)
qed

lemma log_order_fold:
  "foldl log_order_step ([], []) (enumerate 0 es) = (bm_group ev_producer es, backward_violations es)"
proof (induction es rule: rev_induct)
  case Nil
  show ?case by (simp add: bm_group_def backward_violations_def)
next
  case (snoc e es)
  have "bm_group ev_producer (es @ [e]) =
      bm_alter (ev_producer e) [] (\<lambda>s. s @ [e]) (bm_group ev_producer es)"
    by (simp add: bm_group_def)
  moreover have "(case map_of (bm_group ev_producer es) (ev_producer e) of None \<Rightarrow> [] | Some s \<Rightarrow> s) =
      own_before (es @ [e]) (length es)"
    by (auto simp: map_of_bm_group Let_def own_before_def)
  ultimately show ?case
    by (simp add: enumerate_append_eq snoc.IH Let_def backward_violations_snoc
        went_backwards_def violation_at_def)
qed

lemma bm_keys_map_snd: "map_of (map (\<lambda>(p, s). (p, f s)) m) k = map_option f (map_of m k)"
  by (induction m) auto

lemma backward_violations_Nil:
  "backward_violations es = [] \<longleftrightarrow> (\<forall>p. sorted (map ev_event_id (filter (\<lambda>d. ev_producer d = p) es)))"
proof (induction es rule: rev_induct)
  case Nil
  show ?case by (simp add: backward_violations_def)
next
  case (snoc e es)
  let ?own = "filter (\<lambda>d. ev_producer d = ev_producer e) es"
  have sorted_snoc: "sorted (map f (xs @ [x])) \<longleftrightarrow> sorted (map f xs) \<and> (xs = [] \<or> f (last xs) \<le> f x)"
    for f :: "ir_event \<Rightarrow> uuid" and xs x
    by (cases xs rule: rev_cases) (auto simp: sorted_append intro: order.trans)
  have step: "went_backwards (es @ [e]) (length es) \<longleftrightarrow>
      ?own \<noteq> [] \<and> ev_event_id e < ev_event_id (last ?own)"
    by (simp add: went_backwards_def own_before_def)
  have "(\<forall>p. sorted (map ev_event_id (filter (\<lambda>d. ev_producer d = p) (es @ [e])))) \<longleftrightarrow>
      (\<forall>p. sorted (map ev_event_id (filter (\<lambda>d. ev_producer d = p) es))) \<and>
      (?own = [] \<or> ev_event_id (last ?own) \<le> ev_event_id e)"
    using sorted_snoc[of ev_event_id ?own e] by (auto simp del: map_append)
  then show ?case
    using step by (auto simp: backward_violations_snoc snoc.IH not_less)
qed

text \<open>Grouping a log into producer streams gives each producer that emitted anything the events
  it emitted, sorted by event id, and reports one violation for each event whose id is below the
  id its producer emitted just before, with its index in the log. There is no violation exactly
  when every producer emitted in id order, and then no stream is reordered.\<close>

theorem producer_streams_spec:
  "producer_stream (from_log_order es) p =
     (let own = filter (\<lambda>d. ev_producer d = p) es
      in if own = [] then None else Some (sort_key ev_event_id own)) \<and>
   ps_violations (from_log_order es) =
     map (violation_at es) (filter (went_backwards es) [0..<length es]) \<and>
   (ps_violations (from_log_order es) = [] \<longleftrightarrow>
     (\<forall>q. sorted (map ev_event_id (filter (\<lambda>d. ev_producer d = q) es))))"
proof -
  have "ps_violations (from_log_order es) = backward_violations es"
    by (simp add: from_log_order_def log_order_fold)
  moreover have "producer_stream (from_log_order es) p =
      map_option (sort_key ev_event_id) (map_of (bm_group ev_producer es) p)"
    by (simp add: from_log_order_def log_order_fold producer_stream_def bm_keys_map_snd)
  ultimately show ?thesis
    using backward_violations_Nil[of es]
    by (simp add: map_of_bm_group Let_def backward_violations_def)
qed

end
