(* ===== verification/Coverage_Registry.thy ===== *)
theory Coverage_Registry
  imports Certificate
begin

section \<open>The registry of producer coverage manifests\<close>

text \<open>
  \<open>freshdag-store/src/coverage.rs\<close> and \<open>error.rs\<close>: an append-only file of registrations
  and its in-memory projection, in which the last registration of a producer and version wins.
  The state of the backing file is its bytes; an append that fails may leave a prefix of the
  record behind. The JSON codec of a registration and the texts of I/O and parse errors are
  parameters (\<open>serialize\<close>, \<open>parse\<close>, \<open>append_outcome\<close>).
\<close>

datatype store_error =
    StoreIo string string
  | StoreMalformedRecord (mr_path: string) (mr_line: nat) (mr_byte_offset: nat) (mr_message: string)
  | StoreTruncatedTrailing string nat nat
  | StoreSerialize string

datatype producer_key = ProducerKey (pk_producer: string) (pk_version: string)

instantiation producer_key :: linorder
begin

definition less_eq_producer_key :: "producer_key \<Rightarrow> producer_key \<Rightarrow> bool" where
  "less_eq_producer_key a b \<longleftrightarrow> (pk_producer a, pk_version a) \<le> (pk_producer b, pk_version b)"

definition less_producer_key :: "producer_key \<Rightarrow> producer_key \<Rightarrow> bool" where
  "less_producer_key a b \<longleftrightarrow> (pk_producer a, pk_version a) < (pk_producer b, pk_version b)"

instance
proof
  fix a b c :: producer_key
  show "a < b \<longleftrightarrow> a \<le> b \<and> \<not> b \<le> a" "a \<le> a" "a \<le> b \<or> b \<le> a"
    by (auto simp: less_producer_key_def less_eq_producer_key_def)
  show "a \<le> b \<Longrightarrow> b \<le> c \<Longrightarrow> a \<le> c"
    unfolding less_eq_producer_key_def by (rule order.trans)
  show "a \<le> b \<Longrightarrow> b \<le> a \<Longrightarrow> a = b"
    unfolding less_eq_producer_key_def by (metis order.antisym prod.inject producer_key.expand)
qed

end

definition key_of_event :: "ir_event \<Rightarrow> producer_key" where
  "key_of_event e = ProducerKey (ev_producer e) (ev_producer_version e)"

definition key_of_manifest :: "coverage_manifest \<Rightarrow> producer_key" where
  "key_of_manifest m = ProducerKey (cm_producer m) (cm_version m)"

definition producer_key_display :: "producer_key \<Rightarrow> string" where
  "producer_key_display k = pk_producer k @ ''/'' @ pk_version k"

record coverage_registration =
  rg_registered_at :: instant
  rg_manifest :: coverage_manifest

record coverage_lookup =
  lk_entries :: "coverage_entry list"
  lk_unregistered :: "producer_key list"

definition lookup_is_complete :: "coverage_lookup \<Rightarrow> bool" where
  "lookup_is_complete l \<longleftrightarrow> lk_unregistered l = []"

record coverage_registry =
  cr_path :: "string option"
  cr_manifests :: "(producer_key, coverage_manifest) bmap"

definition registry_in_memory :: coverage_registry where
  "registry_in_memory = \<lparr>cr_path = None, cr_manifests = []\<rparr>"

datatype read_outcome = ReadBytes string | ReadNotFound | ReadFailed string

fun registry_replay ::
  "(string \<Rightarrow> string + coverage_registration) \<Rightarrow> string \<Rightarrow> (nat \<times> string) list
     \<Rightarrow> (producer_key, coverage_manifest) bmap
     \<Rightarrow> store_error + (producer_key, coverage_manifest) bmap" where
  "registry_replay parse path [] m = Inr m"
| "registry_replay parse path ((i, line) # rest) m =
     (if line = [] then registry_replay parse path rest m
      else case parse line of
          Inl msg \<Rightarrow> Inl (StoreMalformedRecord path (i + 1) 0 msg)
        | Inr r \<Rightarrow> registry_replay parse path rest
                    (bm_put (key_of_manifest (rg_manifest r)) (rg_manifest r) m))"

definition newline :: char where
  "newline = CHR 0x0A"

definition registry_open ::
  "(string \<Rightarrow> string + coverage_registration) \<Rightarrow> string \<Rightarrow> read_outcome
     \<Rightarrow> store_error + coverage_registry" where
  "registry_open parse path outcome =
     (case outcome of
        ReadNotFound \<Rightarrow> Inr \<lparr>cr_path = Some path, cr_manifests = []\<rparr>
      | ReadFailed e \<Rightarrow> Inl (StoreIo path e)
      | ReadBytes raw \<Rightarrow>
          res_bind (registry_replay parse path (enumerate 0 (split_on newline raw)) [])
            (\<lambda>m. Inr \<lparr>cr_path = Some path, cr_manifests = m\<rparr>))"

datatype append_outcome =
    Appended
  | AppendFailed string nat  \<comment> \<open>the error, and how many bytes reached the file before it\<close>

definition register_at ::
  "(coverage_registration \<Rightarrow> string + string) \<Rightarrow> append_outcome \<Rightarrow> coverage_manifest \<Rightarrow> instant
     \<Rightarrow> coverage_registry \<Rightarrow> string \<Rightarrow> (store_error + coverage_registry) \<times> string" where
  \<comment> \<open>the result and the bytes of the backing file afterwards\<close>
  "register_at serialize outcome manifest registered_at reg disk =
     (let done = Inr (reg\<lparr>cr_manifests := bm_put (key_of_manifest manifest) manifest (cr_manifests reg)\<rparr>)
      in case cr_path reg of
           None \<Rightarrow> (done, disk)
         | Some path \<Rightarrow>
             (case serialize \<lparr>rg_registered_at = registered_at, rg_manifest = manifest\<rparr> of
                Inl e \<Rightarrow> (Inl (StoreSerialize e), disk)
              | Inr body \<Rightarrow>
                  (let buf = body @ [newline] in
                   case outcome of
                     AppendFailed e n \<Rightarrow> (Inl (StoreIo path e), disk @ take n buf)
                   | Appended \<Rightarrow> (done, disk @ buf))))"

definition registry_len :: "coverage_registry \<Rightarrow> nat" where
  "registry_len r = length (cr_manifests r)"

definition registry_is_empty :: "coverage_registry \<Rightarrow> bool" where
  "registry_is_empty r \<longleftrightarrow> cr_manifests r = []"

definition registry_manifest :: "coverage_registry \<Rightarrow> producer_key \<Rightarrow> coverage_manifest option" where
  "registry_manifest r k = map_of (cr_manifests r) k"

fun lookup_step :: "coverage_registry \<Rightarrow> producer_key \<Rightarrow> coverage_lookup \<Rightarrow> coverage_lookup" where
  "lookup_step r key l =
     (case map_of (cr_manifests r) key of
        Some manifest \<Rightarrow> l\<lparr>lk_entries := lk_entries l @ [entry_from_manifest manifest]\<rparr>
      | None \<Rightarrow> l\<lparr>lk_unregistered := lk_unregistered l @ [key]\<rparr>)"

definition registry_lookup :: "coverage_registry \<Rightarrow> producer_key list \<Rightarrow> coverage_lookup" where
  "registry_lookup r keys =
     fold (lookup_step r) (bset keys) \<lparr>lk_entries = [], lk_unregistered = []\<rparr>"

definition coverage_for :: "coverage_registry \<Rightarrow> ir_event list \<Rightarrow> coverage_lookup" where
  "coverage_for r events = registry_lookup r (map key_of_event events)"

definition coverage_for_session ::
  "coverage_registry \<Rightarrow> ir_event list \<Rightarrow> string \<Rightarrow> coverage_lookup" where
  "coverage_for_session r events session_id =
     registry_lookup r (map key_of_event (filter (\<lambda>e. ev_session_id e = session_id) events))"

definition coverage_for_computation ::
  "coverage_registry \<Rightarrow> ir_event list \<Rightarrow> computation_id \<Rightarrow> coverage_lookup" where
  "coverage_for_computation r events computation_id =
     registry_lookup r (map key_of_event
       (filter (\<lambda>e. ev_computation_id e = Some computation_id) events))"

subsection \<open>What a lookup returns\<close>

definition registry_ok :: "coverage_registry \<Rightarrow> bool" where
  "registry_ok r \<longleftrightarrow> bm_ok (cr_manifests r) \<and>
     list_all (\<lambda>(k, m). k = key_of_manifest m) (cr_manifests r)"

lemma registry_ok_key: "registry_ok r \<Longrightarrow> registry_manifest r k = Some m \<Longrightarrow> key_of_manifest m = k"
  by (auto simp: registry_ok_def registry_manifest_def list_all_iff dest!: map_of_SomeD)

lemma lookup_fold:
  "fold (lookup_step r) keys l =
     \<lparr>lk_entries = lk_entries l @
        map (\<lambda>k. entry_from_manifest (the (registry_manifest r k)))
          (filter (\<lambda>k. registry_manifest r k \<noteq> None) keys),
      lk_unregistered = lk_unregistered l @ filter (\<lambda>k. registry_manifest r k = None) keys\<rparr>"
  by (induction keys arbitrary: l) (auto simp: registry_manifest_def split: option.splits)

lemma registry_lookup_eq:
  "registry_lookup r keys =
     \<lparr>lk_entries = map (\<lambda>k. entry_from_manifest (the (registry_manifest r k)))
          (filter (\<lambda>k. registry_manifest r k \<noteq> None) (bset keys)),
      lk_unregistered = filter (\<lambda>k. registry_manifest r k = None) (bset keys)\<rparr>"
  by (simp add: registry_lookup_def lookup_fold)

lemma entry_producer [simp]:
  "ce_producer (entry_from_manifest m) = cm_producer m" "ce_version (entry_from_manifest m) = cm_version m"
  by (simp_all add: entry_from_manifest_def)

lemma lookup_entries_in:
  "e \<in> set (lk_entries (registry_lookup r keys)) \<longleftrightarrow>
     (\<exists>k\<in>set keys. \<exists>m. registry_manifest r k = Some m \<and> e = entry_from_manifest m)"
  by (force simp: registry_lookup_eq image_iff)

lemma lookup_unregistered_in:
  "k \<in> set (lk_unregistered (registry_lookup r keys)) \<longleftrightarrow> k \<in> set keys \<and> registry_manifest r k = None"
  by (auto simp: registry_lookup_eq)

text \<open>In a registry that files each manifest under its own producer and version, looking up a
  computation's coverage accounts for every producer version that emitted into it: it is listed
  either by one coverage entry copied from its manifest or as unregistered, never both, and
  nothing that did not emit is listed.\<close>

theorem lookup_accounts_for_emitters:
  assumes "registry_ok r" and l_def: "l = coverage_for_computation r events c"
  shows "sorted (lk_unregistered l) \<and> distinct (lk_unregistered l) \<and>
    sorted_wrt (<) (map (\<lambda>e. ProducerKey (ce_producer e) (ce_version e)) (lk_entries l)) \<and>
    (\<forall>k. (\<exists>e\<in>set events. ev_computation_id e = Some c \<and> key_of_event e = k) \<longleftrightarrow>
       (k \<in> set (lk_unregistered l)) \<noteq>
       (k \<in> (\<lambda>e. ProducerKey (ce_producer e) (ce_version e)) ` set (lk_entries l)))"
proof -
  define ks where "ks = map key_of_event (filter (\<lambda>e. ev_computation_id e = Some c) events)"
  define f where "f = (\<lambda>e :: coverage_entry. ProducerKey (ce_producer e) (ce_version e))"
  have l: "l = registry_lookup r ks"
    by (simp add: l_def coverage_for_computation_def ks_def)
  have f: "f (entry_from_manifest (the (registry_manifest r k))) = k"
    if "registry_manifest r k \<noteq> None" for k
    using registry_ok_key[OF assms(1), of k] that by (auto simp: f_def key_of_manifest_def)
  then have entries: "map f (lk_entries l) = filter (\<lambda>k. registry_manifest r k \<noteq> None) (bset ks)"
    by (auto simp: l registry_lookup_eq intro!: map_idI)
  have ks: "(\<exists>e\<in>set events. ev_computation_id e = Some c \<and> key_of_event e = k) \<longleftrightarrow> k \<in> set ks" for k
    by (auto simp: ks_def)
  have "set (map f (lk_entries l)) = {k \<in> set ks. registry_manifest r k \<noteq> None}"
    unfolding entries by auto
  then have mem: "k \<in> f ` set (lk_entries l) \<longleftrightarrow> k \<in> set ks \<and> registry_manifest r k \<noteq> None" for k
    by (metis (mono_tags, lifting) list.set_map mem_Collect_eq)
  have un: "lk_unregistered l = filter (\<lambda>k. registry_manifest r k = None) (bset ks)"
    by (simp add: l registry_lookup_eq)
  have "sorted_wrt (<) (map f (lk_entries l))"
    unfolding entries strict_sorted_iff by (simp add: sorted_wrt_filter)
  then show ?thesis
    unfolding f_def[symmetric] ks mem un by (auto simp: sorted_wrt_filter)
qed

definition sample_manifest :: coverage_manifest where
  "sample_manifest = \<lparr>cm_producer = ''obs'', cm_version = ''1'', cm_role = Observer,
     cm_platforms = [], cm_emits = [''fs.*''], cm_partial = [], cm_capabilities = [],
     cm_known_limitations = []\<rparr>"

definition sample_registry :: coverage_registry where
  "sample_registry =
     \<lparr>cr_path = None, cr_manifests = [(key_of_manifest sample_manifest, sample_manifest)]\<rparr>"

definition emitted_by :: "string \<Rightarrow> ir_event" where
  "emitted_by p = \<lparr>ev_event_id = 1, ev_producer = p, ev_producer_version = ''1'',
     ev_session_id = ''s'', ev_computation_id = Some ''comp:x'', ev_parent_id = None,
     ev_causal_inputs = None, ev_ts = 0, ev_kind = FsRead, ev_payload = JNull\<rparr>"

theorem lookup_accounts_for_emitters_witness:
  "let l = coverage_for_computation sample_registry [emitted_by ''obs'', emitted_by ''x''] ''comp:x'' in
    sorted (lk_unregistered l) \<and> distinct (lk_unregistered l) \<and>
    sorted_wrt (<) (map (\<lambda>e. ProducerKey (ce_producer e) (ce_version e)) (lk_entries l)) \<and>
    (\<forall>k. (\<exists>e\<in>set [emitted_by ''obs'', emitted_by ''x'']. ev_computation_id e = Some ''comp:x'' \<and> key_of_event e = k) \<longleftrightarrow>
       (k \<in> set (lk_unregistered l)) \<noteq>
       (k \<in> (\<lambda>e. ProducerKey (ce_producer e) (ce_version e)) ` set (lk_entries l)))"
  unfolding Let_def
  by (rule lookup_accounts_for_emitters[OF _ refl])
     (simp add: registry_ok_def sample_registry_def sample_manifest_def bm_ok_def)

subsection \<open>The file and its projection\<close>

lemma registry_replay_append:
  "registry_replay parse path (ls @ ls') m =
     res_bind (registry_replay parse path ls m) (registry_replay parse path ls')"
  by (induction parse path ls m rule: registry_replay.induct) (auto split: sum.splits)

lemma registry_replay_ok:
  "registry_replay parse path ls m = Inr m' \<Longrightarrow> registry_ok \<lparr>cr_path = p, cr_manifests = m\<rparr> \<Longrightarrow>
   registry_ok \<lparr>cr_path = p, cr_manifests = m'\<rparr>"
proof (induction parse path ls m rule: registry_replay.induct)
  case (2 parse path i line rest m)
  have "registry_ok \<lparr>cr_path = p, cr_manifests = bm_put (key_of_manifest q) q m\<rparr>" for q
    using 2(4) by (auto simp: registry_ok_def list_all_iff dest!: set_bm_put)
  with 2 show ?case by (auto split: if_splits sum.splits)
qed simp

fun register_all ::
  "(coverage_registration \<Rightarrow> string + string) \<Rightarrow> coverage_registration list
     \<Rightarrow> coverage_registry \<Rightarrow> string \<Rightarrow> (store_error + coverage_registry) \<times> string" where
  \<comment> \<open>a run of registrations, all of whose appends reach the file\<close>
  "register_all ser [] reg disk = (Inr reg, disk)"
| "register_all ser (r # rs) reg disk =
     (case register_at ser Appended (rg_manifest r) (rg_registered_at r) reg disk of
        (Inl e, disk') \<Rightarrow> (Inl e, disk')
      | (Inr reg', disk') \<Rightarrow> register_all ser rs reg' disk')"

definition terminated :: "string \<Rightarrow> bool" where
  \<comment> \<open>every record of the file ends in a newline\<close>
  "terminated disk \<longleftrightarrow> disk = [] \<or> last disk = newline"

lemma terminated_split:
  assumes "terminated d"
  obtains ls where "split_on newline d = ls @ [[]]" "\<And>s. split_on newline (d @ s) = ls @ split_on newline s"
proof (cases d rule: rev_cases)
  case Nil
  then show ?thesis by (intro that[of "[]"]) auto
next
  case (snoc a x)
  with assms have "x = newline" by (simp add: terminated_def)
  then show ?thesis
    using snoc by (intro that[of "split_on newline a"]) (simp_all add: split_on_sep)
qed

lemma registry_open_append:
  assumes d: "terminated d" and o: "registry_open parse path (ReadBytes d) = Inr reg"
    and body: "body \<noteq> []" "newline \<notin> set body" "parse body = Inr r"
  shows "registry_open parse path (ReadBytes (d @ body @ [newline])) =
    Inr (reg\<lparr>cr_manifests := bm_put (key_of_manifest (rg_manifest r)) (rg_manifest r) (cr_manifests reg)\<rparr>)"
proof -
  obtain ls where ls: "split_on newline d = ls @ [[]]"
      "\<And>s. split_on newline (d @ s) = ls @ split_on newline s"
    using terminated_split[OF d] by blast
  have "split_on newline (d @ body @ [newline]) = ls @ [body, []]"
    using ls(2) body(2) by (simp add: split_on_append)
  moreover from o obtain m where "registry_replay parse path (enumerate 0 ls) [] = Inr m"
      "reg = \<lparr>cr_path = Some path, cr_manifests = m\<rparr>"
    by (auto simp: registry_open_def ls(1) enumerate_append_eq registry_replay_append
        res_bind_Inr_iff)
  ultimately show ?thesis
    using body by (simp add: registry_open_def enumerate_append_eq registry_replay_append)
qed

lemma register_all_reopen:
  assumes codec: "\<And>r body. r \<in> set rs \<Longrightarrow> ser r = Inr body \<Longrightarrow>
      parse body = Inr r \<and> body \<noteq> [] \<and> newline \<notin> set body"
  shows "terminated d \<Longrightarrow> registry_open parse path (ReadBytes d) = Inr reg \<Longrightarrow>
    register_all ser rs reg d = (Inr reg', d') \<Longrightarrow>
    terminated d' \<and> registry_open parse path (ReadBytes d') = Inr reg'"
  using codec
proof (induction rs arbitrary: reg d)
  case (Cons r rs)
  from Cons.prems(2) have p: "cr_path reg = Some path"
    by (auto simp: registry_open_def res_bind_Inr_iff)
  have r: "\<lparr>rg_registered_at = rg_registered_at r, rg_manifest = rg_manifest r\<rparr> = r"
    by simp
  from Cons.prems(3) p obtain body where b: "ser r = Inr body"
    by (cases "ser r") (simp_all add: register_at_def r)
  let ?d = "d @ body @ [newline]"
  let ?reg = "reg\<lparr>cr_manifests := bm_put (key_of_manifest (rg_manifest r)) (rg_manifest r) (cr_manifests reg)\<rparr>"
  have o: "registry_open parse path (ReadBytes ?d) = Inr ?reg"
    using Cons.prems(4)[of r body] b
    by (intro registry_open_append[OF Cons.prems(1,2)]) simp_all
  have step: "register_at ser Appended (rg_manifest r) (rg_registered_at r) reg d = (Inr ?reg, ?d)"
    using p b by (simp add: register_at_def r)
  have rest: "register_all ser rs ?reg ?d = (Inr reg', d')"
    using Cons.prems(3) step by simp
  have t: "terminated ?d"
    by (simp add: terminated_def)
  show ?case
    by (rule Cons.IH[OF t o rest]) (rule Cons.prems(4), simp_all)
qed simp

text \<open>Reopening the registry file replays every registration made through the registry: after
  any run of registrations on a file whose records are all newline-terminated, opening the file
  gives exactly the registry held in memory, whatever was registered before or twice. It uses
  of the JSON codec that a written record parses back to itself, is not empty and holds no raw
  newline.\<close>

theorem registry_reopen:
  assumes "\<And>r body. r \<in> set rs \<Longrightarrow> ser r = Inr body \<Longrightarrow>
      parse body = Inr r \<and> body \<noteq> [] \<and> newline \<notin> set body"
    and "terminated d" and "registry_open parse path (ReadBytes d) = Inr reg"
    and "register_all ser rs reg d = (Inr reg', d')"
  shows "registry_open parse path (ReadBytes d') = Inr reg'"
  using register_all_reopen[OF assms] by simp

definition sample_ser :: "coverage_registration \<Rightarrow> string + string" where
  "sample_ser r = Inr (if rg_registered_at r = 0 then ''a'' else ''b'')"

definition sample_parse :: "string \<Rightarrow> string + coverage_registration" where
  "sample_parse s = (if s = ''a'' then Inr \<lparr>rg_registered_at = 0, rg_manifest = sample_manifest\<rparr>
     else if s = ''b'' then Inr \<lparr>rg_registered_at = 1,
        rg_manifest = sample_manifest\<lparr>cm_emits := [''fs.read'']\<rparr>\<rparr>
     else Inl ''expected value'')"

theorem registry_reopen_witness:
  "registry_open sample_parse ''coverage.jsonl'' (ReadBytes (''a'' @ [newline] @ ''b'' @ [newline])) =
     Inr \<lparr>cr_path = Some ''coverage.jsonl'',
       cr_manifests = [(ProducerKey ''obs'' ''1'', sample_manifest\<lparr>cm_emits := [''fs.read'']\<rparr>)]\<rparr>"
  by (rule registry_reopen[of "[\<lparr>rg_registered_at = 0, rg_manifest = sample_manifest\<rparr>,
        \<lparr>rg_registered_at = 1, rg_manifest = sample_manifest\<lparr>cm_emits := [''fs.read'']\<rparr>\<rparr>]"
        sample_ser _ "[]" _ "\<lparr>cr_path = Some ''coverage.jsonl'', cr_manifests = []\<rparr>"])
     (auto simp: sample_ser_def sample_parse_def newline_def terminated_def registry_open_def
       register_at_def key_of_manifest_def sample_manifest_def)

end
