(* ===== verification/Graph.thy ===== *)
theory Graph
  imports Order Coverage_Registry
begin

section \<open>The derived dependency graph\<close>

text \<open>
  \<open>freshdag-store/src/graph.rs\<close>: the projection of the event log into per-computation nodes,
  the reverse index (blast radius) and producer attribution. \<open>classify\<close> decides what one
  event becomes, \<open>node_step\<close> is the body of the loop over the linearized events with all of
  its maps, \<open>replay\<close> composes the passes. The texts of serde's decode errors (\<open>msg\<close>) are a
  parameter; the two exclusion messages that print a value in debug form carry the value.
\<close>

subsection \<open>Types\<close>

definition edge_bearing_kinds :: "event_kind list" where
  "edge_bearing_kinds = [FsRead, FsWrite, FsStat, FsRename, FsUnlink, FsDirlist, NetFetch,
     ProbeChecked, ArtifactProduced, ToolInvoked]"

datatype malformed_payload =
    MalformedText string
  | MalformedTrustClass "string option"
  | MalformedFingerprint fingerprint_parse_error

datatype exclusion_reason =
    ReadAfterOwnWrite
  | Impure
  | NoFingerprint
  | ExcludedNakedVolatile
  | MalformedPayload malformed_payload

fun is_unproven_dependency :: "exclusion_reason \<Rightarrow> bool" where
  "is_unproven_dependency NoFingerprint = True"
| "is_unproven_dependency ExcludedNakedVolatile = True"
| "is_unproven_dependency (MalformedPayload _) = True"
| "is_unproven_dependency ReadAfterOwnWrite = False"
| "is_unproven_dependency Impure = False"

record excluded_edge =
  xe_event_id :: uuid
  xe_kind :: event_kind
  xe_key :: "dependency_id option"
  xe_scheme :: "string option"
  xe_reason :: exclusion_reason

record edge_conflict =
  ec_dependency :: dependency_id
  ec_first_event_id :: uuid
  ec_first_fingerprint :: fingerprint
  ec_conflicting_event_id :: uuid
  ec_conflicting_fingerprint :: fingerprint

record output_record =
  or_event_id :: uuid
  or_path :: string
  or_hash :: "string option"

record coverage_obligation =
  ob_event_id :: uuid
  ob_producer :: string
  ob_tool_name :: string
  ob_tool_kind :: string

datatype graph_defect =
    OrphanEdgeEvent uuid event_kind string
  | ArtifactProducerMismatch uuid "string option" string
  | DivergentDuplicate uuid string

datatype silence_meaning =
    Unobserved
  | PartiallyObserved "partial_coverage list"
  | ObservedAbsent

record computation_coverage =
  cc_computation_id :: computation_id
  cc_entries :: "coverage_entry list"
  cc_unregistered :: "producer_key list"
  cc_partial_notes :: "(string, partial_coverage list) bmap"

record accounting =
  ac_edge_events :: nat
  ac_outputs :: nat
  ac_artifacts :: nat
  ac_obligations :: nat
  ac_excluded :: nat
  ac_unmodeled :: nat
  ac_total :: nat

definition accounting_default :: accounting where
  "accounting_default = \<lparr>ac_edge_events = 0, ac_outputs = 0, ac_artifacts = 0, ac_obligations = 0,
     ac_excluded = 0, ac_unmodeled = 0, ac_total = 0\<rparr>"

definition is_balanced :: "accounting \<Rightarrow> bool" where
  "is_balanced a \<longleftrightarrow> ac_edge_events a + ac_outputs a + ac_artifacts a + ac_obligations a
     + ac_excluded a + ac_unmodeled a = ac_total a"

record computation_node =
  cn_computation_id :: computation_id
  cn_dependencies :: "dependency list"
  cn_outputs :: "output_record list"
  cn_artifacts :: "artifact_id list"
  cn_obligations :: "coverage_obligation list"
  cn_excluded :: "excluded_edge list"
  cn_conflicts :: "edge_conflict list"
  cn_kind_counts :: "(string, nat) bmap"
  cn_unmodeled :: "(string, nat) bmap"
  cn_contributors :: "producer_key list"
  cn_accounting :: accounting

definition node_new :: "computation_id \<Rightarrow> computation_node" where
  "node_new c = \<lparr>cn_computation_id = c, cn_dependencies = [], cn_outputs = [], cn_artifacts = [],
     cn_obligations = [], cn_excluded = [], cn_conflicts = [], cn_kind_counts = [],
     cn_unmodeled = [], cn_contributors = [], cn_accounting = accounting_default\<rparr>"

definition count_of :: "computation_node \<Rightarrow> event_kind \<Rightarrow> nat" where
  "count_of n k = (case map_of (cn_kind_counts n) (event_wire k) of None \<Rightarrow> 0 | Some c \<Rightarrow> c)"

definition has_coverage_obligation :: "computation_node \<Rightarrow> bool" where
  "has_coverage_obligation n \<longleftrightarrow> cn_obligations n \<noteq> []"

record reverse_index_entry =
  ri_dependency :: dependency_id
  ri_scheme :: string
  ri_consuming_computations :: "computation_id list"
  ri_consumers :: "artifact_id list"
  ri_unproven_computations :: "computation_id list"
  ri_unproven_consumers :: "artifact_id list"

definition is_fully_proven :: "reverse_index_entry \<Rightarrow> bool" where
  "is_fully_proven e \<longleftrightarrow> ri_unproven_computations e = []"

record derived_graph =
  dg_computations :: "(computation_id, computation_node) bmap"
  dg_reverse_index :: "(dependency_id, reverse_index_entry) bmap"
  dg_attribution :: "(computation_id, computation_coverage) bmap"
  dg_defects :: "graph_defect list"
  dg_duplicate_event_ids :: "uuid list"
  dg_event_count :: nat
  dg_deterministic :: bool

subsection \<open>Classification\<close>

record artifact_at =
  aa_position :: nat
  aa_path :: string
  aa_artifact :: artifact_id
  aa_computation :: "string option"

definition collect_artifact_paths :: "ir_event list \<Rightarrow> artifact_at list" where
  "collect_artifact_paths events =
     List.map_filter (\<lambda>(position, event).
       if ev_kind event \<noteq> ArtifactProduced then None
       else case (str_at (ev_payload event) ''artifact_id'', str_at (ev_payload event) ''path'') of
           (Some i, Some path) \<Rightarrow> Some \<lparr>aa_position = position, aa_path = path, aa_artifact = i,
                                  aa_computation = ev_computation_id event\<rparr>
         | _ \<Rightarrow> None) (enumerate 0 events)"

definition producing_artifact ::
  "artifact_at list \<Rightarrow> string \<Rightarrow> nat \<Rightarrow> computation_id \<Rightarrow> artifact_id option" where
  "producing_artifact artifacts path position c =
     map_option aa_artifact
       (find (\<lambda>a. aa_position a < position \<and> path_eq (aa_path a) path \<and>
                  aa_computation a \<noteq> Some c) (rev artifacts))"

datatype outcome =
    EdgeOf dependency
  | OutputOf output_record
  | ArtifactOf artifact_id "graph_defect option"
  | ObligationOf coverage_obligation
  | ExcludedOf excluded_edge
  | Unmodeled

definition file_scheme :: string where
  "file_scheme = ''file''"

definition file_key :: "string \<Rightarrow> dependency_id" where
  "file_key path = from_scheme_key file_scheme path"

definition observed_at :: "instant \<Rightarrow> instant" where
  \<comment> \<open>a change of offset; the instant is the same\<close>
  "observed_at ts = ts"

definition decode_error_display :: "decode_error \<Rightarrow> string" where
  "decode_error_display e =
     (case e of
        DecodeUnsupported k \<Rightarrow>
          ''no typed payload for event kind `'' @ event_wire k @ ''` in this crate version''
      | DecodeMalformed s \<Rightarrow> ''malformed payload for kind: '' @ s)"

definition classify_read ::
  "(event_kind \<Rightarrow> json \<Rightarrow> string) \<Rightarrow> ir_event \<Rightarrow> nat \<Rightarrow> string list \<Rightarrow> artifact_at list
     \<Rightarrow> computation_id \<Rightarrow> outcome" where
  "classify_read msg event position written artifacts c =
     (case decode_payload msg event of
        Inr (FsReadPayload rd) \<Rightarrow>
          (let key = file_key (fr_path rd);
               excluded = (\<lambda>r. ExcludedOf \<lparr>xe_event_id = ev_event_id event, xe_kind = ev_kind event,
                   xe_key = Some key, xe_scheme = Some file_scheme, xe_reason = r\<rparr>)
           in if path_in (fr_path rd) written then excluded ReadAfterOwnWrite
              else if fr_impure rd then excluded Impure
              else case fr_hash rd of
                None \<Rightarrow> excluded NoFingerprint
              | Some h \<Rightarrow>
                  EdgeOf ((exact_file (fr_path rd) h (observed_at (ev_ts event)))
                    \<lparr>dep_produced_by := producing_artifact artifacts (fr_path rd) position c\<rparr>))
      | Inr _ \<Rightarrow>
          ExcludedOf \<lparr>xe_event_id = ev_event_id event, xe_kind = ev_kind event, xe_key = None,
            xe_scheme = Some file_scheme,
            xe_reason = MalformedPayload (MalformedText ''fs.read payload did not decode as FsRead'')\<rparr>
      | Inl e \<Rightarrow>
          ExcludedOf \<lparr>xe_event_id = ev_event_id event, xe_kind = ev_kind event,
            xe_key = map_option file_key (str_at (ev_payload event) ''path''),
            xe_scheme = Some file_scheme,
            xe_reason = MalformedPayload (MalformedText (decode_error_display e))\<rparr>)"

definition classify_write ::
  "(event_kind \<Rightarrow> json \<Rightarrow> string) \<Rightarrow> ir_event \<Rightarrow> string list \<Rightarrow> outcome \<times> string list" where
  \<comment> \<open>with the written set afterwards\<close>
  "classify_write msg event written =
     (case decode_payload msg event of
        Inr (FsWritePayload w) \<Rightarrow>
          (OutputOf \<lparr>or_event_id = ev_event_id event, or_path = fw_path w,
             or_hash = map_option hash_display (fw_hash w)\<rparr>,
           written @ [fw_path w])
      | _ \<Rightarrow>
          (let raw_path = str_at (ev_payload event) ''path'' in
           (ExcludedOf \<lparr>xe_event_id = ev_event_id event, xe_kind = ev_kind event,
              xe_key = map_option file_key raw_path, xe_scheme = Some file_scheme,
              xe_reason = MalformedPayload (MalformedText ''fs.write payload did not decode as FsWrite'')\<rparr>,
            case raw_path of None \<Rightarrow> written | Some path \<Rightarrow> written @ [path])))"

definition parse_trust_class :: "string option \<Rightarrow> trust_class option" where
  "parse_trust_class s =
     (if s = Some ''exact'' then Some Exact
      else if s = Some ''versioned'' then Some Versioned
      else if s = Some ''heuristic'' then Some Heuristic
      else if s = Some ''volatile'' then Some Volatile
      else None)"

definition classify_probe :: "ir_event \<Rightarrow> outcome" where
  "classify_probe event =
     (let payload = ev_payload event;
          scheme_opt = str_at payload ''scheme'';
          key_opt = str_at payload ''key'' in
      case (scheme_opt, key_opt) of
        (Some scheme, Some raw_key) \<Rightarrow>
          (let i = from_scheme_key scheme raw_key;
               excluded = (\<lambda>r. ExcludedOf \<lparr>xe_event_id = ev_event_id event, xe_kind = ev_kind event,
                   xe_key = Some i, xe_scheme = Some scheme, xe_reason = r\<rparr>);
               trust = str_at payload ''trust_class''
           in case parse_trust_class trust of
                None \<Rightarrow> excluded (MalformedPayload (MalformedTrustClass trust))
              | Some tc \<Rightarrow>
                  (case str_at payload ''observed_fingerprint'' of
                     None \<Rightarrow> excluded NoFingerprint
                   | Some raw_fp \<Rightarrow>
                       (case fingerprint_parse raw_fp of
                          Inl e \<Rightarrow> excluded (MalformedPayload (MalformedFingerprint e))
                        | Inr fp \<Rightarrow>
                            (let ttl = u64_at payload ''ttl_seconds'' in
                             if tc = Volatile \<and> ttl = None then excluded ExcludedNakedVolatile
                             else EdgeOf \<lparr>dep_key = i, dep_scheme = scheme, dep_trust_class = tc,
                                    dep_fingerprint = fp, dep_observed_at = observed_at (ev_ts event),
                                    dep_produced_by = None, dep_ttl_seconds = ttl\<rparr>))))
      | _ \<Rightarrow> ExcludedOf \<lparr>xe_event_id = ev_event_id event, xe_kind = ev_kind event, xe_key = None,
              xe_scheme = scheme_opt,
              xe_reason = MalformedPayload (MalformedText ''probe.checked payload lacks `scheme` or `key`'')\<rparr>)"

definition classify_artifact :: "ir_event \<Rightarrow> outcome" where
  "classify_artifact event =
     (case str_at (ev_payload event) ''artifact_id'' of
        None \<Rightarrow>
          ExcludedOf \<lparr>xe_event_id = ev_event_id event, xe_kind = ev_kind event, xe_key = None,
            xe_scheme = None,
            xe_reason = MalformedPayload (MalformedText ''artifact.produced payload lacks `artifact_id`'')\<rparr>
      | Some i \<Rightarrow>
          ArtifactOf i
            (case str_at (ev_payload event) ''produced_by'' of
               Some d \<Rightarrow> if Some d \<noteq> ev_computation_id event
                 then Some (ArtifactProducerMismatch (ev_event_id event) (ev_computation_id event) d)
                 else None
             | None \<Rightarrow> None))"

definition classify_tool :: "ir_event \<Rightarrow> outcome" where
  "classify_tool event =
     (case str_at (ev_payload event) ''tool_kind'' of
        None \<Rightarrow> Unmodeled
      | Some kind \<Rightarrow>
          if kind = ''bash'' \<or> kind = ''task''
          then ObligationOf \<lparr>ob_event_id = ev_event_id event, ob_producer = ev_producer event,
                 ob_tool_name = (case str_at (ev_payload event) ''tool_name'' of None \<Rightarrow> [] | Some s \<Rightarrow> s),
                 ob_tool_kind = kind\<rparr>
          else Unmodeled)"

definition classify ::
  "(event_kind \<Rightarrow> json \<Rightarrow> string) \<Rightarrow> ir_event \<Rightarrow> nat \<Rightarrow> string list \<Rightarrow> artifact_at list
     \<Rightarrow> computation_id \<Rightarrow> outcome \<times> string list" where
  "classify msg event position written artifacts c =
     (case ev_kind event of
        FsRead \<Rightarrow> (classify_read msg event position written artifacts c, written)
      | FsWrite \<Rightarrow> classify_write msg event written
      | ProbeChecked \<Rightarrow> (classify_probe event, written)
      | ArtifactProduced \<Rightarrow> (classify_artifact event, written)
      | ToolInvoked \<Rightarrow> (classify_tool event, written)
      | _ \<Rightarrow> (Unmodeled, written))"

subsection \<open>The replay loop\<close>

type_synonym edge_index = "(dependency_id, nat \<times> uuid) bmap"

record build_state =
  bs_computations :: "(computation_id, computation_node) bmap"
  bs_edge_index :: "(computation_id, edge_index) bmap"
  bs_written :: "(computation_id, string list) bmap"
  bs_contributors :: "(computation_id, producer_key list) bmap"
  bs_defects :: "graph_defect list"

definition build_state_init :: build_state where
  "build_state_init = \<lparr>bs_computations = [], bs_edge_index = [], bs_written = [],
     bs_contributors = [], bs_defects = []\<rparr>"

definition bump :: "string \<Rightarrow> (string, nat) bmap \<Rightarrow> (string, nat) bmap" where
  \<comment> \<open>\<open>*entry(k).or_default() += 1\<close>\<close>
  "bump k m = bm_alter k 0 Suc m"

definition or_default :: "'v \<Rightarrow> ('k \<times> 'v) list \<Rightarrow> 'k \<Rightarrow> 'v" where
  "or_default d m k = (case map_of m k of None \<Rightarrow> d | Some v \<Rightarrow> v)"

definition node_edge ::
  "ir_event \<Rightarrow> dependency \<Rightarrow> computation_node \<Rightarrow> edge_index \<Rightarrow> computation_node \<times> edge_index" where
  \<comment> \<open>the \<open>Outcome::Edge\<close> arm: the first canonical observation of an identity is the edge\<close>
  "node_edge event dep node index =
     (case map_of index (dep_id dep) of
        None \<Rightarrow>
          (node\<lparr>cn_dependencies := cn_dependencies node @ [dep]\<rparr>,
           bm_put (dep_id dep) (length (cn_dependencies node), ev_event_id event) index)
      | Some (existing, origin) \<Rightarrow>
          (let first = cn_dependencies node ! existing in
           if dep_fingerprint first \<noteq> dep_fingerprint dep \<or> dep_trust_class first \<noteq> dep_trust_class dep
           then (node\<lparr>cn_conflicts := cn_conflicts node @
                   [\<lparr>ec_dependency = dep_id dep, ec_first_event_id = origin,
                     ec_first_fingerprint = dep_fingerprint first,
                     ec_conflicting_event_id = ev_event_id event,
                     ec_conflicting_fingerprint = dep_fingerprint dep\<rparr>]\<rparr>, index)
           else (node, index)))"

definition node_seen :: "ir_event \<Rightarrow> computation_node \<Rightarrow> computation_node" where
  "node_seen event node =
     node\<lparr>cn_accounting := (cn_accounting node)\<lparr>ac_total := ac_total (cn_accounting node) + 1\<rparr>,
          cn_kind_counts := bump (event_wire (ev_kind event)) (cn_kind_counts node)\<rparr>"

fun node_outcome ::
  "ir_event \<Rightarrow> outcome \<Rightarrow> computation_node \<times> edge_index
     \<Rightarrow> (computation_node \<times> edge_index) \<times> graph_defect list" where
  \<comment> \<open>the \<open>match outcome\<close> on one computation's node, with the defects it raises\<close>
  "node_outcome event (EdgeOf dep) (node, index) =
     (node_edge event dep
        (node\<lparr>cn_accounting := (cn_accounting node)
           \<lparr>ac_edge_events := ac_edge_events (cn_accounting node) + 1\<rparr>\<rparr>) index, [])"
| "node_outcome event (OutputOf out) (node, index) =
     ((node\<lparr>cn_accounting := (cn_accounting node)\<lparr>ac_outputs := ac_outputs (cn_accounting node) + 1\<rparr>,
            cn_outputs := cn_outputs node @ [out]\<rparr>, index), [])"
| "node_outcome event (ArtifactOf art defect) (node, index) =
     ((node\<lparr>cn_accounting := (cn_accounting node)\<lparr>ac_artifacts := ac_artifacts (cn_accounting node) + 1\<rparr>,
            cn_artifacts := cn_artifacts node @ [art]\<rparr>, index),
      case defect of None \<Rightarrow> [] | Some d \<Rightarrow> [d])"
| "node_outcome event (ObligationOf ob) (node, index) =
     ((node\<lparr>cn_accounting := (cn_accounting node)
              \<lparr>ac_obligations := ac_obligations (cn_accounting node) + 1\<rparr>,
            cn_obligations := cn_obligations node @ [ob]\<rparr>, index), [])"
| "node_outcome event (ExcludedOf x) (node, index) =
     ((node\<lparr>cn_accounting := (cn_accounting node)\<lparr>ac_excluded := ac_excluded (cn_accounting node) + 1\<rparr>,
            cn_excluded := cn_excluded node @ [x]\<rparr>, index), [])"
| "node_outcome event Unmodeled (node, index) =
     ((node\<lparr>cn_accounting := (cn_accounting node)\<lparr>ac_unmodeled := ac_unmodeled (cn_accounting node) + 1\<rparr>,
            cn_unmodeled := bump (event_wire (ev_kind event)) (cn_unmodeled node)\<rparr>, index), [])"

definition build_step ::
  "(event_kind \<Rightarrow> json \<Rightarrow> string) \<Rightarrow> artifact_at list \<Rightarrow> nat \<times> ir_event \<Rightarrow> build_state \<Rightarrow> build_state" where
  "build_step msg artifacts p st =
     (let (position, event) = p in
      case ev_computation_id event of
        None \<Rightarrow>
          if ev_kind event \<in> set edge_bearing_kinds
          then st\<lparr>bs_defects := bs_defects st @
                  [OrphanEdgeEvent (ev_event_id event) (ev_kind event) (ev_producer event)]\<rparr>
          else st
      | Some c \<Rightarrow>
          (let contributors' = bm_alter c [] (\<lambda>ks. bset (ks @ [key_of_event event])) (bs_contributors st);
               (outcome, written') =
                 classify msg event position (or_default [] (bs_written st) c) artifacts c;
               node = node_seen event (or_default (node_new c) (bs_computations st) c);
               ((node', index'), defects) = node_outcome event outcome (node, or_default [] (bs_edge_index st) c)
           in \<lparr>bs_computations = bm_put c node' (bs_computations st),
               bs_edge_index = bm_put c index' (bs_edge_index st),
               bs_written = bm_put c written' (bs_written st),
               bs_contributors = contributors',
               bs_defects = bs_defects st @ defects\<rparr>))"

definition build_loop ::
  "(event_kind \<Rightarrow> json \<Rightarrow> string) \<Rightarrow> artifact_at list \<Rightarrow> ir_event list \<Rightarrow> build_state" where
  "build_loop msg artifacts events = fold (build_step msg artifacts) (enumerate 0 events) build_state_init"

definition build_nodes ::
  "(event_kind \<Rightarrow> json \<Rightarrow> string) \<Rightarrow> artifact_at list \<Rightarrow> ir_event list
     \<Rightarrow> (computation_id, computation_node) bmap \<times> graph_defect list" where
  "build_nodes msg artifacts events =
     (let st = build_loop msg artifacts events in
      (map (\<lambda>(c, node). (c, node\<lparr>cn_contributors := or_default [] (bs_contributors st) c\<rparr>))
         (bs_computations st),
       bs_defects st))"

subsection \<open>Attribution and silence\<close>

definition partial_notes_of ::
  "coverage_registry \<Rightarrow> coverage_entry list \<Rightarrow> (string, partial_coverage list) bmap" where
  "partial_notes_of registry entries =
     fold (\<lambda>entry notes.
        case registry_manifest registry (ProducerKey (ce_producer entry) (ce_version entry)) of
          None \<Rightarrow> notes
        | Some manifest \<Rightarrow>
            fold (\<lambda>(kind, note). bm_alter kind [] (\<lambda>ns. ns @ [note])) (cm_partial manifest) notes)
      entries []"

definition sort_dedup_notes :: "partial_coverage list \<Rightarrow> partial_coverage list" where
  "sort_dedup_notes ns = remdups_adj (sort_key (\<lambda>p. (pc_reason p, pc_note p)) ns)"

definition computation_coverage_of ::
  "coverage_registry \<Rightarrow> ir_event list \<Rightarrow> computation_id \<Rightarrow> computation_coverage" where
  "computation_coverage_of registry events c =
     (let lookup = coverage_for_computation registry events c in
      \<lparr>cc_computation_id = c, cc_entries = lk_entries lookup,
       cc_unregistered = lk_unregistered lookup,
       cc_partial_notes =
         map (\<lambda>(k, ns). (k, sort_dedup_notes ns)) (partial_notes_of registry (lk_entries lookup))\<rparr>)"

definition build_attribution ::
  "(computation_id, computation_node) bmap \<Rightarrow> ir_event list \<Rightarrow> coverage_registry
     \<Rightarrow> (computation_id, computation_coverage) bmap" where
  "build_attribution computations events registry =
     fold (\<lambda>c. bm_put c (computation_coverage_of registry events c)) (bm_keys computations) []"

definition cc_covers :: "computation_coverage \<Rightarrow> event_kind \<Rightarrow> bool" where
  "cc_covers a k = list_ex (\<lambda>e. entry_covers e k) (cc_entries a)"

definition interpret_silence :: "computation_coverage \<Rightarrow> event_kind \<Rightarrow> silence_meaning" where
  "interpret_silence a k =
     (if cc_unregistered a \<noteq> [] \<or> \<not> cc_covers a k then Unobserved
      else case map_of (cc_partial_notes a) (event_wire k) of
          Some notes \<Rightarrow> if notes \<noteq> [] then PartiallyObserved notes else ObservedAbsent
        | None \<Rightarrow> ObservedAbsent)"

subsection \<open>The reverse index\<close>

definition artifacts_of ::
  "(computation_id, computation_node) bmap \<Rightarrow> computation_id list \<Rightarrow> artifact_id list" where
  "artifacts_of computations cs =
     bset (concat (map (\<lambda>c. case map_of computations c of None \<Rightarrow> [] | Some n \<Rightarrow> cn_artifacts n) cs))"

type_synonym consumers_map = "(dependency_id, string \<times> computation_id list) bmap"

definition add_consumer ::
  "dependency_id \<Rightarrow> string \<Rightarrow> computation_id \<Rightarrow> consumers_map \<Rightarrow> consumers_map" where
  \<comment> \<open>\<open>entry(id).or_insert_with(|| (scheme, BTreeSet::new())).1.insert(c)\<close>\<close>
  "add_consumer i scheme c m = bm_alter i (scheme, []) (\<lambda>(s, cs). (s, bset (cs @ [c]))) m"

definition unproven_key :: "excluded_edge \<Rightarrow> dependency_id option" where
  \<comment> \<open>the three \<open>continue\<close> guards of the loop over excluded observations\<close>
  "unproven_key x =
     (if xe_kind x \<notin> {FsRead, ProbeChecked} then None
      else if \<not> is_unproven_dependency (xe_reason x) then None
      else xe_key x)"

definition node_proven :: "computation_node \<Rightarrow> consumers_map \<Rightarrow> consumers_map" where
  "node_proven node =
     fold (\<lambda>dep. add_consumer (dep_id dep) (dep_scheme dep) (cn_computation_id node))
       (cn_dependencies node)"

definition node_unproven :: "computation_node \<Rightarrow> consumers_map \<Rightarrow> consumers_map" where
  "node_unproven node =
     fold (\<lambda>x m. case unproven_key x of
             None \<Rightarrow> m
           | Some i \<Rightarrow> add_consumer i (case xe_scheme x of None \<Rightarrow> [] | Some s \<Rightarrow> s)
                         (cn_computation_id node) m)
       (cn_excluded node)"

definition build_reverse_index ::
  "(computation_id, computation_node) bmap \<Rightarrow> (dependency_id, reverse_index_entry) bmap" where
  "build_reverse_index computations =
     (let proven = fold node_proven (bm_values computations) [];
          unproven = fold node_unproven (bm_values computations) [];
          ids = bset (bm_keys proven @ bm_keys unproven)
      in fold (\<lambda>i.
           (let (scheme, consuming) = or_default ([], []) proven i;
                (unproven_scheme, unproven_comps) = or_default ([], []) unproven i
            in bm_put i
                 \<lparr>ri_dependency = i,
                  ri_scheme = (if scheme = [] then unproven_scheme else scheme),
                  ri_consuming_computations = consuming,
                  ri_consumers = artifacts_of computations consuming,
                  ri_unproven_computations = unproven_comps,
                  ri_unproven_consumers = artifacts_of computations unproven_comps\<rparr>)) ids [])"

subsection \<open>Replay and queries\<close>

definition replay ::
  "(event_kind \<Rightarrow> json \<Rightarrow> string) \<Rightarrow> ir_event list \<Rightarrow> coverage_registry \<Rightarrow> derived_graph" where
  "replay msg es coverage =
     (let l = linearize_checked es;
          duplicates = ln_duplicate_event_ids l;
          events = ln_events l;
          divergent = map (\<lambda>d. DivergentDuplicate (du_event_id d) (du_producer d))
                        (filter du_divergent duplicates);
          artifact_paths = collect_artifact_paths events;
          (computations, defects) = build_nodes msg artifact_paths events
      in \<lparr>dg_computations = computations,
          dg_reverse_index = build_reverse_index computations,
          dg_attribution = build_attribution computations events coverage,
          dg_defects = divergent @ defects,
          dg_duplicate_event_ids = map du_event_id duplicates,
          dg_event_count = length events,
          dg_deterministic = is_deterministic l\<rparr>)"

definition graph_computation :: "derived_graph \<Rightarrow> computation_id \<Rightarrow> computation_node option" where
  "graph_computation g c = map_of (dg_computations g) c"

definition dependencies_of :: "derived_graph \<Rightarrow> computation_id \<Rightarrow> dependency list" where
  "dependencies_of g c =
     (case map_of (dg_computations g) c of None \<Rightarrow> [] | Some n \<Rightarrow> cn_dependencies n)"

definition blast_radius :: "derived_graph \<Rightarrow> dependency_id \<Rightarrow> reverse_index_entry option" where
  "blast_radius g i = map_of (dg_reverse_index g) i"

definition graph_attribution :: "derived_graph \<Rightarrow> computation_id \<Rightarrow> computation_coverage option" where
  "graph_attribution g c = map_of (dg_attribution g) c"

definition silence :: "derived_graph \<Rightarrow> computation_id \<Rightarrow> event_kind \<Rightarrow> silence_meaning option" where
  "silence g c k =
     (case map_of (dg_computations g) c of
        None \<Rightarrow> None
      | Some node \<Rightarrow>
          if count_of node k > 0 then None
          else Some (case map_of (dg_attribution g) c of
                 None \<Rightarrow> Unobserved
               | Some a \<Rightarrow> interpret_silence a k))"

definition accounting_is_balanced :: "derived_graph \<Rightarrow> bool" where
  "accounting_is_balanced g = list_all (\<lambda>n. is_balanced (cn_accounting n)) (bm_values (dg_computations g))"

end
