(* ===== verification/Graph_Facts.thy ===== *)
theory Graph_Facts
  imports Graph
begin

section \<open>Correctness of the derived graph\<close>

text \<open>
  The loop over all events, with its four maps keyed by computation, refines one small fold per
  computation over that computation's own events (\<open>own_run\<close>): \<open>build_loop_refines\<close>. The node is in
  turn a function of the list of outcomes of those events (\<open>node_of_outcomes\<close>). On that view the
  lemmas prove the accounting, the uniqueness and consistency of the edges, the conflicts, the
  obligations, the exclusion of reads after own writes, and the reverse index.
\<close>

subsection \<open>One computation at a time\<close>

type_synonym own_state = "(computation_node \<times> edge_index) \<times> string list"

definition own_step ::
  "(event_kind \<Rightarrow> json \<Rightarrow> string) \<Rightarrow> artifact_at list \<Rightarrow> computation_id \<Rightarrow> nat \<times> ir_event
     \<Rightarrow> own_state \<Rightarrow> own_state" where
  "own_step msg artifacts c p st =
     (let (position, event) = p; ((node, index), written) = st;
          (outcome, written') = classify msg event position written artifacts c
      in (fst (node_outcome event outcome (node_seen event node, index)), written'))"

definition own_events :: "computation_id \<Rightarrow> ir_event list \<Rightarrow> (nat \<times> ir_event) list" where
  "own_events c events = filter (\<lambda>p. ev_computation_id (snd p) = Some c) (enumerate 0 events)"

definition own_run ::
  "(event_kind \<Rightarrow> json \<Rightarrow> string) \<Rightarrow> artifact_at list \<Rightarrow> computation_id \<Rightarrow> (nat \<times> ir_event) list
     \<Rightarrow> own_state" where
  "own_run msg artifacts c pes = fold (own_step msg artifacts c) pes ((node_new c, []), [])"

definition project :: "computation_id \<Rightarrow> build_state \<Rightarrow> own_state" where
  "project c st = ((or_default (node_new c) (bs_computations st) c,
     or_default [] (bs_edge_index st) c), or_default [] (bs_written st) c)"

lemma or_default_put [simp]:
  "or_default d (bm_put k v m) k' = (if k' = k then v else or_default d m k')"
  by (simp add: or_default_def)

lemma or_default_Some: "map_of m k = Some v \<Longrightarrow> or_default d m k = v"
  by (simp add: or_default_def)

lemma project_init [simp]: "project c build_state_init = ((node_new c, []), [])"
  by (simp add: project_def build_state_init_def or_default_def)

lemma project_step:
  "project c (build_step msg arts p st) =
     (if ev_computation_id (snd p) = Some c then own_step msg arts c p (project c st)
      else project c st)"
  by (cases p) (auto simp: build_step_def project_def own_step_def Let_def
      split: option.splits prod.splits)

lemma build_fold_project:
  "project c (fold (build_step msg arts) pes st) =
     fold (own_step msg arts c) (filter (\<lambda>p. ev_computation_id (snd p) = Some c) pes) (project c st)"
  by (induction pes arbitrary: st) (auto simp: project_step)

lemma build_step_dom:
  "map_of (bs_computations (build_step msg arts p st)) c = None \<longleftrightarrow>
     map_of (bs_computations st) c = None \<and> ev_computation_id (snd p) \<noteq> Some c"
  by (cases p) (auto simp: build_step_def Let_def split: option.splits prod.splits)

lemma build_fold_dom:
  "map_of (bs_computations (fold (build_step msg arts) pes st)) c = None \<longleftrightarrow>
     map_of (bs_computations st) c = None \<and> (\<forall>p\<in>set pes. ev_computation_id (snd p) \<noteq> Some c)"
  by (induction pes arbitrary: st) (auto simp: build_step_dom)

lemma build_step_ok:
  "bm_ok (bs_computations st) \<Longrightarrow> bm_ok (bs_computations (build_step msg arts p st))"
  by (cases p) (auto simp: build_step_def Let_def split: option.splits prod.splits)

lemma build_fold_ok:
  "bm_ok (bs_computations st) \<Longrightarrow> bm_ok (bs_computations (fold (build_step msg arts) pes st))"
  by (induction pes arbitrary: st) (auto simp: build_step_ok)

lemma bset_absorb: "bset (bset xs @ ys) = bset (xs @ ys)"
  by (simp add: bset_eq_iff)

lemma bs_contributors_step:
  "bs_contributors (build_step msg arts p st) =
     (case ev_computation_id (snd p) of None \<Rightarrow> bs_contributors st
      | Some c \<Rightarrow> bm_alter c [] (\<lambda>ks. bset (ks @ [key_of_event (snd p)])) (bs_contributors st))"
  by (cases p) (simp add: build_step_def Let_def split: option.split prod.split)

lemma or_default_alter:
  "or_default d (bm_alter k d f m) k' = (if k' = k then f (or_default d m k) else or_default d m k')"
  by (simp add: or_default_def map_of_bm_alter)

lemma build_step_contributors:
  "or_default [] (bs_contributors (build_step msg arts p st)) c =
     (if ev_computation_id (snd p) = Some c
      then bset (or_default [] (bs_contributors st) c @ [key_of_event (snd p)])
      else or_default [] (bs_contributors st) c)"
  by (simp add: bs_contributors_step or_default_alter split: option.split)

lemma build_fold_contributors:
  "or_default [] (bs_contributors st) c = bset ks \<Longrightarrow>
   or_default [] (bs_contributors (fold (build_step msg arts) pes st)) c =
     bset (ks @ map (key_of_event \<circ> snd) (filter (\<lambda>p. ev_computation_id (snd p) = Some c) pes))"
proof (induction pes arbitrary: st ks)
  case (Cons p pes)
  show ?case
  proof (cases "ev_computation_id (snd p) = Some c")
    case True
    then have "or_default [] (bs_contributors (build_step msg arts p st)) c =
        bset (ks @ [key_of_event (snd p)])"
      by (simp add: build_step_contributors Cons.prems bset_absorb)
    from Cons.IH[OF this] True show ?thesis by simp
  next
    case False
    then have "or_default [] (bs_contributors (build_step msg arts p st)) c = bset ks"
      by (simp add: build_step_contributors Cons.prems)
    from Cons.IH[OF this] False show ?thesis by simp
  qed
qed simp

definition own_node ::
  "(event_kind \<Rightarrow> json \<Rightarrow> string) \<Rightarrow> artifact_at list \<Rightarrow> ir_event list \<Rightarrow> computation_id
     \<Rightarrow> computation_node" where
  "own_node msg arts events c =
     (fst (fst (own_run msg arts c (own_events c events))))
       \<lparr>cn_contributors := bset (map (key_of_event \<circ> snd) (own_events c events))\<rparr>"

lemma map_of_map_pair: "map_of (map (\<lambda>(k, v). (k, f k v)) m) k = map_option (f k) (map_of m k)"
  by (induction m) auto

lemma build_loop_refines:
  "map_of (fst (build_nodes msg arts events)) c =
     (if own_events c events = [] then None else Some (own_node msg arts events c))"
proof -
  let ?st = "build_loop msg arts events"
  have none: "map_of (bs_computations ?st) c = None \<longleftrightarrow> own_events c events = []"
    by (auto simp: build_loop_def build_fold_dom build_state_init_def own_events_def filter_empty_conv)
  have "project c ?st = own_run msg arts c (own_events c events)"
    by (simp add: build_loop_def build_fold_project own_run_def own_events_def)
  then have node: "fst (fst (own_run msg arts c (own_events c events))) =
      or_default (node_new c) (bs_computations ?st) c"
    by (metis project_def fst_conv)
  have "or_default [] (bs_contributors build_state_init) c = bset []"
    by (simp add: build_state_init_def or_default_def bset_def)
  from build_fold_contributors[OF this, of msg arts "enumerate 0 events"]
  have contr: "or_default [] (bs_contributors ?st) c = bset (map (key_of_event \<circ> snd) (own_events c events))"
    by (simp add: build_loop_def own_events_def)
  show ?thesis
    using none by (cases "map_of (bs_computations ?st) c")
      (auto simp: build_nodes_def Let_def map_of_map_pair own_node_def node contr or_default_Some)
qed

lemma bm_ok_map_pair [simp]: "bm_ok (map (\<lambda>(k, v). (k, f k v)) m) \<longleftrightarrow> bm_ok m"
  by (simp add: bm_ok_def comp_def case_prod_beta)

lemma build_nodes_ok: "bm_ok (fst (build_nodes msg arts events))"
  unfolding build_nodes_def build_loop_def Let_def
  by (simp add: build_fold_ok build_state_init_def)

subsection \<open>The outcomes of a computation's events\<close>

definition write_path :: "(event_kind \<Rightarrow> json \<Rightarrow> string) \<Rightarrow> ir_event \<Rightarrow> string option" where
  \<comment> \<open>the path an event adds to the set of written paths\<close>
  "write_path msg e =
     (if ev_kind e \<noteq> FsWrite then None
      else case decode_payload msg e of
          Inr (FsWritePayload w) \<Rightarrow> Some (fw_path w)
        | _ \<Rightarrow> str_at (ev_payload e) ''path'')"

lemma classify_written:
  "snd (classify msg e p w arts c) = w @ (case write_path msg e of None \<Rightarrow> [] | Some q \<Rightarrow> [q])"
  by (auto simp: classify_def write_path_def classify_write_def Let_def
      split: event_kind.splits sum.splits typed_payload.splits option.splits)

fun own_outcomes ::
  "(event_kind \<Rightarrow> json \<Rightarrow> string) \<Rightarrow> artifact_at list \<Rightarrow> computation_id \<Rightarrow> string list
     \<Rightarrow> (nat \<times> ir_event) list \<Rightarrow> (ir_event \<times> outcome) list" where
  "own_outcomes msg arts c w [] = []"
| "own_outcomes msg arts c w ((p, e) # pes) =
     (e, fst (classify msg e p w arts c)) #
     own_outcomes msg arts c (w @ (case write_path msg e of None \<Rightarrow> [] | Some q \<Rightarrow> [q])) pes"

definition absorb :: "ir_event \<times> outcome \<Rightarrow> computation_node \<times> edge_index \<Rightarrow> computation_node \<times> edge_index" where
  "absorb eo ni = fst (node_outcome (fst eo) (snd eo) (node_seen (fst eo) (fst ni), snd ni))"

lemma own_run_outcomes:
  "fst (fold (own_step msg arts c) pes (ni, w)) = fold absorb (own_outcomes msg arts c w pes) ni"
proof (induction pes arbitrary: ni w)
  case (Cons p pes)
  obtain i e where p: "p = (i, e)" by (cases p)
  have "own_step msg arts c p (ni, w) =
      (absorb (e, fst (classify msg e i w arts c)) ni,
       w @ (case write_path msg e of None \<Rightarrow> [] | Some q \<Rightarrow> [q]))"
    using classify_written[of msg e i w arts c]
    by (cases ni; cases "classify msg e i w arts c") (simp add: p own_step_def absorb_def)
  then show ?case
    by (simp add: p Cons.IH)
qed simp

lemma own_outcomes_nth:
  "i < length pes \<Longrightarrow> own_outcomes msg arts c w pes ! i =
     (snd (pes ! i), fst (classify msg (snd (pes ! i)) (fst (pes ! i))
        (w @ List.map_filter (write_path msg \<circ> snd) (take i pes)) arts c))"
proof (induction pes arbitrary: i w)
  case (Cons p pes)
  show ?case
    using Cons by (cases p; cases i) (simp_all add: map_filter_simps split: option.split)
qed simp

lemma own_outcomes_events [simp]: "map fst (own_outcomes msg arts c w pes) = map snd pes"
  by (induction msg arts c w pes rule: own_outcomes.induct) auto

lemma own_outcomes_length [simp]: "length (own_outcomes msg arts c w pes) = length pes"
  by (metis length_map own_outcomes_events)

definition node_outcomes ::
  "(event_kind \<Rightarrow> json \<Rightarrow> string) \<Rightarrow> artifact_at list \<Rightarrow> ir_event list \<Rightarrow> computation_id
     \<Rightarrow> (ir_event \<times> outcome) list" where
  "node_outcomes msg arts events c = own_outcomes msg arts c [] (own_events c events)"

lemma own_node_absorb:
  "own_node msg arts events c =
     (fst (fold absorb (node_outcomes msg arts events c) (node_new c, [])))
       \<lparr>cn_contributors := bset (map (key_of_event \<circ> snd) (own_events c events))\<rparr>"
  by (simp add: own_node_def own_run_def own_run_outcomes node_outcomes_def)

subsection \<open>The node as a function of the outcomes\<close>

fun edge_of :: "outcome \<Rightarrow> dependency option" where
  "edge_of (EdgeOf d) = Some d" | "edge_of _ = None"

fun output_of :: "outcome \<Rightarrow> output_record option" where
  "output_of (OutputOf x) = Some x" | "output_of _ = None"

fun artifact_of :: "outcome \<Rightarrow> artifact_id option" where
  "artifact_of (ArtifactOf a _) = Some a" | "artifact_of _ = None"

fun obligation_of :: "outcome \<Rightarrow> coverage_obligation option" where
  "obligation_of (ObligationOf x) = Some x" | "obligation_of _ = None"

fun excluded_of :: "outcome \<Rightarrow> excluded_edge option" where
  "excluded_of (ExcludedOf x) = Some x" | "excluded_of _ = None"

lemma node_edge_fields [simp]:
  "cn_computation_id (fst (node_edge e d n ix)) = cn_computation_id n"
  "cn_outputs (fst (node_edge e d n ix)) = cn_outputs n"
  "cn_artifacts (fst (node_edge e d n ix)) = cn_artifacts n"
  "cn_obligations (fst (node_edge e d n ix)) = cn_obligations n"
  "cn_excluded (fst (node_edge e d n ix)) = cn_excluded n"
  "cn_kind_counts (fst (node_edge e d n ix)) = cn_kind_counts n"
  "cn_unmodeled (fst (node_edge e d n ix)) = cn_unmodeled n"
  "cn_contributors (fst (node_edge e d n ix)) = cn_contributors n"
  "cn_accounting (fst (node_edge e d n ix)) = cn_accounting n"
  by (auto simp: node_edge_def Let_def split: option.splits)

lemma absorb_fields:
  "cn_computation_id (fst (absorb (e, out) ni)) = cn_computation_id (fst ni)"
  "cn_outputs (fst (absorb (e, out) ni)) = cn_outputs (fst ni) @ (case output_of out of None \<Rightarrow> [] | Some x \<Rightarrow> [x])"
  "cn_artifacts (fst (absorb (e, out) ni)) = cn_artifacts (fst ni) @ (case artifact_of out of None \<Rightarrow> [] | Some x \<Rightarrow> [x])"
  "cn_obligations (fst (absorb (e, out) ni)) = cn_obligations (fst ni) @ (case obligation_of out of None \<Rightarrow> [] | Some x \<Rightarrow> [x])"
  "cn_excluded (fst (absorb (e, out) ni)) = cn_excluded (fst ni) @ (case excluded_of out of None \<Rightarrow> [] | Some x \<Rightarrow> [x])"
  "cn_kind_counts (fst (absorb (e, out) ni)) = bump (event_wire (ev_kind e)) (cn_kind_counts (fst ni))"
  by (cases out; cases ni; simp add: absorb_def node_seen_def)+

lemma absorb_accounting:
  "is_balanced (cn_accounting (fst ni)) \<Longrightarrow> is_balanced (cn_accounting (fst (absorb eo ni)))"
  "ac_total (cn_accounting (fst (absorb eo ni))) = Suc (ac_total (cn_accounting (fst ni)))"
  by (cases eo; cases "snd eo"; cases ni; simp add: absorb_def node_seen_def is_balanced_def)+

lemma fold_absorb_accounting:
  "is_balanced (cn_accounting (fst ni)) \<Longrightarrow> is_balanced (cn_accounting (fst (fold absorb eos ni)))"
  "ac_total (cn_accounting (fst (fold absorb eos ni))) = ac_total (cn_accounting (fst ni)) + length eos"
  by (induction eos arbitrary: ni) (auto simp: absorb_accounting)

lemma map_filter_Cons:
  "List.map_filter f (x # xs) = (case f x of None \<Rightarrow> [] | Some y \<Rightarrow> [y]) @ List.map_filter f xs"
  by (simp add: map_filter_simps split: option.split)

lemma fold_absorb_list:
  assumes "\<And>e out ni. sel (fst (absorb (e, out) ni)) = sel (fst ni) @ (case g out of None \<Rightarrow> [] | Some x \<Rightarrow> [x])"
  shows "sel (fst (fold absorb eos ni)) = sel (fst ni) @ List.map_filter (g \<circ> snd) eos"
proof (induction eos arbitrary: ni)
  case (Cons eo eos)
  show ?case
    using assms[of "fst eo" "snd eo" ni] by (simp add: Cons split: option.split)
qed simp

lemma fold_absorb_fields:
  "cn_outputs (fst (fold absorb eos ni)) = cn_outputs (fst ni) @ List.map_filter (output_of \<circ> snd) eos"
  "cn_artifacts (fst (fold absorb eos ni)) = cn_artifacts (fst ni) @ List.map_filter (artifact_of \<circ> snd) eos"
  "cn_obligations (fst (fold absorb eos ni)) = cn_obligations (fst ni) @ List.map_filter (obligation_of \<circ> snd) eos"
  "cn_excluded (fst (fold absorb eos ni)) = cn_excluded (fst ni) @ List.map_filter (excluded_of \<circ> snd) eos"
  by (rule fold_absorb_list, rule absorb_fields)+

lemma fold_absorb_id: "cn_computation_id (fst (fold absorb eos ni)) = cn_computation_id (fst ni)"
proof (induction eos arbitrary: ni)
  case (Cons eo eos)
  show ?case
    using absorb_fields(1)[of "fst eo" "snd eo" ni] by (simp add: Cons)
qed simp

lemma or_default_bump: "or_default 0 (bump k m) k' = or_default 0 m k' + (if k' = k then 1 else 0)"
  by (simp add: bump_def or_default_alter)

lemma fold_absorb_count:
  "or_default 0 (cn_kind_counts (fst (fold absorb eos ni))) (event_wire k) =
     or_default 0 (cn_kind_counts (fst ni)) (event_wire k) +
     length (filter (\<lambda>eo. ev_kind (fst eo) = k) eos)"
  by (induction eos arbitrary: ni)
     (auto simp: absorb_fields or_default_bump event_wire_inj)

subsection \<open>Edges and conflicts\<close>

fun first_by :: "('a \<Rightarrow> 'k) \<Rightarrow> 'a list \<Rightarrow> 'a list \<Rightarrow> 'a list" where
  \<comment> \<open>keeps the first element of each key, in order\<close>
  "first_by f acc [] = acc"
| "first_by f acc (x # xs) = first_by f (if f x \<in> f ` set acc then acc else acc @ [x]) xs"

lemma first_by_distinct: "distinct (map f acc) \<Longrightarrow> distinct (map f (first_by f acc xs))"
  by (induction f acc xs rule: first_by.induct) auto

lemma first_by_keys: "f ` set (first_by f acc xs) = f ` set acc \<union> f ` set xs"
  by (induction f acc xs rule: first_by.induct) auto

lemma first_by_subset: "set (first_by f acc xs) \<subseteq> set acc \<union> set xs"
  by (induction f acc xs rule: first_by.induct) (auto split: if_splits)

lemma first_by_keeps_acc: "set acc \<subseteq> set (first_by f acc xs)"
  by (induction f acc xs rule: first_by.induct) (auto split: if_splits)

definition index_ok :: "dependency list \<Rightarrow> edge_index \<Rightarrow> bool" where
  \<comment> \<open>identities are unique, and the index finds the position of each\<close>
  "index_ok deps ix \<longleftrightarrow> distinct (map dep_id deps) \<and>
     (\<forall>i. map_of ix i = None \<longrightarrow> i \<notin> dep_id ` set deps) \<and>
     (\<forall>i j origin. map_of ix i = Some (j, origin) \<longrightarrow> j < length deps \<and> dep_id (deps ! j) = i)"

lemma index_ok_Nil [simp]: "index_ok [] []"
  by (simp add: index_ok_def)

lemma index_ok_add:
  assumes "index_ok deps ix" "map_of ix (dep_id d) = None"
  shows "index_ok (deps @ [d]) (bm_put (dep_id d) (length deps, origin) ix)"
proof -
  have "dep_id d \<notin> dep_id ` set deps"
    using assms by (simp add: index_ok_def)
  moreover have "j < length deps \<and> dep_id (deps ! j) = i" if "map_of ix i = Some (j, x)" for i j x
    using assms(1) that unfolding index_ok_def by metis
  ultimately show ?thesis
    using assms(1) by (auto simp: index_ok_def nth_append less_Suc_eq)
qed

lemma index_ok_unique:
  assumes "index_ok deps ix" "map_of ix i = Some (j, origin)"
  shows "d \<in> set deps \<and> dep_id d = i \<longleftrightarrow> d = deps ! j"
proof -
  have j: "j < length deps \<and> dep_id (deps ! j) = i"
    using assms unfolding index_ok_def by metis
  have "inj_on dep_id (set deps)"
    using assms(1) by (simp add: index_ok_def distinct_map)
  then show ?thesis
    using j by (auto dest: inj_onD)
qed

lemma absorb_other:
  assumes "edge_of out = None"
  shows "cn_dependencies (fst (absorb (e, out) ni)) = cn_dependencies (fst ni)"
    "snd (absorb (e, out) ni) = snd ni"
    "cn_conflicts (fst (absorb (e, out) ni)) = cn_conflicts (fst ni)"
  using assms by (cases out; cases ni; simp add: absorb_def node_seen_def)+

lemma absorb_new:
  assumes "map_of (snd ni) (dep_id d) = None"
  shows "cn_dependencies (fst (absorb (e, EdgeOf d) ni)) = cn_dependencies (fst ni) @ [d]"
    "snd (absorb (e, EdgeOf d) ni) =
       bm_put (dep_id d) (length (cn_dependencies (fst ni)), ev_event_id e) (snd ni)"
    "cn_conflicts (fst (absorb (e, EdgeOf d) ni)) = cn_conflicts (fst ni)"
  using assms by (cases ni; simp add: absorb_def node_seen_def node_edge_def)+

definition same_state :: "dependency \<Rightarrow> dependency \<Rightarrow> bool" where
  "same_state d d' \<longleftrightarrow> dep_fingerprint d = dep_fingerprint d' \<and> dep_trust_class d = dep_trust_class d'"

lemma absorb_again:
  assumes "map_of (snd ni) (dep_id d) = Some (j, origin)"
  shows "cn_dependencies (fst (absorb (e, EdgeOf d) ni)) = cn_dependencies (fst ni)"
    "snd (absorb (e, EdgeOf d) ni) = snd ni"
    "cn_conflicts (fst (absorb (e, EdgeOf d) ni)) = cn_conflicts (fst ni) @
       (if same_state (cn_dependencies (fst ni) ! j) d then []
        else [\<lparr>ec_dependency = dep_id d, ec_first_event_id = origin,
               ec_first_fingerprint = dep_fingerprint (cn_dependencies (fst ni) ! j),
               ec_conflicting_event_id = ev_event_id e,
               ec_conflicting_fingerprint = dep_fingerprint d\<rparr>])"
  using assms
  by (cases ni; simp add: absorb_def node_seen_def node_edge_def Let_def same_state_def)+

lemma absorb_deps:
  assumes ok: "index_ok (cn_dependencies (fst ni)) (snd ni)"
  shows "index_ok (cn_dependencies (fst (absorb (e, out) ni))) (snd (absorb (e, out) ni)) \<and>
    cn_dependencies (fst (absorb (e, out) ni)) =
      first_by dep_id (cn_dependencies (fst ni)) (case edge_of out of None \<Rightarrow> [] | Some d \<Rightarrow> [d])"
proof (cases "edge_of out")
  case None
  then show ?thesis
    using ok by (simp add: absorb_other)
next
  case (Some d)
  then have out: "out = EdgeOf d" by (cases out) auto
  show ?thesis
  proof (cases "map_of (snd ni) (dep_id d)")
    case None
    then have "dep_id d \<notin> dep_id ` set (cn_dependencies (fst ni))"
      using ok by (simp add: index_ok_def)
    with index_ok_add[OF ok None] show ?thesis
      by (simp add: out absorb_new[OF None])
  next
    case (Some jo)
    obtain j origin where jo: "map_of (snd ni) (dep_id d) = Some (j, origin)"
      using Some by (cases jo) auto
    then have "dep_id d \<in> dep_id ` set (cn_dependencies (fst ni))"
      using index_ok_unique[OF ok jo] by (metis imageI)
    with ok show ?thesis
      by (simp add: out absorb_again[OF jo])
  qed
qed

lemma absorb_index_ok:
  "index_ok (cn_dependencies (fst ni)) (snd ni) \<Longrightarrow>
   index_ok (cn_dependencies (fst (absorb eo ni))) (snd (absorb eo ni))"
  using absorb_deps[of ni "fst eo" "snd eo"] unfolding prod.collapse by blast

lemma absorb_deps_eq:
  "index_ok (cn_dependencies (fst ni)) (snd ni) \<Longrightarrow>
   cn_dependencies (fst (absorb eo ni)) =
     first_by dep_id (cn_dependencies (fst ni)) (case edge_of (snd eo) of None \<Rightarrow> [] | Some d \<Rightarrow> [d])"
  using absorb_deps[of ni "fst eo" "snd eo"] unfolding prod.collapse by blast

definition outcome_edges :: "(ir_event \<times> outcome) list \<Rightarrow> dependency list" where
  "outcome_edges eos = List.map_filter (\<lambda>eo. edge_of (snd eo)) eos"

lemma outcome_edges_simps [simp]:
  "outcome_edges [] = []"
  "outcome_edges (eo # eos) = (case edge_of (snd eo) of None \<Rightarrow> [] | Some d \<Rightarrow> [d]) @ outcome_edges eos"
  by (simp_all add: outcome_edges_def split: option.split)

lemma fold_absorb_index_ok:
  "index_ok (cn_dependencies (fst ni)) (snd ni) \<Longrightarrow>
   index_ok (cn_dependencies (fst (fold absorb eos ni))) (snd (fold absorb eos ni))"
  by (induction eos arbitrary: ni) (simp_all add: absorb_index_ok)

lemma fold_absorb_deps:
  "index_ok (cn_dependencies (fst ni)) (snd ni) \<Longrightarrow>
   cn_dependencies (fst (fold absorb eos ni)) =
     first_by dep_id (cn_dependencies (fst ni)) (outcome_edges eos)"
proof (induction eos arbitrary: ni)
  case (Cons eo eos)
  show ?case
    using Cons.IH[OF absorb_index_ok[OF Cons.prems], of eo] absorb_deps_eq[OF Cons.prems, of eo]
    by (cases "edge_of (snd eo)") simp_all
qed simp

definition conflict_named :: "dependency list \<Rightarrow> edge_conflict \<Rightarrow> bool" where
  "conflict_named deps x \<longleftrightarrow>
     (\<exists>d\<in>set deps. dep_id d = ec_dependency x \<and> dep_fingerprint d = ec_first_fingerprint x)"

lemma absorb_conflicts:
  assumes ok: "index_ok (cn_dependencies (fst ni)) (snd ni)"
  shows "\<exists>new. cn_conflicts (fst (absorb (e, out) ni)) = cn_conflicts (fst ni) @ new \<and>
    list_all (conflict_named (cn_dependencies (fst (absorb (e, out) ni)))) new \<and>
    (new = [] \<longleftrightarrow> (\<forall>d. edge_of out = Some d \<longrightarrow>
       (\<exists>d'\<in>set (cn_dependencies (fst (absorb (e, out) ni))). dep_id d' = dep_id d \<and> same_state d' d)))"
proof (cases "edge_of out")
  case None
  then show ?thesis by (simp add: absorb_other)
next
  case (Some d)
  then have out: "out = EdgeOf d" by (cases out) auto
  show ?thesis
  proof (cases "map_of (snd ni) (dep_id d)")
    case None
    then show ?thesis by (simp add: out absorb_new same_state_def)
  next
    case (Some jo)
    obtain j origin where jo: "map_of (snd ni) (dep_id d) = Some (j, origin)"
      using Some by (cases jo) auto
    have u: "d' \<in> set (cn_dependencies (fst ni)) \<and> dep_id d' = dep_id d \<longleftrightarrow> d' = cn_dependencies (fst ni) ! j"
      for d' by (rule index_ok_unique[OF ok jo])
    then have "(\<exists>d'\<in>set (cn_dependencies (fst ni)). dep_id d' = dep_id d \<and> same_state d' d) \<longleftrightarrow>
        same_state (cn_dependencies (fst ni) ! j) d"
      by metis
    moreover have "\<exists>d'\<in>set (cn_dependencies (fst ni)). dep_id d' = dep_id d \<and>
        dep_fingerprint d' = dep_fingerprint (cn_dependencies (fst ni) ! j)"
      using u by metis
    ultimately show ?thesis
      by (simp add: out absorb_again[OF jo] conflict_named_def)
  qed
qed

lemma conflict_named_mono: "set deps \<subseteq> set deps' \<Longrightarrow> conflict_named deps x \<Longrightarrow> conflict_named deps' x"
  by (auto simp: conflict_named_def)

lemma absorb_deps_grow:
  assumes "index_ok (cn_dependencies (fst ni)) (snd ni)"
  shows "set (cn_dependencies (fst ni)) \<subseteq> set (cn_dependencies (fst (fold absorb eos ni)))"
  using fold_absorb_deps[OF assms, of eos] first_by_keeps_acc by metis

definition edge_recorded :: "dependency list \<Rightarrow> dependency \<Rightarrow> bool" where
  \<comment> \<open>the observation is the retained edge of its identity, or agrees with it\<close>
  "edge_recorded deps d \<longleftrightarrow> (\<exists>d'\<in>set deps. dep_id d' = dep_id d \<and> same_state d' d)"

lemma edge_recorded_mono:
  assumes "set deps \<subseteq> set deps'" "distinct (map dep_id deps')" "dep_id d \<in> dep_id ` set deps"
  shows "edge_recorded deps' d \<longleftrightarrow> edge_recorded deps d"
proof -
  have "inj_on dep_id (set deps')"
    using assms(2) by (simp add: distinct_map)
  then have "d' \<in> set deps" if "d' \<in> set deps'" "dep_id d' = dep_id d" for d'
    using assms(1,3) that by (metis imageE inj_onD subsetD)
  then show ?thesis
    using assms(1) unfolding edge_recorded_def by blast
qed

lemma fold_absorb_conflicts:
  assumes "index_ok (cn_dependencies (fst ni)) (snd ni)"
    "list_all (conflict_named (cn_dependencies (fst ni))) (cn_conflicts (fst ni))"
  defines "final \<equiv> \<lambda>eos. fst (fold absorb eos ni)"
  shows "list_all (conflict_named (cn_dependencies (final eos))) (cn_conflicts (final eos)) \<and>
    (cn_conflicts (final eos) = [] \<longleftrightarrow> cn_conflicts (fst ni) = [] \<and>
      (\<forall>d\<in>set (outcome_edges eos). edge_recorded (cn_dependencies (final eos)) d))"
  using assms(1,2) unfolding final_def
proof (induction eos arbitrary: ni)
  case (Cons eo eos)
  let ?a = "absorb eo ni" and ?out = "snd eo"
  let ?f = "fst (fold absorb eos ?a)"
  obtain new where new: "cn_conflicts (fst ?a) = cn_conflicts (fst ni) @ new"
      "list_all (conflict_named (cn_dependencies (fst ?a))) new"
      "new = [] \<longleftrightarrow> (\<forall>d. edge_of ?out = Some d \<longrightarrow> edge_recorded (cn_dependencies (fst ?a)) d)"
    using absorb_conflicts[OF Cons.prems(1), of "fst eo" "snd eo"] by (auto simp: edge_recorded_def)
  have ok: "index_ok (cn_dependencies (fst ?a)) (snd ?a)"
    by (rule absorb_index_ok[OF Cons.prems(1)])
  have deps: "cn_dependencies (fst ?a) = first_by dep_id (cn_dependencies (fst ni))
      (case edge_of ?out of None \<Rightarrow> [] | Some d \<Rightarrow> [d])"
    by (rule absorb_deps_eq[OF Cons.prems(1)])
  have grow: "set (cn_dependencies (fst ni)) \<subseteq> set (cn_dependencies (fst ?a))"
    unfolding deps by (rule first_by_keeps_acc)
  have "list_all (conflict_named (cn_dependencies (fst ?a))) (cn_conflicts (fst ?a))"
    using Cons.prems(2) new(1,2) conflict_named_mono[OF grow] by (auto simp: list_all_iff)
  from Cons.IH[OF ok this]
  have named: "list_all (conflict_named (cn_dependencies ?f)) (cn_conflicts ?f)"
    and nil: "cn_conflicts ?f = [] \<longleftrightarrow> cn_conflicts (fst ?a) = [] \<and>
      (\<forall>d\<in>set (outcome_edges eos). edge_recorded (cn_dependencies ?f) d)"
    by auto
  have "edge_recorded (cn_dependencies ?f) d \<longleftrightarrow> edge_recorded (cn_dependencies (fst ?a)) d"
    if "edge_of ?out = Some d" for d
  proof (rule edge_recorded_mono)
    show "set (cn_dependencies (fst ?a)) \<subseteq> set (cn_dependencies ?f)"
      by (rule absorb_deps_grow[OF ok])
    show "distinct (map dep_id (cn_dependencies ?f))"
      using fold_absorb_index_ok[OF ok, of eos] by (simp add: index_ok_def)
    show "dep_id d \<in> dep_id ` set (cn_dependencies (fst ?a))"
      unfolding deps first_by_keys by (simp add: that)
  qed
  then have "cn_conflicts ?f = [] \<longleftrightarrow> cn_conflicts (fst ni) = [] \<and>
      (\<forall>d\<in>set (outcome_edges (eo # eos)). edge_recorded (cn_dependencies ?f) d)"
    using new(1,3) by (cases "edge_of ?out") (auto simp: nil)
  with named show ?case by simp
qed simp

subsection \<open>The conflicts as a function of the observations\<close>

definition edge_observations :: "(ir_event \<times> outcome) list \<Rightarrow> (ir_event \<times> dependency) list" where
  \<comment> \<open>every observation of a dependency, with the event it was made in\<close>
  "edge_observations eos = List.map_filter (\<lambda>(e, out). map_option (Pair e) (edge_of out)) eos"

definition disagreement :: "(ir_event \<times> dependency) list \<Rightarrow> ir_event \<times> dependency \<Rightarrow> edge_conflict option" where
  \<comment> \<open>what one observation says against the first one of the same dependency\<close>
  "disagreement seen x =
     (case find (\<lambda>y. dep_id (snd y) = dep_id (snd x)) seen of
        None \<Rightarrow> None
      | Some y \<Rightarrow>
          if dep_fingerprint (snd y) = dep_fingerprint (snd x) \<and>
             dep_trust_class (snd y) = dep_trust_class (snd x) then None
          else Some \<lparr>ec_dependency = dep_id (snd x), ec_first_event_id = ev_event_id (fst y),
                 ec_first_fingerprint = dep_fingerprint (snd y),
                 ec_conflicting_event_id = ev_event_id (fst x),
                 ec_conflicting_fingerprint = dep_fingerprint (snd x)\<rparr>)"

definition disagreements :: "(ir_event \<times> dependency) list \<Rightarrow> edge_conflict list" where
  "disagreements seen = List.map_filter (disagreement seen) seen"

lemma edge_observations_snoc:
  "edge_observations (eos @ [eo]) = edge_observations eos @
     (case edge_of (snd eo) of None \<Rightarrow> [] | Some d \<Rightarrow> [(fst eo, d)])"
  by (cases eo) (simp add: edge_observations_def map_filter_def split: option.split)

lemma find_append:
  "find P (xs @ ys) = (case find P xs of None \<Rightarrow> find P ys | Some x \<Rightarrow> Some x)"
  by (induction xs) auto

lemma map_filter_cong_set: "(\<And>x. x \<in> set xs \<Longrightarrow> f x = g x) \<Longrightarrow> List.map_filter f xs = List.map_filter g xs"
  by (induction xs) (auto simp: map_filter_Cons split: option.split)

lemma disagreements_snoc:
  "disagreements (seen @ [x]) = disagreements seen @
     (case disagreement (seen @ [x]) x of None \<Rightarrow> [] | Some k \<Rightarrow> [k])"
proof -
  have "disagreement (seen @ [x]) z = disagreement seen z" if "z \<in> set seen" for z
  proof -
    have "find (\<lambda>y. dep_id (snd y) = dep_id (snd z)) seen \<noteq> None"
      using that unfolding find_None_iff by blast
    then show ?thesis
      by (auto simp: disagreement_def find_append)
  qed
  then have "List.map_filter (disagreement (seen @ [x])) seen = disagreements seen"
    unfolding disagreements_def by (rule map_filter_cong_set)
  then show ?thesis
    by (simp add: disagreements_def map_filter_def split: option.split)
qed

definition index_tracks :: "(ir_event \<times> dependency) list \<Rightarrow> dependency list \<Rightarrow> edge_index \<Rightarrow> bool" where
  \<comment> \<open>the index entry of an identity is its first observation: the event, and the edge it points to\<close>
  "index_tracks seen deps ix \<longleftrightarrow>
     (\<forall>i. map_option (\<lambda>(e, d). (ev_event_id e, d)) (find (\<lambda>y. dep_id (snd y) = i) seen) =
          map_option (\<lambda>(j, origin). (origin, deps ! j)) (map_of ix i))"

lemma index_tracks_new:
  assumes "index_tracks seen deps ix" "index_ok deps ix" "map_of ix (dep_id d) = None"
  shows "index_tracks (seen @ [(e, d)]) (deps @ [d])
    (bm_put (dep_id d) (length deps, ev_event_id e) ix)"
proof -
  have at: "map_option (\<lambda>(e, d). (ev_event_id e, d)) (find (\<lambda>y. dep_id (snd y) = i) seen) =
      map_option (\<lambda>(j, origin). (origin, deps ! j)) (map_of ix i)" for i
    using assms(1) by (simp add: index_tracks_def)
  have unseen: "find (\<lambda>y. dep_id (snd y) = dep_id d) seen = None"
    using at[of "dep_id d"] assms(3) by simp
  have short: "j < length deps" if "map_of ix i = Some (j, x)" for i j x
    using assms(2) that unfolding index_ok_def by metis
  show ?thesis
    unfolding index_tracks_def
  proof (intro allI)
    fix i
    show "map_option (\<lambda>(e, d). (ev_event_id e, d)) (find (\<lambda>y. dep_id (snd y) = i) (seen @ [(e, d)])) =
        map_option (\<lambda>(j, origin). (origin, (deps @ [d]) ! j))
          (map_of (bm_put (dep_id d) (length deps, ev_event_id e) ix) i)"
    proof (cases "i = dep_id d")
      case True
      with unseen show ?thesis
        by (simp add: find_append)
    next
      case False
      have "find (\<lambda>y. dep_id (snd y) = i) (seen @ [(e, d)]) = find (\<lambda>y. dep_id (snd y) = i) seen"
        using False by (simp add: find_append split: option.split)
      moreover have "map_option (\<lambda>(j, origin). (origin, (deps @ [d]) ! j)) (map_of ix i) =
          map_option (\<lambda>(j, origin). (origin, deps ! j)) (map_of ix i)"
        using short by (cases "map_of ix i") (auto simp: nth_append)
      ultimately show ?thesis
        using False at[of i] by simp
    qed
  qed
qed

lemma index_tracks_again:
  assumes "index_tracks seen deps ix" "map_of ix (dep_id d) = Some (j, origin)"
  shows "index_tracks (seen @ [(e, d)]) deps ix"
    "disagreement (seen @ [(e, d)]) (e, d) =
      (if same_state (deps ! j) d then None
       else Some \<lparr>ec_dependency = dep_id d, ec_first_event_id = origin,
              ec_first_fingerprint = dep_fingerprint (deps ! j),
              ec_conflicting_event_id = ev_event_id e,
              ec_conflicting_fingerprint = dep_fingerprint d\<rparr>)"
proof -
  have at: "map_option (\<lambda>(e, d). (ev_event_id e, d)) (find (\<lambda>y. dep_id (snd y) = i) seen) =
      map_option (\<lambda>(j, origin). (origin, deps ! j)) (map_of ix i)" for i
    using assms(1) by (simp add: index_tracks_def)
  obtain e0 where e0: "find (\<lambda>y. dep_id (snd y) = dep_id d) seen = Some (e0, deps ! j)"
      "ev_event_id e0 = origin"
    using at[of "dep_id d"] assms(2) by auto
  show "index_tracks (seen @ [(e, d)]) deps ix"
    unfolding index_tracks_def
  proof
    fix i
    show "map_option (\<lambda>(e, d). (ev_event_id e, d)) (find (\<lambda>y. dep_id (snd y) = i) (seen @ [(e, d)])) =
        map_option (\<lambda>(j, origin). (origin, deps ! j)) (map_of ix i)"
      using at[of i] e0(1) by (cases "find (\<lambda>y. dep_id (snd y) = i) seen") (auto simp: find_append)
  qed
  show "disagreement (seen @ [(e, d)]) (e, d) =
      (if same_state (deps ! j) d then None
       else Some \<lparr>ec_dependency = dep_id d, ec_first_event_id = origin,
              ec_first_fingerprint = dep_fingerprint (deps ! j),
              ec_conflicting_event_id = ev_event_id e,
              ec_conflicting_fingerprint = dep_fingerprint d\<rparr>)"
    using e0 by (simp add: disagreement_def find_append same_state_def)
qed

lemma absorb_tracks:
  fixes ni :: "computation_node \<times> edge_index"
  assumes tracks: "index_tracks seen (cn_dependencies (fst ni)) (snd ni)"
    and ok: "index_ok (cn_dependencies (fst ni)) (snd ni)"
    and cs: "cn_conflicts (fst ni) = disagreements seen"
  defines "new \<equiv> \<lambda>eo. case edge_of (snd eo) of None \<Rightarrow> [] | Some d \<Rightarrow> [(fst eo, d)]"
  shows "index_tracks (seen @ new eo) (cn_dependencies (fst (absorb eo ni))) (snd (absorb eo ni)) \<and>
    cn_conflicts (fst (absorb eo ni)) = disagreements (seen @ new eo)"
proof (cases "edge_of (snd eo)")
  case None
  then show ?thesis
    using tracks cs absorb_other[OF None, of "fst eo" ni] by (simp add: new_def)
next
  case (Some d)
  then have eo: "eo = (fst eo, EdgeOf d)" by (cases eo; cases "snd eo") auto
  show ?thesis
  proof (cases "map_of (snd ni) (dep_id d)")
    case None
    have "find (\<lambda>y. dep_id (snd y) = dep_id d) seen = None"
      using tracks None by (simp add: index_tracks_def) (metis map_option_is_None)
    then have "disagreement (seen @ [(fst eo, d)]) (fst eo, d) = None"
      by (simp add: disagreement_def find_append)
    with absorb_new[OF None, of "fst eo"] index_tracks_new[OF tracks ok None] cs show ?thesis
      by (subst (1 2 3) eo) (simp add: new_def Some disagreements_snoc)
  next
    case (Some jo)
    obtain j origin where jo: "map_of (snd ni) (dep_id d) = Some (j, origin)"
      using Some by (cases jo) auto
    show ?thesis
      using absorb_again[OF jo, of "fst eo"] index_tracks_again[OF tracks jo, of "fst eo"] cs
        \<open>edge_of (snd eo) = Some d\<close>
      by (subst (1 2 3) eo) (simp add: new_def disagreements_snoc)
  qed
qed

lemma fold_absorb_disagreements:
  fixes c :: computation_id
  shows "index_tracks (edge_observations eos) (cn_dependencies (fst (fold absorb eos (node_new c, []))))
      (snd (fold absorb eos (node_new c, []))) \<and>
    cn_conflicts (fst (fold absorb eos (node_new c, []))) = disagreements (edge_observations eos)"
proof (induction eos rule: rev_induct)
  case Nil
  then show ?case
    by (simp add: index_tracks_def edge_observations_def disagreements_def node_new_def map_filter_def)
next
  case (snoc eo eos)
  have "index_ok (cn_dependencies (fst (fold absorb eos (node_new c, []))))
      (snd (fold absorb eos (node_new c, [])))"
    by (rule fold_absorb_index_ok) (simp add: node_new_def)
  from absorb_tracks[OF _ this, of "edge_observations eos" eo] snoc.IH
  show ?case
    by (simp add: edge_observations_snoc)
qed

lemma map_snd_edge_observations: "map snd (edge_observations eos) = outcome_edges eos"
  by (induction eos) (auto simp: edge_observations_def map_filter_Cons split: option.split)

subsection \<open>Nodes of a replayed log\<close>

abbreviation replay_outcomes ::
  "(event_kind \<Rightarrow> json \<Rightarrow> string) \<Rightarrow> ir_event list \<Rightarrow> computation_id \<Rightarrow> (ir_event \<times> outcome) list" where
  "replay_outcomes msg es c \<equiv>
     node_outcomes msg (collect_artifact_paths (linearize es)) (linearize es) c"

lemma ln_events_checked [simp]: "ln_events (linearize_checked es) = linearize es"
  by (simp add: linearize_checked_def Let_def)

lemma replay_computations:
  "dg_computations (replay msg es cov) =
     fst (build_nodes msg (collect_artifact_paths (linearize es)) (linearize es))"
  by (simp add: replay_def Let_def split: prod.split)

lemma replay_node:
  "graph_computation (replay msg es cov) c =
     (if own_events c (linearize es) = [] then None
      else Some (own_node msg (collect_artifact_paths (linearize es)) (linearize es) c))"
  by (simp add: graph_computation_def replay_computations build_loop_refines)

lemma map_snd_own_events: "map snd (own_events c events) = filter (\<lambda>e. ev_computation_id e = Some c) events"
proof -
  have "map snd (filter (\<lambda>p. P (snd p)) (enumerate n xs)) = filter P xs" for P :: "ir_event \<Rightarrow> bool" and n xs
    by (induction xs arbitrary: n) auto
  then show ?thesis by (simp add: own_events_def)
qed

lemma length_filter_linearize: "length (filter P (linearize es)) = length (filter P es)"
  by (metis linearize_mset mset_filter size_mset)

lemma own_node_fields:
  "cn_computation_id (own_node msg arts events c) = c"
  "cn_dependencies (own_node msg arts events c) =
     first_by dep_id [] (outcome_edges (node_outcomes msg arts events c))"
  "cn_artifacts (own_node msg arts events c) =
     List.map_filter (artifact_of \<circ> snd) (node_outcomes msg arts events c)"
  "cn_outputs (own_node msg arts events c) =
     List.map_filter (output_of \<circ> snd) (node_outcomes msg arts events c)"
  "cn_obligations (own_node msg arts events c) =
     List.map_filter (obligation_of \<circ> snd) (node_outcomes msg arts events c)"
  "cn_excluded (own_node msg arts events c) =
     List.map_filter (excluded_of \<circ> snd) (node_outcomes msg arts events c)"
  by (simp_all add: own_node_absorb fold_absorb_id fold_absorb_fields fold_absorb_deps node_new_def)

lemma node_outcomes_fst [simp]:
  "map fst (node_outcomes msg arts events c) = filter (\<lambda>e. ev_computation_id e = Some c) events"
  by (simp add: node_outcomes_def map_snd_own_events)

lemma own_events_empty: "own_events c (linearize es) = [] \<longleftrightarrow> (\<forall>e\<in>set es. ev_computation_id e \<noteq> Some c)"
proof -
  have "own_events c (linearize es) = [] \<longleftrightarrow> map snd (own_events c (linearize es)) = []"
    by simp
  then show ?thesis
    unfolding map_snd_own_events by (auto simp: filter_empty_conv)
qed

lemma own_node_count:
  "count_of (own_node msg arts (linearize es) c) k =
     length (filter (\<lambda>e. ev_computation_id e = Some c \<and> ev_kind e = k) es)"
proof -
  let ?os = "node_outcomes msg arts (linearize es) c"
  have "count_of (own_node msg arts (linearize es) c) k =
      or_default 0 (cn_kind_counts (fst (fold absorb ?os (node_new c, [])))) (event_wire k)"
    by (simp add: count_of_def or_default_def own_node_absorb)
  also have "\<dots> = length (filter (\<lambda>eo. ev_kind (fst eo) = k) ?os)"
    unfolding fold_absorb_count by (simp add: node_new_def or_default_def)
  also have "\<dots> = length (filter (\<lambda>e. ev_kind e = k) (map fst ?os))"
    by (simp add: filter_map comp_def del: node_outcomes_fst)
  also have "\<dots> = length (filter (\<lambda>e. ev_computation_id e = Some c \<and> ev_kind e = k) (linearize es))"
    by (simp add: conj_commute)
  also have "\<dots> = length (filter (\<lambda>e. ev_computation_id e = Some c \<and> ev_kind e = k) es)"
    by (rule length_filter_linearize)
  finally show ?thesis .
qed

lemma own_node_accounting:
  "is_balanced (cn_accounting (own_node msg arts (linearize es) c))"
  "ac_total (cn_accounting (own_node msg arts (linearize es) c)) =
     length (filter (\<lambda>e. ev_computation_id e = Some c) es)"
proof -
  let ?os = "node_outcomes msg arts (linearize es) c"
  show "is_balanced (cn_accounting (own_node msg arts (linearize es) c))"
    unfolding own_node_absorb
    by (simp, rule fold_absorb_accounting(1)) (simp add: node_new_def accounting_default_def is_balanced_def)
  have "length ?os = length (map fst ?os)"
    by (simp only: length_map)
  also have "\<dots> = length (filter (\<lambda>e. ev_computation_id e = Some c) es)"
    by (simp only: node_outcomes_fst length_filter_linearize)
  finally show "ac_total (cn_accounting (own_node msg arts (linearize es) c)) =
      length (filter (\<lambda>e. ev_computation_id e = Some c) es)"
    by (simp add: own_node_absorb fold_absorb_accounting node_new_def accounting_default_def)
qed

lemma replay_computations_ok: "bm_ok (dg_computations (replay msg es cov))"
  by (simp add: replay_computations build_nodes_ok)

lemma replay_node_in:
  "(c, n) \<in> set (dg_computations (replay msg es cov)) \<longleftrightarrow>
     graph_computation (replay msg es cov) c = Some n"
  using bm_ok_in_map_of[OF replay_computations_ok] by (simp add: graph_computation_def)

text \<open>C35: Replay loses no observation. A computation has a node exactly when some event of the log
  carries its id; the node's accounting is balanced, its total is the number of such events and
  its count of each kind is the number of such events of that kind.\<close>

theorem replay_accounting:
  "accounting_is_balanced (replay msg es cov) \<and>
   (case graph_computation (replay msg es cov) c of
      None \<Rightarrow> filter (\<lambda>e. ev_computation_id e = Some c) es = []
    | Some n \<Rightarrow> filter (\<lambda>e. ev_computation_id e = Some c) es \<noteq> [] \<and>
        is_balanced (cn_accounting n) \<and>
        ac_total (cn_accounting n) = length (filter (\<lambda>e. ev_computation_id e = Some c) es) \<and>
        (\<forall>k. count_of n k = length (filter (\<lambda>e. ev_computation_id e = Some c \<and> ev_kind e = k) es)))"
proof -
  have "is_balanced (cn_accounting n)" if "(c', n) \<in> set (dg_computations (replay msg es cov))" for c' n
    using that by (auto simp: replay_node_in replay_node own_node_accounting split: if_splits)
  then have "accounting_is_balanced (replay msg es cov)"
    by (auto simp: accounting_is_balanced_def list_all_iff)
  then show ?thesis
    by (auto simp: replay_node own_node_accounting own_node_count own_events_empty filter_empty_conv)
qed

subsection \<open>The evidence behind an edge\<close>

lemma maybe_hash_wf: "maybe_field de_hash m k = Some (Some h) \<Longrightarrow> hash_wf h"
  by (auto simp: maybe_field_def dest!: de_hash_wf split: option.splits json.splits)

lemma de_fs_read_hash: "de_fs_read j = Some rd \<Longrightarrow> \<exists>m. maybe_field de_hash m ''hash'' = Some (fr_hash rd)"
  unfolding de_fs_read_def bind_eq_Some_conv by force

lemma decode_payload_read:
  "decode_payload msg e = Inr (FsReadPayload rd) \<Longrightarrow> ev_kind e = FsRead \<and> de_fs_read (ev_payload e) = Some rd"
  by (cases "ev_kind e") (simp_all add: decode_payload_def typed_or_def split: option.splits)

lemma decode_read_hash:
  "decode_payload msg e = Inr (FsReadPayload rd) \<Longrightarrow> fr_hash rd = Some h \<Longrightarrow> hash_wf h"
  using decode_payload_read de_fs_read_hash maybe_hash_wf by metis

lemma content_hash_fingerprint_wf: "hash_wf h \<Longrightarrow> fingerprint_wf \<lparr>fp_kind = ContentHash, fp_payload = hash_display h\<rparr>"
  unfolding fingerprint_wf_def strip_prefix_nonempty_iff
  by (cases "algo h"; cases "digest_hex h") (auto simp: hash_display_def hash_wf_def)

definition read_evidence ::
  "(event_kind \<Rightarrow> json \<Rightarrow> string) \<Rightarrow> string list \<Rightarrow> ir_event \<Rightarrow> dependency \<Rightarrow> bool" where
  \<comment> \<open>the edge is a hashed, pure read of a path not in the given written paths\<close>
  "read_evidence msg written e d \<longleftrightarrow>
     (\<exists>rd h. ev_kind e = FsRead \<and> decode_payload msg e = Inr (FsReadPayload rd) \<and> fr_hash rd = Some h \<and>
        hash_wf h \<and> \<not> fr_impure rd \<and> \<not> path_in (fr_path rd) written \<and>
        dep_key d = ''file://'' @ fr_path rd \<and> dep_scheme d = ''file'' \<and> dep_trust_class d = Exact \<and>
        dep_fingerprint d = \<lparr>fp_kind = ContentHash, fp_payload = hash_display h\<rparr> \<and>
        dep_ttl_seconds d = None)"

definition probe_evidence :: "ir_event \<Rightarrow> dependency \<Rightarrow> bool" where
  \<comment> \<open>the edge is what a probe reported, class and fingerprint included\<close>
  "probe_evidence e d \<longleftrightarrow> ev_kind e = ProbeChecked \<and>
     (\<exists>raw_key raw_fp. str_at (ev_payload e) ''scheme'' = Some (dep_scheme d) \<and>
        str_at (ev_payload e) ''key'' = Some raw_key \<and> dep_key d = from_scheme_key (dep_scheme d) raw_key \<and>
        str_at (ev_payload e) ''trust_class'' = Some (trust_wire (dep_trust_class d)) \<and>
        str_at (ev_payload e) ''observed_fingerprint'' = Some raw_fp \<and>
        fingerprint_parse raw_fp = Inr (dep_fingerprint d) \<and>
        dep_ttl_seconds d = u64_at (ev_payload e) ''ttl_seconds'' \<and>
        (dep_trust_class d = Volatile \<longrightarrow> dep_ttl_seconds d \<noteq> None))"

lemma parse_trust_class_Some: "parse_trust_class s = Some t \<longleftrightarrow> s = Some (trust_wire t)"
  by (cases t) (auto simp: parse_trust_class_def)

lemma classify_read_edge:
  "classify_read msg e p w arts c = EdgeOf d \<Longrightarrow> ev_kind e = FsRead \<Longrightarrow>
   read_evidence msg w e d \<and> dep_observed_at d = ev_ts e"
  by (auto simp: classify_read_def Let_def read_evidence_def exact_file_def observed_at_def
      intro: decode_read_hash split: sum.splits typed_payload.splits if_splits option.splits)

lemma classify_probe_edge:
  "classify_probe e = EdgeOf d \<Longrightarrow> ev_kind e = ProbeChecked \<Longrightarrow>
   probe_evidence e d \<and> dep_observed_at d = ev_ts e"
  by (auto simp: classify_probe_def Let_def probe_evidence_def observed_at_def parse_trust_class_Some
      split: sum.splits if_splits option.splits)

lemma classify_edge:
  assumes "fst (classify msg e p w arts c) = EdgeOf d"
  shows "(read_evidence msg w e d \<or> probe_evidence e d) \<and> dep_observed_at d = ev_ts e"
proof -
  have "ev_kind e = FsRead \<and> classify_read msg e p w arts c = EdgeOf d \<or>
      ev_kind e = ProbeChecked \<and> classify_probe e = EdgeOf d"
    using assms
    by (auto simp: classify_def classify_write_def classify_artifact_def classify_tool_def Let_def
        split: event_kind.splits sum.splits typed_payload.splits option.splits if_splits)
  then show ?thesis
    using classify_read_edge classify_probe_edge by blast
qed

lemma evidence_wf:
  "read_evidence msg w e d \<or> probe_evidence e d \<Longrightarrow> is_consistent d \<and> fingerprint_wf (dep_fingerprint d)"
  by (auto simp: read_evidence_def probe_evidence_def is_consistent_def content_hash_fingerprint_wf
      dest: fingerprint_parse_wf)

definition written_before ::
  "(event_kind \<Rightarrow> json \<Rightarrow> string) \<Rightarrow> ir_event list \<Rightarrow> computation_id \<Rightarrow> nat \<Rightarrow> string list" where
  \<comment> \<open>the paths written by the computation's events before its \<open>i\<close>-th one, canonically\<close>
  "written_before msg es c i = List.map_filter (write_path msg)
     (take i (filter (\<lambda>e. ev_computation_id e = Some c) (linearize es)))"

lemma map_filter_snd: "List.map_filter (f \<circ> snd) ps = List.map_filter f (map snd ps)"
  by (induction ps) (auto split: option.split)

lemma replay_outcomes_nth:
  assumes "i < length (replay_outcomes msg es c)"
  shows "\<exists>p. replay_outcomes msg es c ! i =
    (filter (\<lambda>e. ev_computation_id e = Some c) (linearize es) ! i,
     fst (classify msg (filter (\<lambda>e. ev_computation_id e = Some c) (linearize es) ! i) p
       (written_before msg es c i) (collect_artifact_paths (linearize es)) c))"
proof -
  let ?ps = "own_events c (linearize es)"
  have i: "i < length ?ps"
    using assms by (simp add: node_outcomes_def)
  have "snd (?ps ! i) = filter (\<lambda>e. ev_computation_id e = Some c) (linearize es) ! i"
    using i by (metis map_snd_own_events nth_map)
  moreover have "List.map_filter (write_path msg \<circ> snd) (take i ?ps) = written_before msg es c i"
    by (simp only: map_filter_snd take_map[symmetric] map_snd_own_events written_before_def)
  ultimately show ?thesis
    using own_outcomes_nth[OF i, of msg "collect_artifact_paths (linearize es)" c "[]"]
    by (simp add: node_outcomes_def) blast
qed

lemma in_outcome_edges:
  "d \<in> set (outcome_edges eos) \<longleftrightarrow> (\<exists>i<length eos. snd (eos ! i) = EdgeOf d)"
proof -
  have e: "Some d = edge_of x \<longleftrightarrow> x = EdgeOf d" for x
    by (cases x) auto
  have "d \<in> set (outcome_edges eos) \<longleftrightarrow> (\<exists>eo\<in>set eos. snd eo = EdgeOf d)"
    by (induction eos) (simp_all add: e)
  then show ?thesis
    by (metis in_set_conv_nth)
qed

lemma replay_edge_evidence:
  assumes "d \<in> set (outcome_edges (replay_outcomes msg es c))"
  shows "\<exists>i. i < length (filter (\<lambda>e. ev_computation_id e = Some c) (linearize es)) \<and>
    (let e = filter (\<lambda>e. ev_computation_id e = Some c) (linearize es) ! i in
     (read_evidence msg (written_before msg es c i) e d \<or> probe_evidence e d) \<and>
     dep_observed_at d = ev_ts e)"
proof -
  obtain i where i: "i < length (replay_outcomes msg es c)" "snd (replay_outcomes msg es c ! i) = EdgeOf d"
    using assms by (auto simp: in_outcome_edges)
  have "length (replay_outcomes msg es c) = length (filter (\<lambda>e. ev_computation_id e = Some c) (linearize es))"
    by (metis length_map node_outcomes_fst)
  then show ?thesis
    using replay_outcomes_nth[OF i(1)] i classify_edge unfolding Let_def by (metis snd_conv)
qed

lemma replay_dependencies:
  "graph_computation (replay msg es cov) c = Some n \<Longrightarrow>
   cn_dependencies n = first_by dep_id [] (outcome_edges (replay_outcomes msg es c))"
  by (auto simp: replay_node own_node_fields split: if_splits)

lemma own_node_conflicts:
  "list_all (conflict_named (cn_dependencies (own_node msg arts events c))) (cn_conflicts (own_node msg arts events c))"
  "cn_conflicts (own_node msg arts events c) = [] \<longleftrightarrow>
     (\<forall>d\<in>set (outcome_edges (node_outcomes msg arts events c)).
        edge_recorded (cn_dependencies (own_node msg arts events c)) d)"
proof -
  have ok: "index_ok (cn_dependencies (fst (node_new c, []))) (snd (node_new c, []))"
    "list_all (conflict_named (cn_dependencies (fst (node_new c, [])))) (cn_conflicts (fst (node_new c, [])))"
    by (simp_all add: node_new_def)
  have nil: "cn_conflicts (fst (node_new c, [])) = []"
    by (simp add: node_new_def)
  from fold_absorb_conflicts[OF ok, of "node_outcomes msg arts events c"] nil
  show "list_all (conflict_named (cn_dependencies (own_node msg arts events c)))
      (cn_conflicts (own_node msg arts events c))"
    "cn_conflicts (own_node msg arts events c) = [] \<longleftrightarrow>
     (\<forall>d\<in>set (outcome_edges (node_outcomes msg arts events c)).
        edge_recorded (cn_dependencies (own_node msg arts events c)) d)"
    by (simp_all add: own_node_absorb)
qed

text \<open>C36: The dependency edges of a computation are unique by identity, self-consistent (no volatile
  edge without a time to live) and carry a well-formed fingerprint, and each one is evidence: it
  is a hashed, pure read of a path the computation had not written before, or exactly what a
  probe reported, stamped with the instant of its event.\<close>

theorem edges_are_evidence:
  assumes "graph_computation (replay msg es cov) c = Some n"
  shows "distinct (map dep_id (cn_dependencies n)) \<and>
    (\<forall>d\<in>set (cn_dependencies n). is_consistent d \<and> fingerprint_wf (dep_fingerprint d) \<and>
       (\<exists>i. i < length (filter (\<lambda>e. ev_computation_id e = Some c) (linearize es)) \<and>
         (let e = filter (\<lambda>e. ev_computation_id e = Some c) (linearize es) ! i in
          (read_evidence msg (written_before msg es c i) e d \<or> probe_evidence e d) \<and>
          dep_observed_at d = ev_ts e)))"
proof
  show "distinct (map dep_id (cn_dependencies n))"
    unfolding replay_dependencies[OF assms] by (rule first_by_distinct) simp
  show "\<forall>d\<in>set (cn_dependencies n). is_consistent d \<and> fingerprint_wf (dep_fingerprint d) \<and>
       (\<exists>i. i < length (filter (\<lambda>e. ev_computation_id e = Some c) (linearize es)) \<and>
         (let e = filter (\<lambda>e. ev_computation_id e = Some c) (linearize es) ! i in
          (read_evidence msg (written_before msg es c i) e d \<or> probe_evidence e d) \<and>
          dep_observed_at d = ev_ts e))"
  proof
    fix d assume "d \<in> set (cn_dependencies n)"
    then have "d \<in> set (outcome_edges (replay_outcomes msg es c))"
      using first_by_subset[of dep_id "[]"] unfolding replay_dependencies[OF assms] by auto
    from replay_edge_evidence[OF this] show "is_consistent d \<and> fingerprint_wf (dep_fingerprint d) \<and>
       (\<exists>i. i < length (filter (\<lambda>e. ev_computation_id e = Some c) (linearize es)) \<and>
         (let e = filter (\<lambda>e. ev_computation_id e = Some c) (linearize es) ! i in
          (read_evidence msg (written_before msg es c i) e d \<or> probe_evidence e d) \<and>
          dep_observed_at d = ev_ts e))"
      using evidence_wf unfolding Let_def by blast
  qed
qed

definition no_text :: "event_kind \<Rightarrow> json \<Rightarrow> string" where
  "no_text k j = []"

definition read_event :: "uuid \<Rightarrow> instant \<Rightarrow> string \<Rightarrow> ir_event" where
  "read_event i t path = \<lparr>ev_event_id = i, ev_producer = ''obs'', ev_producer_version = ''1'',
     ev_session_id = ''s'', ev_computation_id = Some ''comp:x'', ev_parent_id = None,
     ev_causal_inputs = None, ev_ts = t, ev_kind = FsRead,
     ev_payload = JObj [(''hash'', JStr (hash_display zero_hash)), (''path'', JStr path), (''size'', JUInt 3)]\<rparr>"

lemma linearize_one: "linearize [e] = [e]"
  by (simp add: linearize_def)

lemma own_events_one: "ev_computation_id e = Some c \<Longrightarrow> own_events c [e] = [(0, e)]"
  by (simp add: own_events_def)

lemma replay_one_node:
  "ev_computation_id e = Some c \<Longrightarrow>
   graph_computation (replay msg [e] cov) c = Some (own_node msg (collect_artifact_paths [e]) [e] c)"
  by (simp add: replay_node linearize_one own_events_one)

theorem edges_are_evidence_witness:
  "\<exists>n. graph_computation (replay no_text [read_event 1 5 ''/a''] registry_in_memory) ''comp:x'' = Some n \<and>
    distinct (map dep_id (cn_dependencies n)) \<and>
    (\<forall>d\<in>set (cn_dependencies n). is_consistent d \<and> fingerprint_wf (dep_fingerprint d))"
proof -
  let ?es = "[read_event 1 5 ''/a'']"
  have n: "graph_computation (replay no_text ?es registry_in_memory) ''comp:x'' =
      Some (own_node no_text (collect_artifact_paths ?es) ?es ''comp:x'')"
    by (rule replay_one_node) (simp add: read_event_def)
  show ?thesis
    using edges_are_evidence[OF n] n by blast
qed

text \<open>C37: Of several observations of one dependency within a computation the edge is the first in
  canonical order. The conflicts of the node are exactly the disagreements: one for each observation
  whose fingerprint or trust class differs from the first observation of the same dependency, in
  canonical order, naming the dependency, the event and fingerprint of the first observation and
  the event and fingerprint of the disagreeing one. There is none exactly when every observation
  agrees with the edge of its identity, and every conflict names a retained edge.\<close>

theorem conflicts_iff_disagreement:
  assumes "graph_computation (replay msg es cov) c = Some n"
  shows "cn_dependencies n = first_by dep_id [] (outcome_edges (replay_outcomes msg es c)) \<and>
    outcome_edges (replay_outcomes msg es c) = map snd (edge_observations (replay_outcomes msg es c)) \<and>
    cn_conflicts n = disagreements (edge_observations (replay_outcomes msg es c)) \<and>
    (cn_conflicts n = [] \<longleftrightarrow>
      (\<forall>d\<in>set (outcome_edges (replay_outcomes msg es c)).
         \<exists>d'\<in>set (cn_dependencies n). dep_id d' = dep_id d \<and>
           dep_fingerprint d' = dep_fingerprint d \<and> dep_trust_class d' = dep_trust_class d)) \<and>
    (\<forall>x\<in>set (cn_conflicts n). \<exists>d\<in>set (cn_dependencies n).
       dep_id d = ec_dependency x \<and> dep_fingerprint d = ec_first_fingerprint x)"
proof -
  let ?arts = "collect_artifact_paths (linearize es)"
  have n: "n = own_node msg ?arts (linearize es) c"
    using assms by (auto simp: replay_node split: if_splits)
  have exact: "cn_conflicts n = disagreements (edge_observations (replay_outcomes msg es c))"
    using fold_absorb_disagreements[of "replay_outcomes msg es c" c] by (simp add: n own_node_absorb)
  show ?thesis
    using replay_dependencies[OF assms] own_node_conflicts[of msg ?arts "linearize es" c]
    unfolding exact[symmetric] n[symmetric] edge_recorded_def same_state_def list_all_iff conflict_named_def
      map_snd_edge_observations
    by blast
qed

definition hashed_read :: "uuid \<Rightarrow> instant \<Rightarrow> string \<Rightarrow> string \<Rightarrow> ir_event" where
  "hashed_read i t path h = (read_event i t path)\<lparr>
     ev_payload := JObj [(''hash'', JStr h), (''path'', JStr path), (''size'', JUInt 3)]\<rparr>"

definition other_hash_text :: string where
  "other_hash_text = ''blake3:'' @ replicate 64 CHR ''1''"

definition quarrel_log :: "ir_event list" where
  \<comment> \<open>four reads of one path, the second and the fourth of another content, and one of another path\<close>
  "quarrel_log = [hashed_read 4 4 ''/a'' other_hash_text, hashed_read 3 3 ''/a'' (hash_display zero_hash),
     hashed_read 5 5 ''/b'' other_hash_text, hashed_read 2 2 ''/a'' other_hash_text,
     hashed_read 1 1 ''/a'' (hash_display zero_hash)]"

theorem conflicts_iff_disagreement_witness:
  "\<exists>n. graph_computation (replay no_text quarrel_log registry_in_memory) ''comp:x'' = Some n \<and>
    length (cn_dependencies n) = 2 \<and>
    map ec_first_event_id (cn_conflicts n) = [1, 1] \<and>
    map ec_conflicting_event_id (cn_conflicts n) = [2, 4] \<and>
    map (fingerprint_display \<circ> ec_conflicting_fingerprint) (cn_conflicts n) = [other_hash_text, other_hash_text]"
proof -
  let ?g = "replay no_text quarrel_log registry_in_memory"
  let ?o = "edge_observations (replay_outcomes no_text quarrel_log ''comp:x'')"
  have "ev_computation_id (read_event i t p) = Some ''comp:x''" for i t p
    by (simp add: read_event_def)
  then have "own_events ''comp:x'' (linearize quarrel_log) \<noteq> []"
    by (simp add: own_events_empty quarrel_log_def hashed_read_def)
  then obtain n where n: "graph_computation ?g ''comp:x'' = Some n"
    by (simp add: replay_node)
  have "length (first_by dep_id [] (map snd ?o)) = 2"
    by code_simp
  moreover have "map ec_first_event_id (disagreements ?o) = [1, 1]"
    by code_simp
  moreover have "map ec_conflicting_event_id (disagreements ?o) = [2, 4]"
    by code_simp
  moreover have "map (fingerprint_display \<circ> ec_conflicting_fingerprint) (disagreements ?o) =
      [other_hash_text, other_hash_text]"
    by code_simp
  ultimately show ?thesis
    using conflicts_iff_disagreement[OF n] n by auto
qed

end
