(* ===== verification/Edge_Facts.thy ===== *)
theory Edge_Facts
  imports Engine_Edge Graph_Facts
begin

section \<open>Facts about edge evaluation\<close>

text \<open>
  What the decision procedure of \<open>Engine_Edge\<close> guarantees: the outcome it returns is one
  \<open>seal\<close> accepts, the exact conditions of each verdict, the meaning of the TTL gate, and the
  identifiers and kinds of the events it emits.
\<close>

subsection \<open>The emitted events\<close>

definition emitted_ok :: "computation_id \<Rightarrow> instant \<Rightarrow> eval_state \<Rightarrow> bool" where
  "emitted_ok c now st \<longleftrightarrow>
     unat (es_sequence st) = min (length (es_emitted st)) 65535 \<and>
     (\<forall>i<length (es_emitted st).
        ev_event_id (es_emitted st ! i) = engine_event_id now (word_of_nat (min i 65535)) \<and>
        ev_producer (es_emitted st ! i) = engine_producer \<and>
        ev_computation_id (es_emitted st ! i) = Some c \<and>
        ev_kind (es_emitted st ! i) \<in> {ProbeChecked, Diagnostic})"

lemma emitted_ok_emit:
  assumes "emitted_ok c now st" "k \<in> {ProbeChecked, Diagnostic}"
  shows "emitted_ok c now (emit_event c now k payload st)"
proof -
  let ?n = "length (es_emitted st)"
  have seq: "unat (es_sequence st) = min ?n 65535"
    using assms(1) by (simp add: emitted_ok_def)
  have minus: "unat (- 1 :: u16) = 65535"
    by (simp add: unsigned_minus_1_eq_mask mask_eq_exp_minus_1)
  have id: "es_sequence st = word_of_nat (min ?n 65535)"
    by (simp add: word_unat_eq_iff seq unsigned_of_nat take_bit_eq_mod)
  have next_seq: "unat (if es_sequence st = - 1 then es_sequence st else es_sequence st + 1) = min (Suc ?n) 65535"
  proof (cases "?n < 65535")
    case True
    then have ne: "es_sequence st \<noteq> - 1"
      using seq minus by auto
    have "unat (es_sequence st + 1) = unat (es_sequence st) + 1"
      using True seq by (simp add: unat_word_ariths)
    with True seq ne show ?thesis by simp
  next
    case False
    then have "es_sequence st = - 1"
      using seq minus by (simp add: word_unat_eq_iff)
    with False minus show ?thesis by simp
  qed
  have old: "\<forall>i<?n. ev_event_id (es_emitted st ! i) = engine_event_id now (word_of_nat (min i 65535)) \<and>
      ev_producer (es_emitted st ! i) = engine_producer \<and>
      ev_computation_id (es_emitted st ! i) = Some c \<and>
      ev_kind (es_emitted st ! i) \<in> {ProbeChecked, Diagnostic}"
    using assms(1) by (simp add: emitted_ok_def)
  show ?thesis
    using old next_seq assms(2) unfolding emitted_ok_def emit_event_def
    by (auto simp: nth_append less_Suc_eq id)
qed

lemma emitted_ok_ledger [simp]: "emitted_ok c now (st\<lparr>es_ledger := led\<rparr>) \<longleftrightarrow> emitted_ok c now st"
  by (simp add: emitted_ok_def)

lemma emitted_ok_diagnostic: "emitted_ok c now st \<Longrightarrow> emitted_ok c now (diagnostic c now m x st)"
  by (simp add: diagnostic_def emitted_ok_emit)

lemma emitted_ok_checked: "emitted_ok c now st \<Longrightarrow> emitted_ok c now (probe_checked_for c now dep r st)"
  by (cases r) (simp_all add: probe_checked_def emitted_ok_emit)

lemma emitted_ok_transition:
  "emitted_ok c now st \<Longrightarrow> emitted_ok c now (note_transition c now dep i t st)"
  by (auto simp: note_transition_def trust_demoted_def emitted_ok_diagnostic
      split: option.splits trust_transition.splits)

lemma emitted_ok_fold:
  "emitted_ok c now st \<Longrightarrow> emitted_ok c now (snd (fold_result now dep i r st))"
  by (auto simp: fold_result_def split: probe_result.splits prod.splits)

lemma emitted_ok_edge:
  assumes "emitted_ok c now st"
  shows "emitted_ok c now (snd (evaluate_edge tadd reg max_ttl c now w dep st))"
  unfolding evaluate_edge_def dispatch_def Let_def case_prod_beta
  by (auto simp: assms emitted_ok_diagnostic emitted_ok_transition emitted_ok_fold emitted_ok_checked
      split: option.splits sum.splits no_probe.splits)

lemma emitted_ok_edges:
  "emitted_ok c now st \<Longrightarrow>
     emitted_ok c now (snd (evaluate_edges tadd reg max_ttl c now world i deps st))"
proof (induction deps arbitrary: i st)
  case (Cons dep deps)
  show ?case
    using Cons.IH[OF emitted_ok_edge[OF Cons.prems]]
    by (simp add: Let_def case_prod_beta)
qed simp

lemma emitted_ok_start: "emitted_ok c now \<lparr>es_ledger = led, es_emitted = [], es_sequence = 0\<rparr>"
  by (simp add: emitted_ok_def)

subsection \<open>Outcomes\<close>

lemma volatile_verdict_wf:
  assumes "is_consistent dep" "dep_trust_class dep = Volatile"
  shows "edge_wf (volatile_within_ttl_verdict dep probed)"
  using assms by (auto simp: volatile_within_ttl_verdict_def edge_wf_def edge_consistent_def
      volatile_match_def split: option.split probe_result.split)

lemma unknown_edge_wf:
  "is_consistent dep \<Longrightarrow> \<not> is_artifact_scoped code \<Longrightarrow> edge_wf (unknown_edge dep code d)"
  by (auto simp: unknown_edge_def edge_wf_def edge_consistent_def)

lemma probe_verdict_wf:
  assumes "is_consistent dep" "dep_trust_class dep \<noteq> Volatile"
  shows "edge_wf (probe_verdict dep result transition)"
  using assms by (cases "dep_trust_class dep")
    (auto simp: probe_verdict_def unknown_edge_def edge_wf_def edge_consistent_def
       split: probe_result.split option.split trust_transition.split)

lemma evaluate_edge_wf:
  assumes "is_consistent dep"
  shows "edge_wf (fst (evaluate_edge tadd reg max_ttl c now w dep st))"
  using assms unfolding evaluate_edge_def dispatch_def unprobed_def Let_def case_prod_beta
  by (auto simp: volatile_verdict_wf unknown_edge_wf probe_verdict_wf
      split: option.splits sum.splits)

lemma evaluate_edge_dep [simp]:
  "eo_dependency (fst (evaluate_edge tadd reg max_ttl c now w dep st)) = dep"
  unfolding evaluate_edge_def dispatch_def unprobed_def Let_def case_prod_beta
  by (auto simp: volatile_within_ttl_verdict_def unknown_edge_def probe_verdict_def
      split: option.splits sum.splits probe_result.splits trust_transition.splits)

lemma evaluate_edges_deps [simp]:
  "map eo_dependency (fst (evaluate_edges tadd reg max_ttl c now world i deps st)) = deps"
  by (induction deps arbitrary: i st) (auto simp: Let_def case_prod_beta)

lemma evaluate_edges_wf:
  "(\<And>d. d \<in> set deps \<Longrightarrow> is_consistent d) \<Longrightarrow>
   e \<in> set (fst (evaluate_edges tadd reg max_ttl c now world i deps st)) \<Longrightarrow> edge_wf e"
  by (induction deps arbitrary: i st) (auto simp: Let_def case_prod_beta evaluate_edge_wf)

lemma evaluate_edges_in:
  "e \<in> set (fst (evaluate_edges tadd reg max_ttl c now world i deps st)) \<Longrightarrow>
     \<exists>j st' dep. dep \<in> set deps \<and> e = fst (evaluate_edge tadd reg max_ttl c now (world j) dep st')"
  by (induction deps arbitrary: i st) (auto simp: Let_def case_prod_beta, blast)

subsection \<open>Verdicts\<close>

lemma to_status_unknown_edge [simp]:
  "to_status (eo_verdict (unknown_edge dep code d)) = UnknownStatus"
  by (simp add: unknown_edge_def)

lemma volatile_verdict_status:
  "to_status (eo_verdict (volatile_within_ttl_verdict dep probed)) =
     (case probed of Some (ProbeDrift _ _) \<Rightarrow> Stale | _ \<Rightarrow> LikelyValid)"
  by (auto simp: volatile_within_ttl_verdict_def volatile_match_def split: option.split probe_result.split)

lemma volatile_verdict_drift [simp]:
  "eo_verdict (volatile_within_ttl_verdict dep (Some (ProbeDrift ofp otc))) = DriftVerdict"
  by (simp add: volatile_within_ttl_verdict_def)

lemma fold_result_fst:
  "fst (fold_result now dep i (ProbeMatch ofp otc) st) =
     Some (fst (observe (dep_key dep) i (dep_trust_class dep) otc now (es_ledger st)))"
  by (simp add: fold_result_def split: prod.split)

lemma ledger_emit [simp]: "es_ledger (emit_event c now k payload st) = es_ledger st"
  by (simp add: emit_event_def)

lemma ledger_diagnostic [simp]: "es_ledger (diagnostic c now m x st) = es_ledger st"
  by (simp add: diagnostic_def)

lemma ledger_probe_checked [simp]: "es_ledger (probe_checked c now dep r fp t ot y st) = es_ledger st"
  by (simp add: probe_checked_def)

lemma ledger_checked [simp]: "es_ledger (probe_checked_for c now dep r st) = es_ledger st"
  by (cases r) simp_all

lemma ledger_transition [simp]: "es_ledger (note_transition c now dep i t st) = es_ledger st"
  by (auto simp: note_transition_def trust_demoted_def split: option.split trust_transition.split)

lemma probe_verdict_Valid_iff:
  "to_status (eo_verdict (probe_verdict dep result transition)) = Valid \<longleftrightarrow>
     dep_trust_class dep \<in> {Exact, Versioned} \<and> (\<exists>ofp otc. result = ProbeMatch ofp otc) \<and>
     (\<forall>f t. transition \<noteq> Some (Demoted f t))"
  by (cases "dep_trust_class dep")
     (auto simp: probe_verdict_def split: probe_result.split option.split trust_transition.split)

lemma fresh_edge:
  "to_status (eo_verdict (fst (evaluate_edge tadd reg max_ttl c now w dep st))) = Valid \<longleftrightarrow>
     dep_trust_class dep \<in> {Exact, Versioned} \<and>
     removed_probe reg dep (es_ledger st) = None \<and>
     (\<exists>sel ofp otc. select_probe reg (dep_scheme dep) (dep_key dep) = Inr sel \<and>
        p_check (sel_probe sel) w (dep_key dep) (dep_fingerprint dep) (dep_ttl_seconds dep)
          = ProbeMatch ofp otc \<and>
        (\<forall>f t. fst (observe (dep_key dep) (sel_identity sel) (dep_trust_class dep) otc now
                 (es_ledger st)) \<noteq> Demoted f t))"
proof (cases "dep_trust_class dep = Volatile")
  case True
  then show ?thesis
    unfolding evaluate_edge_def dispatch_def unprobed_def Let_def case_prod_beta
    by (auto simp: volatile_verdict_status split: option.splits sum.splits probe_result.splits)
next
  case False
  note nv = False
  show ?thesis
  proof (cases "removed_probe reg dep (es_ledger st)")
    case (Some previous)
    with nv show ?thesis by (simp add: evaluate_edge_def unprobed_def)
  next
    case None
    show ?thesis
    proof (cases "select_probe reg (dep_scheme dep) (dep_key dep)")
      case (Inl why)
      with nv None show ?thesis by (simp add: evaluate_edge_def unprobed_def)
    next
      case (Inr sel)
      let ?r = "p_check (sel_probe sel) w (dep_key dep) (dep_fingerprint dep) (dep_ttl_seconds dep)"
      show ?thesis
        using nv None Inr
        by (cases ?r) (simp_all add: evaluate_edge_def dispatch_def Let_def case_prod_beta
            probe_verdict_Valid_iff fold_result_fst)
    qed
  qed
qed

text \<open>An edge is evaluated as plainly fresh exactly when its recorded class is Exact or
  Versioned, the probe that last answered is still registered, arbitration selects one probe,
  that probe reports a match against the recorded fingerprint, and the class it observed is no
  demotion of the class in force. No earlier escalation can make up for any of these.\<close>

theorem edge_fresh_iff:
  "to_status (eo_verdict (fst (evaluate_edge tadd reg max_ttl c now w dep st))) = Valid \<longleftrightarrow>
     dep_trust_class dep \<in> {Exact, Versioned} \<and>
     removed_probe reg dep (es_ledger st) = None \<and>
     (\<exists>sel ofp otc. select_probe reg (dep_scheme dep) (dep_key dep) = Inr sel \<and>
        p_check (sel_probe sel) w (dep_key dep) (dep_fingerprint dep) (dep_ttl_seconds dep)
          = ProbeMatch ofp otc \<and>
        (\<forall>f t. fst (observe (dep_key dep) (sel_identity sel) (dep_trust_class dep) otc now
                 (es_ledger st)) \<noteq> Demoted f t))"
  by (rule fresh_edge)

text \<open>A volatile edge is Unknown exactly when its TTL gate refuses it; past the gate a probe can
  only make it stricter: it is Stale when the selected probe reports drift, and LikelyValid in
  every other case, probed or not.\<close>

theorem volatile_edge_status:
  assumes "dep_trust_class dep = Volatile"
  shows "to_status (eo_verdict (fst (evaluate_edge tadd reg max_ttl c now w dep st))) =
     (if ttl_gate tadd max_ttl now dep \<noteq> None then UnknownStatus
      else if removed_probe reg dep (es_ledger st) = None \<and>
              (\<exists>sel ofp otc. select_probe reg (dep_scheme dep) (dep_key dep) = Inr sel \<and>
                 p_check (sel_probe sel) w (dep_key dep) (dep_fingerprint dep) (dep_ttl_seconds dep)
                   = ProbeDrift ofp otc)
      then Stale else LikelyValid)"
  using assms unfolding evaluate_edge_def dispatch_def unprobed_def Let_def case_prod_beta
  by (auto simp: volatile_verdict_status split: option.splits sum.splits probe_result.splits)

subsection \<open>The TTL gate\<close>

text \<open>With an exact checked addition in which the skew horizon is representable, a volatile
  dependency passes the TTL gate exactly when its TTL is declared and its expiry representable,
  the TTL is at most the configured maximum, it was observed no more than a minute in the
  future, and the current instant is not past observation plus TTL.\<close>

theorem ttl_gate_open_iff:
  assumes exact: "\<And>t d u. tadd t d = Some u \<Longrightarrow> u = t + d"
    and horizon: "tadd now (60 * 10 ^ 9) \<noteq> None"
  shows "ttl_gate tadd max_ttl now dep = None \<longleftrightarrow>
     (\<exists>secs. dep_ttl_seconds dep = Some secs \<and> uint secs < 2 ^ 63 \<and>
        tadd (dep_observed_at dep) (uint secs * 10 ^ 9) \<noteq> None \<and>
        unat secs \<le> max_ttl div 10 ^ 9 \<and>
        dep_observed_at dep \<le> now + 60 * 10 ^ 9 \<and>
        now \<le> dep_observed_at dep + uint secs * 10 ^ 9)"
proof (cases "dep_ttl_seconds dep")
  case None
  then show ?thesis by (simp add: ttl_gate_def)
next
  case (Some secs)
  have h: "tadd now (60 * 10 ^ 9) = Some (now + 60 * 10 ^ 9)"
    using horizon exact by fastforce
  have e: "tadd (dep_observed_at dep) (uint secs * 10 ^ 9) = Some (dep_observed_at dep + uint secs * 10 ^ 9)"
    if "tadd (dep_observed_at dep) (uint secs * 10 ^ 9) \<noteq> None"
    using that exact by blast
  show ?thesis
  proof (cases "uint secs < 2 ^ 63 \<and> tadd (dep_observed_at dep) (uint secs * 10 ^ 9) \<noteq> None")
    case True
    then have "ttl_expiry tadd (dep_observed_at dep) secs = Some (dep_observed_at dep + uint secs * 10 ^ 9)"
      using e unfolding ttl_expiry_def by (metis)
    then show ?thesis
      using Some True h
      by (auto simp: ttl_gate_def Let_def duration_as_secs_def skew_tolerance_def max_clock_skew_secs_def)
  next
    case False
    then have "ttl_expiry tadd (dep_observed_at dep) secs = None"
      by (auto simp: ttl_expiry_def)
    with Some False show ?thesis by (auto simp: ttl_gate_def)
  qed
qed

definition volatile_dep :: "instant \<Rightarrow> u64 \<Rightarrow> dependency" where
  "volatile_dep at secs = \<lparr>dep_key = ''https://a/x'', dep_scheme = ''https'', dep_trust_class = Volatile,
     dep_fingerprint = \<lparr>fp_kind = Etag, fp_payload = ''e''\<rparr>, dep_observed_at = at,
     dep_produced_by = None, dep_ttl_seconds = Some secs\<rparr>"

definition exact_add :: "instant \<Rightarrow> int \<Rightarrow> instant option" where
  "exact_add t d = Some (t + d)"

theorem ttl_gate_open_iff_witness:
  "ttl_gate exact_add default_max_volatile_ttl 5000000000 (volatile_dep 0 10) = None \<and>
   ttl_gate exact_add default_max_volatile_ttl 5000000000 (volatile_dep 100000000000 10) \<noteq> None"
proof
  show "ttl_gate exact_add default_max_volatile_ttl 5000000000 (volatile_dep 0 10) = None"
    by (subst ttl_gate_open_iff) (simp_all add: exact_add_def volatile_dep_def default_max_volatile_ttl_def)
  show "ttl_gate exact_add default_max_volatile_ttl 5000000000 (volatile_dep 100000000000 10) \<noteq> None"
    by (subst ttl_gate_open_iff) (simp_all add: exact_add_def volatile_dep_def default_max_volatile_ttl_def)
qed

theorem volatile_edge_status_witness:
  "to_status (eo_verdict (fst (evaluate_edge exact_add [] default_max_volatile_ttl ''c'' 5000000000 ()
     (volatile_dep 0 10) \<lparr>es_ledger = ledger_new, es_emitted = [], es_sequence = 0\<rparr>))) = LikelyValid"
proof -
  have "ttl_gate exact_add default_max_volatile_ttl 5000000000 (volatile_dep 0 10) = None"
    by (simp add: ttl_gate_def volatile_dep_def ttl_expiry_def exact_add_def Let_def
        default_max_volatile_ttl_def duration_as_secs_def skew_tolerance_def max_clock_skew_secs_def)
  then show ?thesis
    by (subst volatile_edge_status) (simp_all add: volatile_dep_def select_probe_def)
qed

subsection \<open>Probe removal\<close>

lemma dispatch_notes_probe:
  "last_probe_for (es_ledger (snd (dispatch c now w dep sel st))) (dep_key dep) = Some (sel_identity sel)"
  by (simp add: dispatch_def Let_def case_prod_beta)
     (auto simp: fold_result_def observe_def note_probe_def last_probe_for_def Let_def
        split: probe_result.split prod.split)

text \<open>Once a probe has answered for a dependency that is not volatile, removing its
  registration makes the next evaluation of that dependency Unknown with no-probe-available
  naming the removed probe, whatever other probes are registered for the scheme and whatever
  they would report.\<close>

theorem removed_probe_is_not_replaced:
  assumes "dep_trust_class dep \<noteq> Volatile"
    and "removed_probe reg dep (es_ledger st) = None"
    and "select_probe reg (dep_scheme dep) (dep_key dep) = Inr sel"
    and "es_ledger st' = es_ledger (snd (evaluate_edge tadd reg max_ttl c now w dep st))"
  shows "fst (evaluate_edge tadd (snd (deregister_probe (sel_identity sel) reg)) max_ttl c' now' w' dep st') =
     \<lparr>eo_dependency = dep, eo_verdict = UnknownVerdict,
      eo_reason = Some (NoProbeAvailable, Some (''probe-removed='' @ sel_identity sel))\<rparr>"
proof -
  have "last_probe_for (es_ledger st') (dep_key dep) = Some (sel_identity sel)"
    using assms dispatch_notes_probe by (simp add: evaluate_edge_def)
  moreover have "\<not> registry_contains (snd (deregister_probe (sel_identity sel) reg)) (sel_identity sel)"
    by (simp add: registry_contains_def deregister_probe_def map_of_bm_del)
  ultimately show ?thesis
    using assms(1) by (simp add: evaluate_edge_def removed_probe_def unprobed_def unknown_edge_def)
qed

lemma two_https_selects:
  "select_probe (two_https 0) ''https'' ''https://a.b.c/x'' =
     Inr \<lparr>sel_identity = ''https@*.b.c#5'', sel_probe = silent_probe ''https'' (Some ''*.b.c'') 5\<rparr>"
proof -
  have "top_registrations (two_https 0) ''https'' ''https://a.b.c/x'' =
      [\<lparr>r_identity = ''https@*.b.c#5'', r_scheme = ''https'', r_host_pattern = Some ''*.b.c'',
        r_priority = 5, r_probe = silent_probe ''https'' (Some ''*.b.c'') 5\<rparr>]"
    by (simp add: top_registrations_def two_https_eq applicable_def two_https_host
        del: host_pattern_matches.simps)
  then show ?thesis
    unfolding select_probe_Inr[OF registry_reach_wf[OF two_https_reach]] by simp
qed

definition https_dep :: dependency where
  "https_dep = (volatile_dep 0 10)\<lparr>dep_trust_class := Versioned, dep_key := ''https://a.b.c/x''\<rparr>"

theorem removed_probe_is_not_replaced_witness:
  "\<exists>sel st'. select_probe (two_https 0) ''https'' ''https://a.b.c/x'' = Inr sel \<and>
     eo_verdict (fst (evaluate_edge exact_add (snd (deregister_probe (sel_identity sel) (two_https 0)))
       0 ''c'' 0 () https_dep st')) = UnknownVerdict \<and>
     (\<exists>sel'. select_probe (snd (deregister_probe (sel_identity sel) (two_https 0)))
        ''https'' ''https://a.b.c/x'' = Inr sel')"
proof -
  let ?st = "\<lparr>es_ledger = ledger_new, es_emitted = [], es_sequence = 0\<rparr>"
  let ?sel = "\<lparr>sel_identity = ''https@*.b.c#5'', sel_probe = silent_probe ''https'' (Some ''*.b.c'') 5\<rparr>"
  note host = two_https_host
  note sel = two_https_selects
  have other: "\<exists>sel'. select_probe (snd (deregister_probe ''https@*.b.c#5'' (two_https 0)))
      ''https'' ''https://a.b.c/x'' = Inr sel'"
    by (simp add: two_https_eq deregister_probe_def bm_del_def select_probe_def host Let_def
        del: host_pattern_matches.simps)
  have "fst (evaluate_edge exact_add (snd (deregister_probe (sel_identity ?sel) (two_https 0)))
       0 ''c'' 0 () https_dep (snd (evaluate_edge exact_add (two_https 0) 0 ''c'' 0 () https_dep ?st))) =
     \<lparr>eo_dependency = https_dep, eo_verdict = UnknownVerdict,
      eo_reason = Some (NoProbeAvailable, Some (''probe-removed='' @ sel_identity ?sel))\<rparr>"
    by (rule removed_probe_is_not_replaced[where w = "()" and st = ?st and reg = "two_https 0" and now = 0
          and c = "''c''" and max_ttl = 0 and tadd = exact_add])
       (use sel in \<open>simp_all add: https_dep_def volatile_dep_def removed_probe_def last_probe_for_def ledger_new_def\<close>)
  then show ?thesis using sel other by (metis (no_types, lifting) edge_outcome.select_convs(2) selected.select_convs(1))
qed

subsection \<open>Identifiers and payloads of the emitted events\<close>

text \<open>Two identifiers minted by the engine are equal exactly when the instants agree in their
  milliseconds modulo 2 to the 48 and the sequence numbers agree in their low twelve bits: ids
  repeat after 4096 events of one check and between two checks in the same millisecond.\<close>

theorem engine_ids_collide_iff:
  "engine_event_id at s = engine_event_id at' s' \<longleftrightarrow>
     unat (unix_millis at) mod 2 ^ 48 = unat (unix_millis at') mod 2 ^ 48 \<and>
     unat s mod 4096 = unat s' mod 4096"
  by (rule engine_event_id_eq_iff)

lemma emitted_ids_distinct:
  assumes "emitted_ok c now st" "length (es_emitted st) \<le> 4096"
  shows "distinct (map ev_event_id (es_emitted st))"
proof -
  have "ev_event_id (es_emitted st ! i) = engine_event_id now (word_of_nat i)"
    if "i < length (es_emitted st)" for i
    using assms that by (simp add: emitted_ok_def)
  moreover have "unat (word_of_nat i :: u16) = i" if "i < 4096" for i
    using that by (simp add: unsigned_of_nat take_bit_eq_mod)
  ultimately show ?thesis
    using assms(2) by (simp add: distinct_conv_nth engine_event_id_eq_iff)
qed

text \<open>When a check evaluates its edges and emits at most 4096 events, all their identifiers are
  distinct and each is attributed to the engine and to the computation.\<close>

theorem edge_events_identified:
  assumes "evaluate_edges tadd reg max_ttl c now world 0 deps
      \<lparr>es_ledger = led, es_emitted = [], es_sequence = 0\<rparr> = (es, st)"
    and "length (es_emitted st) \<le> 4096"
  shows "distinct (map ev_event_id (es_emitted st)) \<and>
     (\<forall>e\<in>set (es_emitted st). ev_producer e = engine_producer \<and> ev_computation_id e = Some c \<and>
        ev_kind e \<in> {ProbeChecked, Diagnostic})"
proof -
  have ok: "emitted_ok c now st"
    using emitted_ok_edges[OF emitted_ok_start, of c now tadd reg max_ttl world 0 deps led] assms(1) by simp
  then show ?thesis
    using emitted_ids_distinct[OF ok assms(2)] by (auto simp: emitted_ok_def in_set_conv_nth)
qed

theorem edge_events_identified_witness:
  "\<exists>es st. evaluate_edges exact_add (two_https 0) 0 ''c'' 0 (\<lambda>_. ()) 0 [https_dep]
      \<lparr>es_ledger = ledger_new, es_emitted = [], es_sequence = 0\<rparr> = (es, st) \<and>
     length (es_emitted st) = 1 \<and> distinct (map ev_event_id (es_emitted st))"
proof -
  let ?st = "\<lparr>es_ledger = ledger_new, es_emitted = [], es_sequence = 0\<rparr>"
  let ?sel = "\<lparr>sel_identity = ''https@*.b.c#5'', sel_probe = silent_probe ''https'' (Some ''*.b.c'') 5\<rparr>"
  obtain es st where run: "evaluate_edges exact_add (two_https 0) 0 ''c'' 0 (\<lambda>_. ()) 0 [https_dep] ?st = (es, st)"
    by force
  then have "length (es_emitted st) = 1"
    using two_https_selects by (auto simp: evaluate_edge_def https_dep_def volatile_dep_def removed_probe_def
        last_probe_for_def ledger_new_def dispatch_def Let_def silent_probe_def fold_result_def
        note_transition_def probe_checked_def emit_event_def)
  then show ?thesis
    using edge_events_identified[OF run] run by auto
qed

subsection \<open>Replaying the emitted events\<close>

fun result_fingerprint :: "probe_result \<Rightarrow> fingerprint option" where
  "result_fingerprint (ProbeMatch ofp _) = Some ofp"
| "result_fingerprint (ProbeDrift ofp _) = Some ofp"
| "result_fingerprint (ProbeUndecided _ _) = None"

lemma probe_checked_for_payload:
  "\<exists>e. es_emitted (probe_checked_for c now dep result st) = es_emitted st @ [e] \<and>
     ev_kind e = ProbeChecked \<and> ev_ts e = now \<and>
     ev_event_id e = engine_event_id now (es_sequence st) \<and>
     str_at (ev_payload e) ''scheme'' = Some (dep_scheme dep) \<and>
     str_at (ev_payload e) ''key'' = Some (dep_key dep) \<and>
     str_at (ev_payload e) ''trust_class'' = Some (trust_wire (dep_trust_class dep)) \<and>
     str_at (ev_payload e) ''observed_fingerprint'' =
       map_option fingerprint_display (result_fingerprint result) \<and>
     u64_at (ev_payload e) ''ttl_seconds'' = dep_ttl_seconds dep"
  by (cases result; cases "dep_ttl_seconds dep")
     (simp_all add: probe_checked_def emit_event_def str_at_def u64_at_def json_get_obj opt_field_def)

text \<open>The event the engine emits for a dispatched probe, read back by the store's projection,
  becomes an edge with the recorded key, scheme, trust class and TTL and the fingerprint the
  probe observed; when the probe could not decide, it becomes an excluded observation that
  counts as an unproven dependency.\<close>

theorem emitted_probe_check_replays:
  assumes "is_consistent dep" and "dep_id dep = dep_key dep"
    and "\<And>ofp. result_fingerprint result = Some ofp \<Longrightarrow> fingerprint_wf ofp"
  shows "classify_probe (last (es_emitted (probe_checked_for c now dep result st))) =
     (case result_fingerprint result of
        Some ofp \<Rightarrow> EdgeOf (dep\<lparr>dep_fingerprint := ofp, dep_observed_at := now, dep_produced_by := None\<rparr>)
      | None \<Rightarrow> ExcludedOf \<lparr>xe_event_id = engine_event_id now (es_sequence st), xe_kind = ProbeChecked,
          xe_key = Some (dep_key dep), xe_scheme = Some (dep_scheme dep), xe_reason = NoFingerprint\<rparr>)"
proof -
  obtain e where e: "es_emitted (probe_checked_for c now dep result st) = es_emitted st @ [e]"
      "ev_kind e = ProbeChecked" "ev_ts e = now" "ev_event_id e = engine_event_id now (es_sequence st)"
      "str_at (ev_payload e) ''scheme'' = Some (dep_scheme dep)"
      "str_at (ev_payload e) ''key'' = Some (dep_key dep)"
      "str_at (ev_payload e) ''trust_class'' = Some (trust_wire (dep_trust_class dep))"
      "str_at (ev_payload e) ''observed_fingerprint'' =
         map_option fingerprint_display (result_fingerprint result)"
      "u64_at (ev_payload e) ''ttl_seconds'' = dep_ttl_seconds dep"
    using probe_checked_for_payload by blast
  have key: "from_scheme_key (dep_scheme dep) (dep_key dep) = dep_key dep"
    using assms(2) by (simp add: dep_id_def)
  have tc: "parse_trust_class (Some (trust_wire (dep_trust_class dep))) = Some (dep_trust_class dep)"
    by (simp add: parse_trust_class_Some)
  show ?thesis
  proof (cases "result_fingerprint result")
    case None
    then show ?thesis by (simp add: classify_probe_def e key tc Let_def)
  next
    case (Some ofp)
    then have "fingerprint_parse (fingerprint_display ofp) = Inr ofp"
      using assms(3) fingerprint_parse_display by blast
    moreover have "dep\<lparr>dep_fingerprint := ofp, dep_observed_at := now, dep_produced_by := None\<rparr> =
        \<lparr>dep_key = dep_key dep, dep_scheme = dep_scheme dep, dep_trust_class = dep_trust_class dep,
         dep_fingerprint = ofp, dep_observed_at = now, dep_produced_by = None,
         dep_ttl_seconds = dep_ttl_seconds dep\<rparr>"
      by (cases dep) simp
    ultimately show ?thesis
      using Some assms(1)
      by (simp add: classify_probe_def e key tc Let_def observed_at_def is_consistent_def)
  qed
qed

theorem emitted_probe_check_replays_witness:
  "\<exists>x. classify_probe (last (es_emitted (probe_checked_for ''c'' 7 https_dep
        (ProbeUndecided ''http-status=500'' True)
        \<lparr>es_ledger = ledger_new, es_emitted = [], es_sequence = 0\<rparr>))) = ExcludedOf x \<and>
     is_unproven_dependency (xe_reason x)"
  by (subst emitted_probe_check_replays)
     (simp_all add: https_dep_def volatile_dep_def is_consistent_def dep_id_def from_scheme_key_def
        starts_with_def)

subsection \<open>Probe-supplied details\<close>

lemma boundary_below_le: "boundary_below s n \<le> n"
  by (induction n) auto

lemma boundary_below_boundary: "is_char_boundary s (boundary_below s n)"
  by (induction n) (auto simp: is_char_boundary_def)

lemma sanitize_detail_spec:
  "\<exists>r. s = sanitize_detail s @ r \<and> length (sanitize_detail s) \<le> max_detail_bytes \<and>
     is_char_boundary s (length (sanitize_detail s)) \<and> (length s \<le> max_detail_bytes \<longrightarrow> r = [])"
proof (cases "length s \<le> max_detail_bytes")
  case True
  then show ?thesis by (simp add: sanitize_detail_def is_char_boundary_def)
next
  case False
  then have "boundary_below s max_detail_bytes \<le> length s"
    using boundary_below_le[of s max_detail_bytes] by simp
  with False show ?thesis
    using boundary_below_le[of s max_detail_bytes] boundary_below_boundary[of s max_detail_bytes]
    by (intro exI[of _ "drop (boundary_below s max_detail_bytes) s"]) (simp add: sanitize_detail_def min_def)
qed

end
