(* ===== verification/Engine_Doubles.thy ===== *)
theory Engine_Doubles
  imports Edge_Facts
begin

section \<open>The engine's test doubles\<close>

text \<open>
  \<open>crates/freshdag-engine/src/clock.rs\<close> and \<open>scripted.rs\<close>. A frozen clock is the instant
  behind its lock, \<open>None\<close> once a panic while the lock was held has poisoned it; an operation
  returns \<open>None\<close> where the code panics. A scripted probe is a fixed scheme, host pattern and
  priority, and tables behind locks, which a test rewrites between checks: to the engine they are
  the outside world. No operation panics while it holds one of these locks.
\<close>

subsection \<open>The frozen clock\<close>

type_synonym frozen_clock = "instant option"

definition frozen_clock_new :: "instant \<Rightarrow> frozen_clock" where
  "frozen_clock_new at = Some at"

definition frozen_clock_set :: "instant \<Rightarrow> frozen_clock \<Rightarrow> unit option \<times> frozen_clock" where
  "frozen_clock_set at c = (case c of None \<Rightarrow> (None, None) | Some _ \<Rightarrow> (Some (), Some at))"

definition frozen_clock_advance ::
  "(instant \<Rightarrow> int \<Rightarrow> instant option) \<Rightarrow> int \<Rightarrow> frozen_clock \<Rightarrow> unit option \<times> frozen_clock" where
  \<comment> \<open>\<open>+=\<close> panics, with the lock held, when the instant leaves the range of the \<open>time\<close> crate\<close>
  "frozen_clock_advance tadd delta c =
     (case Option.bind c (\<lambda>at. tadd at delta) of
        None \<Rightarrow> (None, None)
      | Some at \<Rightarrow> (Some (), Some at))"

definition frozen_clock_now :: "frozen_clock \<Rightarrow> instant option" where
  "frozen_clock_now c = c"

definition advance_all ::
  "(instant \<Rightarrow> int \<Rightarrow> instant option) \<Rightarrow> int list \<Rightarrow> frozen_clock \<Rightarrow> frozen_clock" where
  "advance_all tadd deltas c = fold (\<lambda>delta c. snd (frozen_clock_advance tadd delta c)) deltas c"

lemma advance_simps [simp]:
  "frozen_clock_advance tadd delta None = (None, None)"
  "snd (frozen_clock_advance tadd delta (Some at)) = tadd at delta"
  by (simp_all add: frozen_clock_advance_def split: option.splits)

lemma advance_poisoned [simp]: "advance_all tadd deltas None = None"
  by (induction deltas) (simp_all add: advance_all_def)

lemma advance_all_Cons:
  "advance_all tadd (delta # deltas) (Some at) = advance_all tadd deltas (tadd at delta)"
  by (simp add: advance_all_def)

lemma clock_reads_sum:
  assumes "\<And>at delta at'. tadd at delta = Some at' \<Longrightarrow> at' = at + delta"
    and "frozen_clock_now (advance_all tadd deltas (frozen_clock_new at)) = Some at'"
  shows "at' = at + sum_list deltas"
proof -
  have "advance_all tadd deltas (Some at) = Some at' \<Longrightarrow> at' = at + sum_list deltas"
  proof (induction deltas arbitrary: at)
    case (Cons delta deltas)
    then obtain mid where mid: "tadd at delta = Some mid" "advance_all tadd deltas (Some mid) = Some at'"
      by (cases "tadd at delta") (simp_all add: advance_all_Cons)
    from Cons.IH[OF mid(2)] assms(1)[OF mid(1)] show ?case by simp
  qed (simp add: advance_all_def)
  then show ?thesis using assms(2) by (simp add: frozen_clock_now_def frozen_clock_new_def)
qed

text \<open>A frozen clock stands still and never recovers: reading does not move it, and once advancing
  it has overflowed, each later operation panics.\<close>

lemma overflow_is_final:
  assumes "tadd at delta = None"
  shows "frozen_clock_now (advance_all tadd deltas (snd (frozen_clock_advance tadd delta (Some at)))) = None \<and>
    fst (frozen_clock_set t (snd (frozen_clock_advance tadd delta (Some at)))) = None"
  using assms by (simp add: frozen_clock_now_def frozen_clock_set_def)

subsection \<open>The scripted probe\<close>

record scripted_tables =
  sp_results :: "(string, probe_result) bmap"
  sp_fallback :: "probe_result option"

record scripted_probe =
  sp_scheme :: string
  sp_host_pattern :: "string option"
  sp_priority :: u32
  sp_tables :: scripted_tables

definition scripted_probe_new :: "string \<Rightarrow> scripted_probe" where
  "scripted_probe_new scheme =
     \<lparr>sp_scheme = scheme, sp_host_pattern = None, sp_priority = 0, sp_tables = \<lparr>sp_results = [], sp_fallback = None\<rparr>\<rparr>"

definition with_priority :: "u32 \<Rightarrow> scripted_probe \<Rightarrow> scripted_probe" where
  "with_priority priority p = p\<lparr>sp_priority := priority\<rparr>"

definition with_host_pattern :: "string \<Rightarrow> scripted_probe \<Rightarrow> scripted_probe" where
  "with_host_pattern pattern p = p\<lparr>sp_host_pattern := Some pattern\<rparr>"

definition script_set :: "string \<Rightarrow> probe_result \<Rightarrow> scripted_tables \<Rightarrow> scripted_tables" where
  "script_set key result t = t\<lparr>sp_results := bm_put key result (sp_results t)\<rparr>"

definition with_result :: "string \<Rightarrow> probe_result \<Rightarrow> scripted_probe \<Rightarrow> scripted_probe" where
  "with_result key result p = p\<lparr>sp_tables := script_set key result (sp_tables p)\<rparr>"

definition with_fallback :: "probe_result \<Rightarrow> scripted_probe \<Rightarrow> scripted_probe" where
  "with_fallback result p = p\<lparr>sp_tables := (sp_tables p)\<lparr>sp_fallback := Some result\<rparr>\<rparr>"

definition scripted_check :: "scripted_tables \<Rightarrow> string \<Rightarrow> fingerprint \<Rightarrow> u64 option \<Rightarrow> probe_result" where
  "scripted_check t key recorded ttl =
     (case map_of (sp_results t) key of
        Some result \<Rightarrow> result
      | None \<Rightarrow> (case sp_fallback t of
            Some result \<Rightarrow> result
          | None \<Rightarrow> ProbeUndecided ''no-scripted-result'' False))"

definition scripted_probe_of :: "scripted_probe \<Rightarrow> scripted_tables probe" where
  "scripted_probe_of p = \<lparr>p_scheme = sp_scheme p, p_host_pattern = sp_host_pattern p, p_priority = sp_priority p,
     p_check = scripted_check\<rparr>"

lemma check_after_set [simp]:
  "scripted_check (script_set key result t) k fp ttl = (if k = key then result else scripted_check t k fp ttl)"
  by (auto simp: scripted_check_def script_set_def split: option.splits)

lemma unscripted_undecided:
  assumes "map_of (sp_results t) key = None" and "sp_fallback t = None"
  shows "scripted_check t key fp ttl = ProbeUndecided ''no-scripted-result'' False"
  using assms by (simp add: scripted_check_def)

text \<open>A scripted probe fabricates nothing: an edge of a dependency that no script and no fallback
  answers for is never plainly fresh, whatever the dependency records and the ledger holds.\<close>

lemma unscripted_edge_not_fresh:
  assumes "map_of (sp_results t) (dep_key dep) = None" and "sp_fallback t = None"
    and "select_probe reg (dep_scheme dep) (dep_key dep) = Inr sel" and "sel_probe sel = scripted_probe_of p"
  shows "to_status (eo_verdict (fst (evaluate_edge tadd reg max_ttl c now t dep st))) \<noteq> Valid"
proof
  assume "to_status (eo_verdict (fst (evaluate_edge tadd reg max_ttl c now t dep st))) = Valid"
  then obtain ofp tc where "p_check (sel_probe sel) t (dep_key dep) (dep_fingerprint dep) (dep_ttl_seconds dep) =
      ProbeMatch ofp tc"
    using assms(3) unfolding fresh_edge by auto
  then show False
    using unscripted_undecided[OF assms(1,2)] by (simp add: assms(4) scripted_probe_of_def)
qed

end
