(* ===== verification/File_Probe.thy ===== *)
theory File_Probe
  imports Validity
begin

section \<open>The file probe (\<open>crates/freshdag-probes/src/file.rs\<close>)\<close>

text \<open>
  The file system is a parameter: \<open>open\<close> of a path fails or gives the results of successive
  reads, each an I/O error or a block of bytes (the empty block is the end of the file). The
  digest of BLAKE3 is the parameter \<open>hex\<close>, applied to the concatenation of what was hashed.
\<close>

datatype io_kind = Interrupted | TimedOut | OtherKind

record io_error =
  io_kind_of :: io_kind
  io_text :: string

type_synonym file_system = "string \<Rightarrow> io_error + (io_error + string) list"

definition file_resolve :: "string \<Rightarrow> string \<Rightarrow> string" where
  "file_resolve base key =
     (let p = (case strip_prefix ''file://'' key of Some r \<Rightarrow> r | None \<Rightarrow> key)
      in if path_is_absolute p then p else path_join base p)"

fun hash_reads :: "(string \<Rightarrow> string) \<Rightarrow> string \<Rightarrow> (io_error + string) list \<Rightarrow> io_error + hash" where
  "hash_reads hex fed [] = Inr \<lparr>algo = Blake3, digest_hex = hex fed\<rparr>"
| "hash_reads hex fed (Inl e # rest) = Inl e"
| "hash_reads hex fed (Inr block # rest) =
     (if block = [] then Inr \<lparr>algo = Blake3, digest_hex = hex fed\<rparr>
      else hash_reads hex (fed @ block) rest)"

definition hash_file :: "(string \<Rightarrow> string) \<Rightarrow> file_system \<Rightarrow> string \<Rightarrow> io_error + hash" where
  "hash_file hex fs path = res_bind (fs path) (hash_reads hex [])"

fun fingerprint_kind_debug :: "fingerprint_kind \<Rightarrow> string" where
  "fingerprint_kind_debug ContentHash = ''ContentHash''"
| "fingerprint_kind_debug Version = ''Version''"
| "fingerprint_kind_debug Etag = ''Etag''"
| "fingerprint_kind_debug Mtime = ''Mtime''"
| "fingerprint_kind_debug Custom = ''Custom''"

definition file_check ::
  "(string \<Rightarrow> string) \<Rightarrow> string \<Rightarrow> file_system \<Rightarrow> string \<Rightarrow> fingerprint \<Rightarrow> u64 option \<Rightarrow> probe_result" where
  "file_check hex base fs key fp ttl =
     (if fp_kind fp \<noteq> ContentHash
      then ProbeUndecided (''file:// probe cannot verify fingerprint kind '' @
             fingerprint_kind_debug (fp_kind fp)) False
      else let path = file_resolve base key in
        case hash_file hex fs path of
          Inl err \<Rightarrow> ProbeUndecided (''could not read '' @ path @ '': '' @ io_text err)
            (io_kind_of err \<in> {Interrupted, TimedOut})
        | Inr observed \<Rightarrow>
            (case hash_parse (fp_payload fp) of
               Inl err \<Rightarrow> ProbeUndecided
                 (''recorded fingerprint is malformed: '' @ hash_parse_error_display err) False
             | Inr recorded \<Rightarrow>
                 (let ofp = \<lparr>fp_kind = ContentHash, fp_payload = hash_display observed\<rparr>
                  in if observed = recorded then ProbeMatch ofp Exact else ProbeDrift ofp Exact)))"

subsection \<open>Properties\<close>

fun file_bytes :: "(io_error + string) list \<Rightarrow> string option" where
  \<comment> \<open>the contents of a file that can be read to its end\<close>
  "file_bytes [] = Some []"
| "file_bytes (Inl e # rest) = None"
| "file_bytes (Inr block # rest) =
     (if block = [] then Some [] else map_option ((@) block) (file_bytes rest))"

definition contents :: "file_system \<Rightarrow> string \<Rightarrow> string option" where
  "contents fs path = (case fs path of Inl _ \<Rightarrow> None | Inr reads \<Rightarrow> file_bytes reads)"

lemma hash_reads_eq:
  "hash_reads hex fed reads = Inr h \<longleftrightarrow>
     (\<exists>b. file_bytes reads = Some b \<and> h = \<lparr>algo = Blake3, digest_hex = hex (fed @ b)\<rparr>)"
  by (induction hex fed reads rule: hash_reads.induct) auto

lemma hash_file_eq:
  "hash_file hex fs path = Inr h \<longleftrightarrow>
     (\<exists>b. contents fs path = Some b \<and> h = \<lparr>algo = Blake3, digest_hex = hex b\<rparr>)"
  by (cases "fs path") (simp_all add: hash_file_def contents_def hash_reads_eq)

lemma hash_file_error:
  "(\<exists>e. hash_file hex fs path = Inl e) \<longleftrightarrow> contents fs path = None"
proof (cases "hash_file hex fs path")
  case (Inl e)
  with hash_file_eq[of hex fs path] show ?thesis by (cases "contents fs path") auto
next
  case (Inr h)
  with hash_file_eq[of hex fs path] show ?thesis by auto
qed

lemma file_match:
  "file_check hex base fs key fp ttl = ProbeMatch ofp tc \<longleftrightarrow>
     tc = Exact \<and> ofp = fp \<and> fp_kind fp = ContentHash \<and>
     (\<exists>b. contents fs (file_resolve base key) = Some b \<and>
        hash_wf \<lparr>algo = Blake3, digest_hex = hex b\<rparr> \<and> fp_payload fp = ''blake3:'' @ hex b)"
proof (cases "fp_kind fp = ContentHash")
  case kind: True
  show ?thesis
  proof (cases "hash_file hex fs (file_resolve base key)")
    case (Inl e)
    moreover from this have "contents fs (file_resolve base key) = None"
      using hash_file_error by blast
    ultimately show ?thesis
      by (simp add: file_check_def kind Let_def)
  next
    case (Inr h)
    then obtain b where b: "contents fs (file_resolve base key) = Some b"
        "h = \<lparr>algo = Blake3, digest_hex = hex b\<rparr>"
      by (auto simp: hash_file_eq)
    have "hash_parse (fp_payload fp) = Inr h \<longleftrightarrow> fp_payload fp = ''blake3:'' @ hex b \<and> hash_wf h"
      by (simp add: hash_parse_Inr b hash_display_def)
    with b kind Inr show ?thesis
      by (cases "hash_parse (fp_payload fp)"; cases fp)
        (auto simp: file_check_def Let_def hash_display_def)
  qed
qed (simp add: file_check_def)

text \<open>The file probe reports a match exactly when the recorded fingerprint is a content hash, the
  file can be read to its end, and the recorded text is the printed BLAKE3 digest of its bytes; a
  missing or unreadable file is never a match nor a drift.\<close>

theorem file_match_iff:
  "file_check hex base fs key fp ttl = ProbeMatch ofp tc \<longleftrightarrow>
     tc = Exact \<and> ofp = fp \<and> fp_kind fp = ContentHash \<and>
     (\<exists>b. contents fs (file_resolve base key) = Some b \<and>
        hash_wf \<lparr>algo = Blake3, digest_hex = hex b\<rparr> \<and> fp_payload fp = ''blake3:'' @ hex b)"
  by (rule file_match)

text \<open>A file recorded under a SHA-256 content hash is reported as drifted whenever it can be read,
  changed or not: the probe hashes with BLAKE3 only and compares the algorithms too.\<close>

theorem sha256_file_always_drifts:
  assumes "hash_parse (fp_payload fp) = Inr h" and "algo h = Sha256" and "fp_kind fp = ContentHash"
    and "contents fs (file_resolve base key) = Some b"
  shows "file_check hex base fs key fp ttl =
    ProbeDrift \<lparr>fp_kind = ContentHash, fp_payload = ''blake3:'' @ hex b\<rparr> Exact"
proof -
  have "hash_file hex fs (file_resolve base key) = Inr \<lparr>algo = Blake3, digest_hex = hex b\<rparr>"
    using assms(4) by (simp add: hash_file_eq)
  then show ?thesis
    using assms(1-3) by (auto simp: file_check_def Let_def hash_display_def)
qed

definition sample_fs :: file_system where
  "sample_fs p = (if p = ''/a'' then Inr [Inr ''x''] else Inl \<lparr>io_kind_of = OtherKind, io_text = ''no''\<rparr>)"

theorem sha256_file_always_drifts_witness:
  "file_check (\<lambda>s. s) [] sample_fs ''file:///a''
     \<lparr>fp_kind = ContentHash, fp_payload = ''sha256:'' @ replicate 64 CHR ''0''\<rparr> None =
   ProbeDrift \<lparr>fp_kind = ContentHash, fp_payload = ''blake3:x''\<rparr> Exact"
proof -
  have "contents sample_fs (file_resolve [] ''file:///a'') = Some ''x''" by code_simp
  moreover have "hash_parse (''sha256:'' @ replicate 64 CHR ''0'') =
      Inr \<lparr>algo = Sha256, digest_hex = replicate 64 CHR ''0''\<rparr>"
    by code_simp
  ultimately show ?thesis
    using sha256_file_always_drifts[where fp = "\<lparr>fp_kind = ContentHash,
        fp_payload = ''sha256:'' @ replicate 64 CHR ''0''\<rparr>" and hex = "\<lambda>s. s" and b = "''x''" and base = "[]"]
    by simp
qed

end
