(* ===== verification/Text.thy ===== *)
theory Text
  imports Prelude
begin

section \<open>Trimming and number parsing as in Rust's standard library\<close>

text \<open>
  \<open>str::trim\<close> removes the characters with the Unicode property \<open>White_Space\<close>; on byte strings
  these are the UTF-8 encodings listed in \<open>white_space\<close>. \<open>parse::<u64>\<close> accepts an optional plus
  sign and decimal digits, and fails on overflow.
\<close>

definition white_space :: "string list" where
  "white_space =
     [[CHR 0x09], [CHR 0x0A], [CHR 0x0B], [CHR 0x0C], [CHR 0x0D], [CHR 0x20],
      [CHR 0xC2, CHR 0x85], [CHR 0xC2, CHR 0xA0], [CHR 0xE1, CHR 0x9A, CHR 0x80]] @
     map (\<lambda>b. [CHR 0xE2, CHR 0x80, b])
       [CHR 0x80, CHR 0x81, CHR 0x82, CHR 0x83, CHR 0x84, CHR 0x85, CHR 0x86, CHR 0x87, CHR 0x88,
        CHR 0x89, CHR 0x8A, CHR 0xA8, CHR 0xA9, CHR 0xAF] @
     [[CHR 0xE2, CHR 0x81, CHR 0x9F], [CHR 0xE3, CHR 0x80, CHR 0x80]]"

fun strip_any :: "string list \<Rightarrow> string \<Rightarrow> string option" where
  \<comment> \<open>the rest after the first non-empty listed prefix that fits\<close>
  "strip_any [] s = None"
| "strip_any (p # ps) s =
     (case strip_prefix p s of
        Some r \<Rightarrow> if p = [] then strip_any ps s else Some r
      | None \<Rightarrow> strip_any ps s)"

lemma strip_any_Some: "strip_any ps s = Some r \<Longrightarrow> \<exists>p\<in>set ps. p \<noteq> [] \<and> s = p @ r"
  by (induction ps) (auto simp: strip_prefix_Some_iff split: option.splits if_splits)

lemma strip_any_None: "strip_any ps s = None \<longleftrightarrow> (\<forall>p\<in>set ps. p \<noteq> [] \<longrightarrow> strip_prefix p s = None)"
  by (induction ps) (auto split: option.splits)

function trim_front :: "string list \<Rightarrow> string \<Rightarrow> string" where
  "trim_front ws s = (case strip_any ws s of None \<Rightarrow> s | Some r \<Rightarrow> trim_front ws r)"
  by pat_completeness auto
termination
  by (relation "measure (length \<circ> snd)") (auto dest!: strip_any_Some)

declare trim_front.simps [simp del]

definition trim :: "string \<Rightarrow> string" where
  "trim s = rev (trim_front (map rev white_space) (rev (trim_front white_space s)))"

lemma trim_front_id: "strip_any ws s = None \<Longrightarrow> trim_front ws s = s"
  by (simp add: trim_front.simps)

lemma trim_front_suffix: "\<exists>a. s = a @ trim_front ws s"
proof (induction ws s rule: trim_front.induct)
  case (1 ws s)
  show ?case
  proof (cases "strip_any ws s")
    case (Some r)
    with 1 obtain a where a: "r = a @ trim_front ws r" by blast
    from strip_any_Some[OF Some] obtain p where "s = p @ r" by blast
    with a have "s = (p @ a) @ trim_front ws r" by simp
    moreover have "trim_front ws s = trim_front ws r"
      by (subst trim_front.simps) (simp add: Some)
    ultimately show ?thesis by metis
  qed (simp add: trim_front_id)
qed

lemma trim_infix: "\<exists>a b. s = a @ trim s @ b"
proof -
  obtain a where a: "s = a @ trim_front white_space s"
    using trim_front_suffix by blast
  let ?t = "trim_front white_space s"
  obtain b where "rev ?t = b @ trim_front (map rev white_space) (rev ?t)"
    using trim_front_suffix by blast
  then have "?t = trim s @ rev b"
    unfolding trim_def by (metis rev_append rev_rev_ident)
  with a show ?thesis by metis
qed

lemma length_trim: "length (trim s) \<le> length s"
  using trim_infix[of s] by (metis le_add1 le_add2 le_trans length_append)

definition plain_end :: "char \<Rightarrow> bool" where
  \<comment> \<open>a byte no white-space character begins or ends with\<close>
  "plain_end c \<longleftrightarrow> c \<notin> hd ` set white_space \<and> c \<notin> last ` set white_space"

lemma white_space_nonempty: "[] \<notin> set white_space"
  by (simp add: white_space_def)

lemma strip_prefix_hd: "p \<noteq> [] \<Longrightarrow> s \<noteq> [] \<Longrightarrow> hd p \<noteq> hd s \<Longrightarrow> strip_prefix p s = None"
  by (cases p; cases s) auto

lemma trim_id:
  assumes "s \<noteq> []" "plain_end (hd s)" "plain_end (last s)"
  shows "trim s = s"
proof -
  have "strip_prefix p s = None" if p: "p \<in> set white_space" for p
  proof (rule strip_prefix_hd)
    show "p \<noteq> []" using p white_space_nonempty by blast
    show "hd p \<noteq> hd s" using p assms(2) unfolding plain_end_def by (metis imageI)
  qed (rule assms(1))
  then have "strip_any white_space s = None"
    by (simp add: strip_any_None)
  moreover have "strip_prefix (rev p) (rev s) = None" if p: "p \<in> set white_space" for p
  proof (rule strip_prefix_hd)
    have ne: "p \<noteq> []" using p white_space_nonempty by blast
    then show "rev p \<noteq> []" by simp
    show "hd (rev p) \<noteq> hd (rev s)"
      using p assms(3) ne assms(1) unfolding plain_end_def by (simp add: hd_rev) (metis imageI)
    show "rev s \<noteq> []" using assms(1) by simp
  qed
  then have "strip_any (map rev white_space) (rev s) = None"
    by (auto simp: strip_any_None)
  ultimately show ?thesis
    by (simp add: trim_def trim_front_id)
qed

lemma trim_Nil [simp]: "trim [] = []"
  by code_simp

definition trim_quotes :: "string \<Rightarrow> string" where
  \<comment> \<open>\<open>trim_matches('"')\<close>\<close>
  "trim_quotes s = rev (dropWhile ((=) CHR 0x22) (rev (dropWhile ((=) CHR 0x22) s)))"

definition parse_u64 :: "string \<Rightarrow> u64 option" where
  "parse_u64 s =
     (let ds = (if starts_with ''+'' s then tl s else s) in
      if ds = [] \<or> \<not> list_all is_digit_char ds then None
      else let n = digits_val (rev ds) in if n < 2 ^ 64 then Some (word_of_nat n) else None)"

lemma parse_u64_show_nat: "n < 2 ^ 64 \<Longrightarrow> parse_u64 (show_nat n) = Some (word_of_nat n)"
proof -
  assume n: "n < 2 ^ 64"
  have "\<not> starts_with ''+'' (show_nat n)"
  proof
    assume "starts_with ''+'' (show_nat n)"
    then have "CHR ''+'' \<in> set (show_nat n)" by (auto simp: starts_with_iff)
    then show False using show_nat_no_char[of "CHR ''+''" n] by (simp add: is_digit_char_def)
  qed
  then show ?thesis
    using n show_nat_digits[of n] by (simp add: parse_u64_def Let_def list_all_iff digits_val_show_nat)
qed

end
