(* ===== verification/Http.thy ===== *)
theory Http
  imports Text Fingerprints
begin

section \<open>HTTP header fields and entity tags (\<open>crates/freshdag-probes/src/https/\<close>)\<close>

text \<open>
  \<open>headers.rs\<close>, \<open>etag.rs\<close> and the transport types of \<open>transport.rs\<close>. A \<open>Headers\<close> value is the
  list of its fields, in wire order and with duplicates. A response body is the list of what
  successive reads return (\<open>None\<close> for an I/O error); the stream ends at its end or at the first
  empty read.
\<close>

subsection \<open>Headers\<close>

type_synonym headers = "(string \<times> string) list"

definition headers_push :: "string \<Rightarrow> string \<Rightarrow> headers \<Rightarrow> headers" where
  "headers_push name val h = h @ [(name, val)]"

definition headers_get_all :: "string \<Rightarrow> headers \<Rightarrow> string list" where
  "headers_get_all name h =
     filter (\<lambda>v. v \<noteq> []) (map (trim \<circ> snd) (filter (\<lambda>(k, _). eq_ignore_ascii_case k name) h))"

definition headers_get :: "string \<Rightarrow> headers \<Rightarrow> string option" where
  "headers_get name h = (case headers_get_all name h of [] \<Rightarrow> None | v # _ \<Rightarrow> Some v)"

subsection \<open>Cache-Control\<close>

record cache_control =
  cc_no_store :: bool
  cc_must_revalidate :: bool
  cc_no_cache :: bool
  cc_immutable :: bool
  cc_max_age :: "u64 option"

definition cache_control_default :: cache_control where
  "cache_control_default =
     \<lparr>cc_no_store = False, cc_must_revalidate = False, cc_no_cache = False, cc_immutable = False,
      cc_max_age = None\<rparr>"

definition cc_directive :: "string \<Rightarrow> cache_control \<Rightarrow> cache_control" where
  \<comment> \<open>one pass of the inner loop\<close>
  "cc_directive raw out =
     (let directive = trim raw;
          (name, arg) = (case split_once ''='' directive of
              Some (n, a) \<Rightarrow> (trim n, Some (trim_quotes (trim a)))
            | None \<Rightarrow> (directive, None))
      in if eq_ignore_ascii_case name ''no-store'' then out\<lparr>cc_no_store := True\<rparr>
         else if eq_ignore_ascii_case name ''must-revalidate'' \<or>
                 eq_ignore_ascii_case name ''proxy-revalidate''
         then out\<lparr>cc_must_revalidate := True\<rparr>
         else if eq_ignore_ascii_case name ''no-cache'' then out\<lparr>cc_no_cache := True\<rparr>
         else if eq_ignore_ascii_case name ''immutable'' then out\<lparr>cc_immutable := True\<rparr>
         else if eq_ignore_ascii_case name ''max-age''
         then out\<lparr>cc_max_age := Option.bind arg parse_u64\<rparr>
         else out)"

definition cache_control_parse :: "headers \<Rightarrow> cache_control" where
  "cache_control_parse h =
     fold cc_directive (concat (map (split_on CHR '','') (headers_get_all ''Cache-Control'' h)))
       cache_control_default"

definition forbids_caching :: "cache_control \<Rightarrow> bool" where
  "forbids_caching cc \<longleftrightarrow> cc_no_store cc \<or> cc_must_revalidate cc"

subsection \<open>Dates and Retry-After\<close>

definition imf_days :: "string list" where
  "imf_days = [''Mon'', ''Tue'', ''Wed'', ''Thu'', ''Fri'', ''Sat'', ''Sun'']"

definition imf_months :: "string list" where
  "imf_months = [''Jan'', ''Feb'', ''Mar'', ''Apr'', ''May'', ''Jun'', ''Jul'', ''Aug'', ''Sep'',
     ''Oct'', ''Nov'', ''Dec'']"

definition slice :: "nat \<Rightarrow> nat \<Rightarrow> string \<Rightarrow> string" where
  \<comment> \<open>\<open>&s[a..b]\<close>, used on ASCII strings long enough only\<close>
  "slice a b s = take (b - a) (drop a s)"

definition is_ascii :: "string \<Rightarrow> bool" where
  "is_ascii s \<longleftrightarrow> list_all (\<lambda>c. of_char c < (128 :: nat)) s"

definition is_imf_fixdate :: "string \<Rightarrow> bool" where
  "is_imf_fixdate v \<longleftrightarrow>
     length v = 29 \<and> is_ascii v \<and>
     slice 0 3 v \<in> set imf_days \<and> slice 3 5 v = '', '' \<and>
     list_all is_digit_char (slice 5 7 v) \<and>
     v ! 7 = CHR '' '' \<and> v ! 11 = CHR '' '' \<and>
     slice 8 11 v \<in> set imf_months \<and>
     list_all is_digit_char (slice 12 16 v) \<and> v ! 16 = CHR '' '' \<and>
     (let time = slice 17 25 v in
       list_all is_digit_char (slice 0 2 time) \<and> list_all is_digit_char (slice 3 5 time) \<and>
       list_all is_digit_char (slice 6 8 time) \<and> time ! 2 = CHR '':'' \<and> time ! 5 = CHR '':'') \<and>
     slice 25 29 v = '' GMT''"

datatype retry_after = RetrySeconds u64 | RetryHttpDate string

definition retry_after_parse :: "headers \<Rightarrow> retry_after option" where
  "retry_after_parse h =
     Option.bind (headers_get ''Retry-After'' h) (\<lambda>raw.
       case parse_u64 raw of
         Some secs \<Rightarrow> Some (RetrySeconds secs)
       | None \<Rightarrow> if is_imf_fixdate raw then Some (RetryHttpDate raw) else None)"

subsection \<open>Entity tags\<close>

record etag =
  et_weak :: bool
  et_quoted :: string

definition etag_wire :: "etag \<Rightarrow> string" where
  "etag_wire e = (if et_weak e then ''W/'' @ et_quoted e else et_quoted e)"

definition strongly_equals :: "etag \<Rightarrow> etag \<Rightarrow> bool" where
  "strongly_equals a b \<longleftrightarrow> \<not> et_weak a \<and> \<not> et_weak b \<and> et_quoted a = et_quoted b"

datatype etag_parse_error = EtagEmpty | EtagUnquoted | EtagIllegalCharacter | EtagBadWeakPrefix

fun etag_parse_error_display :: "etag_parse_error \<Rightarrow> string" where
  "etag_parse_error_display EtagEmpty = ''empty''"
| "etag_parse_error_display EtagUnquoted = ''unquoted''"
| "etag_parse_error_display EtagIllegalCharacter = ''illegal-character''"
| "etag_parse_error_display EtagBadWeakPrefix = ''bad-weak-prefix''"

abbreviation quote :: char where "quote \<equiv> CHR 0x22"

definition is_etagc :: "char \<Rightarrow> bool" where
  "is_etagc c \<longleftrightarrow> (let b = of_char c :: nat in b = 0x21 \<or> (0x23 \<le> b \<and> b \<le> 0x7E) \<or> 0x80 \<le> b)"

definition etag_split_weak :: "string \<Rightarrow> etag_parse_error + bool \<times> string" where
  \<comment> \<open>the weakness prefix\<close>
  "etag_split_weak v =
     (case strip_prefix ''W/'' v of
        Some rest \<Rightarrow> Inr (True, rest)
      | None \<Rightarrow>
          (case strip_prefix ''w/'' v of
             Some rest \<Rightarrow> Inr (True, rest)
           | None \<Rightarrow>
               (case split_once ''/'' v of
                  Some (prefix, rest) \<Rightarrow>
                    if length prefix = 1 \<and> starts_with [quote] rest then Inl EtagBadWeakPrefix
                    else Inr (False, v)
                | None \<Rightarrow> Inr (False, v))))"

definition parse_etag :: "string \<Rightarrow> etag_parse_error + etag" where
  "parse_etag raw =
     (let v = trim raw in
      if v = [] then Inl EtagEmpty
      else res_bind (etag_split_weak v) (\<lambda>(weak, opaque).
        if length opaque < 2 \<or> \<not> starts_with [quote] opaque \<or> \<not> ends_with [quote] opaque
        then Inl EtagUnquoted
        else if \<not> list_all is_etagc (slice 1 (length opaque - 1) opaque)
        then Inl EtagIllegalCharacter
        else Inr \<lparr>et_weak = weak, et_quoted = opaque\<rparr>))"

definition etag_wf :: "etag \<Rightarrow> bool" where
  \<comment> \<open>a quoted string of etag characters\<close>
  "etag_wf e \<longleftrightarrow> (\<exists>cs. et_quoted e = quote # cs @ [quote] \<and> list_all is_etagc cs)"

subsection \<open>Requests and responses\<close>

datatype http_method = HeadMethod | GetMethod

fun http_method_str :: "http_method \<Rightarrow> string" where
  "http_method_str HeadMethod = ''HEAD''"
| "http_method_str GetMethod = ''GET''"

record http_request =
  rq_url :: string
  rq_method :: http_method
  rq_headers :: headers

record http_response =
  rs_status :: u16
  rs_headers :: headers
  rs_body :: "string option list option"

datatype transport_error =
  TransportTimeout | TransportDns | TransportConnect | TransportTls | TransportBody
| TransportInvalidRequest | TransportOther

fun transport_retryable :: "transport_error \<Rightarrow> bool" where
  "transport_retryable TransportTls = False"
| "transport_retryable TransportInvalidRequest = False"
| "transport_retryable _ = True"

fun transport_reason_token :: "transport_error \<Rightarrow> string" where
  "transport_reason_token TransportTimeout = ''transport-timeout''"
| "transport_reason_token TransportDns = ''transport-dns-failed''"
| "transport_reason_token TransportConnect = ''transport-connect-failed''"
| "transport_reason_token TransportTls = ''transport-tls-failed''"
| "transport_reason_token TransportBody = ''transport-body-read-failed''"
| "transport_reason_token TransportInvalidRequest = ''transport-invalid-request''"
| "transport_reason_token TransportOther = ''transport-error''"

text \<open>
  The transport trait as the code sees it: one request, one answer, and a state of its own (the
  network, or the script of \<open>ScriptedTransport\<close>).
\<close>

type_synonym 'w transport = "'w \<Rightarrow> http_request \<Rightarrow> (transport_error + http_response) \<times> 'w"

record scripted_transport =
  sc_turns :: "(transport_error + http_response) list"
  sc_seen :: "http_request list"

definition scripted_new :: "(transport_error + http_response) list \<Rightarrow> scripted_transport" where
  "scripted_new turns = \<lparr>sc_turns = turns, sc_seen = []\<rparr>"

definition scripted_execute :: "scripted_transport transport" where
  "scripted_execute t req =
     (let t = t\<lparr>sc_seen := sc_seen t @ [req]\<rparr> in
      case sc_turns t of
        [] \<Rightarrow> (Inl TransportInvalidRequest, t)
      | turn # turns \<Rightarrow> (turn, t\<lparr>sc_turns := turns\<rparr>))"

subsection \<open>Facts about entity tags\<close>

lemma etagc_quote: "\<not> is_etagc quote"
  by (simp add: is_etagc_def)

lemma quoted_cases:
  "2 \<le> length s \<and> starts_with [quote] s \<and> ends_with [quote] s \<longleftrightarrow>
     (\<exists>cs. s = quote # cs @ [quote])"
proof
  assume *: "2 \<le> length s \<and> starts_with [quote] s \<and> ends_with [quote] s"
  then obtain r where s: "s = quote # r" by (auto simp: starts_with_iff)
  with * have "r \<noteq> []" by auto
  moreover from * s have "last r = quote"
    using \<open>r \<noteq> []\<close> by (metis ends_with_iff last_ConsR last_snoc)
  ultimately show "\<exists>cs. s = quote # cs @ [quote]"
    using s by (metis append_butlast_last_id)
qed (auto simp: starts_with_iff ends_with_iff)

lemma slice_inner: "slice 1 (length (a # cs @ [b]) - 1) (a # cs @ [b]) = cs"
  by (simp add: slice_def)

definition lone_slash :: "etag \<Rightarrow> bool" where
  \<comment> \<open>the strong tag whose opaque part is a single slash\<close>
  "lone_slash e \<longleftrightarrow> \<not> et_weak e \<and> et_quoted e = [quote, CHR ''/'', quote]"

lemma split_weak_strong:
  assumes cs: "list_all is_etagc cs" and ne: "cs \<noteq> ''/''"
  shows "etag_split_weak (quote # cs @ [quote]) = Inr (False, quote # cs @ [quote])"
proof -
  have "length a \<noteq> 1 \<or> \<not> starts_with [quote] b"
    if s: "split_once ''/'' (quote # cs @ [quote]) = Some (a, b)" for a b
  proof (rule ccontr)
    assume *: "\<not> (length a \<noteq> 1 \<or> \<not> starts_with [quote] b)"
    then obtain x r where "a = [x]" "b = quote # r"
      by (auto simp: length_Suc_conv starts_with_iff)
    with split_once_sound[OF s] have e: "cs @ [quote] = CHR ''/'' # quote # r" by auto
    then obtain cs' where c: "cs = CHR ''/'' # cs'" and e': "cs' @ [quote] = quote # r"
      by (cases cs) auto
    from c cs ne e' etagc_quote show False by (cases cs') auto
  qed
  then show ?thesis
    by (auto simp: etag_split_weak_def split: option.split)
qed

lemma parse_etag_shape:
  "parse_etag raw = Inr e \<longleftrightarrow>
     (\<exists>pre. trim raw = pre @ et_quoted e \<and> etag_wf e \<and> \<not> lone_slash e \<and>
        (if et_weak e then pre \<in> {''W/'', ''w/''} else pre = []))"
proof
  assume "parse_etag raw = Inr e"
  then obtain weak opaque where sp: "etag_split_weak (trim raw) = Inr (weak, opaque)"
      and e: "e = \<lparr>et_weak = weak, et_quoted = opaque\<rparr>"
      and q: "2 \<le> length opaque \<and> starts_with [quote] opaque \<and> ends_with [quote] opaque"
      and inner: "list_all is_etagc (slice 1 (length opaque - 1) opaque)"
    by (auto simp: parse_etag_def Let_def res_bind_Inr_iff not_less split: if_splits)
  from q obtain cs where cs: "opaque = quote # cs @ [quote]"
    unfolding quoted_cases by blast
  have "list_all is_etagc cs"
    using inner unfolding cs slice_inner .
  with cs e have "etag_wf e" by (auto simp: etag_wf_def)
  moreover have "\<exists>pre. trim raw = pre @ opaque \<and> (if weak then pre \<in> {''W/'', ''w/''} else pre = [])"
    using sp by (auto simp: etag_split_weak_def strip_prefix_Some_iff split: option.splits if_splits)
  moreover have "\<not> lone_slash e"
    using sp e by (auto simp: lone_slash_def etag_split_weak_def starts_with_def split: option.splits if_splits)
  ultimately show "\<exists>pre. trim raw = pre @ et_quoted e \<and> etag_wf e \<and> \<not> lone_slash e \<and>
        (if et_weak e then pre \<in> {''W/'', ''w/''} else pre = [])"
    using e by auto
next
  assume "\<exists>pre. trim raw = pre @ et_quoted e \<and> etag_wf e \<and> \<not> lone_slash e \<and>
        (if et_weak e then pre \<in> {''W/'', ''w/''} else pre = [])"
  then obtain pre cs where t: "trim raw = pre @ quote # cs @ [quote]"
      and q: "et_quoted e = quote # cs @ [quote]" and cs: "list_all is_etagc cs"
      and ns: "\<not> lone_slash e"
      and pre: "if et_weak e then pre \<in> {''W/'', ''w/''} else pre = []"
    by (auto simp: etag_wf_def)
  have sp: "etag_split_weak (trim raw) = Inr (et_weak e, et_quoted e)"
  proof (cases "et_weak e")
    case True
    with pre show ?thesis by (auto simp: etag_split_weak_def t q)
  next
    case False
    with ns q have "cs \<noteq> ''/''" by (auto simp: lone_slash_def)
    with False pre show ?thesis by (simp add: t q split_weak_strong[OF cs])
  qed
  have "2 \<le> length (et_quoted e) \<and> starts_with [quote] (et_quoted e) \<and> ends_with [quote] (et_quoted e)"
    unfolding quoted_cases q by blast
  moreover have "slice 1 (length (et_quoted e) - 1) (et_quoted e) = cs"
    unfolding q by (rule slice_inner)
  ultimately show "parse_etag raw = Inr e"
    using cs t sp by (auto simp: parse_etag_def Let_def)
qed

lemma plain_end_etag: "plain_end quote" "plain_end CHR ''W''" "plain_end CHR ''w''"
  by code_simp+

lemma etag_wire_trim: "etag_wf e \<Longrightarrow> trim (etag_wire e) = etag_wire e"
  by (rule trim_id) (auto simp: etag_wire_def etag_wf_def plain_end_etag)

text \<open>The wire form of an entity tag parses back to the tag exactly when the tag is a quoted
  string of etag characters, with one exception the grammar does not know: the strong tag of a
  single slash is refused, since the prefix check takes its opening quote for a weakness prefix.
  Only a tag marked weak is read as weak.\<close>

theorem etag_roundtrip:
  "parse_etag (etag_wire e) = Inr e \<longleftrightarrow> etag_wf e \<and> \<not> lone_slash e"
proof
  assume "etag_wf e \<and> \<not> lone_slash e"
  then show "parse_etag (etag_wire e) = Inr e"
    unfolding parse_etag_shape by (cases "et_weak e") (auto simp: etag_wire_trim, auto simp: etag_wire_def)
qed (auto simp: parse_etag_shape)

lemma slash_tag_refused: "parse_etag [quote, CHR ''/'', quote] = Inl EtagBadWeakPrefix"
  by code_simp

lemma parse_etag_wire_nonempty: "parse_etag raw = Inr e \<Longrightarrow> etag_wire e \<noteq> []"
  by (auto simp: parse_etag_shape etag_wf_def etag_wire_def)

lemma parse_etag_wire: "parse_etag raw = Inr e \<Longrightarrow> parse_etag (etag_wire e) = Inr e"
  unfolding etag_roundtrip by (auto simp: parse_etag_shape)

end
