(* ===== verification/Https_Probe.thy ===== *)
theory Https_Probe
  imports Http Validity
begin

section \<open>The https probe (\<open>crates/freshdag-probes/src/https.rs\<close>)\<close>

text \<open>
  \<open>HttpsProbe::check_detailed\<close>, with \<open>redirect.rs\<close> and the report types of \<open>report.rs\<close>. The URL
  type is that of the third-party crate \<open>url\<close>: its parser and accessors are the record
  \<open>url_ops\<close>. The digest of BLAKE3 is the parameter \<open>hex\<close>, applied to the concatenation of what
  was fed to the hasher. The transport is a parameter too (\<open>'w transport\<close>); its state runs
  through the check.
\<close>

record 'u url_ops =
  u_parse :: "string \<Rightarrow> 'u option"
  u_scheme :: "'u \<Rightarrow> string"
  u_join :: "'u \<Rightarrow> string \<Rightarrow> 'u option"
  u_host :: "'u \<Rightarrow> string option"
  u_port :: "'u \<Rightarrow> u16 option"
  u_port_or_default :: "'u \<Rightarrow> u16 option"
  u_string :: "'u \<Rightarrow> string"

subsection \<open>Redirects\<close>

datatype redirect_refusal =
  NoLocation | UnparseableLocation | SchemeDowngrade | UnsupportedScheme | TooDeep

fun redirect_reason_token :: "redirect_refusal \<Rightarrow> string" where
  "redirect_reason_token NoLocation = ''redirect-without-location''"
| "redirect_reason_token UnparseableLocation = ''redirect-location-unparseable''"
| "redirect_reason_token SchemeDowngrade = ''cross-scheme-downgrade-refused''"
| "redirect_reason_token UnsupportedScheme = ''redirect-unsupported-scheme''"
| "redirect_reason_token TooDeep = ''redirect-chain-too-deep''"

definition resolve_next_hop :: "'u url_ops \<Rightarrow> 'u \<Rightarrow> string option \<Rightarrow> redirect_refusal + 'u" where
  "resolve_next_hop ops current location =
     (case map_option trim location of
        None \<Rightarrow> Inl NoLocation
      | Some loc \<Rightarrow>
          if loc = [] then Inl NoLocation
          else (case u_join ops current loc of
              None \<Rightarrow> Inl UnparseableLocation
            | Some next \<Rightarrow>
                if u_scheme ops next = ''https'' then Inr next
                else if u_scheme ops next = ''http''
                then if u_scheme ops current = ''https'' then Inl SchemeDowngrade else Inr next
                else Inl UnsupportedScheme))"

definition same_origin :: "'u url_ops \<Rightarrow> 'u \<Rightarrow> 'u \<Rightarrow> bool" where
  "same_origin ops a b \<longleftrightarrow> u_scheme ops a = u_scheme ops b \<and> u_host ops a = u_host ops b \<and>
     u_port_or_default ops a = u_port_or_default ops b"

definition origin_of :: "'u url_ops \<Rightarrow> 'u \<Rightarrow> string" where
  "origin_of ops u =
     (case (u_host ops u, u_port ops u) of
        (Some h, Some p) \<Rightarrow> u_scheme ops u @ ''://'' @ h @ '':'' @ show_nat (unat p)
      | (Some h, None) \<Rightarrow> u_scheme ops u @ ''://'' @ h
      | (None, _) \<Rightarrow> u_scheme ops u)"

subsection \<open>Configuration\<close>

datatype content_hash_fallback = FallbackNever | FallbackForKeys "string list" | FallbackAlways

fun enabled_for :: "content_hash_fallback \<Rightarrow> string \<Rightarrow> bool" where
  "enabled_for FallbackNever key = False"
| "enabled_for FallbackAlways key = True"
| "enabled_for (FallbackForKeys ks) key = (key \<in> set ks)"

record https_config =
  hc_max_redirects :: u8
  hc_max_fetch_bytes :: u64
  hc_fallback :: content_hash_fallback
  hc_allow_plaintext :: bool
  hc_prefer_head :: bool

definition default_max_fetch_bytes :: u64 where
  "default_max_fetch_bytes = 64 * 1024 * 1024"

definition default_max_redirects :: u8 where
  "default_max_redirects = 5"

definition https_config_default :: https_config where
  "https_config_default =
     \<lparr>hc_max_redirects = default_max_redirects, hc_max_fetch_bytes = default_max_fetch_bytes,
      hc_fallback = FallbackNever, hc_allow_plaintext = False, hc_prefer_head = True\<rparr>"

subsection \<open>Unresolved checks, diagnostics and costs\<close>

definition max_reason_bytes :: nat where
  "max_reason_bytes = 512"

record unresolved =
  un_reason :: string
  un_retryable :: bool

definition unresolved_new :: "string \<Rightarrow> bool \<Rightarrow> unresolved" where
  \<comment> \<open>\<open>String::truncate\<close>; no reason of this module is long enough for it to cut\<close>
  "unresolved_new why retryable =
     \<lparr>un_reason = (if length why > max_reason_bytes then take max_reason_bytes why else why),
      un_retryable = retryable\<rparr>"

definition into_result :: "unresolved \<Rightarrow> probe_result" where
  "into_result u = ProbeUndecided (un_reason u) (un_retryable u)"

datatype diagnostic_code =
  DxTrustDemoted | DxEtagInstability | DxMalformedEtag | DxDuplicateEtag | DxCrossOriginRedirect
| DxHeadNotAllowed | DxRateLimited | DxPlaintextTransport | DxContentHashFallback
| DxRepresentationRecorded | DxContradictoryCacheControl

fun diagnostic_code_wire :: "diagnostic_code \<Rightarrow> string" where
  "diagnostic_code_wire DxTrustDemoted = ''probe.trust_demoted''"
| "diagnostic_code_wire DxEtagInstability = ''etag-instability''"
| "diagnostic_code_wire DxMalformedEtag = ''malformed-etag''"
| "diagnostic_code_wire DxDuplicateEtag = ''duplicate-etag''"
| "diagnostic_code_wire DxCrossOriginRedirect = ''cross-origin-redirect''"
| "diagnostic_code_wire DxHeadNotAllowed = ''head-not-allowed''"
| "diagnostic_code_wire DxRateLimited = ''rate-limited''"
| "diagnostic_code_wire DxPlaintextTransport = ''plaintext-transport''"
| "diagnostic_code_wire DxContentHashFallback = ''content-hash-fallback''"
| "diagnostic_code_wire DxRepresentationRecorded = ''representation-recorded''"
| "diagnostic_code_wire DxContradictoryCacheControl = ''contradictory-cache-control''"

record probe_cost =
  cost_requests :: u32
  cost_redirect_hops :: u32
  cost_body_bytes :: u64
  cost_retry_after :: "retry_after option"

record probe_ctx =
  cx_diagnostics :: "(diagnostic_code \<times> string) list"
  cx_cost :: probe_cost
  cx_chain :: "string list"
  cx_content_type :: "string option"

definition ctx_new :: "string \<Rightarrow> probe_ctx" where
  "ctx_new key =
     \<lparr>cx_diagnostics = [],
      cx_cost = \<lparr>cost_requests = 0, cost_redirect_hops = 0, cost_body_bytes = 0, cost_retry_after = None\<rparr>,
      cx_chain = [key], cx_content_type = None\<rparr>"

definition ctx_diag :: "diagnostic_code \<Rightarrow> string \<Rightarrow> probe_ctx \<Rightarrow> probe_ctx" where
  "ctx_diag code d cx = cx\<lparr>cx_diagnostics := cx_diagnostics cx @ [(code, d)]\<rparr>"

definition ctx_cost :: "(probe_cost \<Rightarrow> probe_cost) \<Rightarrow> probe_ctx \<Rightarrow> probe_ctx" where
  "ctx_cost f cx = cx\<lparr>cx_cost := f (cx_cost cx)\<rparr>"

record https_outcome =
  ho_result :: probe_result
  ho_diagnostics :: "(diagnostic_code \<times> string) list"
  ho_cost :: probe_cost
  ho_chain :: "string list"
  ho_content_type :: "string option"

definition ctx_finish :: "probe_ctx \<Rightarrow> probe_result \<Rightarrow> https_outcome" where
  "ctx_finish cx r =
     \<lparr>ho_result = r, ho_diagnostics = cx_diagnostics cx, ho_cost = cx_cost cx, ho_chain = cx_chain cx,
      ho_content_type = cx_content_type cx\<rparr>"

subsection \<open>The plan\<close>

datatype plan =
  IfNoneMatch string bool | IfModifiedSince string | ImmutablePlan | ContentHashPlan hash

fun recorded_class :: "plan \<Rightarrow> trust_class" where
  "recorded_class (IfNoneMatch _ weak) = (if weak then Heuristic else Versioned)"
| "recorded_class ImmutablePlan = Versioned"
| "recorded_class (IfModifiedSince _) = Heuristic"
| "recorded_class (ContentHashPlan _) = Exact"

fun conditional_headers :: "plan \<Rightarrow> headers" where
  "conditional_headers (IfNoneMatch wire _) = headers_push ''If-None-Match'' wire []"
| "conditional_headers (IfModifiedSince date) = headers_push ''If-Modified-Since'' date []"
| "conditional_headers ImmutablePlan = []"
| "conditional_headers (ContentHashPlan _) = []"

definition plan_of :: "https_config \<Rightarrow> string \<Rightarrow> fingerprint \<Rightarrow> unresolved + plan" where
  "plan_of cfg key fp =
     (case fp_kind fp of
        Etag \<Rightarrow>
          (case parse_etag (fp_payload fp) of
             Inr e \<Rightarrow> Inr (IfNoneMatch (etag_wire e) (et_weak e))
           | Inl err \<Rightarrow> Inl (unresolved_new
               (''recorded-fingerprint-malformed etag='' @ etag_parse_error_display err) False))
      | Mtime \<Rightarrow>
          if is_imf_fixdate (fp_payload fp) then Inr (IfModifiedSince (fp_payload fp))
          else Inl (unresolved_new ''recorded-fingerprint-malformed mtime=not-imf-fixdate'' False)
      | ContentHash \<Rightarrow>
          if \<not> enabled_for (hc_fallback cfg) key
          then Inl (unresolved_new ''content-hash-fallback-required'' True)
          else (case hash_parse (fp_payload fp) of
              Inr h \<Rightarrow> Inr (ContentHashPlan h)
            | Inl _ \<Rightarrow> Inl (unresolved_new ''recorded-fingerprint-malformed content-hash'' False))
      | _ \<Rightarrow>
          if fp_kind fp = Custom \<and> fp_payload fp = ''immutable'' then Inr ImmutablePlan
          else Inl (unresolved_new
            (''unsupported-fingerprint-kind='' @ as_wire_prefix (fp_kind fp)) False))"

definition gate_url :: "'u url_ops \<Rightarrow> https_config \<Rightarrow> string \<Rightarrow> probe_ctx
     \<Rightarrow> (unresolved + 'u) \<times> probe_ctx" where
  \<comment> \<open>\<open>HttpsProbe::parse_and_gate_url\<close>\<close>
  "gate_url ops cfg key cx =
     (case u_parse ops key of
        None \<Rightarrow> (Inl (unresolved_new ''malformed-dependency-key'' False), cx)
      | Some url \<Rightarrow>
          if u_scheme ops url = ''https'' then (Inr url, cx)
          else if u_scheme ops url = ''http''
          then if hc_allow_plaintext cfg
               then (Inr url, ctx_diag DxPlaintextTransport ''dependency key uses cleartext http://'' cx)
               else (Inl (unresolved_new ''plaintext-http-refused'' False), cx)
          else (Inl (unresolved_new
                  (''unsupported-url-scheme='' @ take 32 (u_scheme ops url)) False), cx))"

subsection \<open>Fetching\<close>

datatype settled = NotModified http_response | Representation http_response

fun settled_headers :: "settled \<Rightarrow> headers" where
  "settled_headers (NotModified r) = rs_headers r"
| "settled_headers (Representation r) = rs_headers r"

fun retry_after_debug :: "retry_after option \<Rightarrow> string" where
  \<comment> \<open>the derived \<open>Debug\<close> form; a date that parsed needs no escapes\<close>
  "retry_after_debug None = ''None''"
| "retry_after_debug (Some (RetrySeconds n)) = ''Some(Seconds('' @ show_nat (unat n) @ ''))''"
| "retry_after_debug (Some (RetryHttpDate d)) = ''Some(HttpDate('' @ [quote] @ d @ [quote] @ ''))''"

definition http_status_reason :: "u16 \<Rightarrow> string" where
  "http_status_reason st = ''http-status='' @ show_nat (unat st)"

definition refuse_status :: "http_response \<Rightarrow> probe_ctx \<Rightarrow> unresolved \<times> probe_ctx" where
  \<comment> \<open>the statuses that end the loop without a representation\<close>
  "refuse_status r cx =
     (let st = rs_status r in
      if st = 401 \<or> st = 403 then (unresolved_new (''auth-required '' @ http_status_reason st) False, cx)
      else if st = 429 then
        (let hint = retry_after_parse (rs_headers r);
             cx = ctx_cost (\<lambda>c. c\<lparr>cost_retry_after := hint\<rparr>) cx
         in (unresolved_new ''rate-limited http-status=429'' True,
             ctx_diag DxRateLimited (''retry-after='' @ retry_after_debug hint) cx))
      else if 400 \<le> st \<and> st \<le> 499 then (unresolved_new (http_status_reason st) False, cx)
      else if 500 \<le> st \<and> st \<le> 599 then (unresolved_new (http_status_reason st) True, cx)
      else (unresolved_new (''unexpected-http-status='' @ show_nat (unat st)) False, cx))"

definition request_for :: "'u url_ops \<Rightarrow> plan \<Rightarrow> 'u \<Rightarrow> http_method \<Rightarrow> http_request" where
  "request_for ops pl u m =
     \<lparr>rq_url = u_string ops u, rq_method = m, rq_headers = conditional_headers pl\<rparr>"

definition count_request :: "probe_ctx \<Rightarrow> probe_ctx" where
  "count_request = ctx_cost (\<lambda>c. c\<lparr>cost_requests := cost_requests c + 1\<rparr>)"

definition follow :: "'u url_ops \<Rightarrow> 'u \<Rightarrow> 'u \<Rightarrow> u8 \<Rightarrow> probe_ctx \<Rightarrow> probe_ctx" where
  \<comment> \<open>what a followed redirect leaves in the context; \<open>hops\<close> counts it already\<close>
  "follow ops original next hops cx =
     (let cx = ctx_cost (\<lambda>c. c\<lparr>cost_redirect_hops := ucast hops\<rparr>) cx;
          cx = (if same_origin ops original next then cx
                else ctx_diag DxCrossOriginRedirect
                  (origin_of ops original @ '' -> '' @ origin_of ops next) cx)
      in cx\<lparr>cx_chain := cx_chain cx @ [u_string ops next]\<rparr>)"

function https_fetch ::
  "'u url_ops \<Rightarrow> 'w transport \<Rightarrow> https_config \<Rightarrow> 'u \<Rightarrow> plan \<Rightarrow> 'u \<Rightarrow> u8 \<Rightarrow> bool \<Rightarrow> http_method
     \<Rightarrow> probe_ctx \<Rightarrow> 'w \<Rightarrow> (unresolved + settled) \<times> probe_ctx \<times> 'w" where
  \<comment> \<open>the loop of \<open>HttpsProbe::fetch\<close>\<close>
  "https_fetch ops exec cfg original pl current hops head_retried m cx w =
     (let cx = count_request cx;
          (answer, w) = exec w (request_for ops pl current m)
      in case answer of
           Inl e \<Rightarrow> (Inl (unresolved_new (transport_reason_token e) (transport_retryable e)), cx, w)
         | Inr r \<Rightarrow>
             (let st = rs_status r in
              if st = 304 then (Inr (NotModified r), cx, w)
              else if st = 405 \<and> m = HeadMethod \<and> \<not> head_retried
              then https_fetch ops exec cfg original pl current hops True GetMethod
                     (ctx_diag DxHeadNotAllowed ''origin rejected HEAD; retrying with GET'' cx) w
              else if 200 \<le> st \<and> st \<le> 299 then (Inr (Representation r), cx, w)
              else if 300 \<le> st \<and> st \<le> 399 then
               (if hops \<ge> hc_max_redirects cfg
                then (Inl (unresolved_new (''redirect-chain-too-deep max-redirects='' @
                        show_nat (unat (hc_max_redirects cfg))) False), cx, w)
                else case resolve_next_hop ops current (headers_get ''Location'' (rs_headers r)) of
                    Inl refusal \<Rightarrow> (Inl (unresolved_new (redirect_reason_token refusal) False), cx, w)
                  | Inr next \<Rightarrow>
                      https_fetch ops exec cfg original pl next (hops + 1) head_retried m
                        (follow ops original next (hops + 1) cx) w)
              else (let (u, cx) = refuse_status r cx in (Inl u, cx, w))))"
  by pat_completeness auto

lemma unat_next_hop:
  assumes "(hops :: u8) < limit"
  shows "unat (hops + 1) = unat hops + 1"
proof -
  from assms have "unat hops < unat limit" by (simp add: word_less_nat_alt)
  moreover have "unat limit < 256" using unsigned_less[of limit] by simp
  ultimately show ?thesis by (simp add: unat_plus_if')
qed

termination https_fetch
proof (relation "measure (\<lambda>(ops, exec, cfg, original, pl, current, hops, head_retried, m, cx, w).
     2 * (unat (hc_max_redirects cfg) - unat hops) + (if head_retried then 0 else 1))")
qed (auto simp: unat_next_hop not_le word_less_nat_alt)

declare https_fetch.simps [simp del]

subsection \<open>Classification\<close>

record classification =
  cl_etag :: "etag option"
  cl_last_modified :: "string option"
  cl_cache_control :: cache_control
  cl_trust_class :: trust_class

definition has_validator :: "classification \<Rightarrow> bool" where
  "has_validator cl \<longleftrightarrow> cl_etag cl \<noteq> None \<or> cl_last_modified cl \<noteq> None \<or>
     cc_immutable (cl_cache_control cl)"

definition class_of :: "cache_control \<Rightarrow> etag option \<Rightarrow> string option \<Rightarrow> trust_class" where
  \<comment> \<open>the class the response headers support\<close>
  "class_of cc e lm =
     (if forbids_caching cc then Volatile
      else if cc_immutable cc then Versioned
      else case e of
          Some t \<Rightarrow> if et_weak t then Heuristic else Versioned
        | None \<Rightarrow> if lm \<noteq> None then Heuristic else Volatile)"

definition observed_etag :: "string list \<Rightarrow> probe_ctx \<Rightarrow> etag option \<times> probe_ctx" where
  "observed_etag raw cx =
     (case raw of
        [] \<Rightarrow> (None, cx)
      | v # _ \<Rightarrow>
          (case parse_etag v of
             Inr e \<Rightarrow> (Some e, cx)
           | Inl err \<Rightarrow> (None, ctx_diag DxMalformedEtag (etag_parse_error_display err) cx)))"

definition https_classify :: "headers \<Rightarrow> probe_ctx \<Rightarrow> (unresolved + classification) \<times> probe_ctx" where
  "https_classify h cx =
     (let raw = headers_get_all ''ETag'' h;
          cx = (if length raw > 1
                then ctx_diag DxDuplicateEtag (show_nat (length raw) @ '' ETag header fields'') cx
                else cx);
          distinct_fields = length (bset raw)
      in if length raw > 1 \<and> distinct_fields > 1
         then (Inl (unresolved_new (''ambiguous-etag distinct-fields='' @ show_nat distinct_fields) False), cx)
         else
          (let (e, cx) = observed_etag raw cx;
               lm = (case headers_get ''Last-Modified'' h of
                   Some v \<Rightarrow> if is_imf_fixdate v then Some v else None
                 | None \<Rightarrow> None);
               cc = cache_control_parse h;
               cx = (if forbids_caching cc \<and> cc_immutable cc
                     then ctx_diag DxContradictoryCacheControl
                       ''immutable together with no-store/must-revalidate; resolved as volatile'' cx
                     else cx)
           in (Inr \<lparr>cl_etag = e, cl_last_modified = lm, cl_cache_control = cc,
                 cl_trust_class = class_of cc e lm\<rparr>, cx)))"

subsection \<open>Decisions\<close>

definition decide_not_modified :: "fingerprint \<Rightarrow> plan \<Rightarrow> classification \<Rightarrow> probe_result" where
  "decide_not_modified fp pl cl =
     ProbeMatch fp
       (if has_validator cl \<or> forbids_caching (cl_cache_control cl) then cl_trust_class cl
        else recorded_class pl)"

fun read_body :: "u64 \<Rightarrow> u64 \<Rightarrow> string \<Rightarrow> string option list \<Rightarrow> (unresolved + string) \<times> u64" where
  \<comment> \<open>the read loop: what the hasher was fed, and the bytes counted when the loop was left (the
     cost is only recorded when the limit is exceeded or the body ends)\<close>
  "read_body limit tot fed [] = (Inr fed, tot)"
| "read_body limit tot fed (None # rest) =
     (Inl (unresolved_new (transport_reason_token TransportBody) True), 0)"
| "read_body limit tot fed (Some chunk # rest) =
     (if chunk = [] then (Inr fed, tot)
      else let tot = tot + word_of_nat (length chunk) in
        if tot > limit
        then (Inl (unresolved_new (''body-exceeds-max-fetch-bytes max-fetch-bytes='' @
                show_nat (unat limit)) False), tot)
        else read_body limit tot (fed @ chunk) rest)"

definition decide_content_hash ::
  "'u url_ops \<Rightarrow> (string \<Rightarrow> string) \<Rightarrow> https_config \<Rightarrow> 'u \<Rightarrow> hash \<Rightarrow> classification \<Rightarrow> http_response
     \<Rightarrow> probe_ctx \<Rightarrow> (unresolved + probe_result) \<times> probe_ctx" where
  "decide_content_hash ops hex cfg original recorded cl r cx =
     (let cx = ctx_diag DxContentHashFallback (''streaming GET of '' @ origin_of ops original) cx in
      case rs_body r of
        None \<Rightarrow> (Inl (unresolved_new ''content-hash-fallback-no-body'' False), cx)
      | Some body \<Rightarrow>
          (let (answer, tot) = read_body (hc_max_fetch_bytes cfg) 0 [] body;
               cx = ctx_cost (\<lambda>c. c\<lparr>cost_body_bytes := tot\<rparr>) cx
           in case answer of
                Inl u \<Rightarrow> (Inl u, cx)
              | Inr fed \<Rightarrow>
                  (let observed = \<lparr>algo = Blake3, digest_hex = hex fed\<rparr>;
                       ofp = \<lparr>fp_kind = ContentHash, fp_payload = hash_display observed\<rparr>;
                       otc = (if forbids_caching (cl_cache_control cl) then Volatile else Exact)
                   in (Inr (if observed = recorded then ProbeMatch ofp otc else ProbeDrift ofp otc), cx))))"

definition decide_etag :: "string \<Rightarrow> classification \<Rightarrow> probe_ctx \<Rightarrow> (unresolved + probe_result) \<times> probe_ctx" where
  "decide_etag wire cl cx =
     (case cl_etag cl of
        None \<Rightarrow>
          (Inl (unresolved_new ''version-signal-lost'' False),
           ctx_diag DxTrustDemoted ''recorded fingerprint was an ETag; response carries none'' cx)
      | Some observed \<Rightarrow>
          (let ofp = \<lparr>fp_kind = Etag, fp_payload = etag_wire observed\<rparr> in
           if etag_wire observed = wire
           then (Inr (ProbeMatch ofp (cl_trust_class cl)),
                 ctx_diag DxEtagInstability
                   (''200 OK echoing the ETag we sent in If-None-Match; '' @
                    ''endpoint ignores conditional requests'') cx)
           else (Inr (ProbeDrift ofp (cl_trust_class cl)), cx)))"

definition decide_last_modified ::
  "string \<Rightarrow> classification \<Rightarrow> probe_ctx \<Rightarrow> (unresolved + probe_result) \<times> probe_ctx" where
  "decide_last_modified date cl cx =
     (case cl_last_modified cl of
        Some observed \<Rightarrow>
          (let ofp = \<lparr>fp_kind = Mtime, fp_payload = observed\<rparr> in
           if observed = date
           then (Inr (ProbeMatch ofp (cl_trust_class cl)),
                 ctx_diag DxEtagInstability
                   (''200 OK with an unchanged Last-Modified after '' @
                    ''If-Modified-Since; endpoint ignores conditional requests'') cx)
           else (Inr (ProbeDrift ofp (cl_trust_class cl)), cx))
      | None \<Rightarrow>
          (case cl_etag cl of
             Some observed \<Rightarrow>
               (Inr (ProbeDrift \<lparr>fp_kind = Etag, fp_payload = etag_wire observed\<rparr> (cl_trust_class cl)), cx)
           | None \<Rightarrow>
               (Inl (unresolved_new ''version-signal-lost last-modified'' False),
                ctx_diag DxTrustDemoted
                  ''recorded fingerprint was a Last-Modified; response carries none'' cx)))"

definition decide_immutable :: "classification \<Rightarrow> probe_ctx \<Rightarrow> (unresolved + probe_result) \<times> probe_ctx" where
  "decide_immutable cl cx =
     (if cc_immutable (cl_cache_control cl) \<and> \<not> forbids_caching (cl_cache_control cl)
      then (Inr (ProbeMatch \<lparr>fp_kind = Custom, fp_payload = ''immutable''\<rparr> Versioned), cx)
      else (Inl (unresolved_new ''version-signal-lost immutable'' False),
            ctx_diag DxTrustDemoted
              (''recorded fingerprint asserted Cache-Control: immutable; '' @
               ''response no longer does'') cx))"

definition decide_ok ::
  "'u url_ops \<Rightarrow> (string \<Rightarrow> string) \<Rightarrow> https_config \<Rightarrow> 'u \<Rightarrow> plan \<Rightarrow> classification \<Rightarrow> http_response
     \<Rightarrow> probe_ctx \<Rightarrow> (unresolved + probe_result) \<times> probe_ctx" where
  "decide_ok ops hex cfg original pl cl r cx =
     (case pl of
        ContentHashPlan recorded \<Rightarrow> decide_content_hash ops hex cfg original recorded cl r cx
      | IfNoneMatch wire _ \<Rightarrow> decide_etag wire cl cx
      | IfModifiedSince date \<Rightarrow> decide_last_modified date cl cx
      | ImmutablePlan \<Rightarrow> decide_immutable cl cx)"

subsection \<open>The whole check\<close>

fun trust_class_debug :: "trust_class \<Rightarrow> string" where
  "trust_class_debug Exact = ''Exact''"
| "trust_class_debug Versioned = ''Versioned''"
| "trust_class_debug Heuristic = ''Heuristic''"
| "trust_class_debug Volatile = ''Volatile''"

definition note_representation :: "settled \<Rightarrow> plan \<Rightarrow> classification \<Rightarrow> probe_ctx \<Rightarrow> probe_ctx" where
  \<comment> \<open>the content type and the demotion notice of \<open>run\<close>\<close>
  "note_representation sett pl cl cx =
     (let cx = (case headers_get ''Content-Type'' (settled_headers sett) of
            Some ct \<Rightarrow> ctx_diag DxRepresentationRecorded ct (cx\<lparr>cx_content_type := Some ct\<rparr>)
          | None \<Rightarrow> cx)
      in if has_validator cl \<and> is_demotion_from (cl_trust_class cl) (recorded_class pl)
         then ctx_diag DxTrustDemoted
           (''recorded '' @ trust_class_debug (recorded_class pl) @ '', observed '' @
            trust_class_debug (cl_trust_class cl)) cx
         else cx)"

definition first_method :: "https_config \<Rightarrow> plan \<Rightarrow> http_method" where
  "first_method cfg pl =
     (if (\<exists>h. pl = ContentHashPlan h) \<or> \<not> hc_prefer_head cfg then GetMethod else HeadMethod)"

lemma first_method_code [code]:
  "first_method cfg pl =
     (if (case pl of ContentHashPlan _ \<Rightarrow> True | _ \<Rightarrow> False) \<or> \<not> hc_prefer_head cfg then GetMethod
      else HeadMethod)"
  by (cases pl) (simp_all add: first_method_def)

definition settle ::
  "'u url_ops \<Rightarrow> (string \<Rightarrow> string) \<Rightarrow> https_config \<Rightarrow> fingerprint \<Rightarrow> 'u \<Rightarrow> plan \<Rightarrow> settled \<Rightarrow> probe_ctx
     \<Rightarrow> (unresolved + probe_result) \<times> probe_ctx" where
  \<comment> \<open>\<open>run\<close> from the settled response on\<close>
  "settle ops hex cfg fp original pl sett cx =
     (case https_classify (settled_headers sett) cx of
        (Inl u, cx) \<Rightarrow> (Inl u, cx)
      | (Inr cl, cx) \<Rightarrow>
          (let cx = note_representation sett pl cl cx in
           case sett of
             NotModified _ \<Rightarrow> (Inr (decide_not_modified fp pl cl), cx)
           | Representation r \<Rightarrow> decide_ok ops hex cfg original pl cl r cx))"

definition https_run ::
  "'u url_ops \<Rightarrow> (string \<Rightarrow> string) \<Rightarrow> 'w transport \<Rightarrow> https_config \<Rightarrow> string \<Rightarrow> fingerprint \<Rightarrow> probe_ctx
     \<Rightarrow> 'w \<Rightarrow> (unresolved + probe_result) \<times> probe_ctx \<times> 'w" where
  "https_run ops hex exec cfg key fp cx w =
     (case gate_url ops cfg key cx of
        (Inl u, cx) \<Rightarrow> (Inl u, cx, w)
      | (Inr original, cx) \<Rightarrow>
          (case plan_of cfg key fp of
             Inl u \<Rightarrow> (Inl u, cx, w)
           | Inr pl \<Rightarrow>
               (case https_fetch ops exec cfg original pl original 0 False (first_method cfg pl) cx w of
                  (Inl u, cx, w) \<Rightarrow> (Inl u, cx, w)
                | (Inr sett, cx, w) \<Rightarrow>
                    (let (answer, cx) = settle ops hex cfg fp original pl sett cx in (answer, cx, w)))))"

definition check_detailed ::
  "'u url_ops \<Rightarrow> (string \<Rightarrow> string) \<Rightarrow> 'w transport \<Rightarrow> https_config \<Rightarrow> string \<Rightarrow> fingerprint
     \<Rightarrow> u64 option \<Rightarrow> 'w \<Rightarrow> https_outcome \<times> 'w" where
  \<comment> \<open>the TTL hint is not used\<close>
  "check_detailed ops hex exec cfg key fp ttl w =
     (case https_run ops hex exec cfg key fp (ctx_new key) w of
        (Inr r, cx, w) \<Rightarrow> (ctx_finish cx r, w)
      | (Inl u, cx, w) \<Rightarrow> (ctx_finish cx (into_result u), w))"

definition https_check ::
  "'u url_ops \<Rightarrow> (string \<Rightarrow> string) \<Rightarrow> 'w transport \<Rightarrow> https_config \<Rightarrow> 'w \<Rightarrow> string \<Rightarrow> fingerprint
     \<Rightarrow> u64 option \<Rightarrow> probe_result" where
  \<comment> \<open>the \<open>Probe\<close> implementation; the diagnostics go to the tracing subscriber\<close>
  "https_check ops hex exec cfg w key fp ttl =
     ho_result (fst (check_detailed ops hex exec cfg key fp ttl w))"

subsection \<open>The payload of \<open>probe.checked\<close>\<close>

datatype probe_result_kind = KindMatch | KindDrift | KindUnknown

record probe_checked_payload =
  pp_scheme :: string
  pp_key :: string
  pp_observed_fingerprint :: "fingerprint option"
  pp_trust_class :: "trust_class option"
  pp_result :: probe_result_kind
  pp_retryable :: "bool option"

definition payload_from_result :: "string \<Rightarrow> string \<Rightarrow> probe_result \<Rightarrow> probe_checked_payload" where
  "payload_from_result sch key r =
     (let (ofp, tc, kind, retryable) = (case r of
          ProbeMatch f t \<Rightarrow> (Some f, Some t, KindMatch, None)
        | ProbeDrift f t \<Rightarrow> (Some f, Some t, KindDrift, None)
        | ProbeUndecided _ y \<Rightarrow> (None, None, KindUnknown, Some y))
      in \<lparr>pp_scheme = sch, pp_key = key, pp_observed_fingerprint = ofp, pp_trust_class = tc,
          pp_result = kind, pp_retryable = retryable\<rparr>)"

definition retryable_field_wf :: "probe_checked_payload \<Rightarrow> bool" where
  "retryable_field_wf p \<longleftrightarrow>
     (case pp_result p of KindUnknown \<Rightarrow> pp_retryable p \<noteq> None | _ \<Rightarrow> pp_retryable p = None)"

lemma payload_retryable_wf: "retryable_field_wf (payload_from_result sch key r)"
  by (cases r) (simp_all add: payload_from_result_def retryable_field_wf_def)

end
