(* ===== verification/Https_Facts.thy ===== *)
theory Https_Facts
  imports Https_Probe
begin

section \<open>What an https verdict rests on\<close>

text \<open>
  The loop of \<open>fetch\<close> is bounded and never leaves TLS; a match rests on a 304 or on a validator
  or digest found equal; the class a verdict carries is bounded by what the response says.
\<close>

subsection \<open>A rule for the fetch loop\<close>

text \<open>
  An invariant of the loop's state that both back edges preserve, and that implies the
  postcondition at each exit, establishes the postcondition of the loop.
\<close>

lemma fetch_rule:
  assumes start: "I current hops retried m cx w"
    and fail: "\<And>current hops retried m cx w e w'. I current hops retried m cx w \<Longrightarrow>
      exec w (request_for ops pl current m) = (Inl e, w') \<Longrightarrow>
      Q (Inl (unresolved_new (transport_reason_token e) (transport_retryable e)), count_request cx, w')"
    and unchanged: "\<And>current hops retried m cx w r w'. I current hops retried m cx w \<Longrightarrow>
      exec w (request_for ops pl current m) = (Inr r, w') \<Longrightarrow> rs_status r = 304 \<Longrightarrow>
      Q (Inr (NotModified r), count_request cx, w')"
    and fresh: "\<And>current hops retried m cx w r w'. I current hops retried m cx w \<Longrightarrow>
      exec w (request_for ops pl current m) = (Inr r, w') \<Longrightarrow>
      200 \<le> rs_status r \<Longrightarrow> rs_status r \<le> 299 \<Longrightarrow> Q (Inr (Representation r), count_request cx, w')"
    and retry: "\<And>current hops cx w r w'. I current hops False HeadMethod cx w \<Longrightarrow>
      exec w (request_for ops pl current HeadMethod) = (Inr r, w') \<Longrightarrow>
      I current hops True GetMethod (ctx_diag DxHeadNotAllowed
        ''origin rejected HEAD; retrying with GET'' (count_request cx)) w'"
    and follow: "\<And>current hops retried m cx w r w' next. I current hops retried m cx w \<Longrightarrow>
      exec w (request_for ops pl current m) = (Inr r, w') \<Longrightarrow> hops < hc_max_redirects cfg \<Longrightarrow>
      resolve_next_hop ops current (headers_get ''Location'' (rs_headers r)) = Inr next \<Longrightarrow>
      I next (hops + 1) retried m (follow ops original next (hops + 1) (count_request cx)) w'"
    and refuse: "\<And>current hops retried m cx w r w' u cx'. I current hops retried m cx w \<Longrightarrow>
      exec w (request_for ops pl current m) = (Inr r, w') \<Longrightarrow>
      (u, cx') \<in> {(unresolved_new (''redirect-chain-too-deep max-redirects='' @
           show_nat (unat (hc_max_redirects cfg))) False, count_request cx), refuse_status r (count_request cx)} \<or>
      (\<exists>refusal. u = unresolved_new (redirect_reason_token refusal) False \<and> cx' = count_request cx) \<Longrightarrow>
      Q (Inl u, cx', w')"
  shows "Q (https_fetch ops exec cfg original pl current hops retried m cx w)"
  using start
proof (induction "2 * (unat (hc_max_redirects cfg) - unat hops) + (if retried then 0 else 1 :: nat)"
    arbitrary: current hops retried m cx w rule: less_induct)
  case less
  note unfold = https_fetch.simps[of ops exec cfg original pl current hops retried m cx w]
  obtain a w' where a: "exec w (request_for ops pl current m) = (a, w')" by fastforce
  show ?case
  proof (cases a)
    case (Inl e)
    with a fail[OF less.prems] show ?thesis by (simp add: unfold)
  next
    case (Inr r)
    note a = a[unfolded Inr]
    have eq: "https_fetch ops exec cfg original pl current hops retried m cx w =
      (if rs_status r = 304 then (Inr (NotModified r), count_request cx, w')
       else if rs_status r = 405 \<and> m = HeadMethod \<and> \<not> retried
       then https_fetch ops exec cfg original pl current hops True GetMethod
              (ctx_diag DxHeadNotAllowed ''origin rejected HEAD; retrying with GET'' (count_request cx)) w'
       else if 200 \<le> rs_status r \<and> rs_status r \<le> 299 then (Inr (Representation r), count_request cx, w')
       else if 300 \<le> rs_status r \<and> rs_status r \<le> 399 then
        (if hops \<ge> hc_max_redirects cfg
         then (Inl (unresolved_new (''redirect-chain-too-deep max-redirects='' @
                 show_nat (unat (hc_max_redirects cfg))) False), count_request cx, w')
         else case resolve_next_hop ops current (headers_get ''Location'' (rs_headers r)) of
             Inl refusal \<Rightarrow> (Inl (unresolved_new (redirect_reason_token refusal) False), count_request cx, w')
           | Inr nxt \<Rightarrow>
               https_fetch ops exec cfg original pl nxt (hops + 1) retried m
                 (follow ops original nxt (hops + 1) (count_request cx)) w')
       else (let (u, cx) = refuse_status r (count_request cx) in (Inl u, cx, w')))"
      by (simp add: unfold a Let_def)
    consider (same) "rs_status r = 304"
      | (again) "rs_status r = 405" "m = HeadMethod" "\<not> retried" "rs_status r \<noteq> 304"
      | (ok) "200 \<le> rs_status r" "rs_status r \<le> 299" "\<not> (rs_status r = 405 \<and> m = HeadMethod \<and> \<not> retried)" "rs_status r \<noteq> 304"
      | (redirect) "300 \<le> rs_status r" "rs_status r \<le> 399" "\<not> (200 \<le> rs_status r \<and> rs_status r \<le> 299)"
          "\<not> (rs_status r = 405 \<and> m = HeadMethod \<and> \<not> retried)" "rs_status r \<noteq> 304"
      | (other) "\<not> (300 \<le> rs_status r \<and> rs_status r \<le> 399)" "\<not> (200 \<le> rs_status r \<and> rs_status r \<le> 299)"
          "\<not> (rs_status r = 405 \<and> m = HeadMethod \<and> \<not> retried)" "rs_status r \<noteq> 304"
      by blast
    then show ?thesis
    proof cases
      case same
      with unchanged[OF less.prems a] eq show ?thesis by simp
    next
      case again
      have "I current hops True GetMethod (ctx_diag DxHeadNotAllowed
          ''origin rejected HEAD; retrying with GET'' (count_request cx)) w'"
        using retry less.prems a again by simp
      then have "Q (https_fetch ops exec cfg original pl current hops True GetMethod
          (ctx_diag DxHeadNotAllowed ''origin rejected HEAD; retrying with GET'' (count_request cx)) w')"
        by (rule less.hyps[rotated]) (simp add: again)
      with again eq show ?thesis by simp
    next
      case ok
      with fresh[OF less.prems a] eq show ?thesis by simp
    next
      case redirect
      show ?thesis
      proof (cases "hops < hc_max_redirects cfg")
        case True
        show ?thesis
        proof (cases "resolve_next_hop ops current (headers_get ''Location'' (rs_headers r))")
          case (Inl refusal)
          with redirect True eq refuse[OF less.prems a] show ?thesis by (auto simp: not_less)
        next
          case (Inr nxt)
          have "Q (https_fetch ops exec cfg original pl nxt (hops + 1) retried m
              (follow ops original nxt (hops + 1) (count_request cx)) w')"
            using follow[OF less.prems a True Inr]
            by (rule less.hyps[rotated]) (use True in \<open>auto simp: unat_next_hop word_less_nat_alt\<close>)
          with redirect True Inr eq show ?thesis by (auto simp: not_less)
        qed
      next
        case False
        with redirect eq refuse[OF less.prems a] show ?thesis by (auto simp: not_less)
      qed
    next
      case other
      with eq refuse[OF less.prems a] show ?thesis by (auto split: prod.split)
    qed
  qed
qed

subsection \<open>The response a check settles on\<close>

definition answered :: "'w transport \<Rightarrow> http_request \<Rightarrow> http_response \<Rightarrow> bool" where
  \<comment> \<open>the transport gave this response to this request in some state\<close>
  "answered exec req r \<longleftrightarrow> (\<exists>w w'. exec w req = (Inr r, w'))"

fun settled_response :: "settled \<Rightarrow> http_response" where
  "settled_response (NotModified r) = r"
| "settled_response (Representation r) = r"

lemma settled_headers_response [simp]: "settled_headers s = rs_headers (settled_response s)"
  by (cases s) simp_all

definition settled_ok :: "settled \<Rightarrow> bool" where
  "settled_ok s \<longleftrightarrow> (case s of NotModified r \<Rightarrow> rs_status r = 304
     | Representation r \<Rightarrow> 200 \<le> rs_status r \<and> rs_status r \<le> 299)"

lemma fetch_settled:
  assumes "https_fetch ops exec cfg original pl current hops retried m cx w = (Inr s, cx', w')"
  shows "settled_ok s \<and> (\<exists>u m'. answered exec (request_for ops pl u m') (settled_response s))"
proof -
  have "case fst (https_fetch ops exec cfg original pl current hops retried m cx w) of
      Inl _ \<Rightarrow> True
    | Inr s \<Rightarrow> settled_ok s \<and> (\<exists>u m'. answered exec (request_for ops pl u m') (settled_response s))"
    by (rule fetch_rule[where I = "\<lambda>_ _ _ _ _ _. True"])
      (auto simp: settled_ok_def answered_def)
  with assms show ?thesis by simp
qed

lemma bset_short: "length (bset xs) \<le> 1 \<Longrightarrow> x \<in> set xs \<Longrightarrow> set xs = {x}"
proof -
  assume "length (bset xs) \<le> 1" "x \<in> set xs"
  then have "length (bset xs) = 1"
    by (metis One_nat_def bset_set empty_iff le_Suc_eq le_zero_eq length_0_conv list.set(1))
  then obtain y where "bset xs = [y]" by (auto simp: length_Suc_conv)
  then have "set xs = {y}" by (metis bset_set list.set(1,2))
  with \<open>x \<in> set xs\<close> show ?thesis by simp
qed

lemma classify_Inr:
  assumes "https_classify h cx = (Inr cl, cx')"
  shows "cl_cache_control cl = cache_control_parse h"
    and "cl_trust_class cl = class_of (cl_cache_control cl) (cl_etag cl) (cl_last_modified cl)"
    and "cl_etag cl = Some e \<Longrightarrow>
      \<exists>raw. set (headers_get_all ''ETag'' h) = {raw} \<and> parse_etag raw = Inr e"
    and "cl_last_modified cl = Some v \<Longrightarrow> headers_get ''Last-Modified'' h = Some v \<and> is_imf_fixdate v"
proof -
  let ?raw = "headers_get_all ''ETag'' h"
  show "cl_cache_control cl = cache_control_parse h"
    "cl_trust_class cl = class_of (cl_cache_control cl) (cl_etag cl) (cl_last_modified cl)"
    "cl_last_modified cl = Some v \<Longrightarrow> headers_get ''Last-Modified'' h = Some v \<and> is_imf_fixdate v"
    using assms by (auto simp: https_classify_def Let_def split: if_splits prod.splits option.splits)
  assume "cl_etag cl = Some e"
  with assms have "fst (observed_etag ?raw (if length ?raw > 1
        then ctx_diag DxDuplicateEtag (show_nat (length ?raw) @ '' ETag header fields'') cx else cx)) = Some e"
      and few: "\<not> (length ?raw > 1 \<and> length (bset ?raw) > 1)"
    by (auto simp: https_classify_def Let_def split: if_splits prod.splits)
  then obtain v vs where raw: "?raw = v # vs" and e: "parse_etag v = Inr e"
    by (auto simp: observed_etag_def split: list.splits sum.splits)
  have "length (bset ?raw) \<le> 1"
  proof (cases "length ?raw > 1")
    case False
    then have "vs = []" by (simp add: raw)
    then show ?thesis by (simp add: raw bset_def)
  qed (use few in simp)
  from bset_short[OF this] have "set ?raw = {v}"
    using raw by (metis list.set_intros(1))
  with e show "\<exists>raw. set ?raw = {raw} \<and> parse_etag raw = Inr e" by blast
qed

lemma run_decided:
  assumes "https_check ops hex exec cfg w key fp ttl = res" and "\<And>why y. res \<noteq> ProbeUndecided why y"
  obtains original pl s u m cl cx cx1 cx2 where
    "plan_of cfg key fp = Inr pl" "settled_ok s"
    "answered exec (request_for ops pl u m) (settled_response s)"
    "https_classify (rs_headers (settled_response s)) cx = (Inr cl, cx1)"
    "fst (case s of NotModified _ \<Rightarrow> (Inr (decide_not_modified fp pl cl), cx2)
      | Representation r \<Rightarrow> decide_ok ops hex cfg original pl cl r cx2) = Inr res"
proof -
  obtain cx' w' where "https_run ops hex exec cfg key fp (ctx_new key) w = (Inr res, cx', w')"
    using assms by (auto simp: https_check_def check_detailed_def ctx_finish_def into_result_def
        split: sum.splits prod.splits)
  then obtain original pl s cx0 w0 cx3 where p: "plan_of cfg key fp = Inr pl"
      and f: "https_fetch ops exec cfg original pl original 0 False (first_method cfg pl) cx0 w = (Inr s, cx3, w0)"
      and st: "fst (settle ops hex cfg fp original pl s cx3) = Inr res"
    by (fastforce simp: https_run_def split: sum.splits prod.splits)
  from fetch_settled[OF f] obtain u m where ok: "settled_ok s"
      "answered exec (request_for ops pl u m) (settled_response s)" by blast
  obtain cl cx1 where cl: "https_classify (rs_headers (settled_response s)) cx3 = (Inr cl, cx1)"
    using st by (auto simp: settle_def split: sum.splits prod.splits)
  with st show thesis
    by (intro that[OF p ok cl]) (simp add: settle_def Let_def)
qed

subsection \<open>A match is evidence\<close>

fun whole_body :: "string option list \<Rightarrow> string option" where
  \<comment> \<open>the bytes of a body, when it can be read to its end\<close>
  "whole_body [] = Some []"
| "whole_body (None # rest) = None"
| "whole_body (Some chunk # rest) =
     (if chunk = [] then Some [] else map_option ((@) chunk) (whole_body rest))"

lemma read_body_whole:
  "fst (read_body limit n fed body) = Inr out \<Longrightarrow> \<exists>rest. whole_body body = Some rest \<and> out = fed @ rest"
  by (induction limit n fed body rule: read_body.induct) (fastforce simp: Let_def split: if_splits)+

definition supports :: "(string \<Rightarrow> string) \<Rightarrow> plan \<Rightarrow> http_response \<Rightarrow> fingerprint \<Rightarrow> bool" where
  \<comment> \<open>the representation in a 2xx response carries the validator of the plan\<close>
  "supports hex pl r ofp \<longleftrightarrow>
     (case pl of
        IfNoneMatch wire _ \<Rightarrow> ofp = \<lparr>fp_kind = Etag, fp_payload = wire\<rparr> \<and>
          (\<exists>raw e. set (headers_get_all ''ETag'' (rs_headers r)) = {raw} \<and> parse_etag raw = Inr e \<and>
             etag_wire e = wire)
      | IfModifiedSince date \<Rightarrow> ofp = \<lparr>fp_kind = Mtime, fp_payload = date\<rparr> \<and>
          headers_get ''Last-Modified'' (rs_headers r) = Some date
      | ImmutablePlan \<Rightarrow> ofp = \<lparr>fp_kind = Custom, fp_payload = ''immutable''\<rparr> \<and>
          cc_immutable (cache_control_parse (rs_headers r)) \<and>
          \<not> forbids_caching (cache_control_parse (rs_headers r))
      | ContentHashPlan h \<Rightarrow> ofp = \<lparr>fp_kind = ContentHash, fp_payload = hash_display h\<rparr> \<and>
          (\<exists>body fed. rs_body r = Some body \<and> whole_body body = Some fed \<and>
             h = \<lparr>algo = Blake3, digest_hex = hex fed\<rparr>))"

lemma decide_ok_supports:
  assumes "fst (decide_ok ops hex cfg original pl cl r cx2) = Inr (ProbeMatch ofp tc)"
    and cl: "https_classify (rs_headers r) cx = (Inr cl, cx1)"
  shows "supports hex pl r ofp"
proof (cases pl)
  case (IfNoneMatch wire weak)
  with assms(1) obtain e where "cl_etag cl = Some e" "etag_wire e = wire"
      "ofp = \<lparr>fp_kind = Etag, fp_payload = wire\<rparr>"
    by (auto simp: decide_ok_def decide_etag_def Let_def split: option.splits if_splits)
  with classify_Inr(3)[OF cl] show ?thesis by (auto simp: supports_def IfNoneMatch)
next
  case (IfModifiedSince date)
  with assms(1) have "cl_last_modified cl = Some date" "ofp = \<lparr>fp_kind = Mtime, fp_payload = date\<rparr>"
    by (auto simp: decide_ok_def decide_last_modified_def Let_def split: option.splits if_splits)
  with classify_Inr(4)[OF cl] show ?thesis by (auto simp: supports_def IfModifiedSince)
next
  case ImmutablePlan
  with assms(1) classify_Inr(1)[OF cl] show ?thesis
    by (auto simp: supports_def decide_ok_def decide_immutable_def split: if_splits)
next
  case (ContentHashPlan h)
  with assms(1) obtain body fed where b: "rs_body r = Some body"
      "fst (read_body (hc_max_fetch_bytes cfg) 0 [] body) = Inr fed"
      "h = \<lparr>algo = Blake3, digest_hex = hex fed\<rparr>" "ofp = \<lparr>fp_kind = ContentHash, fp_payload = hash_display h\<rparr>"
    by (auto simp: decide_ok_def decide_content_hash_def Let_def split: option.splits sum.splits prod.splits if_splits)
  with read_body_whole[OF b(2)] show ?thesis by (auto simp: supports_def ContentHashPlan)
qed

lemma match_evidence:
  assumes "https_check ops hex exec cfg w key fp ttl = ProbeMatch ofp tc"
  shows "\<exists>pl u m r. plan_of cfg key fp = Inr pl \<and> answered exec (request_for ops pl u m) r \<and>
    (rs_status r = 304 \<and> ofp = fp \<or>
     200 \<le> rs_status r \<and> rs_status r \<le> 299 \<and> supports hex pl r ofp)"
proof -
  obtain original pl s u m cl cx cx1 cx2 where
    p: "plan_of cfg key fp = Inr pl" "settled_ok s"
      "answered exec (request_for ops pl u m) (settled_response s)"
      "https_classify (rs_headers (settled_response s)) cx = (Inr cl, cx1)"
      "fst (case s of NotModified _ \<Rightarrow> (Inr (decide_not_modified fp pl cl), cx2)
      | Representation r \<Rightarrow> decide_ok ops hex cfg original pl cl r cx2) = Inr (ProbeMatch ofp tc)"
    using assms by (rule run_decided) simp
  show ?thesis
  proof (cases s)
    case (NotModified r)
    with p show ?thesis by (auto simp: settled_ok_def decide_not_modified_def)
  next
    case (Representation r)
    with p have "supports hex pl r ofp"
      by (intro decide_ok_supports) auto
    with p Representation show ?thesis by (auto simp: settled_ok_def)
  qed
qed

text \<open>C30: The https probe says a dependency matches only on evidence from the server: either it
  answered one of the probe's requests with 304, and the recorded fingerprint is reported back, or
  it answered with a representation that carries the recorded validator - a single entity tag with
  the recorded wire form, the recorded Last-Modified date, an undisputed immutable directive, or
  octets, read to the end, whose digest is the recorded one. No network failure, other status,
  malformed or ambiguous header ever counts as a match.\<close>

theorem https_match_is_evidence:
  assumes "https_check ops hex exec cfg w key fp ttl = ProbeMatch ofp tc"
  shows "\<exists>pl u m r. plan_of cfg key fp = Inr pl \<and> answered exec (request_for ops pl u m) r \<and>
    (rs_status r = 304 \<and> ofp = fp \<or>
     200 \<le> rs_status r \<and> rs_status r \<le> 299 \<and> supports hex pl r ofp)"
  using assms by (rule match_evidence)

subsection \<open>Trust classes\<close>

lemma decided_class:
  assumes "fst (case s of NotModified _ \<Rightarrow> (Inr (decide_not_modified fp pl cl), cx2)
      | Representation r \<Rightarrow> decide_ok ops hex cfg original pl cl r cx2) = Inr res"
    and "res = ProbeMatch ofp tc \<or> res = ProbeDrift ofp tc"
    and cl: "https_classify h cx = (Inr cl, cx1)"
  shows "forbids_caching (cl_cache_control cl) \<Longrightarrow> tc = Volatile"
    and "tc = Exact \<Longrightarrow> \<exists>h. pl = ContentHashPlan h"
  using assms(1,2) classify_Inr(2)[OF cl]
  by (cases s; cases pl; auto simp: decide_not_modified_def decide_ok_def decide_etag_def
      decide_last_modified_def decide_immutable_def decide_content_hash_def class_of_def Let_def
      split: option.splits if_splits sum.splits prod.splits)+

text \<open>The class a verdict of the https probe carries is bounded by what the server says: when
  the settled response forbids caching the class is Volatile, whatever validators it carries, and
  the class Exact is only given to a dependency recorded by content hash.\<close>

theorem https_class_bounded:
  assumes "https_check ops hex exec cfg w key fp ttl = res"
    and "res = ProbeMatch ofp tc \<or> res = ProbeDrift ofp tc"
  shows "\<exists>pl u m r. plan_of cfg key fp = Inr pl \<and> answered exec (request_for ops pl u m) r \<and>
    (forbids_caching (cache_control_parse (rs_headers r)) \<longrightarrow> tc = Volatile) \<and>
    (tc = Exact \<longrightarrow> (\<exists>h. pl = ContentHashPlan h))"
proof -
  obtain original pl s u m cl cx cx1 cx2 where
    p: "plan_of cfg key fp = Inr pl" "settled_ok s"
      "answered exec (request_for ops pl u m) (settled_response s)"
      and cl: "https_classify (rs_headers (settled_response s)) cx = (Inr cl, cx1)"
      and d: "fst (case s of NotModified _ \<Rightarrow> (Inr (decide_not_modified fp pl cl), cx2)
      | Representation r \<Rightarrow> decide_ok ops hex cfg original pl cl r cx2) = Inr res"
    using assms(1) by (rule run_decided) (use assms(2) in auto)
  from decided_class[OF d assms(2) cl] classify_Inr(1)[OF cl] p(1,3) show ?thesis by auto
qed

subsection \<open>Bounded and on TLS\<close>

definition recording :: "'w transport \<Rightarrow> ('w \<times> http_request list) transport" where
  \<comment> \<open>the transport with a record of what it was asked\<close>
  "recording exec s req = (case exec (fst s) req of (a, w) \<Rightarrow> (a, (w, snd s @ [req])))"

definition tls_request :: "'u url_ops \<Rightarrow> plan \<Rightarrow> http_request \<Rightarrow> bool" where
  "tls_request ops pl q \<longleftrightarrow> (\<exists>u m. u_scheme ops u = ''https'' \<and> q = request_for ops pl u m)"

lemma tls_requestI [simp]: "u_scheme ops u = ''https'' \<Longrightarrow> tls_request ops pl (request_for ops pl u m)"
  unfolding tls_request_def by blast

definition fetch_inv ::
  "'u url_ops \<Rightarrow> https_config \<Rightarrow> plan \<Rightarrow> 'u \<Rightarrow> u8 \<Rightarrow> bool \<Rightarrow> http_method \<Rightarrow> probe_ctx
     \<Rightarrow> 'w \<times> http_request list \<Rightarrow> bool" where
  "fetch_inv ops cfg pl current hops retried m cx s \<longleftrightarrow>
     u_scheme ops current = ''https'' \<and> hops \<le> hc_max_redirects cfg \<and>
     length (snd s) = unat hops + (if retried then 1 else 0) \<and>
     cost_requests (cx_cost cx) = word_of_nat (length (snd s)) \<and>
     list_all (tls_request ops pl) (snd s)"

definition fetch_post ::
  "'u url_ops \<Rightarrow> https_config \<Rightarrow> plan \<Rightarrow> 'r \<times> probe_ctx \<times> 'w \<times> http_request list \<Rightarrow> bool" where
  "fetch_post ops cfg pl res \<longleftrightarrow>
     (case res of (_, cx, _, seen) \<Rightarrow>
        length seen \<le> unat (hc_max_redirects cfg) + 2 \<and>
        cost_requests (cx_cost cx) = word_of_nat (length seen) \<and> list_all (tls_request ops pl) seen)"

lemma cost_diag [simp]: "cx_cost (ctx_diag code d cx) = cx_cost cx"
  by (simp add: ctx_diag_def)

lemma cost_count [simp]:
  "cost_requests (cx_cost (count_request cx)) = cost_requests (cx_cost cx) + 1"
  by (simp add: count_request_def ctx_cost_def)

lemma cost_follow [simp]: "cost_requests (cx_cost (follow ops u v hops cx)) = cost_requests (cx_cost cx)"
  by (simp add: follow_def ctx_cost_def Let_def)

lemma cost_refuse: "refuse_status r cx = (u, cx') \<Longrightarrow> cost_requests (cx_cost cx') = cost_requests (cx_cost cx)"
  by (auto simp: refuse_status_def ctx_cost_def Let_def split: if_splits)

lemma next_hop_tls:
  "resolve_next_hop ops current loc = Inr nxt \<Longrightarrow> u_scheme ops current = ''https'' \<Longrightarrow>
     u_scheme ops nxt = ''https''"
  by (auto simp: resolve_next_hop_def split: option.splits if_splits)

lemma fetch_inv_post:
  "fetch_inv ops cfg pl current hops retried m cx s \<Longrightarrow>
   recording exec s (request_for ops pl current m) = (a, s') \<Longrightarrow>
   cost_requests (cx_cost cx') = cost_requests (cx_cost cx) + 1 \<Longrightarrow> fetch_post ops cfg pl (x, cx', s')"
  by (auto simp: fetch_inv_def fetch_post_def recording_def word_le_nat_alt
      split: prod.splits)

lemma fetch_bounded:
  assumes "fetch_inv ops cfg pl current hops retried m cx s"
  shows "fetch_post ops cfg pl
    (https_fetch ops (recording exec) cfg original pl current hops retried m cx s)"
  using assms
proof (rule fetch_rule[where I = "fetch_inv ops cfg pl"])
  fix current hops retried m cx w r w' nxt
  assume "fetch_inv ops cfg pl current hops retried m cx w"
    "recording exec w (request_for ops pl current m) = (Inr r, w')"
    "hops < hc_max_redirects cfg"
    "resolve_next_hop ops current (headers_get ''Location'' (rs_headers r)) = Inr nxt"
  then show "fetch_inv ops cfg pl nxt (hops + 1) retried m
      (follow ops original nxt (hops + 1) (count_request cx)) w'"
    by (auto simp: fetch_inv_def recording_def unat_next_hop word_le_nat_alt
        word_less_nat_alt dest: next_hop_tls split: prod.splits)
next
  fix current hops cx w r w'
  assume "fetch_inv ops cfg pl current hops False HeadMethod cx w"
    "recording exec w (request_for ops pl current HeadMethod) = (Inr r, w')"
  then show "fetch_inv ops cfg pl current hops True GetMethod (ctx_diag DxHeadNotAllowed
        ''origin rejected HEAD; retrying with GET'' (count_request cx)) w'"
    by (auto simp: fetch_inv_def recording_def split: prod.splits)
next
  fix current hops retried m cx w r w' u cx'
  assume I: "fetch_inv ops cfg pl current hops retried m cx w"
    and q: "recording exec w (request_for ops pl current m) = (Inr r, w')"
    and "(u, cx') \<in> {(unresolved_new (''redirect-chain-too-deep max-redirects='' @
           show_nat (unat (hc_max_redirects cfg))) False, count_request cx), refuse_status r (count_request cx)} \<or>
      (\<exists>refusal. u = unresolved_new (redirect_reason_token refusal) False \<and> cx' = count_request cx)"
  then have "cost_requests (cx_cost cx') = cost_requests (cx_cost cx) + 1"
    by (auto dest!: cost_refuse[OF sym])
  from fetch_inv_post[OF I q this] show "fetch_post ops cfg pl (Inl u, cx', w')" .
qed (auto intro: fetch_inv_post)

lemma classify_cost: "cx_cost (snd (https_classify h cx)) = cx_cost cx"
  by (auto simp: https_classify_def observed_etag_def Let_def split: list.split sum.split)

lemma note_cost [simp]: "cx_cost (note_representation sett pl cl cx) = cx_cost cx"
  by (auto simp: note_representation_def Let_def ctx_diag_def split: option.split)

lemma settle_keeps_requests:
  assumes "settle ops hex cfg fp original pl sett cx = (b, cx')"
  shows "cost_requests (cx_cost cx') = cost_requests (cx_cost cx)"
proof -
  obtain x cx1 where c: "https_classify (settled_headers sett) cx = (x, cx1)" by fastforce
  then have "cx_cost cx1 = cx_cost cx" using classify_cost[of "settled_headers sett" cx] by simp
  with assms c show ?thesis
    by (auto simp: settle_def Let_def decide_ok_def decide_etag_def decide_last_modified_def
        decide_immutable_def decide_content_hash_def ctx_cost_def
        split: sum.splits settled.splits plan.splits option.splits if_splits prod.splits)
qed

text \<open>C31: A check of an https dependency (or of any dependency under the default configuration, which
  refuses cleartext keys) sends at most two requests more than the redirect budget, all of them
  read-only requests over TLS that carry nothing but the planned validator; no redirect chain can
  lead it down to cleartext, and the reported cost is the number of requests made.\<close>

theorem https_check_bounded_tls:
  assumes "\<not> hc_allow_plaintext cfg \<or> map_option (u_scheme ops) (u_parse ops key) = Some ''https''"
    and "check_detailed ops hex (recording exec) cfg key fp ttl (w, []) = (out, (w', seen))"
  shows "length seen \<le> unat (hc_max_redirects cfg) + 2 \<and>
    cost_requests (ho_cost out) = word_of_nat (length seen) \<and>
    (seen \<noteq> [] \<longrightarrow> (\<exists>pl. plan_of cfg key fp = Inr pl \<and> list_all (tls_request ops pl) seen))"
proof -
  obtain a cx where run: "https_run ops hex (recording exec) cfg key fp (ctx_new key) (w, []) = (a, cx, w', seen)"
      and out: "ho_cost out = cx_cost cx"
    using assms(2) by (auto simp: check_detailed_def ctx_finish_def split: sum.splits prod.splits)
  have zero: "cost_requests (cx_cost (ctx_new key)) = 0" by (simp add: ctx_new_def)
  show ?thesis
  proof (cases "\<exists>original cx0 pl. gate_url ops cfg key (ctx_new key) = (Inr original, cx0) \<and> plan_of cfg key fp = Inr pl")
    case False
    with run have "seen = [] \<and> cost_requests (cx_cost cx) = 0"
      by (auto simp: https_run_def gate_url_def zero split: sum.splits prod.splits option.splits if_splits)
    with out show ?thesis by simp
  next
    case True
    then obtain original cx0 pl where g: "gate_url ops cfg key (ctx_new key) = (Inr original, cx0)"
      and p: "plan_of cfg key fp = Inr pl" by blast
    from g assms(1) zero have "u_scheme ops original = ''https''" "cost_requests (cx_cost cx0) = 0"
      by (auto simp: gate_url_def split: option.splits if_splits)
    then have "fetch_inv ops cfg pl original 0 False (first_method cfg pl) cx0 (w, [])"
      by (simp add: fetch_inv_def)
    note post = fetch_bounded[OF this, of exec original]
    obtain b cx1 s1 where f: "https_fetch ops (recording exec) cfg original pl original 0 False
        (first_method cfg pl) cx0 (w, []) = (b, cx1, s1)" by (metis prod_cases3)
    have "cost_requests (cx_cost cx) = cost_requests (cx_cost cx1) \<and> s1 = (w', seen)"
      using run by (auto simp: https_run_def g p f Let_def settle_keeps_requests split: sum.splits prod.splits)
    with post p out show ?thesis
      by (auto simp: f fetch_post_def)
  qed
qed

subsection \<open>Two gaps\<close>

text \<open>
  A 304 is trusted even when the request carried no condition: a dependency recorded by content
  hash is then reported as an exact match although no octet was hashed.
\<close>

text \<open>When the first answer to a check of a dependency recorded by content hash is 304 with no
  caching header, the verdict is a match at class Exact with the recorded fingerprint; no body is
  read, although the request asked nothing conditionally.\<close>

theorem unsolicited_304_is_exact:
  assumes "u_parse ops key = Some u" and "u_scheme ops u = ''https''"
    and "plan_of cfg key fp = Inr (ContentHashPlan h)"
    and "exec w (request_for ops (ContentHashPlan h) u GetMethod) = (Inr r, w')"
    and "rs_status r = 304" and "rs_headers r = []"
  shows "https_check ops hex exec cfg w key fp ttl = ProbeMatch fp Exact \<and>
    rq_headers (request_for ops (ContentHashPlan h) u GetMethod) = []"
proof -
  have "https_classify [] cx = (Inr \<lparr>cl_etag = None, cl_last_modified = None,
      cl_cache_control = cache_control_default, cl_trust_class = Volatile\<rparr>, cx)" for cx
    by (simp add: https_classify_def headers_get_all_def headers_get_def cache_control_parse_def
        observed_etag_def Let_def class_of_def forbids_caching_def cache_control_default_def)
  then show ?thesis
    using assms
    by (simp add: https_check_def check_detailed_def https_run_def gate_url_def
        https_fetch.simps[of ops exec cfg u "ContentHashPlan h" u 0 False] first_method_def Let_def
        settle_def note_representation_def headers_get_def headers_get_all_def decide_not_modified_def
        has_validator_def forbids_caching_def cache_control_default_def ctx_finish_def request_for_def)
qed

subsection \<open>Witnesses\<close>

definition plain_urls :: "string url_ops" where
  \<comment> \<open>URLs as their text, for fixtures\<close>
  "plain_urls = \<lparr>u_parse = Some, u_scheme = takeWhile (\<lambda>c. c \<noteq> CHR '':''), u_join = (\<lambda>_ l. Some l),
     u_host = (\<lambda>_. Some ''h''), u_port = (\<lambda>_. None), u_port_or_default = (\<lambda>_. Some 443),
     u_string = (\<lambda>u. u)\<rparr>"

definition reply :: "u16 \<Rightarrow> headers \<Rightarrow> string option list option \<Rightarrow> transport_error + http_response" where
  "reply st h b = Inr \<lparr>rs_status = st, rs_headers = h, rs_body = b\<rparr>"

definition weak_tag :: string where
  "weak_tag = ''W/'' @ [quote, CHR ''a'', quote]"

definition weak_fp :: fingerprint where
  "weak_fp = \<lparr>fp_kind = Etag, fp_payload = weak_tag\<rparr>"

definition moved_script :: scripted_transport where
  "moved_script = scripted_new [reply 301 [(''Location'', ''https://b/'')] None,
     reply 200 [(''ETag'', weak_tag), (''Cache-Control'', ''immutable'')] None]"

text \<open>
  The table at the head of the module says a weak tag is never \<open>versioned\<close>; next to an
  \<open>immutable\<close> directive it is.
\<close>

lemma weak_tag_can_be_versioned:
  "https_check plain_urls (\<lambda>s. s) scripted_execute https_config_default moved_script
     ''https://a/'' weak_fp None = ProbeMatch weak_fp Versioned"
  by code_simp

theorem https_match_is_evidence_witness:
  "\<exists>pl u m r. plan_of https_config_default ''https://a/'' weak_fp = Inr pl \<and>
     answered scripted_execute (request_for plain_urls pl u m) r"
  using https_match_is_evidence[OF weak_tag_can_be_versioned] by blast

theorem https_class_bounded_witness:
  "\<exists>pl u m r. plan_of https_config_default ''https://a/'' weak_fp = Inr pl \<and>
     answered scripted_execute (request_for plain_urls pl u m) r \<and>
     \<not> forbids_caching (cache_control_parse (rs_headers r))"
  using https_class_bounded[OF weak_tag_can_be_versioned, OF disjI1, OF refl] by auto

theorem https_check_bounded_tls_witness:
  "length (snd (snd (check_detailed plain_urls (\<lambda>s. s) (recording scripted_execute)
     https_config_default ''https://a/'' weak_fp None (moved_script, [])))) \<le> 7"
proof -
  obtain out w seen where r: "check_detailed plain_urls (\<lambda>s. s) (recording scripted_execute)
     https_config_default ''https://a/'' weak_fp None (moved_script, []) = (out, (w, seen))"
    by (metis prod_cases3)
  have "\<not> hc_allow_plaintext https_config_default" by (simp add: https_config_default_def)
  from https_check_bounded_tls[OF disjI1, OF this r] r show ?thesis
    by (simp add: https_config_default_def default_max_redirects_def)
qed

theorem unsolicited_304_is_exact_witness:
  "https_check plain_urls (\<lambda>s. s) scripted_execute
     (https_config_default\<lparr>hc_fallback := FallbackAlways\<rparr>) (scripted_new [reply 304 [] None])
     ''https://a/'' \<lparr>fp_kind = ContentHash, fp_payload = hash_display zero_hash\<rparr> None
   = ProbeMatch \<lparr>fp_kind = ContentHash, fp_payload = hash_display zero_hash\<rparr> Exact"
proof (rule unsolicited_304_is_exact[where r = "\<lparr>rs_status = 304, rs_headers = [], rs_body = None\<rparr>" and
      w' = "(scripted_new [])\<lparr>sc_seen := [request_for plain_urls (ContentHashPlan zero_hash) ''https://a/'' GetMethod]\<rparr>",
      THEN conjunct1])
  show "u_parse plain_urls ''https://a/'' = Some ''https://a/''"
    "u_scheme plain_urls ''https://a/'' = ''https''"
    by (simp_all add: plain_urls_def)
  show "plan_of (https_config_default\<lparr>hc_fallback := FallbackAlways\<rparr>) ''https://a/''
      \<lparr>fp_kind = ContentHash, fp_payload = hash_display zero_hash\<rparr> = Inr (ContentHashPlan zero_hash)"
    by code_simp
qed (simp_all add: scripted_execute_def scripted_new_def reply_def)

end
