(* ===== verification/Graph_Queries.thy ===== *)
theory Graph_Queries
  imports Graph_Facts
begin

section \<open>What the graph answers: obligations, blast radius, silence, reproducibility\<close>

text \<open>
  The queries other components put to the derived graph of \<open>freshdag-store/src/graph.rs\<close>:
  whether a computation ran a subprocess, whether a read was internal, who consumes a
  dependency, what the absence of events means, and whether the graph depends on the physical
  order of the log.
\<close>

subsection \<open>Obligations and reads after own writes\<close>

lemma obligation_of_classify:
  "obligation_of (fst (classify msg e p w arts c)) =
     (if spawns_subprocess e
      then Some \<lparr>ob_event_id = ev_event_id e, ob_producer = ev_producer e,
             ob_tool_name = (case str_at (ev_payload e) ''tool_name'' of None \<Rightarrow> [] | Some s \<Rightarrow> s),
             ob_tool_kind = the (str_at (ev_payload e) ''tool_kind'')\<rparr>
      else None)"
proof (cases "ev_kind e = ToolInvoked")
  case True
  then show ?thesis
    by (auto simp: classify_def classify_tool_def spawns_subprocess_def split: option.splits)
next
  case False
  have "obligation_of (classify_read msg e p w arts c) = None"
    by (auto simp: classify_read_def Let_def split: sum.splits typed_payload.splits option.splits)
  moreover have "obligation_of (fst (classify_write msg e w)) = None"
    by (auto simp: classify_write_def Let_def split: sum.splits typed_payload.splits)
  moreover have "obligation_of (classify_probe e) = None"
    by (auto simp: classify_probe_def Let_def split: sum.splits option.splits)
  moreover have "obligation_of (classify_artifact e) = None"
    by (auto simp: classify_artifact_def split: option.splits)
  ultimately show ?thesis
    using False by (auto simp: classify_def spawns_subprocess_def split: event_kind.splits)
qed

lemma map_obligations:
  "map ob_event_id (List.map_filter (obligation_of \<circ> snd) (own_outcomes msg arts c w pes)) =
     map ev_event_id (filter spawns_subprocess (map snd pes))"
  by (induction pes arbitrary: w) (auto simp: obligation_of_classify)

lemma node_obligations:
  assumes "graph_computation (replay msg es cov) c = Some n"
  shows "map ob_event_id (cn_obligations n) =
      map ev_event_id (filter spawns_subprocess
        (filter (\<lambda>e. ev_computation_id e = Some c) (linearize es))) \<and>
    (has_coverage_obligation n \<longleftrightarrow>
      (\<exists>e\<in>set es. ev_computation_id e = Some c \<and> spawns_subprocess e))"
proof -
  let ?own = "filter (\<lambda>e. ev_computation_id e = Some c) (linearize es)"
  from assms have "cn_obligations n = List.map_filter (obligation_of \<circ> snd) (replay_outcomes msg es c)"
    by (auto simp: replay_node own_node_fields split: if_splits)
  then have m: "map ob_event_id (cn_obligations n) = map ev_event_id (filter spawns_subprocess ?own)"
    by (simp only: node_outcomes_def map_obligations map_snd_own_events)
  have "has_coverage_obligation n \<longleftrightarrow> map ob_event_id (cn_obligations n) \<noteq> []"
    by (simp add: has_coverage_obligation_def)
  also have "\<dots> \<longleftrightarrow> (\<exists>e\<in>set es. ev_computation_id e = Some c \<and> spawns_subprocess e)"
    unfolding m by (auto simp: filter_empty_conv)
  finally show ?thesis
    using m by blast
qed

text \<open>C38: A node lists one observation obligation for each bash or task invocation of its
  computation, in canonical order, whatever else is wrong with the event's payload, and no other;
  so a computation has an obligation exactly when the coverage check of a certificate over its
  events would ask for an observer.\<close>

theorem obligations_never_lost:
  assumes "graph_computation (replay msg es cov) c = Some n"
  shows "map ob_event_id (cn_obligations n) =
      map ev_event_id (filter spawns_subprocess
        (filter (\<lambda>e. ev_computation_id e = Some c) (linearize es))) \<and>
    (has_coverage_obligation n \<longleftrightarrow>
      (\<exists>e\<in>set es. ev_computation_id e = Some c \<and> spawns_subprocess e))"
  by (rule node_obligations[OF assms])

definition bash_event :: ir_event where
  "bash_event = \<lparr>ev_event_id = 7, ev_producer = ''adapter'', ev_producer_version = ''1'',
     ev_session_id = ''s'', ev_computation_id = Some ''comp:x'', ev_parent_id = None,
     ev_causal_inputs = None, ev_ts = 1, ev_kind = ToolInvoked,
     ev_payload = JObj [(''tool_kind'', JStr ''bash'')]\<rparr>"

theorem obligations_never_lost_witness:
  "\<exists>n. graph_computation (replay no_text [bash_event] registry_in_memory) ''comp:x'' = Some n \<and>
    has_coverage_obligation n"
proof -
  have n: "graph_computation (replay no_text [bash_event] registry_in_memory) ''comp:x'' =
      Some (own_node no_text (collect_artifact_paths [bash_event]) [bash_event] ''comp:x'')"
    by (rule replay_one_node) (simp add: bash_event_def)
  have "\<exists>e\<in>set [bash_event]. ev_computation_id e = Some ''comp:x'' \<and> spawns_subprocess e"
    by (simp add: bash_event_def spawns_subprocess_def str_at_def)
  then show ?thesis
    using obligations_never_lost[OF n] n by blast
qed

lemma write_path_written:
  "path_in q (written_before msg es c i) \<longleftrightarrow>
     (\<exists>j p. j < i \<and> j < length (filter (\<lambda>e. ev_computation_id e = Some c) (linearize es)) \<and>
        write_path msg (filter (\<lambda>e. ev_computation_id e = Some c) (linearize es) ! j) = Some p \<and>
        path_eq q p)"
proof -
  let ?own = "filter (\<lambda>e. ev_computation_id e = Some c) (linearize es)"
  have mf: "p \<in> set (List.map_filter f xs) \<longleftrightarrow> (\<exists>x\<in>set xs. f x = Some p)"
    for p and f :: "ir_event \<Rightarrow> string option" and xs
    by (induction xs) (auto split: option.splits)
  have "(\<exists>x\<in>set (take i ?own). write_path msg x = Some p) \<longleftrightarrow>
      (\<exists>j. j < i \<and> j < length ?own \<and> write_path msg (?own ! j) = Some p)" for p
    by (fastforce simp: in_set_conv_nth)
  then show ?thesis
    unfolding path_in_iff written_before_def mf[of _ "write_path msg"] Bex_def mf by metis
qed

text \<open>A read that decodes is set aside as internal exactly when the computation wrote the same
  path (compared by components) at an earlier point of the canonical order; a read before the
  first write to its path stays an external dependency if it is pure and hashed.\<close>

theorem read_after_own_write_iff:
  assumes "i < length (replay_outcomes msg es c)"
    and "decode_payload msg (fst (replay_outcomes msg es c ! i)) = Inr (FsReadPayload rd)"
  shows "((\<exists>x. snd (replay_outcomes msg es c ! i) = ExcludedOf x \<and> xe_reason x = ReadAfterOwnWrite) \<longleftrightarrow>
      (\<exists>j p. j < i \<and> write_path msg (fst (replay_outcomes msg es c ! j)) = Some p \<and>
         path_eq (fr_path rd) p)) \<and>
    ((\<exists>d. snd (replay_outcomes msg es c ! i) = EdgeOf d) \<longleftrightarrow>
      \<not> (\<exists>j p. j < i \<and> write_path msg (fst (replay_outcomes msg es c ! j)) = Some p \<and>
         path_eq (fr_path rd) p) \<and> \<not> fr_impure rd \<and> fr_hash rd \<noteq> None)"
proof -
  let ?own = "filter (\<lambda>e. ev_computation_id e = Some c) (linearize es)"
  let ?w = "written_before msg es c i" and ?arts = "collect_artifact_paths (linearize es)"
  have len: "length ?own = length (replay_outcomes msg es c)"
    by (metis length_map node_outcomes_fst)
  have own: "?own ! j = fst (replay_outcomes msg es c ! j)" if "j < length (replay_outcomes msg es c)" for j
    using that by (metis node_outcomes_fst nth_map)
  have w: "path_in (fr_path rd) ?w \<longleftrightarrow>
      (\<exists>j p. j < i \<and> write_path msg (fst (replay_outcomes msg es c ! j)) = Some p \<and> path_eq (fr_path rd) p)"
    unfolding write_path_written len by (intro iff_exI) (use assms(1) own in auto)
  obtain pos where out: "replay_outcomes msg es c ! i = (?own ! i, fst (classify msg (?own ! i) pos ?w ?arts c))"
    using replay_outcomes_nth[OF assms(1)] by blast
  have dec: "decode_payload msg (?own ! i) = Inr (FsReadPayload rd)"
    using assms(2) own[OF assms(1)] by simp
  have "snd (replay_outcomes msg es c ! i) = classify_read msg (?own ! i) pos ?w ?arts c"
    using out decode_payload_read[OF dec] by (simp add: classify_def)
  then show ?thesis
    unfolding w[symmetric]
    by (cases "fr_hash rd") (simp_all add: classify_read_def dec Let_def)
qed

definition write_event :: "uuid \<Rightarrow> instant \<Rightarrow> string \<Rightarrow> ir_event" where
  "write_event i t path = (read_event i t path)\<lparr>ev_kind := FsWrite,
     ev_payload := JObj [(''mode'', JStr ''create''), (''path'', JStr path), (''size'', JUInt 3)]\<rparr>"

definition write_then_read :: "ir_event list" where
  "write_then_read = [read_event 2 2 ''//a'', write_event 1 1 ''/a'']"

theorem read_after_own_write_iff_witness:
  "\<exists>x. snd (replay_outcomes no_text write_then_read ''comp:x'' ! 1) = ExcludedOf x \<and>
    xe_reason x = ReadAfterOwnWrite"
proof -
  let ?o = "replay_outcomes no_text write_then_read ''comp:x''"
  have len: "1 < length ?o" by code_simp
  have w: "write_path no_text (fst (?o ! 0)) = Some ''/a''" by code_simp
  have "case decode_payload no_text (fst (?o ! 1)) of
      Inr (FsReadPayload rd) \<Rightarrow> path_eq (fr_path rd) ''/a'' | _ \<Rightarrow> False"
    by code_simp
  then obtain rd where rd: "decode_payload no_text (fst (?o ! 1)) = Inr (FsReadPayload rd)"
      and "path_eq (fr_path rd) ''/a''"
    by (auto split: sum.splits typed_payload.splits)
  with w have "\<exists>j p. j < 1 \<and> write_path no_text (fst (?o ! j)) = Some p \<and> path_eq (fr_path rd) p"
    by blast
  with read_after_own_write_iff[OF len rd] show ?thesis by blast
qed

subsection \<open>Blast radius\<close>

definition consumers_at :: "consumers_map \<Rightarrow> dependency_id \<Rightarrow> computation_id list" where
  "consumers_at m i = snd (or_default ([], []) m i)"

definition add_all :: "(dependency_id \<times> string \<times> computation_id) list \<Rightarrow> consumers_map \<Rightarrow> consumers_map" where
  "add_all ts m = fold (\<lambda>(i, s, c). add_consumer i s c) ts m"

lemma add_consumer_at:
  "set (consumers_at (add_consumer i s c m) j) = set (consumers_at m j) \<union> (if j = i then {c} else {})"
  "map_of (add_consumer i s c m) j = None \<longleftrightarrow> j \<noteq> i \<and> map_of m j = None"
  by (auto simp: consumers_at_def or_default_def add_consumer_def map_of_bm_alter split: option.splits prod.splits)

lemma add_all_at:
  "set (consumers_at (add_all ts m) j) = set (consumers_at m j) \<union> {c. \<exists>s. (j, s, c) \<in> set ts}"
  "map_of (add_all ts m) j = None \<longleftrightarrow> map_of m j = None \<and> (\<forall>s c. (j, s, c) \<notin> set ts)"
proof (induction ts arbitrary: m)
  case (Cons t ts)
  obtain i s c where t: "t = (i, s, c)" by (cases t)
  {
    case 1
    show ?case using Cons.IH(1)[of "add_consumer i s c m"] by (auto simp: add_all_def t add_consumer_at)
  next
    case 2
    show ?case using Cons.IH(2)[of "add_consumer i s c m"] by (auto simp: add_all_def t add_consumer_at)
  }
qed (simp_all add: add_all_def)

lemma consumers_sorted_add:
  "(\<And>j. sorted_wrt (<) (consumers_at m j)) \<Longrightarrow> sorted_wrt (<) (consumers_at (add_consumer i s c m) j)"
proof -
  assume m: "\<And>j. sorted_wrt (<) (consumers_at m j)"
  have "consumers_at (add_consumer i s c m) i = bset (consumers_at m i @ [c])"
    by (auto simp: consumers_at_def or_default_def add_consumer_def map_of_bm_alter split: option.splits prod.splits)
  moreover have "consumers_at (add_consumer i s c m) j = consumers_at m j" if "j \<noteq> i"
    using that by (simp add: consumers_at_def or_default_def add_consumer_def map_of_bm_alter)
  ultimately show ?thesis
    using m by (cases "j = i") (simp_all add: strict_sorted_iff)
qed

lemma consumers_sorted: "(\<And>j. sorted_wrt (<) (consumers_at m j)) \<Longrightarrow> sorted_wrt (<) (consumers_at (add_all ts m) j)"
proof (induction ts arbitrary: m)
  case (Cons t ts)
  obtain i s c where t: "t = (i, s, c)" by (cases t)
  show ?case
    using Cons.IH[of "add_consumer i s c m"] consumers_sorted_add[OF Cons.prems] by (simp add: add_all_def t)
qed (simp add: add_all_def)

definition proven_triples :: "computation_node \<Rightarrow> (dependency_id \<times> string \<times> computation_id) list" where
  "proven_triples n = map (\<lambda>d. (dep_id d, dep_scheme d, cn_computation_id n)) (cn_dependencies n)"

definition unproven_triples :: "computation_node \<Rightarrow> (dependency_id \<times> string \<times> computation_id) list" where
  "unproven_triples n = List.map_filter (\<lambda>x. map_option
     (\<lambda>i. (i, case xe_scheme x of None \<Rightarrow> [] | Some s \<Rightarrow> s, cn_computation_id n)) (unproven_key x)) (cn_excluded n)"

lemma node_proven_add_all: "node_proven n m = add_all (proven_triples n) m"
  by (simp add: node_proven_def add_all_def proven_triples_def fold_map comp_def)

lemma node_unproven_add_all: "node_unproven n m = add_all (unproven_triples n) m"
proof -
  have "fold (\<lambda>x m. case unproven_key x of None \<Rightarrow> m
         | Some i \<Rightarrow> add_consumer i (case xe_scheme x of None \<Rightarrow> [] | Some s \<Rightarrow> s) c m) xs m =
      fold (\<lambda>(i, s, c). add_consumer i s c) (List.map_filter (\<lambda>x. map_option
         (\<lambda>i. (i, case xe_scheme x of None \<Rightarrow> [] | Some s \<Rightarrow> s, c)) (unproven_key x)) xs) m" for xs c
    by (induction xs arbitrary: m) (auto split: option.split)
  then show ?thesis
    by (simp add: node_unproven_def add_all_def unproven_triples_def)
qed

lemma fold_add_all: "fold (\<lambda>n. add_all (f n)) ns m = add_all (concat (map f ns)) m"
  by (induction ns arbitrary: m) (simp_all add: add_all_def)

lemma in_proven_triples:
  "(j, s, c) \<in> set (proven_triples n) \<longleftrightarrow> c = cn_computation_id n \<and>
     (\<exists>d\<in>set (cn_dependencies n). dep_id d = j \<and> s = dep_scheme d)"
  by (auto simp: proven_triples_def)

lemma in_unproven_triples:
  "(j, s, c) \<in> set (unproven_triples n) \<longleftrightarrow> c = cn_computation_id n \<and>
     (\<exists>x\<in>set (cn_excluded n). unproven_key x = Some j \<and> s = (case xe_scheme x of None \<Rightarrow> [] | Some s \<Rightarrow> s))"
proof -
  have mf: "y \<in> set (List.map_filter f xs) \<longleftrightarrow> (\<exists>x\<in>set xs. f x = Some y)"
    for y :: "dependency_id \<times> string \<times> computation_id" and f :: "excluded_edge \<Rightarrow> _" and xs
    by (induction xs) (auto split: option.splits)
  show ?thesis
    unfolding unproven_triples_def mf by auto
qed

definition reverse_entry ::
  "(computation_id, computation_node) bmap \<Rightarrow> consumers_map \<Rightarrow> consumers_map \<Rightarrow> dependency_id
     \<Rightarrow> reverse_index_entry" where
  "reverse_entry cs proven unproven i =
     (let (scheme, consuming) = or_default ([], []) proven i;
          (unproven_scheme, unproven_comps) = or_default ([], []) unproven i
      in \<lparr>ri_dependency = i,
          ri_scheme = (if scheme = [] then unproven_scheme else scheme),
          ri_consuming_computations = consuming,
          ri_consumers = artifacts_of cs consuming,
          ri_unproven_computations = unproven_comps,
          ri_unproven_consumers = artifacts_of cs unproven_comps\<rparr>)"

lemma fold_put_fun:
  "map_of (fold (\<lambda>i. bm_put i (f i)) is m) j = (if j \<in> set is then Some (f j) else map_of m j)"
  by (induction "is" arbitrary: m) auto

lemma build_reverse_index_at:
  "map_of (build_reverse_index cs) i =
     (let proven = add_all (concat (map proven_triples (bm_values cs))) [];
          unproven = add_all (concat (map unproven_triples (bm_values cs))) []
      in if map_of proven i = None \<and> map_of unproven i = None then None
         else Some (reverse_entry cs proven unproven i))"
proof -
  let ?p = "add_all (concat (map proven_triples (bm_values cs))) []"
  let ?u = "add_all (concat (map unproven_triples (bm_values cs))) []"
  have p: "fold node_proven (bm_values cs) [] = ?p" "fold node_unproven (bm_values cs) [] = ?u"
    unfolding node_proven_add_all[abs_def] node_unproven_add_all[abs_def] by (rule fold_add_all)+
  have "build_reverse_index cs =
      fold (\<lambda>i. bm_put i (reverse_entry cs ?p ?u i)) (bset (bm_keys ?p @ bm_keys ?u)) []"
    unfolding build_reverse_index_def p Let_def reverse_entry_def case_prod_beta by simp
  then show ?thesis
    by (auto simp: fold_put_fun Let_def map_of_eq_None_iff)
qed

definition consumes :: "derived_graph \<Rightarrow> computation_id \<Rightarrow> dependency_id \<Rightarrow> bool" where
  "consumes g c i \<longleftrightarrow> (\<exists>n. graph_computation g c = Some n \<and> (\<exists>d\<in>set (cn_dependencies n). dep_id d = i))"

definition may_consume :: "derived_graph \<Rightarrow> computation_id \<Rightarrow> dependency_id \<Rightarrow> bool" where
  \<comment> \<open>an observation of the key that proves nothing\<close>
  "may_consume g c i \<longleftrightarrow> (\<exists>n. graph_computation g c = Some n \<and> (\<exists>x\<in>set (cn_excluded n). unproven_key x = Some i))"

definition produces :: "derived_graph \<Rightarrow> computation_id \<Rightarrow> artifact_id \<Rightarrow> bool" where
  "produces g c a \<longleftrightarrow> (\<exists>n. graph_computation g c = Some n \<and> a \<in> set (cn_artifacts n))"

lemma replay_node_id: "graph_computation (replay msg es cov) c = Some n \<Longrightarrow> cn_computation_id n = c"
  by (auto simp: replay_node own_node_fields split: if_splits)

lemma in_bm_values: "n \<in> set (bm_values (dg_computations (replay msg es cov))) \<longleftrightarrow>
    (\<exists>c. graph_computation (replay msg es cov) c = Some n)"
  by (force simp: replay_node_in[symmetric])

lemma replay_triples:
  fixes msg es cov
  defines "g \<equiv> replay msg es cov"
  shows "(\<exists>s. (i, s, c) \<in> set (concat (map proven_triples (bm_values (dg_computations g))))) \<longleftrightarrow> consumes g c i"
    "(\<exists>s. (i, s, c) \<in> set (concat (map unproven_triples (bm_values (dg_computations g))))) \<longleftrightarrow> may_consume g c i"
proof -
  have "(\<exists>s. (i, s, c) \<in> set (concat (map f (bm_values (dg_computations g))))) \<longleftrightarrow>
      (\<exists>n c'. graph_computation g c' = Some n \<and> (\<exists>s. (i, s, c) \<in> set (f n)))" for f
  proof -
    have "(\<exists>s. (i, s, c) \<in> set (concat (map f ns))) \<longleftrightarrow> (\<exists>n\<in>set ns. \<exists>s. (i, s, c) \<in> set (f n))" for ns
      by auto
    note ex_concat = this
    show ?thesis
      unfolding ex_concat Bex_def g_def in_bm_values by blast
  qed
  note in_nodes = this
  show "(\<exists>s. (i, s, c) \<in> set (concat (map proven_triples (bm_values (dg_computations g))))) \<longleftrightarrow> consumes g c i"
    unfolding in_nodes unfolding consumes_def in_proven_triples g_def by (auto dest: replay_node_id)
  show "(\<exists>s. (i, s, c) \<in> set (concat (map unproven_triples (bm_values (dg_computations g))))) \<longleftrightarrow> may_consume g c i"
    unfolding in_nodes unfolding may_consume_def in_unproven_triples g_def by (auto dest: replay_node_id)
qed

lemma artifacts_of_set:
  "set (artifacts_of (dg_computations g) cs) = {a. \<exists>c\<in>set cs. produces g c a}"
proof -
  have "a \<in> set (case map_of (dg_computations g) c of None \<Rightarrow> [] | Some n \<Rightarrow> cn_artifacts n) \<longleftrightarrow> produces g c a"
    for c a
    by (cases "map_of (dg_computations g) c") (simp_all add: produces_def graph_computation_def)
  then show ?thesis
    by (simp add: artifacts_of_def) blast
qed

lemma consumers_at_nil: "consumers_at [] j = []"
  by (simp add: consumers_at_def or_default_def)

text \<open>C39: The blast radius of a dependency is complete and sound. There is an answer exactly when
  some computation consumes the dependency or observed it without proof; it lists exactly the
  computations with an edge on it, exactly those with an unproven observation of it, each once and
  in order, and the artifacts of exactly these computations.\<close>

theorem blast_radius_exact:
  fixes msg es cov
  defines "g \<equiv> replay msg es cov"
  shows "case blast_radius g i of
      None \<Rightarrow> \<not> (\<exists>c. consumes g c i \<or> may_consume g c i)
    | Some r \<Rightarrow> ri_dependency r = i \<and>
        set (ri_consuming_computations r) = {c. consumes g c i} \<and>
        sorted_wrt (<) (ri_consuming_computations r) \<and>
        set (ri_unproven_computations r) = {c. may_consume g c i} \<and>
        sorted_wrt (<) (ri_unproven_computations r) \<and>
        set (ri_consumers r) = {a. \<exists>c. consumes g c i \<and> produces g c a} \<and>
        set (ri_unproven_consumers r) = {a. \<exists>c. may_consume g c i \<and> produces g c a}"
proof -
  let ?nodes = "bm_values (dg_computations g)"
  let ?p = "add_all (concat (map proven_triples ?nodes)) []"
  let ?u = "add_all (concat (map unproven_triples ?nodes)) []"
  have b: "blast_radius g i = (if map_of ?p i = None \<and> map_of ?u i = None then None
      else Some (reverse_entry (dg_computations g) ?p ?u i))"
  proof -
    have "dg_reverse_index g = build_reverse_index (dg_computations g)"
      by (simp add: g_def replay_def Let_def split: prod.split)
    then show ?thesis
      by (simp only: blast_radius_def build_reverse_index_at Let_def)
  qed
  have pu: "set (consumers_at ?p i) = {c. consumes g c i}" "set (consumers_at ?u i) = {c. may_consume g c i}"
    unfolding add_all_at replay_triples[of i _ msg es cov, folded g_def] by (simp_all add: consumers_at_nil)
  have none: "map_of ?p i = None \<longleftrightarrow> \<not> (\<exists>c. consumes g c i)" "map_of ?u i = None \<longleftrightarrow> \<not> (\<exists>c. may_consume g c i)"
    unfolding add_all_at(2) using replay_triples[of i _ msg es cov, folded g_def] by (simp, metis)+
  have sorted: "sorted_wrt (<) (consumers_at ?p i)" "sorted_wrt (<) (consumers_at ?u i)"
    by (rule consumers_sorted, simp add: consumers_at_nil)+
  have e: "ri_dependency (reverse_entry cs p u i) = i"
    "ri_consuming_computations (reverse_entry cs p u i) = consumers_at p i"
    "ri_unproven_computations (reverse_entry cs p u i) = consumers_at u i"
    "ri_consumers (reverse_entry cs p u i) = artifacts_of cs (consumers_at p i)"
    "ri_unproven_consumers (reverse_entry cs p u i) = artifacts_of cs (consumers_at u i)" for cs p u
    by (simp_all add: reverse_entry_def consumers_at_def case_prod_beta)
  show ?thesis
    unfolding b using none pu sorted by (auto simp: e artifacts_of_set)
qed

subsection \<open>Reproducibility\<close>

text \<open>C34: When the graph of a log reports itself deterministic, replaying any physical order of the
  same events against the same registry gives the same graph, nodes, indexes, attribution and
  defects included.\<close>

theorem replay_order_independent:
  assumes "dg_deterministic (replay msg es cov)" and "mset es' = mset es"
  shows "replay msg es' cov = replay msg es cov"
proof -
  have "is_deterministic (linearize_checked es)"
    using assms(1) by (simp add: replay_def Let_def split: prod.splits)
  then have "linearize es' = linearize es"
    using deterministic_iff assms(2) by (intro linearize_order_independent) blast+
  then have "linearize_checked es' = linearize_checked es"
    by (simp add: linearize_checked_def)
  then show ?thesis by (simp add: replay_def)
qed

theorem replay_order_independent_witness:
  "replay no_text [bash_event, read_event 1 5 ''/a''] registry_in_memory =
   replay no_text [read_event 1 5 ''/a'', bash_event] registry_in_memory"
proof (rule replay_order_independent)
  have "is_deterministic (linearize_checked [read_event 1 5 ''/a'', bash_event])"
    unfolding deterministic_iff by (simp add: read_event_def bash_event_def)
  then show "dg_deterministic (replay no_text [read_event 1 5 ''/a'', bash_event] registry_in_memory)"
    by (simp add: replay_def Let_def split: prod.splits)
qed simp

subsection \<open>Silence\<close>

lemma fold_notes_dom:
  "map_of (fold (\<lambda>(kind, note). bm_alter kind [] (\<lambda>ns. ns @ [note])) ps m) k = None \<longleftrightarrow>
     map_of m k = None \<and> k \<notin> fst ` set ps"
  by (induction ps arbitrary: m) (auto simp: map_of_bm_alter split: if_splits)

lemma fold_notes_nonempty:
  "(\<And>k ns. map_of m k = Some ns \<Longrightarrow> ns \<noteq> []) \<Longrightarrow>
   map_of (fold (\<lambda>(kind, note). bm_alter kind [] (\<lambda>ns. ns @ [note])) ps m) k = Some ns \<Longrightarrow> ns \<noteq> []"
proof (induction ps arbitrary: m)
  case (Cons p ps)
  have "\<And>k ns. map_of (bm_alter (fst p) [] (\<lambda>ns. ns @ [snd p]) m) k = Some ns \<Longrightarrow> ns \<noteq> []"
    using Cons.prems(1) by (auto simp: map_of_bm_alter split: if_splits)
  from Cons.IH[OF this] Cons.prems(2) show ?case by (simp add: case_prod_beta)
qed simp

definition note_step ::
  "coverage_registry \<Rightarrow> coverage_entry \<Rightarrow> (string, partial_coverage list) bmap
     \<Rightarrow> (string, partial_coverage list) bmap" where
  "note_step registry entry notes =
     (case registry_manifest registry (ProducerKey (ce_producer entry) (ce_version entry)) of
        None \<Rightarrow> notes
      | Some manifest \<Rightarrow>
          fold (\<lambda>(kind, note). bm_alter kind [] (\<lambda>ns. ns @ [note])) (cm_partial manifest) notes)"

lemma partial_notes_steps: "partial_notes_of registry entries = fold (note_step registry) entries []"
  unfolding partial_notes_of_def note_step_def[abs_def] ..

lemma fold_note_step_dom:
  "map_of (fold (note_step r) entries m) k = None \<longleftrightarrow>
     map_of m k = None \<and>
     (\<forall>e\<in>set entries. \<forall>mf. registry_manifest r (ProducerKey (ce_producer e) (ce_version e)) = Some mf \<longrightarrow>
        k \<notin> fst ` set (cm_partial mf))"
  by (induction entries arbitrary: m) (auto simp: note_step_def fold_notes_dom split: option.splits)

lemma fold_note_step_nonempty:
  "(\<And>k ns. map_of m k = Some ns \<Longrightarrow> ns \<noteq> []) \<Longrightarrow>
   map_of (fold (note_step r) entries m) k = Some ns \<Longrightarrow> ns \<noteq> []"
proof (induction entries arbitrary: m)
  case (Cons e entries)
  have "\<And>k ns. map_of (note_step r e m) k = Some ns \<Longrightarrow> ns \<noteq> []"
    using Cons.prems(1) fold_notes_nonempty[of m] by (auto simp: note_step_def split: option.splits)
  with Cons.IH[of "note_step r e m"] Cons.prems(2) show ?case by simp
qed simp

lemma sort_dedup_Nil: "sort_dedup_notes ns = [] \<longleftrightarrow> ns = []"
  unfolding sort_dedup_notes_def remdups_adj_Nil_iff by (metis set_empty set_sort)

definition emitters :: "ir_event list \<Rightarrow> computation_id \<Rightarrow> producer_key set" where
  "emitters es c = key_of_event ` {e \<in> set es. ev_computation_id e = Some c}"

lemma coverage_of_linearized:
  assumes "registry_ok r"
  shows "cc_unregistered (computation_coverage_of r (linearize es) c) = [] \<longleftrightarrow>
      (\<forall>p\<in>emitters es c. registry_manifest r p \<noteq> None)"
    and "cc_covers (computation_coverage_of r (linearize es) c) k \<longleftrightarrow>
      (\<exists>p\<in>emitters es c. \<exists>m. registry_manifest r p = Some m \<and> manifest_covers m k)"
    and "map_of (cc_partial_notes (computation_coverage_of r (linearize es) c)) w = None \<longleftrightarrow>
      (\<forall>p\<in>emitters es c. \<forall>m. registry_manifest r p = Some m \<longrightarrow> w \<notin> fst ` set (cm_partial m))"
proof -
  define ks where "ks = map key_of_event (filter (\<lambda>e. ev_computation_id e = Some c) (linearize es))"
  have ks: "set ks = emitters es c"
    by (auto simp: ks_def emitters_def)
  have l: "coverage_for_computation r (linearize es) c = registry_lookup r ks"
    by (simp add: coverage_for_computation_def ks_def)
  show "cc_unregistered (computation_coverage_of r (linearize es) c) = [] \<longleftrightarrow>
      (\<forall>p\<in>emitters es c. registry_manifest r p \<noteq> None)"
    using lookup_unregistered_in[of _ r ks]
    by (auto simp: computation_coverage_of_def l ks registry_lookup_eq filter_empty_conv)
  have key: "ProducerKey (ce_producer (entry_from_manifest m)) (ce_version (entry_from_manifest m)) = p"
    if "registry_manifest r p = Some m" for p m
    using registry_ok_key[OF assms that] by (simp add: key_of_manifest_def)
  show "cc_covers (computation_coverage_of r (linearize es) c) k \<longleftrightarrow>
      (\<exists>p\<in>emitters es c. \<exists>m. registry_manifest r p = Some m \<and> manifest_covers m k)"
    unfolding cc_covers_def list_ex_iff computation_coverage_of_def Let_def l
    by (simp add: lookup_entries_in ks Bex_def)
       (metis entry_from_manifest_agree(1))
  have "map_of (cc_partial_notes (computation_coverage_of r (linearize es) c)) w = None \<longleftrightarrow>
      map_of (partial_notes_of r (lk_entries (registry_lookup r ks))) w = None"
    by (simp add: computation_coverage_of_def Let_def l bm_keys_map_snd)
  also have "\<dots> \<longleftrightarrow> (\<forall>p\<in>emitters es c. \<forall>m. registry_manifest r p = Some m \<longrightarrow> w \<notin> fst ` set (cm_partial m))"
    unfolding partial_notes_steps fold_note_step_dom Ball_def lookup_entries_in ks
    using key by (simp, metis option.inject)
  finally show "map_of (cc_partial_notes (computation_coverage_of r (linearize es) c)) w = None \<longleftrightarrow>
      (\<forall>p\<in>emitters es c. \<forall>m. registry_manifest r p = Some m \<longrightarrow> w \<notin> fst ` set (cm_partial m))" .
qed

lemma replay_attribution:
  "graph_attribution (replay msg es cov) c =
     (if graph_computation (replay msg es cov) c = None then None
      else Some (computation_coverage_of cov (linearize es) c))"
proof -
  have "dg_attribution (replay msg es cov) =
      build_attribution (dg_computations (replay msg es cov)) (linearize es) cov"
    by (simp add: replay_def Let_def split: prod.split)
  then show ?thesis
    by (auto simp: graph_attribution_def build_attribution_def fold_put_fun graph_computation_def
        map_of_eq_None_iff)
qed

lemma interpret_silence_absent:
  "interpret_silence (computation_coverage_of r events c) k = ObservedAbsent \<longleftrightarrow>
     cc_unregistered (computation_coverage_of r events c) = [] \<and>
     cc_covers (computation_coverage_of r events c) k \<and>
     map_of (cc_partial_notes (computation_coverage_of r events c)) (event_wire k) = None"
proof -
  have "ns \<noteq> []" if "map_of (cc_partial_notes (computation_coverage_of r events c)) w = Some ns" for w ns
    using that fold_note_step_nonempty[of "[]" r]
    by (auto simp: computation_coverage_of_def Let_def bm_keys_map_snd partial_notes_steps sort_dedup_Nil)
  then show ?thesis
    by (auto simp: interpret_silence_def split: option.splits)
qed

lemma silence_eq:
  "silence (replay msg es cov) c k =
     (if (\<exists>e\<in>set es. ev_computation_id e = Some c) \<and>
         \<not> (\<exists>e\<in>set es. ev_computation_id e = Some c \<and> ev_kind e = k)
      then Some (interpret_silence (computation_coverage_of cov (linearize es) c) k) else None)"
proof (cases "graph_computation (replay msg es cov) c")
  case None
  then have "\<not> (\<exists>e\<in>set es. ev_computation_id e = Some c)"
    by (auto simp: replay_node own_events_empty split: if_splits)
  with None show ?thesis by (auto simp: silence_def graph_computation_def)
next
  case (Some n)
  then have own: "\<exists>e\<in>set es. ev_computation_id e = Some c"
    and n: "n = own_node msg (collect_artifact_paths (linearize es)) (linearize es) c"
    by (auto simp: replay_node own_events_empty split: if_splits)
  have "count_of n k = 0 \<longleftrightarrow> \<not> (\<exists>e\<in>set es. ev_computation_id e = Some c \<and> ev_kind e = k)"
    by (auto simp: n own_node_count filter_empty_conv)
  then show ?thesis
    using Some own replay_attribution[of msg es cov c]
    by (auto simp: silence_def graph_computation_def graph_attribution_def)
qed

text \<open>The graph takes the silence of a computation about a kind as evidence of absence exactly
  when the computation emitted something, nothing of that kind, every producer that emitted for
  it is registered, one of them emits the kind by its manifest, and none of their manifests files
  a partial declaration under the exact wire name of the kind. Declarations filed under a
  wildcard play no part.\<close>

theorem silence_absent_iff:
  assumes "registry_ok cov"
  shows "silence (replay msg es cov) c k = Some ObservedAbsent \<longleftrightarrow>
    (\<exists>e\<in>set es. ev_computation_id e = Some c) \<and>
    \<not> (\<exists>e\<in>set es. ev_computation_id e = Some c \<and> ev_kind e = k) \<and>
    (\<forall>p\<in>emitters es c. registry_manifest cov p \<noteq> None) \<and>
    (\<exists>p\<in>emitters es c. \<exists>m. registry_manifest cov p = Some m \<and> manifest_covers m k) \<and>
    (\<forall>p\<in>emitters es c. \<forall>m. registry_manifest cov p = Some m \<longrightarrow>
       event_wire k \<notin> fst ` set (cm_partial m))"
  unfolding silence_eq using coverage_of_linearized[OF assms, of es c]
  by (auto simp: interpret_silence_absent)

lemma sample_registry_ok: "registry_ok sample_registry"
  by (simp add: registry_ok_def sample_registry_def sample_manifest_def bm_ok_def)

theorem silence_absent_iff_witness:
  "silence (replay no_text [read_event 1 5 ''/a''] sample_registry) ''comp:x'' FsStat = Some ObservedAbsent"
  unfolding silence_absent_iff[OF sample_registry_ok]
  by (simp add: read_event_def emitters_def key_of_event_def registry_manifest_def sample_registry_def
      sample_manifest_def key_of_manifest_def manifest_covers_def pattern_matches_def strip_suffix_def
      starts_with_def)

definition blind_manifest :: coverage_manifest where
  \<comment> \<open>an observer that declares itself blind for every file-system kind, by a wildcard\<close>
  "blind_manifest = sample_manifest\<lparr>cm_partial := [(''fs.*'', partial_coverage_new BlindInScope ''subprocesses'')]\<rparr>"

definition blind_registry :: coverage_registry where
  "blind_registry = \<lparr>cr_path = None, cr_manifests = [(key_of_manifest blind_manifest, blind_manifest)]\<rparr>"

lemma blind_registry_ok: "registry_ok blind_registry"
  by (simp add: registry_ok_def blind_registry_def blind_manifest_def sample_manifest_def bm_ok_def)

lemma blind_silence:
  assumes "ev_kind e \<noteq> k" "ev_computation_id e = Some c" "key_of_event e = ProducerKey ''obs'' ''1''"
    and "manifest_covers blind_manifest k"
  shows "silence (replay msg [e] blind_registry) c k = Some ObservedAbsent"
proof -
  have "event_wire k \<noteq> ''fs.*''"
    using wire_no_star[of k "''fs''"] by simp
  then have "event_wire k \<notin> fst ` set (cm_partial blind_manifest)"
    by (auto simp: blind_manifest_def)
  moreover have "emitters [e] c = {ProducerKey ''obs'' ''1''}"
    using assms by (auto simp: emitters_def)
  moreover have "registry_manifest blind_registry (ProducerKey ''obs'' ''1'') = Some blind_manifest"
    by (simp add: registry_manifest_def blind_registry_def key_of_manifest_def blind_manifest_def
        sample_manifest_def)
  ultimately show ?thesis
    using interpret_silence_absent[of blind_registry "linearize [e]" c k]
      coverage_of_linearized[OF blind_registry_ok, of "[e]" c] assms
    by (simp add: silence_eq)
qed

text \<open>An observer that emits every file-system kind but declares itself blind for all of them
  under the wildcard fs.* does not discharge any of these kinds by core's rule, and yet the
  graph reads its silence about file reads as evidence that there were none.\<close>

theorem wildcard_blindness_reads_as_absence:
  "\<not> manifest_discharges blind_manifest FsRead \<and>
   silence (replay no_text [(read_event 1 5 ''/a'')\<lparr>ev_kind := FsStat\<rparr>] blind_registry) ''comp:x'' FsRead =
     Some ObservedAbsent"
proof
  show "\<not> manifest_discharges blind_manifest FsRead"
    by (simp add: manifest_discharges_def declares_dischargeable_def matching_partial_def
        blind_manifest_def partial_key_matches_def pattern_matches_def strip_suffix_def
        starts_with_def pc_discharges_def partial_coverage_new_def)
  show "silence (replay no_text [(read_event 1 5 ''/a'')\<lparr>ev_kind := FsStat\<rparr>] blind_registry) ''comp:x'' FsRead =
     Some ObservedAbsent"
    by (rule blind_silence)
       (simp_all add: read_event_def key_of_event_def manifest_covers_def blind_manifest_def
         sample_manifest_def pattern_matches_def strip_suffix_def starts_with_def)
qed

end
