(* ===== verification/Engine.thy ===== *)
theory Engine
  imports Edge_Facts Graph_Queries
begin

section \<open>The engine (\<open>crates/freshdag-engine/src/engine.rs\<close>, second half)\<close>

text \<open>
  \<open>Engine::check\<close> from an artifact id to a sealed certificate: find the computation, assemble
  the observation coverage, evaluate every edge, force conflicted edges to Unknown, collect the
  artifact-scoped reasons, rebuild the provenance from the log, and seal. The engine's state is
  its log, the graph replayed from it, the probe registry, the ledger (\<open>None\<close> once a panic under
  the lock has poisoned it) and the TTL ceiling. The clock's reading is the argument \<open>now\<close>.
\<close>

record 'w engine =
  eng_events :: "ir_event list"
  eng_graph :: derived_graph
  eng_registry :: "'w probe_registry"
  eng_ledger :: "trust_ledger option"
  eng_max_volatile_ttl :: nat

definition engine_build ::
  "(event_kind \<Rightarrow> json \<Rightarrow> string) \<Rightarrow> ir_event list \<Rightarrow> coverage_registry \<Rightarrow> 'w probe_registry
     \<Rightarrow> nat option \<Rightarrow> 'w engine" where
  \<comment> \<open>\<open>EngineBuilder::build\<close>\<close>
  "engine_build msg events coverage reg max_ttl =
     \<lparr>eng_events = events, eng_graph = replay msg events coverage, eng_registry = reg,
      eng_ledger = Some ledger_new,
      eng_max_volatile_ttl = (case max_ttl of None \<Rightarrow> default_max_volatile_ttl | Some d \<Rightarrow> d)\<rparr>"

definition engine_deregister_probe :: "probe_identity \<Rightarrow> 'w engine \<Rightarrow> bool \<times> 'w engine" where
  "engine_deregister_probe i eng =
     (let (removed, reg) = deregister_probe i (eng_registry eng) in (removed, eng\<lparr>eng_registry := reg\<rparr>))"

record check_outcome =
  chk_certificate :: certificate
  chk_events :: "ir_event list"

definition is_usable :: "validity_status \<Rightarrow> bool" where
  "is_usable s \<longleftrightarrow> s \<in> {Valid, LikelyValid}"

definition engine_coverage_entry :: coverage_entry where
  "engine_coverage_entry =
     \<lparr>ce_producer = engine_producer, ce_version = engine_version, ce_role = ProbeRole,
      ce_emits = [''probe.checked'', ''diagnostic''], ce_partial = [],
      ce_known_limitations = [''sees external state only through registered probes'']\<rparr>"

definition computation_for :: "derived_graph \<Rightarrow> artifact_id \<Rightarrow> engine_error + computation_id" where
  "computation_for g a =
     (let claimants = map cn_computation_id
            (filter (\<lambda>n. a \<in> set (cn_artifacts n)) (bm_values (dg_computations g)))
      in case claimants of
           [] \<Rightarrow> Inl (UnknownArtifact a)
         | [c] \<Rightarrow> Inr c
         | _ \<Rightarrow> Inl (AmbiguousArtifact a claimants))"

subsection \<open>Conflicts\<close>

fun update_first :: "('a \<Rightarrow> bool) \<Rightarrow> ('a \<Rightarrow> 'a) \<Rightarrow> 'a list \<Rightarrow> 'a list option" where
  \<comment> \<open>\<open>iter_mut().find(p)\<close> and an update in place; \<open>None\<close> when nothing matches\<close>
  "update_first p f [] = None"
| "update_first p f (x # xs) =
     (if p x then Some (f x # xs) else map_option (\<lambda>ys. x # ys) (update_first p f xs))"

definition conflict_detail :: "edge_conflict \<Rightarrow> string" where
  "conflict_detail x =
     (if ec_first_fingerprint x = ec_conflicting_fingerprint x
      then ''same-fingerprint trust-class conflict on `'' @ ec_dependency x @ ''`; fingerprint='' @
             fingerprint_display (ec_first_fingerprint x)
      else ''observed='' @ fingerprint_display (ec_first_fingerprint x) @ '' then='' @
             fingerprint_display (ec_conflicting_fingerprint x))"

definition force_conflict :: "edge_conflict \<Rightarrow> edge_outcome \<Rightarrow> edge_outcome" where
  "force_conflict x e =
     e\<lparr>eo_verdict := UnknownVerdict,
       eo_reason := Some (DependencyChangedDuringComputation, Some (conflict_detail x))\<rparr>"

definition conflict_diagnostic ::
  "computation_id \<Rightarrow> instant \<Rightarrow> edge_conflict \<Rightarrow> eval_state \<Rightarrow> eval_state" where
  "conflict_diagnostic c now x st =
     diagnostic c now ''graph.edge_conflict''
       [(''dependency'', JStr (ec_dependency x)),
        (''first_fingerprint'', JStr (fingerprint_display (ec_first_fingerprint x))),
        (''conflicting_fingerprint'', JStr (fingerprint_display (ec_conflicting_fingerprint x)))] st"

fun apply_conflicts ::
  "computation_id \<Rightarrow> instant \<Rightarrow> edge_conflict list \<Rightarrow> edge_outcome list \<Rightarrow> eval_state
     \<Rightarrow> engine_error + (edge_outcome list \<times> eval_state)" where
  "apply_conflicts c now [] edges st = Inr (edges, st)"
| "apply_conflicts c now (x # xs) edges st =
     (let st = conflict_diagnostic c now x st in
      case update_first (\<lambda>e. dep_key (eo_dependency e) = ec_dependency x) (force_conflict x) edges of
        None \<Rightarrow> Inl (InternalInconsistency (ConflictWithoutEdge (ec_dependency x)))
      | Some edges \<Rightarrow> apply_conflicts c now xs edges st)"

subsection \<open>Artifact-scoped reasons\<close>

definition artifact_reason :: "reason_code \<Rightarrow> string \<Rightarrow> validity_reason" where
  "artifact_reason code d = \<lparr>dependency_key = [], reason = code, detail = Some d\<rparr>"

definition missing_reasons :: "string list \<Rightarrow> validity_reason list" where
  "missing_reasons accounted_missing =
     (if accounted_missing = [] then []
      else [artifact_reason ProducerMissingFromCoverage
              (''producer='' @ join_with '','' accounted_missing)])"

definition unproven_keys :: "computation_node \<Rightarrow> string list" where
  "unproven_keys node =
     bset (map (\<lambda>x. case xe_key x of None \<Rightarrow> ''<'' @ event_wire (xe_kind x) @ ''>'' | Some k \<Rightarrow> k)
       (filter (\<lambda>x. is_unproven_dependency (xe_reason x)) (cn_excluded node)))"

definition unproven_reasons :: "computation_node \<Rightarrow> validity_reason list" where
  "unproven_reasons node =
     (if unproven_keys node = [] then []
      else [artifact_reason UnprovenDependency (''unproven='' @ join_with '','' (unproven_keys node))])"

definition deficit_details ::
  "computation_node \<Rightarrow> ir_event list \<Rightarrow> coverage_entry list \<Rightarrow> string list" where
  "deficit_details node recorded coverage =
     (let deficit = effect_deficit recorded coverage in
      (if deficit \<noteq> [] then [effect_deficit_detail deficit] else []) @
      (if cn_obligations node \<noteq> [] \<and> \<not> has_fs_covered_observer coverage
       then [obligation_detail (bset (map ob_tool_kind (cn_obligations node)))] else []))"

definition deficit_reasons ::
  "computation_node \<Rightarrow> ir_event list \<Rightarrow> coverage_entry list \<Rightarrow> validity_reason list" where
  "deficit_reasons node recorded coverage =
     (let details = deficit_details node recorded coverage in
      if details = [] then []
      else [artifact_reason CoverageDeficit (join_with ''; '' details)])"

subsection \<open>Provenance\<close>

definition artifact_event :: "ir_event list \<Rightarrow> computation_id \<Rightarrow> artifact_id \<Rightarrow> ir_event option" where
  "artifact_event events c a =
     find (\<lambda>e. ev_kind e = ArtifactProduced \<and> ev_computation_id e = Some c \<and>
        str_at (ev_payload e) ''artifact_id'' = Some a) events"

definition ok_or :: "'e \<Rightarrow> 'a option \<Rightarrow> 'e + 'a" where
  "ok_or e x = (case x of None \<Rightarrow> Inl e | Some a \<Rightarrow> Inr a)"

definition parsed_hash :: "string \<Rightarrow> hash option" where
  \<comment> \<open>\<open>Hash::from_str(s).ok()\<close>\<close>
  "parsed_hash s = (case hash_parse s of Inl _ \<Rightarrow> None | Inr h \<Rightarrow> Some h)"

definition engine_artifact_of ::
  "ir_event list \<Rightarrow> computation_id \<Rightarrow> artifact_id \<Rightarrow> engine_error + artifact" where
  "engine_artifact_of events c a =
     res_bind (ok_or (UnknownArtifact a) (artifact_event events c a)) (\<lambda>event.
     res_bind (ok_or (MalformedArtifactEvent a ''content_hash'')
       (Option.bind (str_at (ev_payload event) ''content_hash'') parsed_hash)) (\<lambda>content_hash.
     res_bind (ok_or (MalformedArtifactEvent a ''kind'') (str_at (ev_payload event) ''kind'')) (\<lambda>kind.
     Inr \<lparr>artifact_id = a, artifact_path = str_at (ev_payload event) ''path'', artifact_kind = kind,
          artifact_content_hash = content_hash,
          artifact_size = (case u64_at (ev_payload event) ''size'' of None \<Rightarrow> 0 | Some n \<Rightarrow> n)\<rparr>)))"

definition comparator_of :: "ir_event list \<Rightarrow> computation_id \<Rightarrow> artifact_id \<Rightarrow> comparator option" where
  "comparator_of events c a =
     map_option (\<lambda>name. \<lparr>cmp_name = name, cmp_config = None\<rparr>)
       (Option.bind (artifact_event events c a) (\<lambda>e. str_at (ev_payload e) ''comparator''))"

definition produced_by_of :: "computation_id \<Rightarrow> ir_event list \<Rightarrow> coverage_entry list \<Rightarrow> produced_by" where
  "produced_by_of c events coverage =
     (let started_event = find (\<lambda>e. ev_kind e = ComputationStarted) events;
          ended_event = find (\<lambda>e. ev_kind e = ComputationEnded) events;
          times = map ev_ts events;
          started = (case started_event of Some e \<Rightarrow> ev_ts e
                     | None \<Rightarrow> if times = [] then 0 else Min (set times));
          ended = (case ended_event of Some e \<Rightarrow> ev_ts e
                   | None \<Rightarrow> if times = [] then started else Max (set times));
          adapter = (case started_event of
              Some e \<Rightarrow> ev_producer e @ ''/'' @ ev_producer_version e
            | None \<Rightarrow> (case find (\<lambda>e. ce_role e = Adapter) coverage of
                  Some e \<Rightarrow> ce_producer e @ ''/'' @ ce_version e
                | None \<Rightarrow> engine_producer @ ''/'' @ engine_version))
      in \<lparr>pb_computation_id = c,
          pb_recipe = Option.bind started_event (\<lambda>e. str_at (ev_payload e) ''recipe_id''),
          pb_recipe_hash = Option.bind (Option.bind started_event
             (\<lambda>e. str_at (ev_payload e) ''recipe_hash'')) parsed_hash,
          pb_adapter = adapter, pb_started = started, pb_ended = ended\<rparr>)"

subsection \<open>The check\<close>

definition recorded_events :: "ir_event list \<Rightarrow> computation_id \<Rightarrow> ir_event list" where
  "recorded_events events c = filter (\<lambda>e. ev_computation_id e = Some c) events"

definition assembled_coverage :: "derived_graph \<Rightarrow> computation_id \<Rightarrow> coverage_entry list" where
  "assembled_coverage g c =
     (case graph_attribution g c of None \<Rightarrow> [] | Some a \<Rightarrow> cc_entries a) @ [engine_coverage_entry]"

definition accounted_missing :: "derived_graph \<Rightarrow> computation_id \<Rightarrow> string list" where
  "accounted_missing g c =
     (case graph_attribution g c of None \<Rightarrow> [] | Some a \<Rightarrow> bset (map pk_producer (cc_unregistered a)))"

definition check_seal_input ::
  "ir_event list \<Rightarrow> derived_graph \<Rightarrow> computation_id \<Rightarrow> computation_node \<Rightarrow> instant \<Rightarrow> artifact
     \<Rightarrow> edge_outcome list \<Rightarrow> ir_event list \<Rightarrow> seal_input" where
  \<comment> \<open>everything after the edges: reasons, provenance, the \<open>SealInput\<close>\<close>
  "check_seal_input events g c node now art edges emitted =
     (let recorded = recorded_events events c;
          coverage = assembled_coverage g c;
          missing = accounted_missing g c
      in \<lparr>si_artifact = art, si_produced_by = produced_by_of c recorded coverage, si_edges = edges,
          si_artifact_reasons = missing_reasons missing @ unproven_reasons node @
             deficit_reasons node recorded coverage,
          si_coverage = coverage, si_events = recorded @ emitted, si_authority = EngineAssembled,
          si_accounted_missing = missing, si_checked_at = now,
          si_comparator = comparator_of events c (artifact_id art)\<rparr>)"

definition check_node ::
  "(instant \<Rightarrow> int \<Rightarrow> instant option) \<Rightarrow> (string \<Rightarrow> string) \<Rightarrow> (certificate \<Rightarrow> string + string)
     \<Rightarrow> instant \<Rightarrow> (nat \<Rightarrow> 'w) \<Rightarrow> 'w engine \<Rightarrow> artifact_id \<Rightarrow> computation_id \<Rightarrow> computation_node
     \<Rightarrow> trust_ledger \<Rightarrow> (engine_error + check_outcome) \<times> trust_ledger" where
  \<comment> \<open>\<open>check\<close> from the evaluation of the edges on; the second component is the ledger left behind\<close>
  "check_node tadd hex to_vec now world eng a c node led =
     (let (edges, st) = evaluate_edges tadd (eng_registry eng) (eng_max_volatile_ttl eng) c now world 0
            (cn_dependencies node) \<lparr>es_ledger = led, es_emitted = [], es_sequence = 0\<rparr>
      in (res_bind (apply_conflicts c now (cn_conflicts node) edges st) (\<lambda>(edges, st).
          res_bind (engine_artifact_of (eng_events eng) c a) (\<lambda>art.
          res_bind (seal hex to_vec
            (check_seal_input (eng_events eng) (eng_graph eng) c node now art edges (es_emitted st)))
          (\<lambda>cert. Inr \<lparr>chk_certificate = cert, chk_events = es_emitted st\<rparr>))),
         es_ledger st))"

definition engine_check ::
  "(instant \<Rightarrow> int \<Rightarrow> instant option) \<Rightarrow> (string \<Rightarrow> string) \<Rightarrow> (certificate \<Rightarrow> string + string)
     \<Rightarrow> instant \<Rightarrow> (nat \<Rightarrow> 'w) \<Rightarrow> 'w engine \<Rightarrow> artifact_id
     \<Rightarrow> (engine_error + check_outcome) \<times> 'w engine" where
  "engine_check tadd hex to_vec now world eng a =
     (if \<not> dg_deterministic (eng_graph eng) then (Inl NondeterministicReplay, eng)
      else case computation_for (eng_graph eng) a of
          Inl e \<Rightarrow> (Inl e, eng)
        | Inr c \<Rightarrow>
            (case graph_computation (eng_graph eng) c of
               None \<Rightarrow> (Inl (UnknownArtifact a), eng)
             | Some node \<Rightarrow>
                 (case eng_ledger eng of
                    None \<Rightarrow> (Inl (InternalInconsistency LedgerPoisoned), eng)
                  | Some led \<Rightarrow>
                      (let (result, led) = check_node tadd hex to_vec now world eng a c node led
                       in (result, eng\<lparr>eng_ledger := Some led\<rparr>)))))"

end
