(* ===== verification/Engine_Facts.thy ===== *)
theory Engine_Facts
  imports Engine
begin

section \<open>What a check guarantees\<close>

text \<open>
  Facts about \<open>engine_check\<close> on an engine whose graph is the replay of its log: the internal
  audits are unreachable, and the status of the certificate is justified by the log, the
  registry and what the probes answered.
\<close>

subsection \<open>Nodes of a replayed graph\<close>

lemma evidence_key:
  "read_evidence msg w e d \<or> probe_evidence e d \<Longrightarrow> dep_id d = dep_key d"
  using from_scheme_key_slashes[of "''file''"]
  by (auto simp: read_evidence_def probe_evidence_def dep_id_def)

lemma node_dependency:
  assumes "graph_computation (replay msg es cov) c = Some n" "d \<in> set (cn_dependencies n)"
  shows "is_consistent d" "dep_id d = dep_key d"
proof -
  have "d \<in> set (outcome_edges (replay_outcomes msg es c))"
    using assms(2) first_by_subset[of dep_id "[]"] unfolding replay_dependencies[OF assms(1)] by auto
  from replay_edge_evidence[OF this] show "is_consistent d" "dep_id d = dep_key d"
    unfolding Let_def using evidence_wf evidence_key by blast+
qed

lemma node_dependencies_distinct:
  "graph_computation (replay msg es cov) c = Some n \<Longrightarrow> distinct (map dep_id (cn_dependencies n))"
  unfolding replay_dependencies by (rule first_by_distinct) simp

lemma node_conflict_named:
  assumes "graph_computation (replay msg es cov) c = Some n" "x \<in> set (cn_conflicts n)"
  shows "ec_dependency x \<in> dep_key ` set (cn_dependencies n)"
proof -
  have n: "n = own_node msg (collect_artifact_paths (linearize es)) (linearize es) c"
    using assms(1) by (auto simp: replay_node split: if_splits)
  then obtain d where "d \<in> set (cn_dependencies n)" "dep_id d = ec_dependency x"
    using own_node_conflicts(1)[of msg "collect_artifact_paths (linearize es)" "linearize es" c] assms(2)
    by (auto simp: list_all_iff conflict_named_def)
  with node_dependency(2)[OF assms(1)] show ?thesis by (metis imageI)
qed

subsection \<open>Conflicts\<close>

lemma update_first_None: "update_first p f xs = None \<longleftrightarrow> (\<forall>x\<in>set xs. \<not> p x)"
  by (induction xs) auto

lemma update_first_Some:
  "update_first p f xs = Some ys \<Longrightarrow> \<exists>as x bs. xs = as @ x # bs \<and> p x \<and> ys = as @ f x # bs"
proof (induction xs arbitrary: ys)
  case (Cons z zs)
  show ?case
  proof (cases "p z")
    case True
    with Cons.prems show ?thesis by (intro exI[of _ "[]"]) auto
  next
    case False
    with Cons.prems obtain vs where vs: "update_first p f zs = Some vs" "ys = z # vs" by auto
    from Cons.IH[OF vs(1)] obtain as x bs where "zs = as @ x # bs" "p x" "vs = as @ f x # bs" by blast
    with vs(2) show ?thesis by (intro exI[of _ "z # as"]) auto
  qed
qed simp

lemma force_conflict_simps [simp]:
  "eo_dependency (force_conflict x e) = eo_dependency e"
  "eo_verdict (force_conflict x e) = UnknownVerdict"
  by (simp_all add: force_conflict_def)

lemma force_conflict_wf: "edge_wf e \<Longrightarrow> edge_wf (force_conflict x e)"
  by (auto simp: edge_wf_def edge_consistent_def force_conflict_def)

lemma apply_conflicts_total:
  assumes "\<And>x. x \<in> set xs \<Longrightarrow> ec_dependency x \<in> (dep_key \<circ> eo_dependency) ` set edges"
  shows "\<exists>edges' st'. apply_conflicts c now xs edges st = Inr (edges', st')"
  using assms
proof (induction xs arbitrary: edges st)
  case (Cons x xs)
  let ?p = "\<lambda>e. dep_key (eo_dependency e) = ec_dependency x"
  have "update_first ?p (force_conflict x) edges \<noteq> None"
    using Cons.prems[of x] by (auto simp: update_first_None)
  then obtain edges' where u: "update_first ?p (force_conflict x) edges = Some edges'" by blast
  then have "(dep_key \<circ> eo_dependency) ` set edges' = (dep_key \<circ> eo_dependency) ` set edges"
    by (auto dest!: update_first_Some)
  with Cons.prems Cons.IH[of edges'] show ?case
    by (simp add: u Let_def)
qed simp

lemma apply_conflicts_ConsE:
  assumes "apply_conflicts c now (x # xs) edges st = Inr r"
  obtains as e bs where "edges = as @ e # bs"
    "apply_conflicts c now xs (as @ force_conflict x e # bs) (conflict_diagnostic c now x st) = Inr r"
  using assms by (auto simp: Let_def split: option.splits dest!: update_first_Some)

lemma apply_conflicts_facts:
  assumes "apply_conflicts c now xs edges st = Inr (edges', st')"
  shows "map eo_dependency edges' = map eo_dependency edges"
    and "es_ledger st' = es_ledger st"
    and "emitted_ok c now st \<Longrightarrow> emitted_ok c now st'"
    and "\<forall>e\<in>set edges. edge_wf e \<Longrightarrow> \<forall>e\<in>set edges'. edge_wf e"
    and "\<forall>e\<in>set edges'. e \<in> set edges \<or> eo_verdict e = UnknownVerdict"
    and "xs \<noteq> [] \<or> (\<exists>e\<in>set edges. eo_verdict e = UnknownVerdict) \<Longrightarrow>
      \<exists>e\<in>set edges'. eo_verdict e = UnknownVerdict"
  using assms
proof (induction xs arbitrary: edges st)
  case (Cons x xs)
  note step = apply_conflicts_ConsE[where x = x and xs = xs]
  {
    case 1 show ?case by (rule step[OF 1]) (use Cons.IH(1) in simp)
  next
    case 2 show ?case by (rule step[OF 2]) (use Cons.IH(2) in \<open>simp add: conflict_diagnostic_def\<close>)
  next
    case 3
    show ?case
      by (rule step[OF 3(2)], rule Cons.IH(3))
        (use 3(1) in \<open>simp_all add: conflict_diagnostic_def emitted_ok_diagnostic\<close>)
  next
    case 4
    show ?case by (rule step[OF 4(2)], rule Cons.IH(4)) (use 4(1) force_conflict_wf in auto)
  next
    case 5 show ?case by (rule step[OF 5]) (use Cons.IH(5) in fastforce)
  next
    case 6
    show ?case by (rule step[OF 6(2)], rule Cons.IH(6)) auto
  }
qed simp_all

subsection \<open>Coverage\<close>

lemma recorded_accounted:
  assumes ok: "registry_ok cov"
    and n: "graph_computation (replay msg es cov) c = Some n"
    and e: "e \<in> set (recorded_events es c)"
  shows "ev_producer e \<in> ce_producer ` set (assembled_coverage (replay msg es cov) c) \<or>
     ev_producer e \<in> set (accounted_missing (replay msg es cov) c)"
proof -
  define ks where "ks = map key_of_event (filter (\<lambda>e. ev_computation_id e = Some c) (linearize es))"
  have att: "graph_attribution (replay msg es cov) c = Some (computation_coverage_of cov (linearize es) c)"
    using n by (simp add: replay_attribution)
  have lookup: "coverage_for_computation cov (linearize es) c = registry_lookup cov ks"
    by (simp add: coverage_for_computation_def ks_def)
  have k: "key_of_event e \<in> set ks"
    using e by (auto simp: ks_def recorded_events_def)
  show ?thesis
  proof (cases "registry_manifest cov (key_of_event e)")
    case None
    with k have "key_of_event e \<in> set (lk_unregistered (registry_lookup cov ks))"
      by (simp add: lookup_unregistered_in)
    then have "pk_producer (key_of_event e) \<in> set (accounted_missing (replay msg es cov) c)"
      by (simp add: accounted_missing_def att computation_coverage_of_def Let_def lookup)
    then show ?thesis by (simp add: key_of_event_def)
  next
    case (Some m)
    with k have "entry_from_manifest m \<in> set (lk_entries (registry_lookup cov ks))"
      by (auto simp: lookup_entries_in)
    moreover have "cm_producer m = ev_producer e"
      using registry_ok_key[OF ok Some] by (simp add: key_of_manifest_def key_of_event_def)
    ultimately show ?thesis
      by (force simp: assembled_coverage_def att computation_coverage_of_def Let_def lookup)
  qed
qed

lemma accounted_missing_iff:
  assumes "graph_computation (replay msg es cov) c = Some n" "registry_ok cov"
  shows "accounted_missing (replay msg es cov) c = [] \<longleftrightarrow>
     (\<forall>p\<in>emitters es c. registry_manifest cov p \<noteq> None)"
  using assms coverage_of_linearized(1)[OF assms(2), of es c]
  by (simp add: accounted_missing_def replay_attribution)

lemma engine_entry_covers: "ce_producer ` set (assembled_coverage g c) \<supseteq> {engine_producer}"
  by (simp add: assembled_coverage_def engine_coverage_entry_def)

lemma artifact_reasons_capping:
  "r \<in> set (missing_reasons ms @ unproven_reasons node @ deficit_reasons node es cs) \<Longrightarrow>
     reason r \<in> capping_codes"
  by (auto simp: missing_reasons_def unproven_reasons_def deficit_reasons_def artifact_reason_def
      capping_codes_def Let_def split: if_splits)

lemma artifact_reasons_Nil:
  "missing_reasons ms @ unproven_reasons node @ deficit_reasons node es cs = [] \<longleftrightarrow>
     ms = [] \<and> (\<forall>x\<in>set (cn_excluded node). \<not> is_unproven_dependency (xe_reason x)) \<and>
     effect_deficit es cs = [] \<and> (cn_obligations node = [] \<or> has_fs_covered_observer cs)"
  by (auto simp: missing_reasons_def unproven_reasons_def unproven_keys_def deficit_reasons_def
      deficit_details_def Let_def filter_empty_conv)

subsection \<open>From the check to the seal\<close>

definition engine_ok :: "(event_kind \<Rightarrow> json \<Rightarrow> string) \<Rightarrow> coverage_registry \<Rightarrow> 'w engine \<Rightarrow> bool" where
  \<comment> \<open>the graph is the replay of the log, and no lock has been poisoned\<close>
  "engine_ok msg cov eng \<longleftrightarrow>
     eng_graph eng = replay msg (eng_events eng) cov \<and> eng_ledger eng \<noteq> None"

lemma engine_ok_build [simp]: "engine_ok msg cov (engine_build msg es cov reg ttl)"
  by (simp add: engine_ok_def engine_build_def)

lemma engine_ok_check: "engine_ok msg cov eng \<Longrightarrow> engine_ok msg cov (snd (engine_check tadd hex to_vec now world eng a))"
  by (auto simp: engine_ok_def engine_check_def split: sum.split option.split prod.split)

lemma engine_ok_deregister: "engine_ok msg cov eng \<Longrightarrow> engine_ok msg cov (snd (engine_deregister_probe i eng))"
  by (simp add: engine_ok_def engine_deregister_probe_def split: prod.split)

definition evaluated ::
  "(instant \<Rightarrow> int \<Rightarrow> instant option) \<Rightarrow> instant \<Rightarrow> (nat \<Rightarrow> 'w) \<Rightarrow> 'w engine \<Rightarrow> computation_id
     \<Rightarrow> computation_node \<Rightarrow> edge_outcome list \<times> eval_state" where
  \<comment> \<open>the edges as evaluated, before conflicts are applied\<close>
  "evaluated tadd now world eng c node =
     evaluate_edges tadd (eng_registry eng) (eng_max_volatile_ttl eng) c now world 0
       (cn_dependencies node) \<lparr>es_ledger = the (eng_ledger eng), es_emitted = [], es_sequence = 0\<rparr>"

lemma computation_for_Inr:
  "computation_for g a = Inr c \<longleftrightarrow>
     map cn_computation_id (filter (\<lambda>n. a \<in> set (cn_artifacts n)) (bm_values (dg_computations g))) = [c]"
  by (auto simp: computation_for_def Let_def split: list.splits)

lemma check_Inr:
  assumes ok: "engine_ok msg cov eng"
    and out: "fst (engine_check tadd hex to_vec now world eng a) = Inr out"
  obtains c n edges st art where
    "dg_deterministic (eng_graph eng)"
    "computation_for (eng_graph eng) a = Inr c"
    "graph_computation (eng_graph eng) c = Some n"
    "apply_conflicts c now (cn_conflicts n) (fst (evaluated tadd now world eng c n))
       (snd (evaluated tadd now world eng c n)) = Inr (edges, st)"
    "engine_artifact_of (eng_events eng) c a = Inr art"
    "seal hex to_vec (check_seal_input (eng_events eng) (eng_graph eng) c n now art edges (es_emitted st))
       = Inr (chk_certificate out)"
    "chk_events out = es_emitted st"
proof -
  have det: "dg_deterministic (eng_graph eng)"
    using out by (auto simp: engine_check_def split: if_splits)
  then obtain c where c: "computation_for (eng_graph eng) a = Inr c"
    using out by (auto simp: engine_check_def split: sum.splits)
  with det obtain n where n: "graph_computation (eng_graph eng) c = Some n"
    using out by (auto simp: engine_check_def split: option.splits)
  obtain led where led: "eng_ledger eng = Some led"
    using ok by (auto simp: engine_ok_def)
  have "fst (check_node tadd hex to_vec now world eng a c n led) = Inr out"
    using out by (simp add: engine_check_def det c n led case_prod_beta)
  then have "res_bind (apply_conflicts c now (cn_conflicts n) (fst (evaluated tadd now world eng c n))
       (snd (evaluated tadd now world eng c n))) (\<lambda>(edges, st).
          res_bind (engine_artifact_of (eng_events eng) c a) (\<lambda>art.
          res_bind (seal hex to_vec
            (check_seal_input (eng_events eng) (eng_graph eng) c n now art edges (es_emitted st)))
          (\<lambda>cert. Inr \<lparr>chk_certificate = cert, chk_events = es_emitted st\<rparr>))) = Inr out"
    by (simp add: check_node_def evaluated_def led case_prod_beta)
  then show thesis
    using that[OF det c n] by (auto simp: res_bind_Inr_iff)
qed

lemma check_seal_ready:
  assumes ok: "engine_ok msg cov eng" and reg: "registry_ok cov"
    and n: "graph_computation (eng_graph eng) c = Some n"
    and ap: "apply_conflicts c now (cn_conflicts n) (fst (evaluated tadd now world eng c n))
       (snd (evaluated tadd now world eng c n)) = Inr (edges, st)"
  shows "seal_ready (check_seal_input (eng_events eng) (eng_graph eng) c n now art edges (es_emitted st))"
proof -
  let ?es = "eng_events eng"
  have g: "eng_graph eng = replay msg ?es cov"
    using ok by (simp add: engine_ok_def)
  note n' = n[unfolded g]
  have "\<forall>e\<in>set (fst (evaluated tadd now world eng c n)). edge_wf e"
    using evaluate_edges_wf node_dependency(1)[OF n'] unfolding evaluated_def by blast
  then have wf: "\<forall>e\<in>set edges. edge_wf e"
    by (rule apply_conflicts_facts(4)[OF ap])
  have "emitted_ok c now (snd (evaluated tadd now world eng c n))"
    unfolding evaluated_def by (intro emitted_ok_edges emitted_ok_start)
  then have "emitted_ok c now st"
    by (rule apply_conflicts_facts(3)[OF ap])
  then have "ev_producer e = engine_producer" if "e \<in> set (es_emitted st)" for e
    using that by (auto simp: emitted_ok_def in_set_conv_nth)
  then show ?thesis
    using wf engine_entry_covers recorded_accounted[OF reg n'] artifact_reasons_capping
    unfolding seal_ready_def check_seal_input_def Let_def g
    by (auto simp: assembled_coverage_def) blast
qed

subsection \<open>Errors\<close>

lemma computation_for_node:
  assumes "computation_for (replay msg es cov) a = Inr c"
  shows "\<exists>n. graph_computation (replay msg es cov) c = Some n \<and> a \<in> set (cn_artifacts n)"
proof -
  have "c \<in> cn_computation_id ` {n \<in> set (bm_values (dg_computations (replay msg es cov))).
      a \<in> set (cn_artifacts n)}"
    using arg_cong[OF assms[unfolded computation_for_Inr], of set]
    unfolding set_map set_filter by simp
  then obtain n where "n \<in> set (bm_values (dg_computations (replay msg es cov)))" "a \<in> set (cn_artifacts n)"
      "cn_computation_id n = c"
    by blast
  then show ?thesis
    using replay_node_id by (metis in_bm_values)
qed

definition user_error :: "artifact_id \<Rightarrow> engine_error \<Rightarrow> bool" where
  \<comment> \<open>the errors that say something about the log or the question\<close>
  "user_error a e \<longleftrightarrow> e = NondeterministicReplay \<or> e = UnknownArtifact a \<or>
     (\<exists>cs. e = AmbiguousArtifact a cs \<and> 2 \<le> length cs) \<or>
     e \<in> {MalformedArtifactEvent a ''content_hash'', MalformedArtifactEvent a ''kind''}"

lemma engine_artifact_of_Inl:
  "engine_artifact_of events c a = Inl e \<Longrightarrow> user_error a e"
  by (auto simp: engine_artifact_of_def res_bind_Inl_iff ok_or_def user_error_def split: option.splits)

lemma computation_for_Inl: "computation_for g a = Inl e \<Longrightarrow> user_error a e"
  by (auto simp: computation_for_def Let_def user_error_def split: list.splits)

text \<open>On an engine whose graph is the replay of its log and whose registry files manifests
  under their own keys, a check fails only for what the log says: a log with two contents under
  one event id, an artifact no computation or several computations produced, or an artifact
  event without a hash or kind. No self-audit, coverage-assembly or structural error occurs.\<close>

theorem check_errors_are_about_the_log:
  assumes "engine_ok msg cov eng" and "registry_ok cov" and "\<And>c. \<exists>s. to_vec c = Inr s"
    and "fst (engine_check tadd hex to_vec now world eng a) = Inl e"
  shows "user_error a e"
proof (cases "dg_deterministic (eng_graph eng)")
  case False
  with assms(4) show ?thesis by (auto simp: engine_check_def user_error_def)
next
  case True
  have g: "eng_graph eng = replay msg (eng_events eng) cov"
    using assms(1) by (simp add: engine_ok_def)
  show ?thesis
  proof (cases "computation_for (eng_graph eng) a")
    case (Inl x)
    with True assms(4) computation_for_Inl show ?thesis by (auto simp: engine_check_def)
  next
    case (Inr c)
    then obtain n where n: "graph_computation (eng_graph eng) c = Some n"
      using computation_for_node unfolding g by blast
    obtain led where led: "eng_ledger eng = Some led"
      using assms(1) by (auto simp: engine_ok_def)
    let ?ev = "evaluated tadd now world eng c n"
    have "ec_dependency x \<in> (dep_key \<circ> eo_dependency) ` set (fst ?ev)" if "x \<in> set (cn_conflicts n)" for x
    proof -
      have "eo_dependency ` set (fst ?ev) = set (cn_dependencies n)"
        unfolding evaluated_def by (metis evaluate_edges_deps list.set_map)
      with node_conflict_named[OF n[unfolded g] that] show ?thesis by (metis image_comp)
    qed
    then obtain edges st where ap: "apply_conflicts c now (cn_conflicts n) (fst ?ev) (snd ?ev) = Inr (edges, st)"
      using apply_conflicts_total by blast
    have "fst (check_node tadd hex to_vec now world eng a c n led) = Inl e"
      using assms(4) by (simp add: engine_check_def True Inr n led case_prod_beta)
    then have "res_bind (engine_artifact_of (eng_events eng) c a) (\<lambda>art.
          res_bind (seal hex to_vec
            (check_seal_input (eng_events eng) (eng_graph eng) c n now art edges (es_emitted st)))
          (\<lambda>cert. Inr \<lparr>chk_certificate = cert, chk_events = es_emitted st\<rparr>)) = Inl e"
      using ap by (simp add: check_node_def evaluated_def led case_prod_beta)
    then consider "engine_artifact_of (eng_events eng) c a = Inl e"
      | art where "seal hex to_vec (check_seal_input (eng_events eng) (eng_graph eng) c n now art edges
          (es_emitted st)) = Inl e"
      by (auto simp: res_bind_Inl_iff)
    then show ?thesis
    proof cases
      case 1
      then show ?thesis by (rule engine_artifact_of_Inl)
    next
      case 2
      have "\<exists>cert. seal hex to_vec (check_seal_input (eng_events eng) (eng_graph eng) c n now art edges
          (es_emitted st)) = Inr cert"
        using check_seal_ready[OF assms(1,2) n ap] assms(3) by (rule seal_total)
      with 2 show ?thesis by simp
    qed
  qed
qed

subsection \<open>Statuses\<close>

lemma evaluate_edges_nth:
  "j < length deps \<Longrightarrow>
   \<exists>st'. fst (evaluate_edges tadd reg max_ttl c now world i deps st) ! j =
      fst (evaluate_edge tadd reg max_ttl c now (world (i + j)) (deps ! j) st')"
proof (induction deps arbitrary: i j st)
  case (Cons dep deps)
  show ?case
  proof (cases j)
    case 0
    then show ?thesis by (auto simp: Let_def case_prod_beta)
  next
    case (Suc k)
    with Cons.IH[of k "Suc i"] Cons.prems show ?thesis
      by (simp add: Let_def case_prod_beta)
  qed
qed simp

lemma evaluate_edges_length [simp]:
  "length (fst (evaluate_edges tadd reg max_ttl c now world i deps st)) = length deps"
  by (metis evaluate_edges_deps length_map)

lemma worst_edge_usable_iff:
  "worst_edge es \<in> {Valid, LikelyValid} \<longleftrightarrow>
     es \<noteq> [] \<and> (\<forall>e\<in>set es. to_status (eo_verdict e) \<in> {Valid, LikelyValid})"
proof (cases "es = []")
  case False
  have usable: "v \<in> {Valid, LikelyValid} \<longleftrightarrow> LikelyValid \<le> v" for v
    by (cases v) (simp_all add: less_eq_validity_status_def)
  from False show ?thesis
    unfolding usable by (simp add: worst_edge_def)
qed (simp add: worst_edge_def)

lemma sealed_status_usable_iff:
  "sealed_status inp \<in> {Valid, LikelyValid} \<longleftrightarrow>
     worst_edge (si_edges inp) \<in> {Valid, LikelyValid} \<and> \<not> must_cap inp"
  by (cases "worst_edge (si_edges inp)") (auto simp: sealed_status_def)

lemma usable_check:
  assumes ok: "engine_ok msg cov eng"
    and out: "fst (engine_check tadd hex to_vec now world eng a) = Inr out"
    and usable: "is_usable (st_value (ct_status (chk_certificate out)))"
  obtains c n where
    "dg_deterministic (eng_graph eng)"
    "computation_for (eng_graph eng) a = Inr c"
    "graph_computation (eng_graph eng) c = Some n"
    "ct_depends_on (chk_certificate out) = cn_dependencies n"
    "ct_observation_coverage (chk_certificate out) = assembled_coverage (eng_graph eng) c"
    "cn_conflicts n = []"
    "worst_edge (fst (evaluated tadd now world eng c n)) = st_value (ct_status (chk_certificate out))"
    "accounted_missing (eng_graph eng) c = []"
    "\<forall>x\<in>set (cn_excluded n). \<not> is_unproven_dependency (xe_reason x)"
    "effect_deficit (recorded_events (eng_events eng) c) (assembled_coverage (eng_graph eng) c) = []"
    "cn_obligations n = [] \<or> has_fs_covered_observer (assembled_coverage (eng_graph eng) c)"
    "pb_recipe_hash (ct_produced_by (chk_certificate out)) \<noteq> None"
proof -
  obtain c n edges st art where
    c: "dg_deterministic (eng_graph eng)" "computation_for (eng_graph eng) a = Inr c"
      "graph_computation (eng_graph eng) c = Some n"
    and ap: "apply_conflicts c now (cn_conflicts n) (fst (evaluated tadd now world eng c n))
       (snd (evaluated tadd now world eng c n)) = Inr (edges, st)"
    and seal: "seal hex to_vec (check_seal_input (eng_events eng) (eng_graph eng) c n now art edges
       (es_emitted st)) = Inr (chk_certificate out)"
    using ok out by (rule check_Inr)
  define inp where
    "inp = check_seal_input (eng_events eng) (eng_graph eng) c n now art edges (es_emitted st)"
  note fields = sealed_fields[OF seal[folded inp_def]]
  have inp: "si_edges inp = edges" "si_coverage inp = assembled_coverage (eng_graph eng) c"
    "si_artifact_reasons inp = missing_reasons (accounted_missing (eng_graph eng) c) @ unproven_reasons n @
       deficit_reasons n (recorded_events (eng_events eng) c) (assembled_coverage (eng_graph eng) c)"
    by (simp_all add: inp_def check_seal_input_def Let_def)
  have w: "worst_edge edges \<in> {Valid, LikelyValid}" "\<not> must_cap inp"
    using usable sealed_status_usable_iff[of inp] by (simp_all add: is_usable_def fields(1) inp(1))
  then have st: "st_value (ct_status (chk_certificate out)) = worst_edge edges"
    by (simp add: fields(1) sealed_status_def inp(1))
  have none: "si_artifact_reasons inp = []"
  proof (rule ccontr)
    assume "si_artifact_reasons inp \<noteq> []"
    then obtain r where "r \<in> set (si_artifact_reasons inp)" by (cases "si_artifact_reasons inp") auto
    moreover from this have "reason r \<in> capping_codes"
      unfolding inp by (rule artifact_reasons_capping)
    ultimately show False using w(2) by (auto simp: must_cap_def)
  qed
  have "\<forall>e\<in>set edges. to_status (eo_verdict e) \<in> {Valid, LikelyValid}"
    using w(1) unfolding worst_edge_usable_iff by blast
  then have "\<not> (\<exists>e\<in>set edges. eo_verdict e = UnknownVerdict)"
    by force
  with apply_conflicts_facts(6)[OF ap] have nc: "cn_conflicts n = []" by blast
  with ap have edges: "edges = fst (evaluated tadd now world eng c n)" by simp
  have deps: "ct_depends_on (chk_certificate out) = cn_dependencies n"
    by (simp add: fields(3) inp(1) edges evaluated_def)
  have recipe: "pb_recipe_hash (ct_produced_by (chk_certificate out)) \<noteq> None"
    using w(2) by (simp add: must_cap_def fields(4))
  from none[unfolded inp artifact_reasons_Nil] show thesis
    using that[OF c deps fields(2)[unfolded inp] nc] st recipe by (simp add: edges)
qed

text \<open>C28: A certificate with a usable status (Valid or LikelyValid) is never issued over
  incomplete evidence. The log replays deterministically; exactly one computation produced the
  artifact; it has dependencies and no dependency changed while it ran; every observation it made
  is a proved dependency or none at all; every producer that reported on it has registered its
  coverage; every effect kind it exhibited is covered; if it ran a subprocess an observer watched
  the file system; its recipe is known; and no dependency is known to have drifted.\<close>

theorem check_usable_sound:
  assumes "engine_ok msg cov eng" and "registry_ok cov"
    and "fst (engine_check tadd hex to_vec now world eng a) = Inr out"
    and "is_usable (st_value (ct_status (chk_certificate out)))"
  shows "\<exists>c n. dg_deterministic (eng_graph eng) \<and>
    map cn_computation_id (filter (\<lambda>n. a \<in> set (cn_artifacts n)) (bm_values (dg_computations (eng_graph eng)))) = [c] \<and>
    graph_computation (eng_graph eng) c = Some n \<and>
    ct_depends_on (chk_certificate out) = cn_dependencies n \<and> cn_dependencies n \<noteq> [] \<and>
    cn_conflicts n = [] \<and>
    (\<forall>x\<in>set (cn_excluded n). \<not> is_unproven_dependency (xe_reason x)) \<and>
    (\<forall>e\<in>set (eng_events eng). ev_computation_id e = Some c \<longrightarrow> registry_manifest cov (key_of_event e) \<noteq> None) \<and>
    effect_deficit (recorded_events (eng_events eng) c) (ct_observation_coverage (chk_certificate out)) = [] \<and>
    (has_coverage_obligation n \<longrightarrow> has_fs_covered_observer (ct_observation_coverage (chk_certificate out))) \<and>
    pb_recipe_hash (ct_produced_by (chk_certificate out)) \<noteq> None \<and>
    (\<forall>e\<in>set (fst (evaluated tadd now world eng c n)). to_status (eo_verdict e) \<in> {Valid, LikelyValid})"
proof -
  obtain c n where
    c: "dg_deterministic (eng_graph eng)" "computation_for (eng_graph eng) a = Inr c"
      "graph_computation (eng_graph eng) c = Some n"
      "ct_depends_on (chk_certificate out) = cn_dependencies n"
      "ct_observation_coverage (chk_certificate out) = assembled_coverage (eng_graph eng) c"
      "cn_conflicts n = []"
      "worst_edge (fst (evaluated tadd now world eng c n)) = st_value (ct_status (chk_certificate out))"
      "accounted_missing (eng_graph eng) c = []"
      "\<forall>x\<in>set (cn_excluded n). \<not> is_unproven_dependency (xe_reason x)"
      "effect_deficit (recorded_events (eng_events eng) c) (assembled_coverage (eng_graph eng) c) = []"
      "cn_obligations n = [] \<or> has_fs_covered_observer (assembled_coverage (eng_graph eng) c)"
      "pb_recipe_hash (ct_produced_by (chk_certificate out)) \<noteq> None"
    using assms(1,3,4) by (rule usable_check)
  have g: "eng_graph eng = replay msg (eng_events eng) cov"
    using assms(1) by (simp add: engine_ok_def)
  have reg: "\<forall>p\<in>emitters (eng_events eng) c. registry_manifest cov p \<noteq> None"
    using c(8) accounted_missing_iff[OF c(3)[unfolded g] assms(2)] g by simp
  have "worst_edge (fst (evaluated tadd now world eng c n)) \<in> {Valid, LikelyValid}"
    using assms(4) by (simp add: c(7) is_usable_def)
  then have w: "fst (evaluated tadd now world eng c n) \<noteq> []"
    "\<forall>e\<in>set (fst (evaluated tadd now world eng c n)). to_status (eo_verdict e) \<in> {Valid, LikelyValid}"
    unfolding worst_edge_usable_iff by blast+
  then have "cn_dependencies n \<noteq> []"
    by (metis evaluated_def evaluate_edges_deps map_is_Nil_conv)
  with c w(2) reg show ?thesis
    unfolding computation_for_Inr has_coverage_obligation_def
    by (intro exI[of _ c] exI[of _ n]) (auto simp: emitters_def)
qed

lemma valid_dependency:
  assumes "engine_ok msg cov eng"
    and "fst (engine_check tadd hex to_vec now world eng a) = Inr out"
    and "st_value (ct_status (chk_certificate out)) = Valid"
    and "i < length (ct_depends_on (chk_certificate out))"
    and "d = ct_depends_on (chk_certificate out) ! i"
  shows "dep_trust_class d \<in> {Exact, Versioned} \<and>
    (\<exists>sel ofp otc. select_probe (eng_registry eng) (dep_scheme d) (dep_key d) = Inr sel \<and>
       p_check (sel_probe sel) (world i) (dep_key d) (dep_fingerprint d) (dep_ttl_seconds d)
         = ProbeMatch ofp otc)"
proof -
  have usable: "is_usable (st_value (ct_status (chk_certificate out)))"
    using assms(3) by (simp add: is_usable_def)
  obtain c n where
    deps: "ct_depends_on (chk_certificate out) = cn_dependencies n"
    and w: "worst_edge (fst (evaluated tadd now world eng c n)) = st_value (ct_status (chk_certificate out))"
    using assms(1,2) usable by (rule usable_check)
  have i: "i < length (cn_dependencies n)" and d: "d = cn_dependencies n ! i"
    using assms(4,5) deps by simp_all
  let ?es = "fst (evaluated tadd now world eng c n)"
  from i have "?es ! i \<in> set ?es"
    by (simp add: evaluated_def)
  then have "to_status (eo_verdict (?es ! i)) = Valid"
    using w assms(3) worst_edge_Valid_iff by metis
  moreover obtain st' where "?es ! i = fst (evaluate_edge tadd (eng_registry eng)
      (eng_max_volatile_ttl eng) c now (world (0 + i)) (cn_dependencies n ! i) st')"
    using evaluate_edges_nth[OF i] unfolding evaluated_def by blast
  ultimately have "to_status (eo_verdict (fst (evaluate_edge tadd (eng_registry eng)
      (eng_max_volatile_ttl eng) c now (world i) d st'))) = Valid"
    by (simp add: d)
  then show ?thesis
    unfolding fresh_edge by blast
qed

lemma confirmed_edge:
  assumes "to_status (eo_verdict (fst (evaluate_edge tadd reg max_ttl c now w dep st))) \<in> {Valid, LikelyValid}"
    and "\<And>code x. eo_reason (fst (evaluate_edge tadd reg max_ttl c now w dep st)) = Some (code, x) \<Longrightarrow>
      code \<notin> {VolatileWithinTtlUnprobed, ProbeUnknown}"
  shows "\<exists>sel ofp otc. select_probe reg (dep_scheme dep) (dep_key dep) = Inr sel \<and>
    p_check (sel_probe sel) w (dep_key dep) (dep_fingerprint dep) (dep_ttl_seconds dep) = ProbeMatch ofp otc"
proof -
  let ?e = "fst (evaluate_edge tadd reg max_ttl c now w dep st)"
  obtain sel st' where sel: "select_probe reg (dep_scheme dep) (dep_key dep) = Inr sel"
      and e: "?e = fst (dispatch c now w dep sel st')"
    using assms unfolding evaluate_edge_def unprobed_def
    by (fastforce simp: volatile_within_ttl_verdict_def split: option.splits sum.splits if_splits)
  have "\<exists>ofp otc. p_check (sel_probe sel) w (dep_key dep) (dep_fingerprint dep) (dep_ttl_seconds dep) = ProbeMatch ofp otc"
    using assms unfolding e
    by (cases "p_check (sel_probe sel) w (dep_key dep) (dep_fingerprint dep) (dep_ttl_seconds dep)")
       (auto simp: dispatch_def Let_def case_prod_beta probe_verdict_def volatile_within_ttl_verdict_def
         split: if_splits)
  with sel show ?thesis by blast
qed

lemma sealed_edge_reasons:
  assumes "seal hex to_vec inp = Inr c"
  shows "set (edge_reason_list (si_edges inp)) \<subseteq> set (st_reasons (ct_status c))"
proof -
  obtain aggregated gate where
    "c = (sealed_body inp (sealed_reasons inp aggregated gate))\<lparr>ct_cert_id := ct_cert_id c\<rparr>"
    using assms by (rule seal_Inr)
  then have "st_reasons (ct_status c) =
      st_reasons (ct_status ((sealed_body inp (sealed_reasons inp aggregated gate))\<lparr>ct_cert_id := ct_cert_id c\<rparr>))"
    by (rule arg_cong)
  then have "st_reasons (ct_status c) = sealed_reasons inp aggregated gate"
    by (simp add: sealed_body_def)
  then show ?thesis by (auto simp: sealed_reasons_def)
qed

lemma edge_reason_listed:
  "e \<in> set es \<Longrightarrow> eo_reason e = Some (code, x) \<Longrightarrow> \<exists>r\<in>set (edge_reason_list es). reason r = code"
proof (induction es)
  case (Cons a es)
  then show ?case
    by (cases "eo_reason a") (auto simp: edge_reason_list_def map_filter_Cons split: prod.splits)
qed simp

lemma usable_check_confirmed:
  assumes ok: "engine_ok msg cov eng"
    and out: "fst (engine_check tadd hex to_vec now world eng a) = Inr out"
    and usable: "is_usable (st_value (ct_status (chk_certificate out)))"
    and reasons: "st_value (ct_status (chk_certificate out)) = Valid \<or>
      (\<forall>r\<in>set (st_reasons (ct_status (chk_certificate out))). reason r \<notin> {VolatileWithinTtlUnprobed, ProbeUnknown})"
  obtains c n where
    "map cn_computation_id (filter (\<lambda>n. a \<in> set (cn_artifacts n)) (bm_values (dg_computations (eng_graph eng)))) = [c]"
    "graph_computation (eng_graph eng) c = Some n"
    "artifact_id (ct_artifact (chk_certificate out)) = a"
    "pb_computation_id (ct_produced_by (chk_certificate out)) = c"
    "ct_depends_on (chk_certificate out) = cn_dependencies n" "cn_dependencies n \<noteq> []"
    "\<forall>i<length (cn_dependencies n). \<forall>d. d = cn_dependencies n ! i \<longrightarrow>
       (\<exists>sel ofp otc. select_probe (eng_registry eng) (dep_scheme d) (dep_key d) = Inr sel \<and>
         p_check (sel_probe sel) (world i) (dep_key d) (dep_fingerprint d) (dep_ttl_seconds d) = ProbeMatch ofp otc)"
proof -
  obtain c n where c: "computation_for (eng_graph eng) a = Inr c" "graph_computation (eng_graph eng) c = Some n"
      "ct_depends_on (chk_certificate out) = cn_dependencies n" "cn_conflicts n = []"
      "worst_edge (fst (evaluated tadd now world eng c n)) = st_value (ct_status (chk_certificate out))"
    using ok out usable by (rule usable_check)
  obtain c' n' edges st art where k: "computation_for (eng_graph eng) a = Inr c'"
      "graph_computation (eng_graph eng) c' = Some n'"
      "apply_conflicts c' now (cn_conflicts n') (fst (evaluated tadd now world eng c' n'))
        (snd (evaluated tadd now world eng c' n')) = Inr (edges, st)"
      "engine_artifact_of (eng_events eng) c' a = Inr art"
      "seal hex to_vec (check_seal_input (eng_events eng) (eng_graph eng) c' n' now art edges (es_emitted st))
        = Inr (chk_certificate out)"
    using ok out by (rule check_Inr)
  have same: "c' = c" "n' = n" using c k by simp_all
  let ?es = "fst (evaluated tadd now world eng c n)"
  have edges: "edges = ?es" using k(3) c(4) by (simp add: same)
  let ?inp = "check_seal_input (eng_events eng) (eng_graph eng) c n now art edges (es_emitted st)"
  note fields = sealed_fields[OF k(5)]
  have art: "artifact_id art = a"
    using k(4) by (auto simp: engine_artifact_of_def res_bind_Inr_iff)
  have "worst_edge ?es \<in> {Valid, LikelyValid}"
    using usable by (simp add: c(5) is_usable_def)
  then have w: "?es \<noteq> []" "\<forall>e\<in>set ?es. to_status (eo_verdict e) \<in> {Valid, LikelyValid}"
    unfolding worst_edge_usable_iff by blast+
  have "cn_dependencies n \<noteq> []"
    using w(1) by (metis evaluated_def evaluate_edges_deps map_is_Nil_conv)
  have listed: "set (edge_reason_list ?es) \<subseteq> set (st_reasons (ct_status (chk_certificate out)))"
    using sealed_edge_reasons[OF k(5)] by (simp add: check_seal_input_def Let_def edges)
  have confirmed: "\<exists>sel ofp otc. select_probe (eng_registry eng) (dep_scheme d) (dep_key d) = Inr sel \<and>
         p_check (sel_probe sel) (world i) (dep_key d) (dep_fingerprint d) (dep_ttl_seconds d) = ProbeMatch ofp otc"
    if i: "i < length (cn_dependencies n)" and d: "d = cn_dependencies n ! i" for i d
    using reasons
  proof
    assume "st_value (ct_status (chk_certificate out)) = Valid"
    from valid_dependency[OF ok out this] i d show ?thesis by (simp add: c(3))
  next
    assume r: "\<forall>r\<in>set (st_reasons (ct_status (chk_certificate out))). reason r \<notin> {VolatileWithinTtlUnprobed, ProbeUnknown}"
    have e: "?es ! i \<in> set ?es"
      using i by (simp add: evaluated_def)
    obtain st' where ev: "?es ! i = fst (evaluate_edge tadd (eng_registry eng)
        (eng_max_volatile_ttl eng) c now (world i) d st')"
      using evaluate_edges_nth[OF i, where i = 0] unfolding evaluated_def d add_0 by blast
    have "code \<notin> {VolatileWithinTtlUnprobed, ProbeUnknown}" if "eo_reason (?es ! i) = Some (code, x)" for code x
      using edge_reason_listed[OF e that] listed r by blast
    moreover have "to_status (eo_verdict (?es ! i)) \<in> {Valid, LikelyValid}"
      using w(2) e by (rule bspec)
    ultimately show ?thesis
      unfolding ev by (intro confirmed_edge)
  qed
  have id: "artifact_id (ct_artifact (chk_certificate out)) = a"
    unfolding fields(5) by (simp add: check_seal_input_def Let_def art)
  have by_c: "pb_computation_id (ct_produced_by (chk_certificate out)) = c"
    unfolding fields(4) by (simp add: check_seal_input_def produced_by_of_def Let_def same)
  show thesis
    by (rule that[OF iffD1[OF computation_for_Inr c(1)] c(2) id by_c c(3) \<open>cn_dependencies n \<noteq> []\<close>])
       (use confirmed in blast)
qed

text \<open>C29: A Valid certificate is justified probe by probe: every dependency of the computation was
  recorded at class Exact or Versioned, arbitration selected one registered probe for it, and that
  probe, asked about the recorded fingerprint at the time of the check, answered with a match.\<close>

theorem check_valid_sound:
  assumes "engine_ok msg cov eng"
    and "fst (engine_check tadd hex to_vec now world eng a) = Inr out"
    and "st_value (ct_status (chk_certificate out)) = Valid"
    and "i < length (ct_depends_on (chk_certificate out))"
    and "d = ct_depends_on (chk_certificate out) ! i"
  shows "dep_trust_class d \<in> {Exact, Versioned} \<and>
    (\<exists>sel ofp otc. select_probe (eng_registry eng) (dep_scheme d) (dep_key d) = Inr sel \<and>
       p_check (sel_probe sel) (world i) (dep_key d) (dep_fingerprint d) (dep_ttl_seconds d)
         = ProbeMatch ofp otc)"
  using assms by (rule valid_dependency)

lemma apply_conflicts_none:
  "apply_conflicts c now [] edges st = Inr (edges', st') \<Longrightarrow> edges' = edges"
  by simp

subsection \<open>A sample engine\<close>

definition sample_event :: "uuid \<Rightarrow> instant \<Rightarrow> event_kind \<Rightarrow> json \<Rightarrow> ir_event" where
  "sample_event i t k payload = (read_event i t [])\<lparr>ev_kind := k, ev_payload := payload\<rparr>"

definition sample_log :: "ir_event list" where
  "sample_log =
     [sample_event 1 1 ComputationStarted (JObj [(''recipe_hash'', JStr (hash_display sample_hash))]),
      read_event 2 2 ''/a'',
      sample_event 3 3 ArtifactProduced (JObj [(''artifact_id'', JStr ''art''),
        (''content_hash'', JStr (hash_display sample_hash)), (''kind'', JStr ''file'')])]"

definition obs_manifest :: coverage_manifest where
  "obs_manifest = \<lparr>cm_producer = ''obs'', cm_version = ''1'', cm_role = Observer,
     cm_platforms = [], cm_emits = [''fs.*''], cm_partial = [], cm_capabilities = [],
     cm_known_limitations = []\<rparr>"

definition obs_registry :: coverage_registry where
  "obs_registry = \<lparr>cr_path = None, cr_manifests = [(ProducerKey ''obs'' ''1'', obs_manifest)]\<rparr>"

definition file_stub :: "probe_result \<Rightarrow> unit probe" where
  "file_stub r = \<lparr>p_scheme = ''file'', p_host_pattern = None, p_priority = 0, p_check = (\<lambda>_ _ _ _. r)\<rparr>"

definition sample_engine :: "probe_result \<Rightarrow> unit engine" where
  "sample_engine r = engine_build no_text sample_log obs_registry (snd (register_probe (file_stub r) [])) (Some 60)"

definition exact_clock_add :: "instant \<Rightarrow> int \<Rightarrow> instant option" where
  "exact_clock_add t d = Some (t + d)"

definition sample_check :: "unit engine \<Rightarrow> artifact_id \<Rightarrow> engine_error + check_outcome" where
  "sample_check eng a =
     fst (engine_check exact_clock_add (\<lambda>_. digest_hex sample_hash) (\<lambda>_. Inr []) 5 (\<lambda>_. ()) eng a)"

definition unchanged :: probe_result where
  "unchanged = ProbeMatch (dep_fingerprint (exact_file ''/a'' zero_hash 2)) Exact"

lemma sample_engine_ok: "engine_ok no_text obs_registry (sample_engine r)"
  by (simp add: sample_engine_def engine_ok_build)

lemma obs_registry_ok: "registry_ok obs_registry"
  by code_simp

lemma sample_check_valid:
  "\<exists>out. sample_check (sample_engine unchanged) ''art'' = Inr out \<and>
     st_value (ct_status (chk_certificate out)) = Valid \<and> length (ct_depends_on (chk_certificate out)) = 1"
proof -
  have "case sample_check (sample_engine unchanged) ''art'' of Inl _ \<Rightarrow> False
    | Inr out \<Rightarrow> st_value (ct_status (chk_certificate out)) = Valid \<and>
        length (ct_depends_on (chk_certificate out)) = 1"
    by code_simp
  then show ?thesis by (cases "sample_check (sample_engine unchanged) ''art''") auto
qed

theorem check_usable_sound_witness:
  "\<exists>out (n :: computation_node). sample_check (sample_engine unchanged) ''art'' = Inr out \<and>
     ct_depends_on (chk_certificate out) = cn_dependencies n \<and> cn_dependencies n \<noteq> [] \<and>
     cn_conflicts n = [] \<and> pb_recipe_hash (ct_produced_by (chk_certificate out)) \<noteq> None"
proof -
  obtain out where out: "sample_check (sample_engine unchanged) ''art'' = Inr out"
      "st_value (ct_status (chk_certificate out)) = Valid"
    using sample_check_valid by blast
  have "is_usable (st_value (ct_status (chk_certificate out)))"
    by (simp add: out is_usable_def)
  from check_usable_sound[OF sample_engine_ok obs_registry_ok out(1)[unfolded sample_check_def] this] out(1)
  show ?thesis by blast
qed

theorem check_valid_sound_witness:
  "\<exists>out d. sample_check (sample_engine unchanged) ''art'' = Inr out \<and>
     ct_depends_on (chk_certificate out) = [d] \<and> dep_trust_class d \<in> {Exact, Versioned}"
proof -
  obtain out where out: "sample_check (sample_engine unchanged) ''art'' = Inr out"
      "st_value (ct_status (chk_certificate out)) = Valid"
      "length (ct_depends_on (chk_certificate out)) = 1"
    using sample_check_valid by blast
  then obtain d where d: "ct_depends_on (chk_certificate out) = [d]"
    by (auto simp: length_Suc_conv)
  have "0 < length (ct_depends_on (chk_certificate out))" "d = ct_depends_on (chk_certificate out) ! 0"
    unfolding d by simp_all
  from check_valid_sound[OF sample_engine_ok out(1)[unfolded sample_check_def] out(2) this] out(1) d
  show ?thesis by blast
qed

definition empty_engine :: "unit engine" where
  "empty_engine = engine_build no_text [] obs_registry [] (Some 60)"

theorem check_errors_are_about_the_log_witness:
  "sample_check empty_engine ''art'' = Inl (UnknownArtifact ''art'') \<and>
   user_error ''art'' (UnknownArtifact ''art'')"
proof -
  have ok: "engine_ok no_text obs_registry empty_engine"
    by (simp add: empty_engine_def)
  have det: "dg_deterministic (eng_graph empty_engine)" by code_simp
  have none: "computation_for (eng_graph empty_engine) ''art'' = Inl (UnknownArtifact ''art'')"
    by code_simp
  from det none have e: "sample_check empty_engine ''art'' = Inl (UnknownArtifact ''art'')"
    by (simp add: sample_check_def engine_check_def)
  have "\<exists>s. (\<lambda>_. Inr []) c = (Inr s :: string + string)" for c :: certificate
    by simp
  from check_errors_are_about_the_log[OF ok obs_registry_ok this e[unfolded sample_check_def]] e
  show ?thesis by simp
qed

end
