(* ===== verification/Probe_Contract.thy ===== *)
theory Probe_Contract
  imports File_Probe Https_Facts Engine_Facts
begin

section \<open>The contract of a probe, and what the engine concludes from it\<close>

text \<open>
  The \<open>Probe\<close> trait as an interface: \<open>check\<close>, and the recorded state a probe of this scheme can
  read out of a fingerprint (\<open>subject\<close>, \<open>None\<close> for a fingerprint it does not understand). A match
  reports the recorded state, a drift reports another one, and neither is ever said about a
  fingerprint the probe cannot read. The file probe and the https probe satisfy it.
\<close>

locale probe_contract =
  fixes check :: "'w \<Rightarrow> string \<Rightarrow> fingerprint \<Rightarrow> u64 option \<Rightarrow> probe_result"
    and subject :: "fingerprint \<Rightarrow> 'v option"
  assumes match_same: "check w key fp ttl = ProbeMatch ofp tc \<Longrightarrow> subject fp \<noteq> None \<and> subject ofp = subject fp"
    and drift_other: "check w key fp ttl = ProbeDrift ofp tc \<Longrightarrow>
      subject fp \<noteq> None \<and> subject ofp \<noteq> subject fp"
begin

lemma unreadable_undecided:
  assumes "subject fp = None"
  shows "\<exists>why y. check w key fp ttl = ProbeUndecided why y"
  using assms match_same[of w key fp ttl] drift_other[of w key fp ttl]
  by (cases "check w key fp ttl") auto

lemma fresh_edge_same:
  assumes "to_status (eo_verdict (fst (evaluate_edge tadd reg max_ttl c now w dep st))) = Valid"
    and "select_probe reg (dep_scheme dep) (dep_key dep) = Inr sel" and "p_check (sel_probe sel) = check"
  shows "\<exists>ofp tc. check w (dep_key dep) (dep_fingerprint dep) (dep_ttl_seconds dep) = ProbeMatch ofp tc \<and>
    subject (dep_fingerprint dep) \<noteq> None \<and> subject ofp = subject (dep_fingerprint dep)"
  using assms match_same unfolding fresh_edge by auto

lemma stale_edge_other:
  assumes "eo_verdict (fst (evaluate_edge tadd reg max_ttl c now w dep st)) = DriftVerdict"
    and "select_probe reg (dep_scheme dep) (dep_key dep) = Inr sel" and "p_check (sel_probe sel) = check"
  shows "\<exists>ofp tc. check w (dep_key dep) (dep_fingerprint dep) (dep_ttl_seconds dep) = ProbeDrift ofp tc \<and>
    subject (dep_fingerprint dep) \<noteq> None \<and> subject ofp \<noteq> subject (dep_fingerprint dep)"
proof (cases "check w (dep_key dep) (dep_fingerprint dep) (dep_ttl_seconds dep)")
  case (ProbeDrift ofp tc)
  with drift_other[OF this] show ?thesis by blast
qed (use assms in \<open>auto simp: evaluate_edge_def dispatch_def unprobed_def volatile_within_ttl_verdict_def
      volatile_match_def unknown_edge_def probe_verdict_def Let_def case_prod_beta
      split: option.splits if_splits trust_transition.splits\<close>)

lemma unreadable_edge_unknown:
  assumes "subject (dep_fingerprint dep) = None" and "dep_trust_class dep \<noteq> Volatile"
    and "select_probe reg (dep_scheme dep) (dep_key dep) = Inr sel" and "p_check (sel_probe sel) = check"
  shows "eo_verdict (fst (evaluate_edge tadd reg max_ttl c now w dep st)) = UnknownVerdict"
proof -
  obtain why y where "check w (dep_key dep) (dep_fingerprint dep) (dep_ttl_seconds dep) = ProbeUndecided why y"
    using unreadable_undecided[OF assms(1)] by blast
  then show ?thesis
    using assms(2-4) by (auto simp: evaluate_edge_def dispatch_def unprobed_def unknown_edge_def
        probe_verdict_def Let_def case_prod_beta split: option.splits)
qed

end

subsection \<open>The file probe\<close>

lemma hash_display_inject: "hash_display h = hash_display h' \<Longrightarrow> h = h'"
  by (cases h; cases h'; cases "algo h"; cases "algo h'") (auto simp: hash_display_def)

lemma parsed_hash_Some: "parsed_hash s = Some h \<longleftrightarrow> s = hash_display h \<and> hash_wf h"
  by (cases "hash_parse s") (auto simp: parsed_hash_def hash_parse_Inr[symmetric])

lemma parsed_hash_other: "h' \<noteq> h \<Longrightarrow> parsed_hash (hash_display h') \<noteq> Some h"
  using hash_display_inject by (auto simp: parsed_hash_Some)

definition file_subject :: "fingerprint \<Rightarrow> hash option" where
  "file_subject fp = (if fp_kind fp = ContentHash then parsed_hash (fp_payload fp) else None)"

lemma file_drift:
  "file_check hex base fs key fp ttl = ProbeDrift ofp tc \<Longrightarrow>
     fp_kind fp = ContentHash \<and> (\<exists>h h'. parsed_hash (fp_payload fp) = Some h \<and> h' \<noteq> h \<and>
       ofp = \<lparr>fp_kind = ContentHash, fp_payload = hash_display h'\<rparr>)"
  by (fastforce simp: file_check_def parsed_hash_def Let_def split: if_splits sum.splits)

definition file_probe :: "(string \<Rightarrow> string) \<Rightarrow> string \<Rightarrow> file_system probe" where
  "file_probe hex base =
     \<lparr>p_scheme = ''file'', p_host_pattern = None, p_priority = 0, p_check = file_check hex base\<rparr>"

interpretation file_contract: probe_contract "file_check hex base" file_subject for hex base
proof
  fix w key fp ttl ofp tc
  assume "file_check hex base w key fp ttl = ProbeMatch ofp tc"
  then obtain b where "ofp = fp" "fp_kind fp = ContentHash" "hash_wf \<lparr>algo = Blake3, digest_hex = hex b\<rparr>"
      "fp_payload fp = ''blake3:'' @ hex b"
    unfolding file_match by blast
  then have "ofp = fp" "fp_kind fp = ContentHash"
      "parsed_hash (fp_payload fp) = Some \<lparr>algo = Blake3, digest_hex = hex b\<rparr>"
    by (simp_all add: parsed_hash_Some hash_display_def)
  then show "file_subject fp \<noteq> None \<and> file_subject ofp = file_subject fp"
    by (auto simp: file_subject_def)
next
  fix w key fp ttl ofp tc
  assume "file_check hex base w key fp ttl = ProbeDrift ofp tc"
  from file_drift[OF this] parsed_hash_other
  show "file_subject fp \<noteq> None \<and> file_subject ofp \<noteq> file_subject fp"
    by (auto simp: file_subject_def)
qed

subsection \<open>The https probe\<close>

datatype validator = ByEtag string | ByDate string | ByImmutable | ByHash hash

definition https_subject :: "fingerprint \<Rightarrow> validator option" where
  "https_subject fp =
     (case fp_kind fp of
        Etag \<Rightarrow> (case parse_etag (fp_payload fp) of Inr e \<Rightarrow> Some (ByEtag (etag_wire e)) | Inl _ \<Rightarrow> None)
      | Mtime \<Rightarrow> if is_imf_fixdate (fp_payload fp) then Some (ByDate (fp_payload fp)) else None
      | ContentHash \<Rightarrow> map_option ByHash (parsed_hash (fp_payload fp))
      | Custom \<Rightarrow> if fp_payload fp = ''immutable'' then Some ByImmutable else None
      | Version \<Rightarrow> None)"

fun plan_validator :: "plan \<Rightarrow> validator" where
  "plan_validator (IfNoneMatch wire _) = ByEtag wire"
| "plan_validator (IfModifiedSince date) = ByDate date"
| "plan_validator ImmutablePlan = ByImmutable"
| "plan_validator (ContentHashPlan h) = ByHash h"

lemma plan_subject: "plan_of cfg key fp = Inr pl \<Longrightarrow> https_subject fp = Some (plan_validator pl)"
  by (auto simp: plan_of_def https_subject_def parsed_hash_def split: fingerprint_kind.splits sum.splits if_splits)

lemma supports_subject:
  assumes "supports hex pl r ofp" "plan_of cfg key fp = Inr pl"
  shows "https_subject ofp = Some (plan_validator pl)"
proof (cases pl)
  case (IfNoneMatch wire weak)
  with assms(1) obtain raw e where "parse_etag raw = Inr e" "etag_wire e = wire"
      "ofp = \<lparr>fp_kind = Etag, fp_payload = wire\<rparr>"
    by (auto simp: supports_def)
  with parse_etag_wire IfNoneMatch show ?thesis
    by (auto simp: https_subject_def)
next
  case (IfModifiedSince date)
  then have "is_imf_fixdate date"
    using assms(2) by (auto simp: plan_of_def split: fingerprint_kind.splits sum.splits if_splits)
  with assms(1) IfModifiedSince show ?thesis
    by (simp add: supports_def https_subject_def)
next
  case (ContentHashPlan h)
  then have "parsed_hash (hash_display h) = Some h"
    using assms(2) unfolding parsed_hash_Some
    by (auto simp: plan_of_def hash_parse_Inr split: fingerprint_kind.splits sum.splits if_splits)
  with assms(1) ContentHashPlan show ?thesis
    by (simp add: supports_def https_subject_def)
next
  case ImmutablePlan
  with assms(1) show ?thesis
    by (simp add: supports_def https_subject_def)
qed

lemma drift_subject:
  assumes d: "fst (decide_ok ops hex cfg original pl cl r cx2) = Inr (ProbeDrift ofp tc)"
    and cl: "https_classify (rs_headers r) cx = (Inr cl, cx1)" and p: "plan_of cfg key fp = Inr pl"
  shows "https_subject ofp \<noteq> Some (plan_validator pl)"
proof -
  have tag: "parse_etag (etag_wire e) = Inr e" if "cl_etag cl = Some e" for e
    using classify_Inr(3)[OF cl that] parse_etag_wire by blast
  have date: "is_imf_fixdate v" if "cl_last_modified cl = Some v" for v
    using classify_Inr(4)[OF cl that] by blast
  show ?thesis
  proof (cases pl)
    case (ContentHashPlan h)
    with d obtain h' where "ofp = \<lparr>fp_kind = ContentHash, fp_payload = hash_display h'\<rparr>" "h' \<noteq> h"
      by (auto simp: decide_ok_def decide_content_hash_def Let_def split: option.splits sum.splits prod.splits if_splits)
    with parsed_hash_other show ?thesis
      using ContentHashPlan by (auto simp: https_subject_def)
  qed (use d tag date in \<open>auto simp: decide_ok_def decide_etag_def decide_last_modified_def decide_immutable_def
      https_subject_def Let_def split: option.splits if_splits\<close>)
qed

interpretation https_contract: probe_contract "https_check ops hex exec cfg" https_subject for ops hex exec cfg
proof
  fix w key fp ttl ofp tc
  assume "https_check ops hex exec cfg w key fp ttl = ProbeMatch ofp tc"
  from match_evidence[OF this] plan_subject[of cfg key fp] supports_subject[of hex _ _ ofp cfg key fp]
  show "https_subject fp \<noteq> None \<and> https_subject ofp = https_subject fp" by fastforce
next
  fix w key fp ttl ofp tc
  assume a: "https_check ops hex exec cfg w key fp ttl = ProbeDrift ofp tc"
  obtain original pl s u m cl cx cx1 cx2 where p: "plan_of cfg key fp = Inr pl"
      and cl: "https_classify (rs_headers (settled_response s)) cx = (Inr cl, cx1)"
      and d: "fst (case s of NotModified _ \<Rightarrow> (Inr (decide_not_modified fp pl cl), cx2)
      | Representation r \<Rightarrow> decide_ok ops hex cfg original pl cl r cx2) = Inr (ProbeDrift ofp tc)"
    using a by (rule run_decided) simp
  then obtain r where "s = Representation r" by (cases s) (auto simp: decide_not_modified_def)
  with d cl p drift_subject have "https_subject ofp \<noteq> Some (plan_validator pl)" by fastforce
  with plan_subject[OF p] show "https_subject fp \<noteq> None \<and> https_subject ofp \<noteq> https_subject fp" by simp
qed

definition https_probe ::
  "'u url_ops \<Rightarrow> (string \<Rightarrow> string) \<Rightarrow> 'w transport \<Rightarrow> https_config \<Rightarrow> 'w probe" where
  "https_probe ops hex exec cfg =
     \<lparr>p_scheme = ''https'', p_host_pattern = None, p_priority = 0, p_check = https_check ops hex exec cfg\<rparr>"

subsection \<open>From a certificate to the file system\<close>

text \<open>End to end: when a check ends with a Valid certificate and a dependency of it is answered by
  the file probe, the file could be read at the time of the check and the recorded fingerprint is
  the printed BLAKE3 digest of the bytes it then held.\<close>

theorem valid_certificate_file_unchanged:
  assumes "engine_ok msg cov eng"
    and "fst (engine_check tadd hex' to_vec now world eng a) = Inr out"
    and "st_value (ct_status (chk_certificate out)) = Valid"
    and "i < length (ct_depends_on (chk_certificate out))"
    and "d = ct_depends_on (chk_certificate out) ! i"
    and "select_probe (eng_registry eng) (dep_scheme d) (dep_key d) = Inr sel"
    and "sel_probe sel = file_probe hex base"
  shows "\<exists>b. contents (world i) (file_resolve base (dep_key d)) = Some b \<and>
    dep_fingerprint d = \<lparr>fp_kind = ContentHash, fp_payload = ''blake3:'' @ hex b\<rparr>"
proof -
  obtain sel' ofp otc where "select_probe (eng_registry eng) (dep_scheme d) (dep_key d) = Inr sel'"
      "p_check (sel_probe sel') (world i) (dep_key d) (dep_fingerprint d) (dep_ttl_seconds d) = ProbeMatch ofp otc"
    using valid_dependency[OF assms(1-5)] by blast
  with assms(6,7) have "file_check hex base (world i) (dep_key d) (dep_fingerprint d) (dep_ttl_seconds d)
      = ProbeMatch ofp otc"
    by (simp add: file_probe_def)
  then show ?thesis
    unfolding file_match by (cases "dep_fingerprint d") auto
qed

definition file_engine :: "file_system engine" where
  "file_engine = engine_build no_text sample_log obs_registry
     (snd (register_probe (file_probe (\<lambda>_. digest_hex zero_hash) []) [])) (Some 60)"

definition one_file :: file_system where
  "one_file p = (if p = ''/a'' then Inr [Inr ''contents''] else Inl \<lparr>io_kind_of = OtherKind, io_text = ''gone''\<rparr>)"

lemma file_engine_check:
  "\<exists>out d. fst (engine_check exact_clock_add (\<lambda>_. digest_hex sample_hash) (\<lambda>_. Inr []) 5 (\<lambda>_. one_file)
       file_engine ''art'') = Inr out \<and>
     st_value (ct_status (chk_certificate out)) = Valid \<and> ct_depends_on (chk_certificate out) = [d] \<and>
     dep_scheme d = ''file'' \<and> dep_key d = ''file:///a''"
proof -
  let ?r = "fst (engine_check exact_clock_add (\<lambda>_. digest_hex sample_hash) (\<lambda>_. Inr []) 5 (\<lambda>_. one_file)
       file_engine ''art'')"
  have "case ?r of Inl _ \<Rightarrow> False | Inr out \<Rightarrow> st_value (ct_status (chk_certificate out)) = Valid \<and>
      map (\<lambda>d. (dep_scheme d, dep_key d)) (ct_depends_on (chk_certificate out)) = [(''file'', ''file:///a'')]"
    by code_simp
  then show ?thesis by (cases ?r) (auto simp: map_eq_Cons_conv)
qed

lemma file_engine_selects:
  "\<exists>sel. select_probe (eng_registry file_engine) ''file'' ''file:///a'' = Inr sel \<and>
     sel_probe sel = file_probe (\<lambda>_. digest_hex zero_hash) []"
  by (simp add: file_engine_def engine_build_def register_probe_def select_probe_def Let_def file_probe_def
      split: option.split)

theorem valid_certificate_file_unchanged_witness:
  "\<exists>b. contents one_file ''/a'' = Some b"
proof -
  obtain out d where out: "fst (engine_check exact_clock_add (\<lambda>_. digest_hex sample_hash) (\<lambda>_. Inr []) 5
       (\<lambda>_. one_file) file_engine ''art'') = Inr out"
    and v: "st_value (ct_status (chk_certificate out)) = Valid"
    and d: "ct_depends_on (chk_certificate out) = [d]" "dep_scheme d = ''file''" "dep_key d = ''file:///a''"
    using file_engine_check by blast
  obtain sel where sel: "select_probe (eng_registry file_engine) (dep_scheme d) (dep_key d) = Inr sel"
      "sel_probe sel = file_probe (\<lambda>_. digest_hex zero_hash) []"
    using file_engine_selects d by metis
  have ok: "engine_ok no_text obs_registry file_engine"
    by (simp add: file_engine_def)
  have i: "0 < length (ct_depends_on (chk_certificate out))" "d = ct_depends_on (chk_certificate out) ! 0"
    unfolding d by simp_all
  have "file_resolve [] ''file:///a'' = ''/a''" by code_simp
  with valid_certificate_file_unchanged[OF ok out v i sel] d show ?thesis by auto
qed

end
