(* ===== verification/Claude_Vocabulary.thy ===== *)
theory Claude_Vocabulary
  imports Certificate
begin

section \<open>The Claude adapter: vocabulary, diagnostics and identity\<close>

text \<open>
  \<open>freshdag-adapter-claude/src/{hook,config,identity,diagnostic,content}.rs\<close>. The names
  of the hook events and tools of the runtime, the normalisation of a tool name, the diagnostics
  the adapter records in place of what it cannot compile, the identity rule that turns a session
  into a computation, and the source of file fingerprints. The lemmas say that the wire names of
  hook events round-trip, which tool names split, and what a fingerprint was taken of.
\<close>

subsection \<open>Hook events\<close>

datatype hook_event =
    PreToolUse | PostToolUse | UserPromptSubmit | Stop | SubagentStop
  | SessionStart | SessionEnd | PreCompact | Notification

definition hook_event_all :: "hook_event list" where
  "hook_event_all = [PreToolUse, PostToolUse, UserPromptSubmit, Stop, SubagentStop,
     SessionStart, SessionEnd, PreCompact, Notification]"

fun hook_event_as_str :: "hook_event \<Rightarrow> string" where
  "hook_event_as_str PreToolUse = ''PreToolUse''"
| "hook_event_as_str PostToolUse = ''PostToolUse''"
| "hook_event_as_str UserPromptSubmit = ''UserPromptSubmit''"
| "hook_event_as_str Stop = ''Stop''"
| "hook_event_as_str SubagentStop = ''SubagentStop''"
| "hook_event_as_str SessionStart = ''SessionStart''"
| "hook_event_as_str SessionEnd = ''SessionEnd''"
| "hook_event_as_str PreCompact = ''PreCompact''"
| "hook_event_as_str Notification = ''Notification''"

definition hook_event_parse :: "string \<Rightarrow> hook_event option" where
  "hook_event_parse n =
     (if n = ''PreToolUse'' then Some PreToolUse
      else if n = ''PostToolUse'' then Some PostToolUse
      else if n = ''UserPromptSubmit'' then Some UserPromptSubmit
      else if n = ''Stop'' then Some Stop
      else if n = ''SubagentStop'' then Some SubagentStop
      else if n = ''SessionStart'' then Some SessionStart
      else if n = ''SessionEnd'' then Some SessionEnd
      else if n = ''PreCompact'' then Some PreCompact
      else if n = ''Notification'' then Some Notification
      else None)"

fun has_ir_mapping :: "hook_event \<Rightarrow> bool" where
  "has_ir_mapping PreToolUse = True"
| "has_ir_mapping PostToolUse = True"
| "has_ir_mapping SessionStart = True"
| "has_ir_mapping SessionEnd = True"
| "has_ir_mapping _ = False"

lemma hook_event_parse_iff: "hook_event_parse n = Some e \<longleftrightarrow> n = hook_event_as_str e"
  by (cases e) (auto simp: hook_event_parse_def)

lemma hook_event_all_set: "set hook_event_all = UNIV"
proof -
  have "e \<in> set hook_event_all" for e
    by (cases e) (simp_all add: hook_event_all_def)
  then show ?thesis by blast
qed

subsection \<open>Tool names\<close>

definition mcp_tool_prefix :: string where
  "mcp_tool_prefix = ''mcp__''"

definition skill_tool_name :: string where
  "skill_tool_name = ''Skill''"

definition bash_tool_name :: string where
  "bash_tool_name = ''Bash''"

definition task_tool_names :: "string list" where
  "task_tool_names = [''Task'', ''Agent'']"

definition read_tools :: "string list" where
  "read_tools = [''Read'']"

definition write_tools :: "string list" where
  "write_tools = [''Write'', ''Edit'', ''MultiEdit'', ''NotebookEdit'']"

definition file_path_key :: "string \<Rightarrow> string" where
  "file_path_key tool_name =
     (if tool_name = ''NotebookEdit'' then ''notebook_path'' else ''file_path'')"

definition split_mcp_tool_name :: "string \<Rightarrow> (string \<times> string) option" where
  "split_mcp_tool_name raw =
     Option.bind (strip_prefix mcp_tool_prefix raw) (\<lambda>rest.
     Option.bind (split_once ''__'' rest) (\<lambda>(server, tool).
       if server = [] \<or> tool = [] then None else Some (server, tool)))"

definition skill_name_keys :: "string list" where
  "skill_name_keys = [''command'', ''name'', ''skill'', ''skill_name'']"

fun first_name :: "json \<Rightarrow> string list \<Rightarrow> string option" where
  \<comment> \<open>the loop over the accepted keys\<close>
  "first_name input [] = None"
| "first_name input (k # ks) =
     (case str_at input k of
        Some s \<Rightarrow> if s \<noteq> [] then Some s else first_name input ks
      | None \<Rightarrow> first_name input ks)"

definition skill_name_from_input :: "json \<Rightarrow> string option" where
  "skill_name_from_input input = first_name input skill_name_keys"

lemmas tool_name_defs = mcp_tool_prefix_def skill_tool_name_def bash_tool_name_def
  task_tool_names_def read_tools_def write_tools_def

lemma split_mcp_sound:
  "split_mcp_tool_name raw = Some (server, tool) \<Longrightarrow>
     raw = ''mcp__'' @ server @ ''__'' @ tool \<and> server \<noteq> [] \<and> tool \<noteq> []"
  by (auto simp: split_mcp_tool_name_def mcp_tool_prefix_def strip_prefix_Some_iff
      bind_eq_Some_conv dest!: split_once_sound split: if_splits)

subsection \<open>Diagnostics\<close>

datatype adapter_code =
    MalformedHookPayload | UnknownHookEvent | UnmappedHookEvent | MissingRequiredField
  | UnparseableToolInput | ToolNameNormalizationFailed | SinkBackpressureDrop
  | CoverageOverrideSuppressed | ComputationBracketSkipped

datatype severity = SevInfo | SevWarning

fun adapter_code_wire :: "adapter_code \<Rightarrow> string" where
  "adapter_code_wire MalformedHookPayload = ''malformed-payload''"
| "adapter_code_wire UnknownHookEvent = ''unknown-hook-event''"
| "adapter_code_wire UnmappedHookEvent = ''unmapped-hook-event''"
| "adapter_code_wire MissingRequiredField = ''missing-required-field''"
| "adapter_code_wire UnparseableToolInput = ''unparseable-tool-input''"
| "adapter_code_wire ToolNameNormalizationFailed = ''tool-name-normalization-failed''"
| "adapter_code_wire SinkBackpressureDrop = ''sink-backpressure-drop''"
| "adapter_code_wire CoverageOverrideSuppressed = ''coverage-override-suppressed''"
| "adapter_code_wire ComputationBracketSkipped = ''computation-bracket-skipped''"

fun adapter_code_severity :: "adapter_code \<Rightarrow> severity" where
  "adapter_code_severity UnmappedHookEvent = SevInfo"
| "adapter_code_severity ComputationBracketSkipped = SevInfo"
| "adapter_code_severity _ = SevWarning"

fun severity_wire :: "severity \<Rightarrow> string" where
  "severity_wire SevInfo = ''info''"
| "severity_wire SevWarning = ''warning''"

record hook_diagnostic =
  hd_code :: adapter_code
  hd_message :: string
  hd_context :: "(string, json) bmap"

definition diagnostic_new :: "adapter_code \<Rightarrow> string \<Rightarrow> hook_diagnostic" where
  "diagnostic_new code message = \<lparr>hd_code = code, hd_message = message, hd_context = []\<rparr>"

definition diagnostic_with :: "string \<Rightarrow> json \<Rightarrow> hook_diagnostic \<Rightarrow> hook_diagnostic" where
  "diagnostic_with key v d = d\<lparr>hd_context := bm_put key v (hd_context d)\<rparr>"

definition diagnostic_to_payload :: "hook_diagnostic \<Rightarrow> json" where
  "diagnostic_to_payload d =
     json_obj ([(''message'', JStr (hd_message d)),
                (''code'', JStr (adapter_code_wire (hd_code d))),
                (''severity'', JStr (severity_wire (adapter_code_severity (hd_code d))))] @
               hd_context d)"

definition payload_keys :: "json \<Rightarrow> json" where
  "payload_keys v =
     (case as_object v of
        Some m \<Rightarrow> JArr (map JStr (bm_keys m))
      | None \<Rightarrow> JArr [])"

lemma adapter_code_wire_inj: "adapter_code_wire a = adapter_code_wire b \<longleftrightarrow> a = b"
  by (cases a; cases b; simp)

subsection \<open>Configuration and identity\<close>

definition claude_producer :: string where
  "claude_producer = ''freshdag-adapter-claude''"

definition agent_kind :: string where
  "agent_kind = ''claude-code''"

definition unknown_session_id :: string where
  "unknown_session_id = ''claude-code:unknown-session''"

definition session_as_computation_v1 :: string where
  "session_as_computation_v1 = ''claude/session-as-computation/v1''"

definition recipe_id_prefix :: string where
  "recipe_id_prefix = ''claude-code-session:''"

definition default_max_hash_bytes :: u64 where
  "default_max_hash_bytes = 8 * 1024 * 1024"

record adapter_config =
  ac_producer_version :: string
  ac_identity_rule_version :: string
  ac_suppressed_kinds :: "event_kind_pattern list"
  ac_max_hash_bytes :: u64

definition claude_version :: string where
  \<comment> \<open>\<open>CARGO_PKG_VERSION\<close> of the workspace\<close>
  "claude_version = ''0.0.0''"

definition adapter_config_new :: adapter_config where
  "adapter_config_new =
     \<lparr>ac_producer_version = claude_version, ac_identity_rule_version = session_as_computation_v1,
      ac_suppressed_kinds = [], ac_max_hash_bytes = default_max_hash_bytes\<rparr>"

definition with_suppressed_kinds :: "event_kind_pattern list \<Rightarrow> adapter_config \<Rightarrow> adapter_config" where
  "with_suppressed_kinds kinds config = config\<lparr>ac_suppressed_kinds := kinds\<rparr>"

definition synthesized_recipe_id :: "string \<Rightarrow> string" where
  "synthesized_recipe_id session_id = recipe_id_prefix @ session_id"

definition computation_id_for_session :: "(string \<Rightarrow> string) \<Rightarrow> string \<Rightarrow> string \<Rightarrow> computation_id" where
  "computation_id_for_session hex session_id rule_version =
     computation_id_derive hex (synthesized_recipe_id session_id) [] rule_version"

subsection \<open>Fingerprint sources\<close>

type_synonym content_source = "string \<Rightarrow> (hash \<times> u64) option"

definition no_content :: content_source where
  "no_content path = None"

record disk =
  \<comment> \<open>\<open>metadata\<close>: whether the path is a file, and its length; \<open>read\<close>: its bytes\<close>
  disk_metadata :: "string \<Rightarrow> (bool \<times> u64) option"
  disk_read :: "string \<Rightarrow> string option"

definition disk_content :: "(string \<Rightarrow> string) \<Rightarrow> u64 \<Rightarrow> disk \<Rightarrow> content_source" where
  "disk_content hex max_bytes dk path =
     Option.bind (disk_metadata dk path) (\<lambda>(is_file, len).
       if \<not> is_file \<or> len > max_bytes then None
       else Option.bind (disk_read dk path) (\<lambda>bytes.
         let sz = of_nat (length bytes)
         in if sz > max_bytes then None
            else case hash_new Blake3 (hex bytes) of
                Inl _ \<Rightarrow> None
              | Inr h \<Rightarrow> Some (h, sz)))"

lemma ok_Some_iff: "(case r of Inl _ \<Rightarrow> None | Inr a \<Rightarrow> Some (f a)) = Some b \<longleftrightarrow> (\<exists>a. r = Inr a \<and> f a = b)"
  by (cases r) auto

lemma disk_content_Some:
  assumes "disk_content hex max_bytes dk path = Some (h, sz)"
  shows "\<exists>bytes. disk_read dk path = Some bytes \<and> h = \<lparr>algo = Blake3, digest_hex = hex bytes\<rparr> \<and>
    hash_wf h \<and> sz = of_nat (length bytes) \<and> sz \<le> max_bytes"
  using assms by (auto simp: disk_content_def Let_def hash_new_Inr ok_Some_iff bind_eq_Some_conv not_less
      split: if_splits)

end
