(* ===== verification/Claude_Paths.thy ===== *)
theory Claude_Paths
  imports Claude_Vocabulary
begin

section \<open>The Claude adapter: canonical paths (\<open>crates/freshdag-adapter-claude/src/paths.rs\<close>)\<close>

text \<open>
  The adapter never touches the file system to canonicalise a path: it joins a relative path to
  the working directory of the payload and then works on the components alone. The loop keeps the
  \<open>PathBuf\<close> it has built and the number of names it may still pop. The lemmas relate it to a
  stack of names, from which follow what a normalised path looks like and that normalising twice
  changes nothing. What \<open>PathBuf::push\<close> and \<open>pop\<close> do is written out for the paths the
  loop builds (no repeated, no trailing separator).
\<close>

subsection \<open>Components\<close>

datatype path_component = RootDir | CurDir | ParentDir | NormalName string

definition name_component :: "string \<Rightarrow> path_component" where
  "name_component c = (if c = ''.'' then CurDir else if c = ''..'' then ParentDir else NormalName c)"

definition components :: "string \<Rightarrow> path_component list" where
  "components p =
     (let (rooted, names) = path_components p
      in (if rooted then [RootDir] else []) @ map name_component names)"

definition path_push :: "string \<Rightarrow> string \<Rightarrow> string" where
  "path_push buf c = (if path_is_absolute c then c else path_join buf c)"

definition path_pop :: "string \<Rightarrow> string option" where
  "path_pop buf =
     (if buf = [] \<or> buf = ''/'' then None
      else let kept = rev (dropWhile (\<lambda>c. c \<noteq> CHR ''/'') (rev buf))
           in Some (if kept = ''/'' \<or> kept = [] then kept else butlast kept))"

subsection \<open>Lexical normalisation\<close>

record norm =
  nm_out :: string
  nm_popped_depth :: nat
  nm_rooted :: bool

fun norm_step :: "path_component \<Rightarrow> norm \<Rightarrow> norm" where
  "norm_step CurDir n = n"
| "norm_step ParentDir n =
     (case (if nm_popped_depth n > 0 then path_pop (nm_out n) else None) of
        Some out \<Rightarrow> n\<lparr>nm_out := out, nm_popped_depth := nm_popped_depth n - 1\<rparr>
      | None \<Rightarrow> if \<not> nm_rooted n then n\<lparr>nm_out := path_push (nm_out n) ''..''\<rparr> else n)"
| "norm_step (NormalName c) n =
     n\<lparr>nm_out := path_push (nm_out n) c, nm_popped_depth := nm_popped_depth n + 1\<rparr>"
| "norm_step RootDir n = n\<lparr>nm_rooted := True, nm_out := path_push (nm_out n) ''/''\<rparr>"

definition lexically_normalize :: "string \<Rightarrow> string" where
  "lexically_normalize p =
     (let out = nm_out (fold norm_step (components p)
                  \<lparr>nm_out = [], nm_popped_depth = 0, nm_rooted = False\<rparr>)
      in if out = [] then path_push out ''.'' else out)"

subsection \<open>Resolution\<close>

datatype path_resolve_error = RelativeWithoutCwd string | EmptyPath

fun path_resolve_error_display :: "path_resolve_error \<Rightarrow> string" where
  "path_resolve_error_display (RelativeWithoutCwd path) =
     ''relative path `'' @ path @ ''` cannot be made absolute: hook payload carried no `cwd`''"
| "path_resolve_error_display EmptyPath = ''tool input carried an empty path''"

record resolved_path =
  rp_path :: string
  rp_raw_path :: "string option"

definition resolve_path :: "string \<Rightarrow> string option \<Rightarrow> path_resolve_error + resolved_path" where
  "resolve_path raw cwd =
     (if raw = [] then Inl EmptyPath
      else
        res_bind (if path_is_absolute raw then Inr raw
                  else case cwd of
                      None \<Rightarrow> Inl (RelativeWithoutCwd raw)
                    | Some d \<Rightarrow> Inr (path_join d raw)) (\<lambda>joined.
        let normalized = lexically_normalize joined
        in Inr \<lparr>rp_path = normalized,
                rp_raw_path = (if path_eq normalized raw then None else Some raw)\<rparr>))"

subsection \<open>The stack of names\<close>

text \<open>The reference: the names pushed so far, and how many parents a relative path climbs.\<close>

definition path_name :: "string \<Rightarrow> bool" where
  "path_name c \<longleftrightarrow> c \<noteq> [] \<and> CHR ''/'' \<notin> set c \<and> c \<noteq> ''.'' \<and> c \<noteq> ''..''"

fun stack_step :: "bool \<Rightarrow> string \<Rightarrow> nat \<times> string list \<Rightarrow> nat \<times> string list" where
  "stack_step rooted c (ups, names) =
     (if c = ''.'' then (ups, names)
      else if c = ''..''
      then (if names \<noteq> [] then (ups, butlast names)
            else if rooted then (ups, names) else (ups + 1, names))
      else (ups, names @ [c]))"

definition render_path :: "bool \<Rightarrow> nat \<Rightarrow> string list \<Rightarrow> string" where
  "render_path rooted ups names =
     (if rooted then ''/'' @ join_with ''/'' names else join_with ''/'' (replicate ups ''..'' @ names))"

lemma climb_names:
  assumes "\<forall>x\<in>set names. path_name x"
  shows "\<forall>x\<in>set (replicate ups ''..'' @ names). x \<noteq> ''.'' \<and> x \<noteq> [] \<and> CHR ''/'' \<notin> set x"
proof
  fix x assume "x \<in> set (replicate ups ''..'' @ names)"
  then have "x = ''..'' \<or> x \<in> set names" by (auto split: if_splits)
  then show "x \<noteq> ''.'' \<and> x \<noteq> [] \<and> CHR ''/'' \<notin> set x"
    using assms unfolding path_name_def by (elim disjE) simp_all
qed

lemma climb_nonempty: "\<forall>x\<in>set names. path_name x \<Longrightarrow> \<forall>x\<in>set (replicate ups ''..'' @ names). x \<noteq> []"
  using climb_names by blast

lemma join_with_snoc:
  "xs \<noteq> [] \<Longrightarrow> join_with sep (xs @ [x]) = join_with sep xs @ sep @ x"
  by (induction sep xs rule: join_with.induct) auto

lemma join_with_eq_Nil: "\<forall>x\<in>set xs. x \<noteq> [] \<Longrightarrow> join_with sep xs = [] \<longleftrightarrow> xs = []"
  by (induction sep xs rule: join_with.induct) auto

lemma last_join: "xs \<noteq> [] \<Longrightarrow> \<forall>x\<in>set xs. x \<noteq> [] \<Longrightarrow> last (join_with sep xs) = last (last xs)"
  by (induction sep xs rule: join_with.induct) (auto simp: join_with_eq_Nil)

lemma join_no_trailing:
  assumes "\<forall>x\<in>set xs. x \<noteq> [] \<and> CHR ''/'' \<notin> set x"
  shows "\<not> ends_with ''/'' (join_with ''/'' xs)"
proof (cases "xs = []")
  case False
  then have "last (join_with ''/'' xs) \<noteq> CHR ''/''"
    using assms last_join[OF False, of "''/''"] by (metis last_in_set)
  then show ?thesis by (auto simp: ends_with_iff)
qed (simp add: ends_with_iff)

lemma path_name_relative: "CHR ''/'' \<notin> set c \<Longrightarrow> \<not> path_is_absolute c"
  by (cases c) (auto simp: path_is_absolute_def starts_with_def)

lemma dropWhile_name:
  "CHR ''/'' \<notin> set x \<Longrightarrow> rev (dropWhile (\<lambda>c. c \<noteq> CHR ''/'') (rev (a @ ''/'' @ x))) = a @ ''/''"
  by (simp add: dropWhile_append)

lemma render_push:
  assumes "\<forall>x\<in>set names. path_name x" and "CHR ''/'' \<notin> set c" and "c \<noteq> []"
  shows "path_push (render_path True 0 names) c = render_path True 0 (names @ [c])"
    and "path_push (render_path False ups names) c =
           join_with ''/'' (replicate ups ''..'' @ names @ [c])"
proof -
  have n: "\<forall>x\<in>set names. x \<noteq> [] \<and> CHR ''/'' \<notin> set x"
    using climb_names[OF assms(1), of 0] by simp
  have m: "\<forall>x\<in>set (replicate ups ''..'' @ names). x \<noteq> [] \<and> CHR ''/'' \<notin> set x"
    using climb_names[OF assms(1)] by blast
  note a = path_name_relative[OF assms(2)]
  show "path_push (render_path True 0 names) c = render_path True 0 (names @ [c])"
  proof (cases "names = []")
    case True
    then show ?thesis
      using a by (simp add: path_push_def path_join_def render_path_def ends_with_def strip_suffix_def)
  next
    case False
    then have "\<not> ends_with ''/'' (''/'' @ join_with ''/'' names)"
      using join_no_trailing[OF n] last_join[of names "''/''"] n
      by (metis append_is_Nil_conv ends_with_iff join_with_eq_Nil last_appendR last_snoc
          append_self_conv2 rev_exhaust)
    then show ?thesis
      using a False by (simp add: path_push_def path_join_def render_path_def join_with_snoc)
  qed
  show "path_push (render_path False ups names) c = join_with ''/'' (replicate ups ''..'' @ names @ [c])"
  proof (cases "replicate ups ''..'' @ names = []")
    case True
    then show ?thesis using a by (simp add: path_push_def path_join_def render_path_def)
  next
    case False
    then show ?thesis
      using a join_no_trailing[OF m] join_with_eq_Nil[of "replicate ups ''..'' @ names" "''/''"] m
        join_with_snoc[OF False, of "''/''" c]
      by (simp add: path_push_def path_join_def render_path_def)
  qed
qed

lemma path_pop_snoc:
  assumes "CHR ''/'' \<notin> set x" and "x \<noteq> []"
  shows "path_pop (a @ ''/'' @ x) = Some (if a = [] then ''/'' else a)" and "path_pop x = Some []"
proof -
  have n: "a @ ''/'' @ x \<noteq> ''/''" "a @ ''/'' @ x \<noteq> []"
    using assms(2) by (cases a; simp)+
  have k: "a @ ''/'' = ''/'' \<longleftrightarrow> a = []" by simp
  show "path_pop (a @ ''/'' @ x) = Some (if a = [] then ''/'' else a)"
    unfolding path_pop_def Let_def dropWhile_name[OF assms(1)] using n k by (simp del: append.simps)
  have d: "dropWhile (\<lambda>c. c \<noteq> CHR ''/'') (rev x) = []"
    using assms(1) by (simp add: dropWhile_eq_Nil_conv) blast
  have "x \<noteq> ''/''" using assms(1) by auto
  then show "path_pop x = Some []"
    unfolding path_pop_def Let_def d using assms(2) by simp
qed

lemma render_pop:
  assumes "\<forall>x\<in>set names. path_name x" and "path_name x"
  shows "path_pop (render_path True 0 (names @ [x])) = Some (render_path True 0 names)"
    and "path_pop (render_path False ups (names @ [x])) = Some (render_path False ups names)"
proof -
  have x: "CHR ''/'' \<notin> set x" "x \<noteq> []" using assms(2) by (simp_all add: path_name_def)
  have n: "join_with ''/'' names = [] \<longleftrightarrow> names = []"
    using climb_nonempty[OF assms(1), of 0] by (intro join_with_eq_Nil) simp
  show "path_pop (render_path True 0 (names @ [x])) = Some (render_path True 0 names)"
  proof (cases "names = []")
    case True
    then show ?thesis using path_pop_snoc(1)[OF x, of "[]"] by (simp add: render_path_def)
  next
    case False
    have "render_path True 0 (names @ [x]) = (''/'' @ join_with ''/'' names) @ ''/'' @ x"
      by (simp add: render_path_def join_with_snoc[OF False])
    then show ?thesis
      using path_pop_snoc(1)[OF x, of "''/'' @ join_with ''/'' names"] by (simp add: render_path_def)
  qed
  let ?pre = "replicate ups ''..'' @ names"
  have m: "join_with ''/'' ?pre = [] \<longleftrightarrow> ?pre = []"
    by (rule join_with_eq_Nil[OF climb_nonempty[OF assms(1)]])
  show "path_pop (render_path False ups (names @ [x])) = Some (render_path False ups names)"
  proof (cases "?pre = []")
    case True
    then show ?thesis using path_pop_snoc(2)[OF x] by (simp add: render_path_def)
  next
    case False
    have "render_path False ups (names @ [x]) = join_with ''/'' ?pre @ ''/'' @ x"
      using join_with_snoc[OF False, of "''/''" x] by (simp add: render_path_def)
    moreover have "join_with ''/'' ?pre \<noteq> []" using m False by blast
    ultimately show ?thesis
      using path_pop_snoc(1)[OF x, of "join_with ''/'' ?pre"] by (simp add: render_path_def)
  qed
qed

definition stacked :: "bool \<Rightarrow> nat \<times> string list \<Rightarrow> norm" where
  "stacked rooted s = \<lparr>nm_out = render_path rooted (fst s) (snd s), nm_popped_depth = length (snd s),
     nm_rooted = rooted\<rparr>"

definition stack_ok :: "bool \<Rightarrow> nat \<times> string list \<Rightarrow> bool" where
  "stack_ok rooted s \<longleftrightarrow> (rooted \<longrightarrow> fst s = 0) \<and> (\<forall>x\<in>set (snd s). path_name x)"

lemma stack_step_ok:
  "stack_ok rooted s \<Longrightarrow> c \<noteq> [] \<Longrightarrow> CHR ''/'' \<notin> set c \<Longrightarrow> stack_ok rooted (stack_step rooted c s)"
  by (cases s) (auto simp: stack_ok_def path_name_def dest: in_set_butlastD)

lemma norm_step_stacked:
  assumes "stack_ok rooted s" and "c \<noteq> []" and "CHR ''/'' \<notin> set c"
  shows "norm_step (name_component c) (stacked rooted s) = stacked rooted (stack_step rooted c s)"
proof -
  obtain ups names where s: "s = (ups, names)" by fastforce
  have names: "\<forall>x\<in>set names. path_name x" and r: "rooted \<Longrightarrow> ups = 0"
    using assms(1) by (auto simp: stack_ok_def s)
  note push = render_push[OF names]
  consider "c = ''.''" | "c = ''..''" | "c \<noteq> ''.''" "c \<noteq> ''..''" by blast
  then show ?thesis
  proof cases
    case 1
    then show ?thesis by (simp add: s name_component_def)
  next
    case 2
    show ?thesis
    proof (cases names rule: rev_exhaust)
      case Nil
      then show ?thesis
        using 2 push(2)[of "''..''" ups] r
        by (auto simp: s name_component_def stacked_def render_path_def replicate_append_same)
    next
      case (snoc xs x)
      then have "\<forall>x\<in>set xs. path_name x" "path_name x" using names by auto
      note pop = render_pop[OF this]
      show ?thesis
        using 2 pop r by (cases rooted) (auto simp: s snoc name_component_def stacked_def)
    qed
  next
    case 3
    then show ?thesis
      using push[of c] assms r
      by (cases rooted) (auto simp: s name_component_def stacked_def render_path_def)
  qed
qed

lemma fold_stacked:
  assumes "\<forall>c\<in>set cs. c \<noteq> [] \<and> CHR ''/'' \<notin> set c" and "stack_ok rooted s"
  shows "fold norm_step (map name_component cs) (stacked rooted s) = stacked rooted (fold (stack_step rooted) cs s) \<and>
    stack_ok rooted (fold (stack_step rooted) cs s)"
  using assms
proof (induction cs arbitrary: s)
  case (Cons c cs)
  then show ?case
    using norm_step_stacked[of rooted s c] stack_step_ok[of rooted s c] by simp
qed simp

lemma split_on_pieces: "q \<in> set (split_on x s) \<Longrightarrow> x \<notin> set q"
  by (induction s arbitrary: q) (auto split: if_splits list.splits)

lemma path_components_names:
  "c \<in> set (snd (path_components p)) \<Longrightarrow> c \<noteq> [] \<and> CHR ''/'' \<notin> set c"
  by (auto simp: path_components_def Let_def dest: split_on_pieces split: if_splits)

definition normal_stack :: "string \<Rightarrow> nat \<times> string list" where
  "normal_stack p = fold (stack_step (fst (path_components p))) (snd (path_components p)) (0, [])"

lemma normal_stack_ok: "stack_ok (fst (path_components p)) (normal_stack p)"
  and normalize_stack:
  "lexically_normalize p =
     (let out = render_path (fst (path_components p)) (fst (normal_stack p)) (snd (normal_stack p))
      in if out = [] then ''.'' else out)"
proof -
  obtain rooted names where p: "path_components p = (rooted, names)" by fastforce
  have "\<forall>c\<in>set names. c \<noteq> [] \<and> CHR ''/'' \<notin> set c"
    using path_components_names[of _ p] by (auto simp: p)
  note f = fold_stacked[OF this, of rooted "(0, [])"]
  have start: "fold norm_step (if rooted then [RootDir] else []) \<lparr>nm_out = [], nm_popped_depth = 0, nm_rooted = False\<rparr> =
      stacked rooted (0, [])"
    by (auto simp: stacked_def render_path_def path_push_def path_is_absolute_def starts_with_def)
  show "stack_ok (fst (path_components p)) (normal_stack p)"
    using f by (simp add: p normal_stack_def stack_ok_def)
  show "lexically_normalize p =
     (let out = render_path (fst (path_components p)) (fst (normal_stack p)) (snd (normal_stack p))
      in if out = [] then ''.'' else out)"
    using f start
    by (simp add: lexically_normalize_def components_def p normal_stack_def stack_ok_def stacked_def
        path_push_def path_join_def path_is_absolute_def starts_with_def Let_def del: fold.simps)
qed

subsection \<open>What a normalised path is\<close>

lemma split_on_join:
  "xs \<noteq> [] \<Longrightarrow> \<forall>x\<in>set xs. c \<notin> set x \<Longrightarrow> split_on c (join_with [c] xs) = xs"
  by (induction "[c]" xs rule: join_with.induct) (auto simp: split_on_free split_on_append)

lemma components_render:
  assumes "\<forall>x\<in>set names. path_name x"
  shows "path_components (render_path True 0 names) = (True, names)"
    and "path_components (render_path False ups names) = (False, replicate ups ''..'' @ names)"
proof -
  have keep: "filter (\<lambda>c. c \<noteq> ''.'') (filter (\<lambda>c. c \<noteq> []) xs) = xs"
    if "\<forall>x\<in>set xs. x \<noteq> ''.'' \<and> x \<noteq> []" for xs :: "string list"
    using that by (induction xs) auto
  show "path_components (render_path True 0 names) = (True, names)"
  proof (cases "names = []")
    case True
    then show ?thesis
      by (simp add: path_components_def render_path_def starts_with_def Let_def)
  next
    case False
    have "\<forall>x\<in>set names. CHR ''/'' \<notin> set x" and "\<forall>x\<in>set names. x \<noteq> ''.'' \<and> x \<noteq> []"
      using climb_names[OF assms, of 0] by simp_all
    then show ?thesis
      using split_on_join[OF False, of "CHR ''/''"] keep[of names]
      by (simp add: path_components_def render_path_def starts_with_def Let_def del: filter_filter)
  qed
  let ?xs = "replicate ups ''..'' @ names"
  note xs = climb_names[OF assms, of ups]
  show "path_components (render_path False ups names) = (False, ?xs)"
  proof (cases ?xs)
    case Nil
    then show ?thesis
      by (simp add: path_components_def render_path_def starts_with_def Let_def)
  next
    case (Cons y ys)
    let ?s = "join_with ''/'' ?xs"
    have split: "split_on CHR ''/'' ?s = ?xs"
    proof (rule split_on_join)
      show "?xs \<noteq> []" unfolding Cons by simp
      show "\<forall>x\<in>set ?xs. CHR ''/'' \<notin> set x" using xs by blast
    qed
    have y: "y \<noteq> []" "CHR ''/'' \<notin> set y" "y \<noteq> ''.''" using xs by (auto simp: Cons)
    have cut: "?s = y \<or> (\<exists>r. ?s = y @ ''/'' @ r)"
      unfolding Cons by (cases ys) auto
    have "\<not> starts_with ''/'' ?s"
      using cut y(1,2) by (cases y) (auto simp: starts_with_def)
    moreover have "?s \<noteq> ''.'' \<and> \<not> starts_with ''./'' ?s"
    proof -
      have "\<not> starts_with ''./'' (y @ ''/'' @ r)" for r
        using y by (cases y; cases "tl y") (auto simp: starts_with_def split: if_splits)
      moreover have "\<not> starts_with ''./'' y"
        using y(2) by (auto simp: starts_with_iff)
      moreover have "?s \<noteq> ''.''"
        using cut y by (cases y; cases "tl y") auto
      ultimately show ?thesis using cut by metis
    qed
    moreover have "filter (\<lambda>c. c \<noteq> ''.'') (filter (\<lambda>c. c \<noteq> []) ?xs) = ?xs"
      using xs by (intro keep) blast
    ultimately show ?thesis
      unfolding path_components_def render_path_def Let_def split if_False by (simp del: filter_filter)
  qed
qed

lemma rooted_iff_absolute: "fst (path_components p) \<longleftrightarrow> path_is_absolute p"
  by (simp add: path_components_def path_is_absolute_def Let_def)

lemma stack_of_names:
  "\<forall>x\<in>set xs. path_name x \<Longrightarrow> fold (stack_step rooted) xs (ups, names) = (ups, names @ xs)"
  by (induction xs arbitrary: names) (auto simp: path_name_def)

lemma stack_of_parents: "fold (stack_step False) (replicate n ''..'') (ups, []) = (ups + n, [])"
  by (induction n arbitrary: ups) auto

lemma render_relative_Nil:
  "\<forall>x\<in>set names. path_name x \<Longrightarrow> render_path False ups names = [] \<longleftrightarrow> replicate ups ''..'' @ names = []"
  unfolding render_path_def if_False by (rule join_with_eq_Nil[OF climb_nonempty])

lemma normalize_cases:
  obtains (rooted) names where "path_is_absolute p" "\<forall>x\<in>set names. path_name x" "normal_stack p = (0, names)"
      "lexically_normalize p = render_path True 0 names"
  | (relative) ups names where "\<not> path_is_absolute p" "\<forall>x\<in>set names. path_name x"
      "normal_stack p = (ups, names)" "replicate ups ''..'' @ names \<noteq> []"
      "lexically_normalize p = render_path False ups names"
  | (dot) "\<not> path_is_absolute p" "lexically_normalize p = ''.''"
proof -
  obtain ups names where st: "normal_stack p = (ups, names)" by fastforce
  have ok: "\<forall>x\<in>set names. path_name x" "path_is_absolute p \<Longrightarrow> ups = 0"
    using normal_stack_ok[of p] by (auto simp: stack_ok_def st rooted_iff_absolute)
  have out: "lexically_normalize p =
     (if render_path (path_is_absolute p) ups names = [] then ''.'' else render_path (path_is_absolute p) ups names)"
    using normalize_stack[of p] by (simp add: Let_def st rooted_iff_absolute)
  show thesis
  proof (cases "path_is_absolute p")
    case True
    then have "lexically_normalize p = render_path True 0 names"
      using out ok(2) by (simp add: render_path_def)
    with True ok st rooted show thesis by metis
  next
    case False
    have "lexically_normalize p =
        (if replicate ups ''..'' @ names = [] then ''.'' else render_path False ups names)"
      using out False render_relative_Nil[OF ok(1), of ups] by simp
    with False ok st relative dot show thesis by (metis (full_types))
  qed
qed

lemma normalize_dot [simp]: "lexically_normalize ''.'' = ''.''"
  by (simp add: lexically_normalize_def components_def path_components_def starts_with_def
      name_component_def path_push_def path_join_def path_is_absolute_def)

text \<open>Lexical normalisation is idempotent, and identifies all spellings of a path: two paths with
  the same components normalise to the same string. An absolute path normalises to its canonical
  spelling: a slash before each name, no empty, dot or parent component left, so that the root has
  no parent to climb to.\<close>

theorem normalize_canonical:
  "lexically_normalize (lexically_normalize p) = lexically_normalize p \<and>
   (path_eq p q \<longrightarrow> lexically_normalize p = lexically_normalize q) \<and>
   (path_is_absolute p \<longleftrightarrow> path_is_absolute (lexically_normalize p)) \<and>
   (path_is_absolute p \<longrightarrow>
      lexically_normalize p = ''/'' @ join_with ''/'' (snd (path_components (lexically_normalize p))) \<and>
      list_all path_name (snd (path_components (lexically_normalize p))))"
proof (intro conjI impI)
  show "path_eq p q \<Longrightarrow> lexically_normalize p = lexically_normalize q"
    by (simp add: path_eq_def lexically_normalize_def components_def)
  have "lexically_normalize (lexically_normalize p) = lexically_normalize p \<and>
    (path_is_absolute p \<longleftrightarrow> path_is_absolute (lexically_normalize p)) \<and>
    (path_is_absolute p \<longrightarrow>
      lexically_normalize p = ''/'' @ join_with ''/'' (snd (path_components (lexically_normalize p))) \<and>
      list_all path_name (snd (path_components (lexically_normalize p))))"
  proof (cases rule: normalize_cases[of p])
    case (rooted names)
    note c = components_render(1)[OF rooted(2)]
    have "normal_stack (render_path True 0 names) = (0, names)"
      using stack_of_names[OF rooted(2), of True 0 "[]"] by (simp add: normal_stack_def c)
    moreover have "path_is_absolute (render_path True 0 names)"
      using rooted_iff_absolute[of "render_path True 0 names"] c by simp
    ultimately show ?thesis
      using rooted c normalize_stack[of "render_path True 0 names"]
      by (simp add: Let_def render_path_def list_all_iff)
  next
    case (relative ups names)
    note c = components_render(2)[OF relative(2), of ups]
    have "normal_stack (render_path False ups names) = (ups, names)"
      using stack_of_names[OF relative(2), of False ups "[]"] stack_of_parents[of ups 0]
      by (simp add: normal_stack_def c)
    moreover have "\<not> path_is_absolute (render_path False ups names)"
      using rooted_iff_absolute[of "render_path False ups names"] c by simp
    moreover have "render_path False ups names \<noteq> []"
      using render_relative_Nil[OF relative(2), of ups] relative(4) by blast
    ultimately show ?thesis
      using relative c normalize_stack[of "render_path False ups names"] by (simp add: Let_def)
  next
    case dot
    then show ?thesis by (simp add: path_is_absolute_def starts_with_def)
  qed
  then show "lexically_normalize (lexically_normalize p) = lexically_normalize p"
    and "path_is_absolute p \<longleftrightarrow> path_is_absolute (lexically_normalize p)"
    and "path_is_absolute p \<Longrightarrow>
      lexically_normalize p = ''/'' @ join_with ''/'' (snd (path_components (lexically_normalize p)))"
    and "path_is_absolute p \<Longrightarrow> list_all path_name (snd (path_components (lexically_normalize p)))"
    by blast+
qed

end
