(* ===== verification/Ir_Encoding.thy ===== *)
theory Ir_Encoding
  imports Ir
begin

section \<open>Serialisation of the typed payloads\<close>

text \<open>
  The other half of \<open>freshdag-core/src/ir/payload.rs\<close>: what the derived serialisers of the
  payload structs produce as a \<open>Value\<close>. The attributes of a field decide whether it appears: an
  optional field that is absent is skipped, as are the read kind \<open>direct\<close> and a false
  \<open>impure\<close>. The lemmas are the round trips with the decoders, which hold for payloads whose
  hash satisfies the invariant of \<open>Hash\<close>, also when further fields were added to the object.
\<close>

fun fs_read_kind_wire :: "fs_read_kind \<Rightarrow> string" where
  "fs_read_kind_wire DirectRead = ''direct''"
| "fs_read_kind_wire MmapPessimistic = ''mmap-pessimistic''"

fun fs_write_mode_wire :: "fs_write_mode \<Rightarrow> string" where
  "fs_write_mode_wire CreateMode = ''create''"
| "fs_write_mode_wire AppendMode = ''append''"
| "fs_write_mode_wire TruncateMode = ''truncate''"

fun tool_kind_wire :: "tool_kind \<Rightarrow> string" where
  "tool_kind_wire Builtin = ''builtin''"
| "tool_kind_wire Mcp = ''mcp''"
| "tool_kind_wire Skill = ''skill''"
| "tool_kind_wire Task = ''task''"
| "tool_kind_wire Bash = ''bash''"

definition str_field :: "string \<Rightarrow> string option \<Rightarrow> (string \<times> json) list" where
  \<comment> \<open>an optional text, skipped when absent\<close>
  "str_field k v = opt_field k (map_option JStr v)"

definition ser_fs_read :: "fs_read \<Rightarrow> json" where
  "ser_fs_read r = json_obj
     ([(''path'', JStr (fr_path r)), (''size'', JUInt (fr_size r))] @
      str_field ''hash'' (map_option hash_display (fr_hash r)) @
      str_field ''follow_symlink_target'' (fr_follow_symlink_target r) @
      str_field ''raw_path'' (fr_raw_path r) @
      (if fr_read_kind r = DirectRead then []
       else [(''read_kind'', JStr (fs_read_kind_wire (fr_read_kind r)))]) @
      (if fr_impure r then [(''impure'', JBool True)] else []))"

definition ser_fs_write :: "fs_write \<Rightarrow> json" where
  "ser_fs_write w = json_obj
     ([(''path'', JStr (fw_path w)), (''size'', JUInt (fw_size w))] @
      str_field ''hash'' (map_option hash_display (fw_hash w)) @
      [(''mode'', JStr (fs_write_mode_wire (fw_mode w)))] @
      str_field ''raw_path'' (fw_raw_path w))"

definition ser_tool_invoked :: "tool_invoked \<Rightarrow> json" where
  "ser_tool_invoked t = json_obj
     ([(''tool_name'', JStr (ti_tool_name t)), (''tool_kind'', JStr (tool_kind_wire (ti_tool_kind t))),
       (''tool_input'', ti_tool_input t)] @
      str_field ''cwd'' (ti_cwd t))"

definition ser_tool_completed :: "tool_completed \<Rightarrow> json" where
  "ser_tool_completed t = json_obj
     [(''tool_output'', tc_tool_output t), (''is_error'', JBool (tc_is_error t)),
      (''duration_ms'', JUInt (tc_duration_ms t))]"

fun ser_payload :: "typed_payload \<Rightarrow> json" where
  "ser_payload (FsReadPayload r) = ser_fs_read r"
| "ser_payload (FsWritePayload w) = ser_fs_write w"
| "ser_payload (ToolInvokedPayload t) = ser_tool_invoked t"
| "ser_payload (ToolCompletedPayload t) = ser_tool_completed t"

fun payload_wf :: "typed_payload \<Rightarrow> bool" where
  \<comment> \<open>the invariant of the hash a payload carries\<close>
  "payload_wf (FsReadPayload r) \<longleftrightarrow> (case fr_hash r of None \<Rightarrow> True | Some h \<Rightarrow> hash_wf h)"
| "payload_wf (FsWritePayload w) \<longleftrightarrow> (case fw_hash w of None \<Rightarrow> True | Some h \<Rightarrow> hash_wf h)"
| "payload_wf _ \<longleftrightarrow> True"

subsection \<open>Round trips\<close>

lemma map_of_str_field:
  "map_of (str_field k v) k' = (if k' = k then map_option JStr v else None)"
  by (cases v) (auto simp: str_field_def opt_field_def)

lemma rev_str_field [simp]: "rev (str_field k v) = str_field k v"
  by (cases v) (simp_all add: str_field_def opt_field_def)

lemma de_hash_display: "hash_wf h \<Longrightarrow> de_hash (JStr (hash_display h)) = Some h"
proof -
  assume "hash_wf h"
  then have "hash_parse (hash_display h) = Inr h" by (simp add: hash_parse_Inr)
  then show ?thesis by (simp add: de_hash_def)
qed

lemma de_fs_read_kind_wire [simp]: "de_fs_read_kind (JStr (fs_read_kind_wire k)) = Some k"
  by (cases k) (simp_all add: de_fs_read_kind_def de_enum_def)

lemma de_fs_write_mode_wire [simp]: "de_fs_write_mode (JStr (fs_write_mode_wire m)) = Some m"
  by (cases m) (simp_all add: de_fs_write_mode_def de_enum_def)

lemma de_tool_kind_wire [simp]: "de_tool_kind (JStr (tool_kind_wire t)) = Some t"
  by (cases t) (simp_all add: de_tool_kind_def de_enum_def)

lemma maybe_str [simp]:
  "m k = map_option JStr v \<Longrightarrow> maybe_field as_str m k = Some v"
  by (cases v) (simp_all add: maybe_field_def)

lemma maybe_hash [simp]:
  "m k = map_option JStr (map_option hash_display h) \<Longrightarrow> (case h of None \<Rightarrow> True | Some x \<Rightarrow> hash_wf x) \<Longrightarrow>
     maybe_field de_hash m k = Some h"
  by (cases h) (simp_all add: maybe_field_def de_hash_display)

lemmas payload_lookup = json_get_obj map_of_append map_add_def map_of_str_field

lemma ser_fs_read_lookup:
  "json_get (ser_fs_read r) ''path'' = Some (JStr (fr_path r))"
  "json_get (ser_fs_read r) ''size'' = Some (JUInt (fr_size r))"
  "json_get (ser_fs_read r) ''hash'' = map_option JStr (map_option hash_display (fr_hash r))"
  "json_get (ser_fs_read r) ''follow_symlink_target'' = map_option JStr (fr_follow_symlink_target r)"
  "json_get (ser_fs_read r) ''raw_path'' = map_option JStr (fr_raw_path r)"
  "json_get (ser_fs_read r) ''read_kind'' = (if fr_read_kind r = DirectRead then None else Some (JStr (fs_read_kind_wire (fr_read_kind r))))"
  "json_get (ser_fs_read r) ''impure'' = (if fr_impure r then Some (JBool True) else None)"
  by (simp_all add: ser_fs_read_def payload_lookup split: option.splits)

lemma ser_fs_write_lookup:
  "json_get (ser_fs_write w) ''path'' = Some (JStr (fw_path w))"
  "json_get (ser_fs_write w) ''size'' = Some (JUInt (fw_size w))"
  "json_get (ser_fs_write w) ''hash'' = map_option JStr (map_option hash_display (fw_hash w))"
  "json_get (ser_fs_write w) ''mode'' = Some (JStr (fs_write_mode_wire (fw_mode w)))"
  "json_get (ser_fs_write w) ''raw_path'' = map_option JStr (fw_raw_path w)"
  by (simp_all add: ser_fs_write_def payload_lookup split: option.splits)

lemma ser_tool_invoked_lookup:
  "json_get (ser_tool_invoked t) ''tool_name'' = Some (JStr (ti_tool_name t))"
  "json_get (ser_tool_invoked t) ''tool_kind'' = Some (JStr (tool_kind_wire (ti_tool_kind t)))"
  "json_get (ser_tool_invoked t) ''tool_input'' = Some (ti_tool_input t)"
  "json_get (ser_tool_invoked t) ''cwd'' = map_option JStr (ti_cwd t)"
  by (simp_all add: ser_tool_invoked_def payload_lookup split: option.splits)

lemma ser_tool_completed_lookup:
  "json_get (ser_tool_completed t) ''tool_output'' = Some (tc_tool_output t)"
  "json_get (ser_tool_completed t) ''is_error'' = Some (JBool (tc_is_error t))"
  "json_get (ser_tool_completed t) ''duration_ms'' = Some (JUInt (tc_duration_ms t))"
  by (simp_all add: ser_tool_completed_def payload_lookup split: option.splits)

lemma ser_is_obj:
  "\<exists>m. ser_fs_read r = JObj m" "\<exists>m. ser_fs_write w = JObj m"
  "\<exists>m. ser_tool_invoked t = JObj m" "\<exists>m. ser_tool_completed u = JObj m"
  by (simp_all add: ser_fs_read_def ser_fs_write_def ser_tool_invoked_def ser_tool_completed_def json_obj_def)

lemma get_of_obj: "j = JObj m \<Longrightarrow> map_of m k = json_get j k"
  by simp

definition field_names :: "event_kind \<Rightarrow> string list" where
  \<comment> \<open>the fields a decoder of the kind looks at\<close>
  "field_names k =
     (case k of
        FsRead \<Rightarrow> [''path'', ''size'', ''hash'', ''follow_symlink_target'', ''raw_path'', ''read_kind'', ''impure'']
      | FsWrite \<Rightarrow> [''path'', ''size'', ''hash'', ''mode'', ''raw_path'']
      | ToolInvoked \<Rightarrow> [''tool_name'', ''tool_kind'', ''tool_input'', ''cwd'']
      | ToolCompleted \<Rightarrow> [''tool_output'', ''is_error'', ''duration_ms'']
      | _ \<Rightarrow> [])"

lemma json_insert_JObj: "json_insert k v (JObj m) = JObj (bm_put k v m)" by simp

lemma other_field:
  "k \<noteq> f \<Longrightarrow> req_field dec (map_of (bm_put k v m)) f = req_field dec (map_of m) f"
  "k \<noteq> f \<Longrightarrow> maybe_field dec (map_of (bm_put k v m)) f = maybe_field dec (map_of m) f"
  "k \<noteq> f \<Longrightarrow> default_field d dec (map_of (bm_put k v m)) f = default_field d dec (map_of m) f"
  by (auto simp: req_field_def maybe_field_def default_field_def)

lemma decode_ignores_other_fields:
  "k \<notin> set (field_names FsRead) \<Longrightarrow> de_fs_read (json_insert k v (JObj m)) = de_fs_read (JObj m)"
  "k \<notin> set (field_names FsWrite) \<Longrightarrow> de_fs_write (json_insert k v (JObj m)) = de_fs_write (JObj m)"
  "k \<notin> set (field_names ToolInvoked) \<Longrightarrow> de_tool_invoked (json_insert k v (JObj m)) = de_tool_invoked (JObj m)"
  "k \<notin> set (field_names ToolCompleted) \<Longrightarrow> de_tool_completed (json_insert k v (JObj m)) = de_tool_completed (JObj m)"
  by (simp_all add: field_names_def de_fs_read_def de_fs_write_def de_tool_invoked_def
      de_tool_completed_def other_field)

lemma de_ser_fs_read:
  assumes "payload_wf (FsReadPayload r)"
  shows "de_fs_read (ser_fs_read r) = Some r"
proof -
  obtain m where m: "ser_fs_read r = JObj m" using ser_is_obj by blast
  note l = get_of_obj[OF m] ser_fs_read_lookup
  have "default_field DirectRead de_fs_read_kind (map_of m) ''read_kind'' = Some (fr_read_kind r)"
    "default_field False as_bool (map_of m) ''impure'' = Some (fr_impure r)"
    by (simp_all add: default_field_def l)
  then show ?thesis
    using assms unfolding m de_fs_read_def by (simp add: req_field_def l)
qed

lemma de_ser_fs_write:
  assumes "payload_wf (FsWritePayload w)"
  shows "de_fs_write (ser_fs_write w) = Some w"
proof -
  obtain m where m: "ser_fs_write w = JObj m" using ser_is_obj by blast
  note l = get_of_obj[OF m] ser_fs_write_lookup
  show ?thesis using assms unfolding m de_fs_write_def by (simp add: req_field_def l)
qed

lemma de_ser_tool_invoked: "de_tool_invoked (ser_tool_invoked t) = Some t"
proof -
  obtain m where m: "ser_tool_invoked t = JObj m" using ser_is_obj by blast
  note l = get_of_obj[OF m] ser_tool_invoked_lookup
  show ?thesis unfolding m de_tool_invoked_def by (simp add: req_field_def l)
qed

lemma de_ser_tool_completed: "de_tool_completed (ser_tool_completed t) = Some t"
proof -
  obtain m where m: "ser_tool_completed t = JObj m" using ser_is_obj by blast
  note l = get_of_obj[OF m] ser_tool_completed_lookup
  show ?thesis unfolding m de_tool_completed_def by (simp add: req_field_def l)
qed

text \<open>What a producer serialises, a consumer decodes: an event whose payload is the serialised
  form of a typed payload, under the kind of that payload, decodes to it; the hash, where there is
  one, has to satisfy the invariant its constructors establish.\<close>

theorem payload_roundtrip:
  "payload_wf p \<Longrightarrow> ev_kind e = typed_kind p \<Longrightarrow> ev_payload e = ser_payload p \<Longrightarrow> decode_payload msg e = Inr p"
  by (cases p) (simp_all add: decode_payload_def typed_kind_def typed_or_def de_ser_fs_read
      de_ser_fs_write de_ser_tool_invoked de_ser_tool_completed del: payload_wf.simps)

end
