(* ===== verification/Claude_Compile.thy ===== *)
theory Claude_Compile
  imports Claude_Paths Ir_Encoding
begin

section \<open>The Claude adapter: from hook payloads to events (\<open>crates/freshdag-adapter-claude/src/compile.rs\<close>)\<close>

text \<open>
  The compiler turns one hook payload into a list of events. Its state is the number of events it
  has built: the identifier generator and the clock are functions of that number, as each event
  draws one identifier and one reading of the clock. JSON parsing, BLAKE3 and the source of file
  fingerprints are parameters. Every handler is a definition that returns its events and the
  compiler afterwards.
\<close>

definition observation_pre_execution_intent :: string where
  "observation_pre_execution_intent = ''pre-execution-intent''"

record hook_ctx =
  hc_session_id :: string
  hc_computation_id :: "computation_id option"
  hc_cwd :: "string option"

record compiler =
  cp_config :: adapter_config
  cp_clock :: "nat \<Rightarrow> instant"
  cp_ids :: "nat \<Rightarrow> uuid"
  cp_content :: content_source
  cp_hex :: "string \<Rightarrow> string"
  cp_made :: nat

definition compiler_new ::
  "(string \<Rightarrow> string) \<Rightarrow> adapter_config \<Rightarrow> (nat \<Rightarrow> instant) \<Rightarrow> (nat \<Rightarrow> uuid) \<Rightarrow> compiler" where
  "compiler_new hex config clock ids =
     \<lparr>cp_config = config, cp_clock = clock, cp_ids = ids, cp_content = no_content, cp_hex = hex, cp_made = 0\<rparr>"

definition with_content :: "content_source \<Rightarrow> compiler \<Rightarrow> compiler" where
  "with_content content cp = cp\<lparr>cp_content := content\<rparr>"

definition compiler_production ::
  "(string \<Rightarrow> string) \<Rightarrow> (nat \<Rightarrow> instant) \<Rightarrow> (nat \<Rightarrow> uuid) \<Rightarrow> disk \<Rightarrow> adapter_config \<Rightarrow> compiler" where
  "compiler_production hex clock ids dk config =
     with_content (disk_content hex (ac_max_hash_bytes config) dk) (compiler_new hex config clock ids)"

subsection \<open>Envelopes\<close>

definition compiler_event ::
  "compiler \<Rightarrow> hook_ctx \<Rightarrow> event_kind \<Rightarrow> json \<Rightarrow> uuid option \<Rightarrow> ir_event \<times> compiler" where
  "compiler_event cp ctx kind payload causal =
     (\<lparr>ev_event_id = cp_ids cp (cp_made cp), ev_producer = claude_producer,
       ev_producer_version = ac_producer_version (cp_config cp),
       ev_session_id = hc_session_id ctx, ev_computation_id = hc_computation_id ctx,
       ev_parent_id = causal, ev_causal_inputs = map_option (\<lambda>i. [i]) causal,
       ev_ts = cp_clock cp (cp_made cp), ev_kind = kind, ev_payload = payload\<rparr>,
      cp\<lparr>cp_made := cp_made cp + 1\<rparr>)"

definition compiler_diagnostic ::
  "compiler \<Rightarrow> hook_ctx \<Rightarrow> hook_diagnostic \<Rightarrow> uuid option \<Rightarrow> ir_event \<times> compiler" where
  "compiler_diagnostic cp ctx diag causal =
     compiler_event cp ctx Diagnostic (diagnostic_to_payload diag) causal"

definition orphan_diagnostic :: "compiler \<Rightarrow> hook_diagnostic \<Rightarrow> ir_event \<times> compiler" where
  "orphan_diagnostic cp diag =
     compiler_diagnostic cp \<lparr>hc_session_id = unknown_session_id, hc_computation_id = None, hc_cwd = None\<rparr> diag None"

definition computation_of :: "compiler \<Rightarrow> string \<Rightarrow> computation_id" where
  "computation_of cp session_id =
     computation_id_for_session (cp_hex cp) session_id (ac_identity_rule_version (cp_config cp))"

definition standalone_diagnostic :: "compiler \<Rightarrow> string \<Rightarrow> hook_diagnostic \<Rightarrow> ir_event \<times> compiler" where
  "standalone_diagnostic cp session_id diag =
     compiler_diagnostic cp
       \<lparr>hc_session_id = session_id,
        hc_computation_id = (if session_id = unknown_session_id then None else Some (computation_of cp session_id)),
        hc_cwd = None\<rparr> diag None"

definition context_for :: "compiler \<Rightarrow> string \<Rightarrow> json \<Rightarrow> hook_ctx" where
  "context_for cp session_id payload =
     \<lparr>hc_session_id = session_id, hc_computation_id = Some (computation_of cp session_id),
      hc_cwd = str_at payload ''cwd''\<rparr>"

fun compile_diagnostics ::
  "compiler \<Rightarrow> hook_ctx \<Rightarrow> uuid option \<Rightarrow> hook_diagnostic list \<Rightarrow> ir_event list \<times> compiler" where
  \<comment> \<open>the loops that append the pending diagnostics\<close>
  "compile_diagnostics cp ctx causal [] = ([], cp)"
| "compile_diagnostics cp ctx causal (d # ds) =
     (let (e, cp) = compiler_diagnostic cp ctx d causal;
          (es, cp) = compile_diagnostics cp ctx causal ds
      in (e # es, cp))"

definition single :: "ir_event \<times> compiler \<Rightarrow> ir_event list \<times> compiler" where
  "single r = ([fst r], snd r)"

subsection \<open>Tools\<close>

record classified_tool =
  cl_tool_name :: string
  cl_tool_kind :: tool_kind
  cl_diagnostics :: "hook_diagnostic list"

definition classify_mcp :: "string \<Rightarrow> classified_tool" where
  "classify_mcp raw =
     (case split_mcp_tool_name raw of
        Some (server, tool) \<Rightarrow>
          \<lparr>cl_tool_name = ''mcp/'' @ server @ ''/'' @ tool, cl_tool_kind = Mcp, cl_diagnostics = []\<rparr>
      | None \<Rightarrow>
          \<lparr>cl_tool_name = raw, cl_tool_kind = Mcp,
           cl_diagnostics = [diagnostic_with ''tool_name'' (JStr raw)
             (diagnostic_new ToolNameNormalizationFailed
               (''MCP tool name `'' @ raw @ ''` does not match `mcp__<server>__<tool>`; '' @
                ''emitted the raw name rather than guessing a server/tool split''))]\<rparr>)"

definition classify_skill :: "string \<Rightarrow> json \<Rightarrow> classified_tool" where
  "classify_skill raw input =
     (case skill_name_from_input input of
        Some n \<Rightarrow> \<lparr>cl_tool_name = ''skill/'' @ n, cl_tool_kind = Skill, cl_diagnostics = []\<rparr>
      | None \<Rightarrow>
          \<lparr>cl_tool_name = raw, cl_tool_kind = Skill,
           cl_diagnostics = [diagnostic_with ''tool_name'' (JStr raw)
             (diagnostic_new ToolNameNormalizationFailed
               (''Skill invocation carried no recognizable skill name in `tool_input`; '' @
                ''emitted the raw tool name rather than inventing one''))]\<rparr>)"

definition classify_hook_tool :: "string \<Rightarrow> json \<Rightarrow> classified_tool" where
  "classify_hook_tool raw input =
     (if starts_with mcp_tool_prefix raw then classify_mcp raw
      else if raw = bash_tool_name
      then \<lparr>cl_tool_name = ''bash'', cl_tool_kind = Bash, cl_diagnostics = []\<rparr>
      else if raw = skill_tool_name then classify_skill raw input
      else if raw \<in> set task_tool_names
      then \<lparr>cl_tool_name = ''task'', cl_tool_kind = Task, cl_diagnostics = []\<rparr>
      else \<lparr>cl_tool_name = raw, cl_tool_kind = Builtin, cl_diagnostics = []\<rparr>)"

subsection \<open>File accesses\<close>

definition synthesize_read :: "resolved_path \<Rightarrow> content_source \<Rightarrow> event_kind \<times> json" where
  "synthesize_read resolved content =
     (let fingerprint = content (rp_path resolved);
          (sz, h) = (case fingerprint of Some (h, sz) \<Rightarrow> (sz, Some h) | None \<Rightarrow> (0, None));
          observed = h \<noteq> None;
          read = \<lparr>fr_path = rp_path resolved, fr_size = sz, fr_hash = h, fr_follow_symlink_target = None,
             fr_raw_path = rp_raw_path resolved, fr_read_kind = DirectRead, fr_impure = False\<rparr>
      in (FsRead,
          json_insert ''observation'' (JStr observation_pre_execution_intent)
            (json_insert ''size_observed'' (JBool observed) (ser_fs_read read))))"

definition synthesize_write ::
  "(string \<Rightarrow> string) \<Rightarrow> string \<Rightarrow> json \<Rightarrow> resolved_path \<Rightarrow> (event_kind \<times> json) \<times> hook_diagnostic list" where
  \<comment> \<open>the \<open>expect\<close> on the digest of BLAKE3 does not fire: it is 64 lower-case hexadecimal digits\<close>
  "synthesize_write hex raw_tool_name input resolved =
     (let content = (if raw_tool_name = ''Write'' then str_at input ''content'' else None);
          diags = (if raw_tool_name = ''Write'' \<and> content = None
             then [diagnostic_with ''tool_name'' (JStr raw_tool_name)
               (diagnostic_new UnparseableToolInput
                 (''`Write` tool input has no string `content`; fs.write carries no size '' @ ''or hash''))]
             else []);
          (sz, h) = (case content of
              Some c \<Rightarrow> (of_nat (length c), Some \<lparr>algo = Blake3, digest_hex = hex c\<rparr>)
            | None \<Rightarrow> (0, None));
          w = \<lparr>fw_path = rp_path resolved, fw_size = sz, fw_hash = h, fw_mode = TruncateMode,
             fw_raw_path = rp_raw_path resolved\<rparr>;
          v = ser_fs_write w;
          v = (if content = None then json_insert ''size_observed'' (JBool False) v else v)
      in ((FsWrite, json_insert ''observation'' (JStr observation_pre_execution_intent) v), diags))"

definition synthesize_fs ::
  "(string \<Rightarrow> string) \<Rightarrow> string \<Rightarrow> json \<Rightarrow> string option \<Rightarrow> content_source
     \<Rightarrow> (event_kind \<times> json) option \<times> hook_diagnostic list" where
  "synthesize_fs hex raw_tool_name input cwd content =
     (let is_read = raw_tool_name \<in> set read_tools;
          is_write = raw_tool_name \<in> set write_tools;
          key = file_path_key raw_tool_name
      in if \<not> is_read \<and> \<not> is_write then (None, [])
         else case str_at input key of
           None \<Rightarrow>
             (None, [diagnostic_with ''tool_input_keys'' (payload_keys input)
                (diagnostic_with ''expected_key'' (JStr key)
                (diagnostic_with ''tool_name'' (JStr raw_tool_name)
                (diagnostic_new UnparseableToolInput
                  (''`'' @ raw_tool_name @ ''` tool input has no string `'' @ key @
                   ''`; no fs event could be synthesized for this invocation''))))])
         | Some raw_path \<Rightarrow>
             (case resolve_path raw_path cwd of
                Inl err \<Rightarrow>
                  (None, [diagnostic_with ''expected_key'' (JStr key)
                     (diagnostic_with ''tool_name'' (JStr raw_tool_name)
                     (diagnostic_new UnparseableToolInput
                       (''`'' @ raw_tool_name @ ''` tool input path could not be canonicalized: '' @
                        path_resolve_error_display err)))])
              | Inr resolved \<Rightarrow>
                  if is_read then (Some (synthesize_read resolved content), [])
                  else (let (ev, diags) = synthesize_write hex raw_tool_name input resolved
                        in (Some ev, diags))))"

definition derive_is_error :: "json \<Rightarrow> bool" where
  "derive_is_error response =
     (case as_object response of
        None \<Rightarrow> False
      | Some obj \<Rightarrow>
          if Option.bind (map_of obj ''success'') as_bool = Some False then True
          else if Option.bind (map_of obj ''is_error'') as_bool = Some True then True
          else (case map_of obj ''error'' of None \<Rightarrow> False | Some v \<Rightarrow> v \<noteq> JNull))"

subsection \<open>The handlers\<close>

definition compile_pre_tool_use :: "compiler \<Rightarrow> hook_ctx \<Rightarrow> json \<Rightarrow> ir_event list \<times> compiler" where
  "compile_pre_tool_use cp ctx payload =
     (case str_at payload ''tool_name'' of
        None \<Rightarrow>
          single (compiler_diagnostic cp ctx
            (diagnostic_with ''payload_keys'' (payload_keys payload)
            (diagnostic_with ''hook_event'' (JStr (hook_event_as_str PreToolUse))
            (diagnostic_new MissingRequiredField
              ''PreToolUse payload has no `tool_name`; no tool.invoked was synthesized''))) None)
      | Some raw_tool_name \<Rightarrow>
          (let given = json_get payload ''tool_input'';
               pending = (if given = None
                 then [diagnostic_with ''tool_name'' (JStr raw_tool_name)
                   (diagnostic_new MissingRequiredField
                     ''PreToolUse payload has no `tool_input`; tool.invoked carries a null input'')]
                 else []);
               input = (case given of None \<Rightarrow> JNull | Some v \<Rightarrow> v);
               classified = classify_hook_tool raw_tool_name input;
               pending = pending @ cl_diagnostics classified;
               invoked = \<lparr>ti_tool_name = cl_tool_name classified, ti_tool_kind = cl_tool_kind classified,
                 ti_tool_input = input, ti_cwd = hc_cwd ctx\<rparr>;
               (invoked_event, cp) = compiler_event cp ctx ToolInvoked (ser_tool_invoked invoked) None;
               invoked_id = ev_event_id invoked_event;
               (fs_payload, fs_diags) = synthesize_fs (cp_hex cp) raw_tool_name input (hc_cwd ctx) (cp_content cp);
               pending = pending @ fs_diags;
               (fs_events, cp) = (case fs_payload of
                   None \<Rightarrow> ([], cp)
                 | Some (kind, v) \<Rightarrow> single (compiler_event cp ctx kind v (Some invoked_id)));
               (diags, cp) = compile_diagnostics cp ctx (Some invoked_id) pending
           in (invoked_event # fs_events @ diags, cp)))"

definition compile_post_tool_use :: "compiler \<Rightarrow> hook_ctx \<Rightarrow> json \<Rightarrow> ir_event list \<times> compiler" where
  "compile_post_tool_use cp ctx payload =
     (case str_at payload ''tool_name'' of
        None \<Rightarrow>
          single (compiler_diagnostic cp ctx
            (diagnostic_with ''payload_keys'' (payload_keys payload)
            (diagnostic_with ''hook_event'' (JStr (hook_event_as_str PostToolUse))
            (diagnostic_new MissingRequiredField
              ''PostToolUse payload has no `tool_name`; no tool.completed was synthesized''))) None)
      | Some raw_tool_name \<Rightarrow>
          (let given = json_get payload ''tool_response'';
               pending = (if given = None
                 then [diagnostic_with ''tool_name'' (JStr raw_tool_name)
                   (diagnostic_new MissingRequiredField
                     (''PostToolUse payload has no `tool_response`; tool.completed carries a '' @
                      ''null output''))]
                 else []);
               response = (case given of None \<Rightarrow> JNull | Some v \<Rightarrow> v);
               classified = classify_hook_tool raw_tool_name JNull;
               completed = \<lparr>tc_tool_output = response, tc_is_error = derive_is_error response, tc_duration_ms = 0\<rparr>;
               v = json_insert ''tool_name'' (JStr (cl_tool_name classified))
                     (json_insert ''duration_observed'' (JBool False) (ser_tool_completed completed));
               (completed_event, cp) = compiler_event cp ctx ToolCompleted v None;
               (diags, cp) = compile_diagnostics cp ctx (Some (ev_event_id completed_event)) pending
           in (completed_event # diags, cp)))"

definition compile_session_start :: "compiler \<Rightarrow> hook_ctx \<Rightarrow> json \<Rightarrow> ir_event list \<times> compiler" where
  "compile_session_start cp ctx payload =
     (let source = str_at payload ''source'';
          started = json_obj ([(''agent_kind'', JStr agent_kind)] @
            opt_field ''cwd'' (map_option JStr (hc_cwd ctx)) @ opt_field ''source'' (map_option JStr source));
          (session_event, cp) = compiler_event cp ctx SessionStarted started None;
          session_event_id = ev_event_id session_event;
          rule = ac_identity_rule_version (cp_config cp)
      in if source = Some ''startup''
         then (let v = json_obj [(''recipe_id'', JStr (synthesized_recipe_id (hc_session_id ctx))),
                     (''inputs_declared'', JArr []), (''identity_rule'', JStr rule)];
                   (e, cp) = compiler_event cp ctx ComputationStarted v (Some session_event_id)
               in ([session_event, e], cp))
         else (let shown = (case source of None \<Rightarrow> ''absent'' | Some s \<Rightarrow> ''`'' @ s @ ''`'');
                   diag = diagnostic_with ''identity_rule'' (JStr rule)
                     (diagnostic_with ''source'' (case source of None \<Rightarrow> JNull | Some s \<Rightarrow> JStr s)
                     (diagnostic_new ComputationBracketSkipped
                       (''SessionStart source is '' @ shown @ ''; this session_id's computation.started bracket '' @
                        ''was opened by an earlier `startup` and is not reopened'')));
                   (e, cp) = compiler_diagnostic cp ctx diag (Some session_event_id)
               in ([session_event, e], cp)))"

definition clean_exit_reasons :: "string list" where
  "clean_exit_reasons = [''clear'', ''logout'', ''prompt_input_exit'', ''exit'']"

definition compile_session_end :: "compiler \<Rightarrow> hook_ctx \<Rightarrow> json \<Rightarrow> ir_event list \<times> compiler" where
  "compile_session_end cp ctx payload =
     (let given = str_at payload ''reason'';
          status = (case given of
              Some r \<Rightarrow> if r \<in> set clean_exit_reasons then ''ok'' else ''aborted''
            | None \<Rightarrow> ''aborted'');
          ended = json_obj ([(''status'', JStr status)] @ opt_field ''reason'' (map_option JStr given));
          (comp, cp) = compiler_event cp ctx ComputationEnded ended None;
          (ses, cp) = compiler_event cp ctx SessionEnded
            (json_obj (opt_field ''reason'' (map_option JStr given))) (Some (ev_event_id comp))
      in ([comp, ses], cp))"

definition unmapped_hook_event :: "compiler \<Rightarrow> hook_ctx \<Rightarrow> hook_event \<Rightarrow> ir_event \<times> compiler" where
  "unmapped_hook_event cp ctx event =
     compiler_diagnostic cp ctx
       (diagnostic_with ''hook_event'' (JStr (hook_event_as_str event))
       (diagnostic_new UnmappedHookEvent
         (''hook event `'' @ hook_event_as_str event @ ''` is recognized but has no canonical IR kind in '' @
          ''execution-ir v0.1; recorded as a diagnostic rather than dropped''))) None"

definition compile_hook_event :: "compiler \<Rightarrow> hook_ctx \<Rightarrow> json \<Rightarrow> hook_event \<Rightarrow> ir_event list \<times> compiler" where
  "compile_hook_event cp ctx payload event =
     (case event of
        PreToolUse \<Rightarrow> compile_pre_tool_use cp ctx payload
      | PostToolUse \<Rightarrow> compile_post_tool_use cp ctx payload
      | SessionStart \<Rightarrow> compile_session_start cp ctx payload
      | SessionEnd \<Rightarrow> compile_session_end cp ctx payload
      | unmapped \<Rightarrow> single (unmapped_hook_event cp ctx unmapped))"

definition missing_fields :: "json \<Rightarrow> string list" where
  "missing_fields payload =
     filter (\<lambda>k. str_at payload k = None) [''hook_event_name'', ''session_id'']"

definition compile_inner :: "compiler \<Rightarrow> json \<Rightarrow> ir_event list \<times> compiler" where
  "compile_inner cp payload =
     (if as_object payload = None
      then single (orphan_diagnostic cp (diagnostic_new MalformedHookPayload
             ''hook payload is valid JSON but not a JSON object''))
      else case (str_at payload ''hook_event_name'', str_at payload ''session_id'') of
        (Some hook_name, Some session_id) \<Rightarrow>
          (let ctx = context_for cp session_id payload
           in case hook_event_parse hook_name of
                None \<Rightarrow>
                  single (compiler_diagnostic cp ctx
                    (diagnostic_with ''payload_keys'' (payload_keys payload)
                    (diagnostic_with ''hook_event'' (JStr hook_name)
                    (diagnostic_new UnknownHookEvent
                      (''`'' @ hook_name @ ''` is not a hook event this adapter version recognizes; '' @
                       ''the payload was recorded as a diagnostic rather than dropped'')))) None)
              | Some event \<Rightarrow> compile_hook_event cp ctx payload event)
      | (hook_name, _) \<Rightarrow>
          (let missing = missing_fields payload;
               diag = diagnostic_with ''payload_keys'' (payload_keys payload)
                 (diagnostic_with ''missing_fields'' (JArr (map JStr missing))
                 (diagnostic_new MissingRequiredField
                   (''hook payload is missing required field(s): '' @ join_with '', '' missing)));
               diag = (case hook_name of
                   Some h \<Rightarrow> diagnostic_with ''hook_event'' (JStr h) diag
                 | None \<Rightarrow> diag)
           in single (orphan_diagnostic cp diag)))"

subsection \<open>The coverage override and the entry points\<close>

definition kind_suppressed :: "adapter_config \<Rightarrow> event_kind \<Rightarrow> bool" where
  \<comment> \<open>a diagnostic is never suppressed\<close>
  "kind_suppressed config k \<longleftrightarrow>
     k \<noteq> Diagnostic \<and> list_ex (\<lambda>p. pattern_matches p k) (ac_suppressed_kinds config)"

definition apply_coverage_override :: "compiler \<Rightarrow> ir_event list \<Rightarrow> ir_event list \<times> compiler" where
  "apply_coverage_override cp events =
     (if ac_suppressed_kinds (cp_config cp) = [] then (events, cp)
      else
        (let hit = (\<lambda>ev. kind_suppressed (cp_config cp) (ev_kind ev));
             withheld = filter hit events;
             kept = filter (\<lambda>ev. \<not> hit ev) events
         in case withheld of
              [] \<Rightarrow> (kept, cp)
            | first # _ \<Rightarrow>
                (let suppressed = sort (map (\<lambda>ev. event_wire (ev_kind ev)) withheld);
                     count = length suppressed;
                     suppressed = remdups_adj suppressed;
                     diag = diagnostic_with ''suppressed_count'' (JUInt (of_nat count))
                       (diagnostic_with ''suppressed_kinds'' (JArr (map JStr suppressed))
                       (diagnostic_new CoverageOverrideSuppressed
                         (''coverage override withheld '' @ show_nat count @ '' event(s) from this hook invocation'')));
                     ctx = \<lparr>hc_session_id = ev_session_id first, hc_computation_id = ev_computation_id first,
                       hc_cwd = None\<rparr>;
                     (ev, cp) = compiler_diagnostic cp ctx diag None
                 in (kept @ [ev], cp))))"

definition compile_value :: "compiler \<Rightarrow> json \<Rightarrow> ir_event list \<times> compiler" where
  "compile_value cp payload =
     (let (out, cp) = compile_inner cp payload in apply_coverage_override cp out)"

definition compile_str :: "(string \<Rightarrow> string + json) \<Rightarrow> compiler \<Rightarrow> string \<Rightarrow> ir_event list \<times> compiler" where
  "compile_str parse cp input =
     (case parse input of
        Inr v \<Rightarrow> compile_value cp v
      | Inl err \<Rightarrow>
          single (orphan_diagnostic cp
            (diagnostic_new MalformedHookPayload (''hook payload is not valid JSON: '' @ err))))"

end
