(* ===== verification/Claude_Coverage.thy ===== *)
theory Claude_Coverage
  imports Claude_Vocabulary
begin

section \<open>The Claude adapter: its coverage manifest (\<open>crates/freshdag-adapter-claude/src/coverage.rs\<close>)\<close>

text \<open>
  What the adapter declares to cover, for a given configuration: the declared patterns and the
  partial notes that intersect a suppressed pattern are withdrawn. The lemmas say that the test
  for intersection misses nothing, so that the manifest never claims a kind the configuration
  withholds, and that nothing the adapter declares discharges the obligation to observe a
  subprocess. The texts of the notes are those of the source.
\<close>

subsection \<open>The notes\<close>

definition note_fs_read :: string where
  "note_fs_read =
     ''synthesized ONLY from the `Read` tool's `file_path` input on PreToolUse. Pre-execution '' @
     ''intent, not a confirmed effect: a denied or failed Read still produces this event. '' @
     ''`size`/`hash` are taken by reading the file at hook time, so they describe it as it stood '' @
     ''just BEFORE the tool ran, not what the tool received; both are absent (`size_observed: '' @
     ''false`) when the file is missing, unreadable, or above the adapter's inline-hash byte cap. '' @
     ''Reads performed by any other means are invisible here.''"

definition note_fs_write :: string where
  "note_fs_write =
     ''synthesized ONLY from `Write`/`Edit`/`MultiEdit`/`NotebookEdit` `file_path` '' @
     ''(`notebook_path` for NotebookEdit) inputs on PreToolUse. Pre-execution intent, not a '' @
     ''confirmed effect. `mode` is always `truncate` because hook payloads do not reveal prior '' @
     ''existence. `size`/`hash` are real only for `Write` (whose input carries the full contents); '' @
     ''the edit tools carry `size_observed: false` and no hash.''"

definition note_fs_all :: string where
  "note_fs_all =
     ''FILESYSTEM EFFECTS INSIDE `bash` AND `task` INVOCATIONS ARE INVISIBLE TO THIS ADAPTER AND '' @
     ''ARE OBSERVER TERRITORY. A hook payload exposes a Bash command line and a Task prompt, never '' @
     ''the syscalls they perform. This adapter emits NO fs events for tool_kind `bash` or `task`, '' @
     ''which is what lets `Certificate::check_coverage_deficit` force a non-`valid` status when no '' @
     ''fs-covering observer is present.''"

definition note_tool_completed :: string where
  "note_tool_completed =
     ''emitted ONLY from `PostToolUse`, which fires only when a tool succeeds. A failed tool call '' @
     ''arrives as `PostToolUseFailure`, which this adapter does not yet recognize, so it produces '' @
     ''a `tool.invoked` with NO matching `tool.completed`; denied calls, a `PostToolUse` carrying '' @
     ''no `tool_name`, and hook timeouts lose it the same way. Where the event IS emitted its '' @
     ''fields are degraded: `duration_ms` is always 0 with `duration_observed: false` because hook '' @
     ''payloads carry no timing, `is_error: false` means `no error signal was present in '' @
     ''tool_response` rather than `the tool succeeded`, and no `causal_inputs` links it to its '' @
     ''`tool.invoked` '' @
     [CHR 0xE2, CHR 0x80, CHR 0x94] @
     '' each hook fires in its own process and this adapter keeps no cross-invocation state, '' @
     ''though the normalized `tool_name` is on the payload so a consumer can correlate.''"

definition note_computation_all :: string where
  "note_computation_all =
     ''one Claude Code session is one computation. `computation.started` is emitted only on '' @
     ''`SessionStart` with `source: startup`; resume/clear/compact starts emit a '' @
     ''`computation-bracket-skipped` diagnostic instead of reopening the bracket, and a hook '' @
     ''installed mid-session never produces one at all. The bracket is ASYMMETRIC: '' @
     ''`computation.ended` is emitted on every `SessionEnd` with no matching guard, so a resumed '' @
     ''session can yield a `computation.ended` with no `computation.started` '' @
     [CHR 0xE2, CHR 0x80, CHR 0x94] @
     '' adapter-contract '' @
     [CHR 0xC2, CHR 0xA7] @
     ''Responsibilities #2 asks for exactly one of each. `Task` subagents are NOT sliced into '' @
     ''sub-computations under this identity rule.''"

definition partial_notes :: partial_map where
  "partial_notes = fold (\<lambda>(k, v). bm_put k v)
    [(''fs.read'', partial_coverage_new UnderApproximates note_fs_read),
     (''fs.write'', partial_coverage_new UnderApproximates note_fs_write),
     (''fs.*'', partial_coverage_new BlindInScope note_fs_all),
     (''tool.completed'', partial_coverage_new UnderApproximates note_tool_completed),
     (''computation.*'', partial_coverage_new UnderApproximates note_computation_all)] []"

definition known_limitations :: "string list" where
  "known_limitations =
    [''BASH/TASK BLINDNESS: filesystem, process and network effects inside `Bash` subprocesses and '' @
      ''`Task` subagents are invisible to this adapter. It emits tool.invoked with tool_kind '' @
      ''`bash`/`task` and NO fs events, so the certificate contract's coverage-deficit rule can see '' @
      ''the gap.'',
     ''THIS ADAPTER IS NOT AN OBSERVER. Its `fs.read`/`fs.write` coverage is derived from tool '' @
      ''inputs only. The engine MUST NOT treat this producer as satisfying the fs-coverage '' @
      ''requirement of `Certificate::check_coverage_deficit`; a systems observer is still required '' @
      ''before a computation that invoked bash/task may be `valid`.'',
     ''COMPUTATION IDENTITY GAP: Claude Code exposes no recipe, so `recipe_id_or_hash` is '' @
      ''synthesized as `claude-code-session:<session_id>` per the execution-IR contract's fallback '' @
      ''clause. `computation.started` carries no `inputs_declared`, and `Computation::recipe_hash` '' @
      ''cannot be populated from hook payloads '' @
      [CHR 0xE2, CHR 0x80, CHR 0x94] @
      '' which by invariant #9 caps such computations below `valid`.'',
     ''fs.* events are PRE-EXECUTION INTENT (`observation: pre-execution-intent`), derived from '' @
      ''PreToolUse. A tool call denied by permissions or failing at runtime still produces one.'',
     ''NO TRANSCRIPT TAILING: `transcript_path` is not read, so subagent parenthood is not '' @
      ''reconstructed and `tool.completed` carries no `causal_inputs` to its `tool.invoked`. Causal '' @
      ''links exist only within a single hook invocation.'',
     ''`tool.completed.duration_ms` is always 0 (`duration_observed: false`); hook payloads carry '' @
      ''no timing.'',
     ''Paths are canonicalized LEXICALLY against the payload `cwd`. Symlinks are not resolved and '' @
      ''`follow_symlink_target` is always absent.'',
     ''`UserPromptSubmit`, `Stop`, `SubagentStop`, `PreCompact` and `Notification` are recognized '' @
      ''but have no canonical IR kind in execution-ir v0.1; each produces an info-severity '' @
      ''`unmapped-hook-event` diagnostic rather than a silent drop.'',
     ''The coverage override is a list of event-kind patterns supplied on the command line or via '' @
      ''the environment, not the override *file* named by the adapter contract's '' @
      [CHR 0xC2, CHR 0xA7] @
      ''Configuration.'',
     ''PRE-READ FINGERPRINTS CAN NAME THE WRONG FILE. `fs.read` `hash`/`size` are taken by reading '' @
      ''the path this adapter resolved LEXICALLY, at PreToolUse. Two cases record a `trust_class: '' @
      ''exact` fingerprint for a file the tool did not consume: a `..` that traverses a symlinked '' @
      ''directory (lexical resolution and the filesystem disagree, and the file hashed is not the '' @
      ''file opened), and a change-and-revert between the hook and the read. Neither reports drift '' @
      ''afterwards. Found by verifier review 2026-08-17.'',
     ''FAILED AND DENIED TOOL CALLS PRODUCE NO `tool.completed`. `PostToolUseFailure` and '' @
      ''`PermissionDenied` are not recognized by `HookEvent::parse`; they fall to an info-severity '' @
      ''`unknown-hook-event` diagnostic. Nothing is silently dropped, but the completion event '' @
      ''itself is absent, which is why `tool.completed` declares `under-approximates`. Mapping them '' @
      ''is follow-up work.'']"

definition identity_rule_description :: string where
  "identity_rule_description =
     ''one Claude Code session = one computation; recipe_id_or_hash = '' @
     ''\"claude-code-session:<session_id>\", canonicalized_declared_inputs = \"\", '' @
     ''adapter_identity_rule_version = the identity_rule string''"

definition adapter_capabilities :: "string \<Rightarrow> (string, json) bmap" where
  "adapter_capabilities identity_rule = fold (\<lambda>(k, v). bm_put k v)
    [(''identity_rule'', JStr identity_rule),
     (''identity_rule_description'', JStr identity_rule_description),
     (''computation_id_derivation'', JStr ''freshdag_core::computation::ComputationId::derive''),
     (''hook_events_supported'', JArr (map (\<lambda>e. JStr (hook_event_as_str e)) hook_event_all)),
     (''hook_events_with_ir_mapping'',
        JArr (map (\<lambda>e. JStr (hook_event_as_str e)) (filter has_ir_mapping hook_event_all))),
     (''hook_matcher'', JStr ''.*''),
     (''transcript_tailing'', JBool False),
     (''fs_coverage_scope'', JStr ''tool-input-derived-only''),
     (''fs_events_are_confirmed_effects'', JBool False),
     (''symlink_resolution'', JBool False),
     (''path_canonicalization'', JStr ''lexical-only''),
     (''proc.spawn'', JBool False),
     (''net.connect'', JBool False),
     (''net.fetch'', JBool False)] []"

subsection \<open>The manifest\<close>

definition adapter_emits :: "event_kind_pattern list" where
  "adapter_emits = [''session.*'', ''computation.*'', ''tool.*'', ''fs.read'', ''fs.write'', ''diagnostic'']"

definition manifest_with_version :: "string \<Rightarrow> string \<Rightarrow> coverage_manifest" where
  "manifest_with_version version identity_rule =
     \<lparr>cm_producer = claude_producer, cm_version = version, cm_role = Adapter,
      cm_platforms = [''any''], cm_emits = adapter_emits, cm_partial = partial_notes,
      cm_capabilities = adapter_capabilities identity_rule, cm_known_limitations = known_limitations\<rparr>"

definition adapter_manifest :: coverage_manifest where
  "adapter_manifest = manifest_with_version claude_version session_as_computation_v1"

definition patterns_intersect :: "event_kind_pattern \<Rightarrow> event_kind_pattern \<Rightarrow> bool" where
  "patterns_intersect a b =
     (case (strip_suffix ''.*'' a, strip_suffix ''.*'' b) of
        (Some pa, Some pb) \<Rightarrow> starts_with pb pa \<or> starts_with pa pb
      | (Some pa, None) \<Rightarrow> starts_with pa b \<and> starts_with ''.'' (drop (length pa) b)
      | (None, Some pb) \<Rightarrow> starts_with pb a \<and> starts_with ''.'' (drop (length pb) a)
      | (None, None) \<Rightarrow> a = b)"

definition coverage_manifest_for :: "adapter_config \<Rightarrow> coverage_manifest" where
  "coverage_manifest_for config =
     (let manifest = manifest_with_version (ac_producer_version config) (ac_identity_rule_version config);
          kept = (\<lambda>declared. \<not> list_ex (patterns_intersect declared) (ac_suppressed_kinds config))
      in if ac_suppressed_kinds config = [] then manifest
         else manifest\<lparr>cm_emits := filter kept (cm_emits manifest),
                cm_partial := filter (\<lambda>(kind, _). kept kind) (cm_partial manifest)\<rparr>)"

subsection \<open>What the manifest claims\<close>

lemma patterns_intersect_sym: "patterns_intersect a b \<longleftrightarrow> patterns_intersect b a"
  by (auto simp: patterns_intersect_def split: option.splits)

lemma prefixes_comparable:
  "p @ r = q @ (s :: string) \<Longrightarrow> (\<exists>t. q = p @ t) \<or> (\<exists>t. p = q @ t)"
  by (auto simp: append_eq_append_conv2)

lemma common_kind_intersects:
  assumes "pattern_matches a k" and "pattern_matches b k"
  shows "patterns_intersect a b"
proof -
  have exact: "strip_suffix ''.*'' p = None \<longleftrightarrow> (\<nexists>q. p = q @ ''.*'')" for p
    by (metis not_None_eq strip_suffix_Some_iff)
  show ?thesis
  proof (cases "strip_suffix ''.*'' a")
    case None
    then have a: "a = event_wire k" using assms(1) by (auto simp: pattern_matches_iff exact)
    show ?thesis
    proof (cases "strip_suffix ''.*'' b")
      case (Some q)
      then obtain r where "event_wire k = q @ ''.'' @ r"
        using assms(2) by (auto simp: strip_suffix_Some_iff pattern_matches_wildcard)
      then show ?thesis using None Some a by (simp add: patterns_intersect_def starts_with_iff)
    next
      case None': None
      then have "b = event_wire k" using assms(2) by (auto simp: pattern_matches_iff exact)
      then show ?thesis using None None' a by (simp add: patterns_intersect_def)
    qed
  next
    case (Some p)
    then obtain r where p: "event_wire k = p @ ''.'' @ r"
      using assms(1) by (auto simp: strip_suffix_Some_iff pattern_matches_wildcard)
    show ?thesis
    proof (cases "strip_suffix ''.*'' b")
      case None
      then have "b = event_wire k" using assms(2) by (auto simp: pattern_matches_iff exact)
      then show ?thesis using None Some p by (simp add: patterns_intersect_def starts_with_iff)
    next
      case (Some q)
      then obtain s where "event_wire k = q @ ''.'' @ s"
        using assms(2) by (auto simp: strip_suffix_Some_iff pattern_matches_wildcard)
      with p have "p @ ''.'' @ r = q @ ''.'' @ s" by simp
      then show ?thesis
        using prefixes_comparable[of p "''.'' @ r" q "''.'' @ s"] Some \<open>strip_suffix ''.*'' a = Some p\<close>
        by (auto simp: patterns_intersect_def starts_with_iff)
    qed
  qed
qed

lemma covers_for:
  "manifest_covers (coverage_manifest_for config) k \<longleftrightarrow>
     (\<exists>p\<in>set adapter_emits. pattern_matches p k \<and>
        \<not> (\<exists>s\<in>set (ac_suppressed_kinds config). patterns_intersect p s))"
  by (auto simp: coverage_manifest_for_def manifest_with_version_def manifest_covers_def list_ex_iff Let_def)

lemma partial_for:
  "cm_partial (coverage_manifest_for config) =
     filter (\<lambda>(kind, _). \<not> (\<exists>s\<in>set (ac_suppressed_kinds config). patterns_intersect kind s)) partial_notes"
  by (auto simp: coverage_manifest_for_def manifest_with_version_def list_ex_iff Let_def
      intro!: filter_True[symmetric])

lemma partial_notes_list:
  "partial_notes =
     [(''computation.*'', partial_coverage_new UnderApproximates note_computation_all),
      (''fs.*'', partial_coverage_new BlindInScope note_fs_all),
      (''fs.read'', partial_coverage_new UnderApproximates note_fs_read),
      (''fs.write'', partial_coverage_new UnderApproximates note_fs_write),
      (''tool.completed'', partial_coverage_new UnderApproximates note_tool_completed)]"
  by (simp add: partial_notes_def less_char_def)

lemma declared_patterns:
  "pattern_matches ''session.*'' k \<longleftrightarrow> k \<in> {SessionStarted, SessionEnded}"
  "pattern_matches ''computation.*'' k \<longleftrightarrow> k \<in> {ComputationStarted, ComputationEnded}"
  "pattern_matches ''tool.*'' k \<longleftrightarrow> k \<in> {ToolInvoked, ToolCompleted}"
  "pattern_matches ''fs.*'' k \<longleftrightarrow> k \<in> {FsRead, FsWrite, FsStat, FsRename, FsUnlink, FsDirlist}"
  "pattern_matches ''fs.read'' k \<longleftrightarrow> k = FsRead"
  "pattern_matches ''fs.write'' k \<longleftrightarrow> k = FsWrite"
  "pattern_matches ''tool.completed'' k \<longleftrightarrow> k = ToolCompleted"
  "pattern_matches ''diagnostic'' k \<longleftrightarrow> k = Diagnostic"
  by (cases k; simp add: pattern_matches_def strip_suffix_def starts_with_def)+

lemma adapter_covers:
  "manifest_covers (coverage_manifest_for config) k \<Longrightarrow>
     k \<in> {SessionStarted, SessionEnded, ComputationStarted, ComputationEnded, ToolInvoked, ToolCompleted,
       FsRead, FsWrite, Diagnostic}"
  by (auto simp: covers_for adapter_emits_def declared_patterns)

lemma intersects_wire:
  assumes "patterns_intersect (event_wire k) s"
  shows "pattern_matches s k"
proof -
  have w: "strip_suffix ''.*'' (event_wire k) = None"
    using wire_no_star[of k] by (cases "strip_suffix ''.*'' (event_wire k)") (auto simp: strip_suffix_Some_iff)
  show ?thesis
  proof (cases "strip_suffix ''.*'' s")
    case None
    then have "s = event_wire k" using assms w by (simp add: patterns_intersect_def)
    then show ?thesis by simp
  next
    case (Some q)
    then show ?thesis
      using assms w by (auto simp: patterns_intersect_def pattern_matches_def starts_with_iff)
  qed
qed

lemma not_dischargeable:
  assumes "(pat, partial_coverage_new r n) \<in> set partial_notes" and "pattern_matches pat k" and "\<not> reason_discharges r"
    and "\<And>p. p \<in> set adapter_emits \<Longrightarrow> pattern_matches p k \<Longrightarrow> p = pat \<or> pat = event_wire k"
  shows "\<not> manifest_discharges (coverage_manifest_for config) k"
proof
  assume d: "manifest_discharges (coverage_manifest_for config) k"
  let ?kept = "\<lambda>p. \<not> (\<exists>s\<in>set (ac_suppressed_kinds config). patterns_intersect p s)"
  have "manifest_covers (coverage_manifest_for config) k"
    using d by (simp add: manifest_discharges_def manifest_covers_def declares_dischargeable_def)
  then obtain p where "p \<in> set adapter_emits" "pattern_matches p k" "?kept p"
    by (auto simp: covers_for)
  then have "?kept pat"
    using assms(4)[of p] common_kind_intersects[of p k] intersects_wire[of k] by blast
  then have "(pat, partial_coverage_new r n) \<in> set (cm_partial (coverage_manifest_for config))"
    using assms(1) by (simp add: partial_for)
  then have "partial_coverage_new r n \<in> set (matching_partial (cm_partial (coverage_manifest_for config)) k)"
    using assms(2) by (force simp: matching_partial_def partial_key_matches_def)
  then show False
    using d assms(3)
    by (auto simp: manifest_discharges_def declares_dischargeable_def list_all_iff pc_discharges_def partial_coverage_new_def)
qed

lemma dischargeable_without_notes:
  assumes "\<And>pat. pat \<in> fst ` set partial_notes \<Longrightarrow> pat \<noteq> event_wire k \<and> \<not> pattern_matches pat k"
  shows "manifest_discharges (coverage_manifest_for config) k \<longleftrightarrow> manifest_covers (coverage_manifest_for config) k"
proof -
  have "matching_partial (cm_partial (coverage_manifest_for config)) k = []"
    using assms by (force simp: matching_partial_def partial_for partial_key_matches_def filter_empty_conv)
  then show ?thesis
    by (simp add: manifest_discharges_def manifest_covers_def declares_dischargeable_def)
qed

text \<open>C8: The manifest never claims what the configuration withholds: no kind the coverage override
  suppresses is covered by the manifest published for that configuration, whatever the patterns;
  in particular no silence about such a kind can be taken for evidence.\<close>

theorem suppressed_kinds_not_claimed:
  "\<not> (list_ex (\<lambda>p. pattern_matches p k) (ac_suppressed_kinds config) \<and>
      manifest_covers (coverage_manifest_for config) k)"
proof
  assume "list_ex (\<lambda>p. pattern_matches p k) (ac_suppressed_kinds config) \<and>
      manifest_covers (coverage_manifest_for config) k"
  then obtain s p where "s \<in> set (ac_suppressed_kinds config)" "pattern_matches s k" "pattern_matches p k"
      "\<not> (\<exists>s\<in>set (ac_suppressed_kinds config). patterns_intersect p s)"
    by (auto simp: covers_for list_ex_iff)
  then show False using common_kind_intersects[of p k s] by blast
qed

text \<open>The adapter's silence is evidence for at most four kinds, under every configuration: the two
  session events, a tool invocation and a diagnostic, as far as the manifest still covers them. For
  each other kind it declares, the note that weakens the declaration goes only together with it;
  so no configuration lets the adapter answer for the file accesses of a subprocess.\<close>

theorem adapter_silence_is_evidence_for:
  "manifest_discharges (coverage_manifest_for config) k \<longleftrightarrow>
     k \<in> {SessionStarted, SessionEnded, ToolInvoked, Diagnostic} \<and> manifest_covers (coverage_manifest_for config) k"
proof (cases "k \<in> {SessionStarted, SessionEnded, ToolInvoked, Diagnostic}")
  case True
  then show ?thesis
    by (auto intro!: dischargeable_without_notes simp: partial_notes_list declared_patterns)
next
  case False
  have "\<not> manifest_discharges (coverage_manifest_for config) k"
  proof (cases "manifest_covers (coverage_manifest_for config) k")
    case True
    consider "k \<in> {ComputationStarted, ComputationEnded}" | "k = ToolCompleted" | "k = FsRead" | "k = FsWrite"
      using adapter_covers[OF True] False by auto
    then show ?thesis
    proof cases
      case 1
      then show ?thesis
        by (intro not_dischargeable[of "''computation.*''" UnderApproximates note_computation_all])
           (auto simp: partial_notes_list declared_patterns adapter_emits_def)
    next
      case 2
      then show ?thesis
        by (intro not_dischargeable[of "''tool.completed''" UnderApproximates note_tool_completed])
           (simp_all add: partial_notes_list declared_patterns)
    next
      case 3
      then show ?thesis
        by (intro not_dischargeable[of "''fs.read''" UnderApproximates note_fs_read])
           (simp_all add: partial_notes_list declared_patterns)
    next
      case 4
      then show ?thesis
        by (intro not_dischargeable[of "''fs.write''" UnderApproximates note_fs_write])
           (simp_all add: partial_notes_list declared_patterns)
    qed
  next
    case False
    then show ?thesis by (simp add: manifest_discharges_def manifest_covers_def declares_dischargeable_def)
  qed
  with False show ?thesis by simp
qed

end
