(* ===== verification/Messages.thy ===== *)
theory Messages
  imports Https_Probe Coverage_Registry Seal
begin

section \<open>The messages of errors\<close>

text \<open>
  How the errors of core, engine and store are printed: the \<open>error\<close> attributes of
  \<open>InvariantError\<close>, \<open>ValidityAggregationError\<close>, \<open>EngineError\<close> and \<open>StoreError\<close>, and the
  messages of the engine's self-audits (\<open>seal.rs\<close>, \<open>engine.rs\<close>). Two of these print strings with
  \<open>{:?}\<close>; how that escapes a string is the parameter \<open>quoted\<close>.
\<close>

fun store_error_display :: "store_error \<Rightarrow> string" where
  "store_error_display (StoreIo path e) = ''i/o error on `'' @ path @ ''`: '' @ e"
| "store_error_display (StoreMalformedRecord path line off m) =
     ''malformed record at `'' @ path @ ''` line '' @ show_nat line @ '' (byte offset '' @ show_nat off @ ''): '' @ m"
| "store_error_display (StoreTruncatedTrailing path off len) =
     ''truncated trailing record at `'' @ path @ ''` (byte offset '' @ show_nat off @ '', '' @ show_nat len @
     '' bytes with no terminating newline); the writing process was probably killed mid-append''"
| "store_error_display (StoreSerialize e) = ''failed to serialize event for append: '' @ e"

fun status_debug :: "validity_status \<Rightarrow> string" where
  "status_debug Valid = ''Valid''"
| "status_debug LikelyValid = ''LikelyValid''"
| "status_debug Stale = ''Stale''"
| "status_debug UnknownStatus = ''Unknown''"

fun invariant_error_display :: "invariant_error \<Rightarrow> string" where
  "invariant_error_display (SchemaMismatch s) =
     ''schema field is `'' @ s @ ''`; expected `'' @ certificate_schema_v0_1 @ ''`''"
| "invariant_error_display (CoverageDeficitError tool_kind) =
     ''coverage deficit: tool.invoked tool_kind='' @ tool_kind @
     '' with no observer in observation_coverage discharging fs.read coverage''"
| "invariant_error_display (ProducerMissing producer) =
     ''producer `'' @ producer @ ''` emitted events but is not in observation_coverage''"
| "invariant_error_display (ValidWithLowerTrust key trust_class) =
     ''status is Valid but dependency `'' @ key @ ''` has trust class `'' @ trust_class_debug trust_class @
     ''` (Heuristic/Volatile cap the status at LikelyValid)''"
| "invariant_error_display (MissingRecipeHash status) =
     ''status is '' @ status_debug status @ '' but produced_by.recipe_hash is absent (invariant #9)''"
| "invariant_error_display (MissingReasons status) =
     ''status is '' @ status_debug status @ '' but status.reasons is empty (invariant #6)''"
| "invariant_error_display (NakedVolatile key) = ''dependency `'' @ key @ ''` is Volatile but ttl_seconds is absent''"
| "invariant_error_display EmptyObservationCoverage = ''observation_coverage is empty''"

fun invariant_error_debug :: "(string \<Rightarrow> string) \<Rightarrow> invariant_error \<Rightarrow> string" where
  "invariant_error_debug quoted (SchemaMismatch s) = ''SchemaMismatch('' @ quoted s @ '')''"
| "invariant_error_debug quoted (CoverageDeficitError tool_kind) = ''CoverageDeficit { tool_kind: '' @ quoted tool_kind @ '' }''"
| "invariant_error_debug quoted (ProducerMissing producer) =
     ''ProducerMissingFromCoverage { producer: '' @ quoted producer @ '' }''"
| "invariant_error_debug quoted (ValidWithLowerTrust key trust_class) =
     ''ValidWithLowerTrust { dependency_key: '' @ quoted key @ '', trust_class: '' @ trust_class_debug trust_class @ '' }''"
| "invariant_error_debug quoted (MissingRecipeHash status) = ''MissingRecipeHash { status: '' @ status_debug status @ '' }''"
| "invariant_error_debug quoted (MissingReasons status) = ''MissingReasons { status: '' @ status_debug status @ '' }''"
| "invariant_error_debug quoted (NakedVolatile key) = ''NakedVolatile('' @ quoted key @ '')''"
| "invariant_error_debug quoted EmptyObservationCoverage = ''EmptyObservationCoverage''"

fun aggregation_error_display :: "aggregation_error \<Rightarrow> string" where
  "aggregation_error_display (MismatchedLengths verdicts keys) =
     ''verdict/key slice length mismatch: '' @ show_nat verdicts @ '' verdicts vs '' @ show_nat keys @ '' keys''"

definition debug_set :: "(string \<Rightarrow> string) \<Rightarrow> string list \<Rightarrow> string" where
  \<comment> \<open>\<open>{:?}\<close> of a set of strings\<close>
  "debug_set quoted keys = ''{'' @ join_with '', '' (map quoted keys) @ ''}''"

fun inconsistency_display :: "(string \<Rightarrow> string) \<Rightarrow> inconsistency \<Rightarrow> string" where
  "inconsistency_display quoted LedgerPoisoned = ''trust ledger lock poisoned''"
| "inconsistency_display quoted (ConflictWithoutEdge key) =
     ''store recorded a conflict on `'' @ key @ ''`, which is not among the edges evaluated for this computation; '' @
     ''the ADR 0009 guarantee that a conflicted artifact cannot be valid has nothing to attach to''"
| "inconsistency_display quoted (ArtifactScopedEdgeReason key code) =
     ''edge `'' @ key @ ''` carries artifact-scoped reason `'' @ reason_wire code @ ''`''"
| "inconsistency_display quoted (EdgeReasonsDisagree ours theirs) =
     ''edge reasons '' @ debug_set quoted ours @ '' disagree with Validity::aggregate '' @ debug_set quoted theirs"
| "inconsistency_display quoted (ReasonMappingDisagrees violation) =
     ''reason_mapping said ProducerMissingFromCoverage for '' @ invariant_error_debug quoted violation"
| "inconsistency_display quoted (ValidWithReasons n) =
     ''status is Valid but '' @ show_nat n @ '' reason(s) were produced''"
| "inconsistency_display quoted (StatusWithoutReasons status) =
     ''status is '' @ status_debug status @ '' with no reasons (invariant #6)''"
| "inconsistency_display quoted (CertIdDerivation e) = ''cert_id derivation failed: '' @ e"

fun engine_error_display :: "(string \<Rightarrow> string) \<Rightarrow> engine_error \<Rightarrow> string" where
  "engine_error_display quoted (UnknownArtifact artifact) = ''no computation produced artifact `'' @ artifact @ ''`''"
| "engine_error_display quoted (AmbiguousArtifact artifact computations) =
     ''artifact `'' @ artifact @ ''` is claimed by '' @ show_nat (length computations) @ '' computations''"
| "engine_error_display quoted NondeterministicReplay =
     ''derived graph replay is not deterministic; refusing to certify''"
| "engine_error_display quoted (MalformedArtifactEvent artifact field) =
     ''artifact.produced event for `'' @ artifact @ ''` is missing `'' @ field @ ''`''"
| "engine_error_display quoted (EngineMissingRecipeHash status) =
     ''status would be '' @ status_debug status @ '' but no recipe_hash is available; certificates may not claim '' @
     status_debug status @ '' without one''"
| "engine_error_display quoted (MalformedCertificate e) =
     ''certificate is structurally defective: '' @ invariant_error_display e"
| "engine_error_display quoted (CoverageAssemblyBug producer) =
     ''engine assembled observation_coverage without producer `'' @ producer @
     ''`, which emitted into this computation; this is an engine bug''"
| "engine_error_display quoted (Aggregation e) = ''validity aggregation failed: '' @ aggregation_error_display e"
| "engine_error_display quoted (InternalInconsistency m) = ''engine self-audit failed: '' @ inconsistency_display quoted m"

end
