(* ===== verification/Store_Log.thy ===== *)
theory Store_Log
  imports Coverage_Registry
begin

section \<open>The canonical log: reader and sink\<close>

text \<open>
  \<open>freshdag-store/src/reader.rs\<close> and \<open>sink.rs\<close>: a log is a file of newline-terminated records,
  one event each. The reader splits the bytes and reports every region that yields no event;
  the sink appends whole records under an optional byte budget. The file is its bytes
  (\<open>log_disk\<close>), the JSON codec of an event is a parameter (\<open>ser\<close>, \<open>parse\<close>), and what the
  operating system does with a write is an argument of the operation (\<open>write_fate\<close>): a failing
  \<open>write_all\<close> may leave a prefix of the record behind. Line numbers and offsets are
  natural numbers.
\<close>

subsection \<open>The reader\<close>

datatype log_defect =
    MalformedRecord (ld_line: nat) (ld_byte_offset: nat) (ld_raw: string) (ld_message: string)
  | TruncatedTrailingRecord (ld_line: nat) (ld_byte_offset: nat) (ld_raw: string)

fun log_defect_display :: "log_defect \<Rightarrow> string" where
  "log_defect_display (MalformedRecord l off raw msg) =
     ''malformed record at line '' @ show_nat l @ '' (byte offset '' @ show_nat off @ '', '' @
     show_nat (length raw) @ '' bytes): '' @ msg"
| "log_defect_display (TruncatedTrailingRecord l off raw) =
     ''truncated trailing record at line '' @ show_nat l @ '' (byte offset '' @ show_nat off @ '', '' @
     show_nat (length raw) @ '' bytes with no terminating newline)''"

record log_scan =
  ls_events :: "ir_event list"
  ls_defects :: "log_defect list"

definition log_scan_empty :: log_scan where
  "log_scan_empty = \<lparr>ls_events = [], ls_defects = []\<rparr>"

definition is_clean :: "log_scan \<Rightarrow> bool" where
  "is_clean sc \<longleftrightarrow> ls_defects sc = []"

function scan_records ::
  "(string \<Rightarrow> string + ir_event) \<Rightarrow> nat \<Rightarrow> nat \<Rightarrow> string \<Rightarrow> log_scan \<Rightarrow> log_scan" where
  \<comment> \<open>the loop of \<open>scan_reader\<close>: the counters, the bytes still to read, what was found so far\<close>
  "scan_records parse line byte_offset bytes scan =
     (if bytes = [] then scan
      else
        let line = line + 1;
            record = takeWhile (\<lambda>c. c \<noteq> newline) bytes;
            after = drop (length record) bytes
        in if after = []
           then scan\<lparr>ls_defects := ls_defects scan @ [TruncatedTrailingRecord line byte_offset record]\<rparr>
           else scan_records parse line (byte_offset + length record + 1) (tl after)
             (case parse record of
                Inr event \<Rightarrow> scan\<lparr>ls_events := ls_events scan @ [event]\<rparr>
              | Inl msg \<Rightarrow> scan\<lparr>ls_defects := ls_defects scan @
                                [MalformedRecord line byte_offset record msg]\<rparr>))"
  by pat_completeness auto
termination
  by (relation "measure (\<lambda>(_, _, _, bytes, _). length bytes)") auto

declare scan_records.simps [simp del]

definition scan_reader :: "(string \<Rightarrow> string + ir_event) \<Rightarrow> string \<Rightarrow> log_scan" where
  "scan_reader parse raw = scan_records parse 0 0 raw log_scan_empty"

definition scan_log ::
  "(string \<Rightarrow> string + ir_event) \<Rightarrow> string \<Rightarrow> read_outcome \<Rightarrow> store_error + log_scan" where
  "scan_log parse path outcome =
     (case outcome of
        ReadNotFound \<Rightarrow> Inr log_scan_empty
      | ReadFailed e \<Rightarrow> Inl (StoreIo path e)
      | ReadBytes raw \<Rightarrow> Inr (scan_reader parse raw))"

fun defect_error :: "string \<Rightarrow> log_defect \<Rightarrow> store_error" where
  "defect_error path (MalformedRecord l off raw msg) = StoreMalformedRecord path l off msg"
| "defect_error path (TruncatedTrailingRecord l off raw) = StoreTruncatedTrailing path off (length raw)"

definition read_log ::
  "(string \<Rightarrow> string + ir_event) \<Rightarrow> string \<Rightarrow> read_outcome \<Rightarrow> store_error + ir_event list" where
  "read_log parse path outcome =
     res_bind (scan_log parse path outcome) (\<lambda>scan.
       case ls_defects scan of
         defect # _ \<Rightarrow> Inl (defect_error path defect)
       | [] \<Rightarrow> Inr (ls_events scan))"

subsection \<open>The sink\<close>

definition store_producer :: string where
  "store_producer = ''freshdag-store''"

definition store_version :: string where
  \<comment> \<open>\<open>CARGO_PKG_VERSION\<close> of the workspace\<close>
  "store_version = ''0.0.0''"

definition diagnostic_reserve_bytes :: u64 where
  "diagnostic_reserve_bytes = 2048"

record sink_options =
  so_max_bytes :: "u64 option"
  so_sync_on_append :: bool

definition sink_options_default :: sink_options where
  "sink_options_default = \<lparr>so_max_bytes = None, so_sync_on_append = False\<rparr>"

datatype sink_outcome = SinkAppended | DroppedNewest u64

record jsonl_sink =
  sk_path :: string
  sk_options :: sink_options
  sk_bytes_written :: u64
  sk_dropped :: u64
  sk_announced_drop :: bool

definition sink_with_options :: "string \<Rightarrow> sink_options \<Rightarrow> string \<Rightarrow> jsonl_sink" where
  \<comment> \<open>opening a log that holds the given bytes\<close>
  "sink_with_options path options disk =
     \<lparr>sk_path = path, sk_options = options, sk_bytes_written = of_nat (length disk),
      sk_dropped = 0, sk_announced_drop = False\<rparr>"

definition sat_add64 :: "u64 \<Rightarrow> u64 \<Rightarrow> u64" where
  "sat_add64 a b = (if a + b < a then - 1 else a + b)"

definition sat_sub64 :: "u64 \<Rightarrow> u64 \<Rightarrow> u64" where
  "sat_sub64 a b = (if a < b then 0 else a - b)"

definition would_exceed_budget :: "jsonl_sink \<Rightarrow> u64 \<Rightarrow> bool" where
  "would_exceed_budget sk record_len =
     (case so_max_bytes (sk_options sk) of
        None \<Rightarrow> False
      | Some max_bytes \<Rightarrow>
          sat_sub64 max_bytes diagnostic_reserve_bytes < sat_add64 (sk_bytes_written sk) record_len)"

datatype write_fate =
    Written
  | Unsynced string         \<comment> \<open>the bytes are in the file, a flush of them fails\<close>
  | Torn string nat         \<comment> \<open>the error, and how many bytes reached the file before it\<close>

definition write_record ::
  "write_fate \<Rightarrow> string \<Rightarrow> jsonl_sink \<Rightarrow> string \<Rightarrow> (store_error + jsonl_sink) \<times> string \<times> jsonl_sink" where
  \<comment> \<open>the result, the file and the sink afterwards\<close>
  "write_record fate rec sk disk =
     (case fate of
        Torn e n \<Rightarrow> (Inl (StoreIo (sk_path sk) e), disk @ take n rec, sk)
      | _ \<Rightarrow>
          (let sk = sk\<lparr>sk_bytes_written := sat_add64 (sk_bytes_written sk) (of_nat (length rec))\<rparr>;
               disk = disk @ rec
           in case fate of
                Unsynced e \<Rightarrow>
                  if so_sync_on_append (sk_options sk) then (Inl (StoreIo (sk_path sk) e), disk, sk)
                  else (Inr sk, disk, sk)
              | _ \<Rightarrow> (Inr sk, disk, sk)))"

definition encode :: "(ir_event \<Rightarrow> string + string) \<Rightarrow> ir_event \<Rightarrow> store_error + string" where
  "encode ser event =
     (case ser event of Inl e \<Rightarrow> Inl (StoreSerialize e) | Inr body \<Rightarrow> Inr (body @ [newline]))"

definition drop_diagnostic :: "(uuid \<Rightarrow> string) \<Rightarrow> uuid \<Rightarrow> instant \<Rightarrow> ir_event \<Rightarrow> u64 \<Rightarrow> ir_event" where
  "drop_diagnostic uuid_text fresh_id now dropped total_dropped =
     \<lparr>ev_event_id = fresh_id, ev_producer = store_producer, ev_producer_version = store_version,
      ev_session_id = ev_session_id dropped, ev_computation_id = ev_computation_id dropped,
      ev_parent_id = None, ev_causal_inputs = Some [ev_event_id dropped], ev_ts = now,
      ev_kind = Diagnostic,
      ev_payload = json_obj [
        (''message'', JStr ''sink byte budget exhausted; dropping newest events''),
        (''reason'', JStr ''sink_budget_exhausted''),
        (''dropped_newest'', JBool True),
        (''dropped_event_id'', JStr (uuid_text (ev_event_id dropped))),
        (''dropped_kind'', JStr (event_wire (ev_kind dropped))),
        (''dropped_producer'', JStr (ev_producer dropped)),
        (''total_dropped'', JUInt total_dropped)]\<rparr>"

definition drop_summary :: "uuid \<Rightarrow> instant \<Rightarrow> string \<Rightarrow> u64 \<Rightarrow> ir_event" where
  "drop_summary fresh_id now session_id total_dropped =
     \<lparr>ev_event_id = fresh_id, ev_producer = store_producer, ev_producer_version = store_version,
      ev_session_id = session_id, ev_computation_id = None,
      ev_parent_id = None, ev_causal_inputs = None, ev_ts = now,
      ev_kind = Diagnostic,
      ev_payload = json_obj [
        (''message'', JStr ''sink closed after dropping events under back-pressure''),
        (''reason'', JStr ''sink_budget_exhausted''),
        (''dropped_newest'', JBool True),
        (''total_dropped'', JUInt total_dropped)]\<rparr>"

type_synonym sink_result = "(store_error + sink_outcome) \<times> string \<times> jsonl_sink"

definition sink_append ::
  "(ir_event \<Rightarrow> string + string) \<Rightarrow> (ir_event \<Rightarrow> u64 \<Rightarrow> ir_event) \<Rightarrow> write_fate \<Rightarrow> ir_event
     \<Rightarrow> jsonl_sink \<Rightarrow> string \<Rightarrow> sink_result" where
  \<comment> \<open>\<open>note\<close> is \<open>drop_diagnostic\<close> at the identifier and time of this call\<close>
  "sink_append ser note fate event sk disk =
     (case encode ser event of
        Inl e \<Rightarrow> (Inl e, disk, sk)
      | Inr rec \<Rightarrow>
          if would_exceed_budget sk (of_nat (length rec)) then
            (let sk = sk\<lparr>sk_dropped := sk_dropped sk + 1\<rparr>;
                 total_dropped = sk_dropped sk
             in if sk_announced_drop sk then (Inr (DroppedNewest total_dropped), disk, sk)
                else
                  let sk = sk\<lparr>sk_announced_drop := True\<rparr> in
                  case encode ser (note event total_dropped) of
                    Inl e \<Rightarrow> (Inl e, disk, sk)
                  | Inr encoded \<Rightarrow>
                      (case write_record fate encoded sk disk of
                         (Inl e, disk, sk) \<Rightarrow> (Inl e, disk, sk)
                       | (Inr _, disk, sk) \<Rightarrow> (Inr (DroppedNewest total_dropped), disk, sk)))
          else
            (case write_record fate rec sk disk of
               (Inl e, disk, sk) \<Rightarrow> (Inl e, disk, sk)
             | (Inr _, disk, sk) \<Rightarrow> (Inr SinkAppended, disk, sk)))"

fun sink_append_all ::
  "(ir_event \<Rightarrow> string + string) \<Rightarrow> (ir_event \<Rightarrow> u64 \<Rightarrow> ir_event) \<Rightarrow> (ir_event \<times> write_fate) list
     \<Rightarrow> jsonl_sink \<Rightarrow> string \<Rightarrow> (store_error + sink_outcome list) \<times> string \<times> jsonl_sink" where
  \<comment> \<open>\<open>append_all\<close>: stops at the first error\<close>
  "sink_append_all ser note [] sk disk = (Inr [], disk, sk)"
| "sink_append_all ser note ((event, fate) # rest) sk disk =
     (case sink_append ser note fate event sk disk of
        (Inl e, disk, sk) \<Rightarrow> (Inl e, disk, sk)
      | (Inr outcome, disk, sk) \<Rightarrow>
          (case sink_append_all ser note rest sk disk of
             (Inl e, disk, sk) \<Rightarrow> (Inl e, disk, sk)
           | (Inr outcomes, disk, sk) \<Rightarrow> (Inr (outcome # outcomes), disk, sk)))"

definition sink_sync :: "string option \<Rightarrow> jsonl_sink \<Rightarrow> store_error + unit" where
  "sink_sync failure sk = (case failure of None \<Rightarrow> Inr () | Some e \<Rightarrow> Inl (StoreIo (sk_path sk) e))"

definition sink_finish ::
  "(ir_event \<Rightarrow> string + string) \<Rightarrow> (string \<Rightarrow> u64 \<Rightarrow> ir_event) \<Rightarrow> write_fate \<Rightarrow> string option
     \<Rightarrow> string \<Rightarrow> jsonl_sink \<Rightarrow> string \<Rightarrow> (store_error + unit) \<times> string \<times> jsonl_sink" where
  \<comment> \<open>\<open>note\<close> is \<open>drop_summary\<close> at the identifier and time of this call\<close>
  "sink_finish ser note fate sync_failure session_id sk disk =
     (if sk_dropped sk > 0 then
        (case encode ser (note session_id (sk_dropped sk)) of
           Inl e \<Rightarrow> (Inl e, disk, sk)
         | Inr encoded \<Rightarrow>
             (case write_record fate encoded sk disk of
                (Inl e, disk, sk) \<Rightarrow> (Inl e, disk, sk)
              | (Inr _, disk, sk) \<Rightarrow> (sink_sync sync_failure sk, disk, sk)))
      else (sink_sync sync_failure sk, disk, sk))"

end
