(* ===== verification/Log_Facts.thy ===== *)
theory Log_Facts
  imports Store_Log Order
begin

section \<open>What the log keeps\<close>

text \<open>
  The reader is compared with a specification that cuts the file at its newlines
  (\<open>log_bodies\<close>, \<open>log_tail\<close>); the sink with the list of events a strict read returns.
\<close>

subsection \<open>The file as a list of records\<close>

definition lines_of :: "string list \<Rightarrow> string" where
  "lines_of bodies = concat (map (\<lambda>b. b @ [newline]) bodies)"

definition log_bodies :: "string \<Rightarrow> string list" where
  "log_bodies raw = butlast (split_on newline raw)"

definition log_tail :: "string \<Rightarrow> string" where
  "log_tail raw = last (split_on newline raw)"

lemma lines_of_simps [simp]:
  "lines_of [] = []" "lines_of (b # bs) = b @ newline # lines_of bs"
  "lines_of (bs @ bs') = lines_of bs @ lines_of bs'"
  by (simp_all add: lines_of_def)

lemma split_lines:
  "list_all (\<lambda>b. newline \<notin> set b) bs \<Longrightarrow> newline \<notin> set t \<Longrightarrow> split_on newline (lines_of bs @ t) = bs @ [t]"
  by (induction bs) (simp_all add: split_on_append split_on_free)

lemma log_split:
  "list_all (\<lambda>b. newline \<notin> set b) bs \<Longrightarrow> newline \<notin> set t \<Longrightarrow>
     log_bodies (lines_of bs @ t) = bs \<and> log_tail (lines_of bs @ t) = t"
  by (simp add: log_bodies_def log_tail_def split_lines)

lemma newline_split:
  "\<exists>bs t. raw = lines_of bs @ t \<and> list_all (\<lambda>b. newline \<notin> set b) bs \<and> newline \<notin> set t"
proof (induction raw rule: length_induct)
  case (1 raw)
  show ?case
  proof (cases "newline \<in> set raw")
    case False
    then show ?thesis by (intro exI[of _ "[]"] exI[of _ raw]) simp
  next
    case True
    then obtain b r where r: "raw = b @ newline # r" "newline \<notin> set b"
      by (meson split_list_first)
    then have "length r < length raw" by simp
    with 1 obtain bs t where "r = lines_of bs @ t" "list_all (\<lambda>b. newline \<notin> set b) bs" "newline \<notin> set t"
      by blast
    with r show ?thesis by (intro exI[of _ "b # bs"] exI[of _ t]) simp
  qed
qed

lemma log_parts:
  "raw = lines_of (log_bodies raw) @ log_tail raw"
  "list_all (\<lambda>b. newline \<notin> set b) (log_bodies raw)" "newline \<notin> set (log_tail raw)"
proof -
  obtain bs t where "raw = lines_of bs @ t" "list_all (\<lambda>b. newline \<notin> set b) bs" "newline \<notin> set t"
    using newline_split by blast
  with log_split[of bs t] show "raw = lines_of (log_bodies raw) @ log_tail raw"
    "list_all (\<lambda>b. newline \<notin> set b) (log_bodies raw)" "newline \<notin> set (log_tail raw)" by simp_all
qed

subsection \<open>The reader\<close>

fun parsed_events :: "(string \<Rightarrow> string + ir_event) \<Rightarrow> string list \<Rightarrow> ir_event list" where
  "parsed_events parse [] = []"
| "parsed_events parse (b # bs) =
     (case parse b of Inr e \<Rightarrow> [e] | Inl _ \<Rightarrow> []) @ parsed_events parse bs"

fun malformed_at :: "(string \<Rightarrow> string + ir_event) \<Rightarrow> nat \<Rightarrow> nat \<Rightarrow> string list \<Rightarrow> log_defect list" where
  \<comment> \<open>the records that do not parse, with their line numbers and offsets\<close>
  "malformed_at parse line off [] = []"
| "malformed_at parse line off (b # bs) =
     (case parse b of Inr e \<Rightarrow> [] | Inl msg \<Rightarrow> [MalformedRecord (line + 1) off b msg]) @
     malformed_at parse (line + 1) (off + length b + 1) bs"

definition torn_tail :: "nat \<Rightarrow> nat \<Rightarrow> string \<Rightarrow> log_defect list" where
  "torn_tail line off t = (if t = [] then [] else [TruncatedTrailingRecord (line + 1) off t])"

lemma scan_records_line:
  "newline \<notin> set b \<Longrightarrow> scan_records parse line off (b @ newline # rest) sc =
     scan_records parse (line + 1) (off + length b + 1) rest
       (case parse b of Inr event \<Rightarrow> sc\<lparr>ls_events := ls_events sc @ [event]\<rparr>
        | Inl msg \<Rightarrow> sc\<lparr>ls_defects := ls_defects sc @ [MalformedRecord (line + 1) off b msg]\<rparr>)"
proof -
  assume "newline \<notin> set b"
  then have "takeWhile (\<lambda>c. c \<noteq> newline) (b @ newline # rest) = b"
    by (subst takeWhile_append2) auto
  then show ?thesis by (subst scan_records.simps) (simp add: Let_def split: sum.split)
qed

lemma scan_records_tail:
  "newline \<notin> set t \<Longrightarrow> scan_records parse line off t sc =
     sc\<lparr>ls_defects := ls_defects sc @ torn_tail line off t\<rparr>"
proof -
  assume "newline \<notin> set t"
  then have t: "takeWhile (\<lambda>c. c \<noteq> newline) t = t" by auto
  show ?thesis
    by (subst scan_records.simps) (simp add: torn_tail_def Let_def t del: takeWhile_eq_all_conv)
qed

lemma scan_records_spec:
  "list_all (\<lambda>b. newline \<notin> set b) bs \<Longrightarrow> newline \<notin> set t \<Longrightarrow>
   scan_records parse line off (lines_of bs @ t) sc =
     \<lparr>ls_events = ls_events sc @ parsed_events parse bs,
      ls_defects = ls_defects sc @ malformed_at parse line off bs @
        torn_tail (line + length bs) (off + length (lines_of bs)) t\<rparr>"
proof (induction bs arbitrary: line off sc)
  case (Cons b bs)
  then show ?case by (simp add: scan_records_line add.assoc split: sum.split)
qed (simp add: scan_records_tail)

lemma scan_reader_spec:
  assumes "list_all (\<lambda>b. newline \<notin> set b) bs" "newline \<notin> set t"
  shows "scan_reader parse (lines_of bs @ t) =
     \<lparr>ls_events = parsed_events parse bs,
      ls_defects = malformed_at parse 0 0 bs @ torn_tail (length bs) (length (lines_of bs)) t\<rparr>"
  using scan_records_spec[OF assms] by (simp add: scan_reader_def log_scan_empty_def)

text \<open>The tolerant reader accounts for every byte: the file is the newline-terminated records
  and a tail, the events are those of the records that parse, in file order, and each other
  record, and a non-empty tail, is reported with its line number, its offset and its bytes.\<close>

theorem scan_accounts_for_every_byte:
  "\<exists>bodies tail. raw = lines_of bodies @ tail \<and> newline \<notin> set tail \<and>
     list_all (\<lambda>b. newline \<notin> set b) bodies \<and>
     ls_events (scan_reader parse raw) = parsed_events parse bodies \<and>
     ls_defects (scan_reader parse raw) =
       malformed_at parse 0 0 bodies @ torn_tail (length bodies) (length (lines_of bodies)) tail"
  using log_parts scan_reader_spec[OF log_parts(2,3)] by (metis log_scan.select_convs)

lemma malformed_Nil_iff: "malformed_at parse line off bs = [] \<longleftrightarrow> (\<exists>es. map parse bs = map Inr es)"
proof (induction bs arbitrary: line off)
  case (Cons b bs)
  show ?case
  proof
    assume "malformed_at parse line off (b # bs) = []"
    then obtain e where "parse b = Inr e" "malformed_at parse (line + 1) (off + length b + 1) bs = []"
      by (auto split: sum.splits)
    with Cons obtain es where "map parse (b # bs) = map Inr (e # es)" by auto
    then show "\<exists>es. map parse (b # bs) = map Inr es" by blast
  next
    assume "\<exists>es. map parse (b # bs) = map Inr es"
    then show "malformed_at parse line off (b # bs) = []"
      using Cons[of "line + 1" "off + length b + 1"] by (auto simp: map_eq_Cons_conv Cons_eq_map_conv)
  qed
qed simp

lemma parsed_all: "map parse bs = map Inr es \<Longrightarrow> parsed_events parse bs = es"
  by (induction bs arbitrary: es) (auto simp: Cons_eq_map_conv)

lemma read_log_cases:
  "read_log parse path (ReadBytes raw) =
     (case ls_defects (scan_reader parse raw) of d # _ \<Rightarrow> Inl (defect_error path d)
      | [] \<Rightarrow> Inr (ls_events (scan_reader parse raw)))"
  by (simp add: read_log_def scan_log_def)

definition log_holds :: "(string \<Rightarrow> string + ir_event) \<Rightarrow> ir_event list \<Rightarrow> string \<Rightarrow> bool" where
  \<comment> \<open>the file is one complete record per event\<close>
  "log_holds parse es raw \<longleftrightarrow>
     (\<exists>bodies. raw = lines_of bodies \<and> list_all (\<lambda>b. newline \<notin> set b) bodies \<and> map parse bodies = map Inr es)"

lemma read_iff_holds: "read_log parse path (ReadBytes raw) = Inr es \<longleftrightarrow> log_holds parse es raw"
proof
  assume a: "read_log parse path (ReadBytes raw) = Inr es"
  define bs where "bs = log_bodies raw"
  have s: "scan_reader parse raw = \<lparr>ls_events = parsed_events parse bs,
      ls_defects = malformed_at parse 0 0 bs @ torn_tail (length bs) (length (lines_of bs)) (log_tail raw)\<rparr>"
    unfolding bs_def using scan_reader_spec[OF log_parts(2,3)] log_parts(1) by metis
  with a have d: "malformed_at parse 0 0 bs = []" and t: "log_tail raw = []" and es: "es = parsed_events parse bs"
    by (auto simp: read_log_cases torn_tail_def split: list.splits if_splits)
  from d obtain es' where "map parse bs = map Inr es'" by (auto simp: malformed_Nil_iff)
  moreover from this have "es' = es" using es parsed_all by blast
  ultimately show "log_holds parse es raw"
    unfolding log_holds_def using log_parts(1,2)[of raw] t by (auto simp: bs_def intro!: exI[of _ bs])
next
  assume "log_holds parse es raw"
  then obtain bs where b: "raw = lines_of bs" "list_all (\<lambda>b. newline \<notin> set b) bs" "map parse bs = map Inr es"
    by (auto simp: log_holds_def)
  then have "malformed_at parse 0 0 bs = []" "parsed_events parse bs = es"
    by (auto simp: malformed_Nil_iff parsed_all)
  with scan_reader_spec[OF b(2), of "[]"] b(1) show "read_log parse path (ReadBytes raw) = Inr es"
    by (simp add: read_log_cases torn_tail_def)
qed

text \<open>The strict reader returns a list of events exactly when the file consists of that many
  newline-terminated records, none of them holding a raw newline, which parse to these events in
  this order. Nothing is skipped, a blank record included.\<close>

theorem strict_read_iff:
  "read_log parse path (ReadBytes raw) = Inr es \<longleftrightarrow>
     (\<exists>bodies. raw = concat (map (\<lambda>b. b @ [newline]) bodies) \<and> list_all (\<lambda>b. newline \<notin> set b) bodies \<and>
        map parse bodies = map Inr es)"
  unfolding read_iff_holds log_holds_def lines_of_def list_all_iff by (rule refl)

lemma log_holds_Nil [simp]: "log_holds parse [] []"
  unfolding log_holds_def by (intro exI[of _ "[]"]) simp

lemma log_holds_snoc:
  "log_holds parse es raw \<Longrightarrow> newline \<notin> set b \<Longrightarrow> parse b = Inr e \<Longrightarrow> log_holds parse (es @ [e]) (raw @ b @ [newline])"
  unfolding log_holds_def by clarify (rule_tac x = "bodies @ [b]" in exI, simp)

subsection \<open>The sink\<close>

definition codec_ok :: "(ir_event \<Rightarrow> string + string) \<Rightarrow> (string \<Rightarrow> string + ir_event) \<Rightarrow> bool" where
  \<comment> \<open>what the store relies on of the JSON codec: an event that serializes parses back, and its
    compact form holds no raw newline\<close>
  "codec_ok ser parse \<longleftrightarrow> (\<forall>e body. ser e = Inr body \<longrightarrow> newline \<notin> set body \<and> parse body = Inr e)"

fun kept_events :: "(ir_event \<Rightarrow> u64 \<Rightarrow> ir_event) \<Rightarrow> bool \<Rightarrow> (ir_event \<times> sink_outcome) list \<Rightarrow> ir_event list" where
  \<comment> \<open>what a run leaves in the log: the appended events, and one notice at the first drop\<close>
  "kept_events note announced [] = []"
| "kept_events note announced ((e, SinkAppended) # rest) = e # kept_events note announced rest"
| "kept_events note announced ((e, DroppedNewest n) # rest) =
     (if announced then [] else [note e n]) @ kept_events note True rest"

lemma write_record_Inr:
  "write_record fate rec sk disk = (Inr s, disk', sk') \<Longrightarrow>
     disk' = disk @ rec \<and> s = sk' \<and> sk' = sk\<lparr>sk_bytes_written := sat_add64 (sk_bytes_written sk) (of_nat (length rec))\<rparr>"
  by (auto simp: write_record_def Let_def split: write_fate.splits if_splits)

lemma write_record_Inl:
  "write_record fate rec sk disk = (Inl e, disk', sk') \<Longrightarrow>
     (\<exists>n. disk' = disk @ take n rec)"
  by (auto simp: write_record_def Let_def split: write_fate.splits if_splits intro: exI[of _ "length rec"])

lemma encode_Inr: "encode ser e = Inr rec \<longleftrightarrow> (\<exists>body. ser e = Inr body \<and> rec = body @ [newline])"
  by (auto simp: encode_def split: sum.splits)

lemma codec_line:
  "codec_ok ser parse \<Longrightarrow> encode ser e = Inr rec \<Longrightarrow> log_holds parse es disk \<Longrightarrow> log_holds parse (es @ [e]) (disk @ rec)"
  by (auto simp: encode_Inr codec_ok_def intro: log_holds_snoc)

lemma sink_append_Inr:
  assumes "codec_ok ser parse" and "log_holds parse es disk"
    and "sink_append ser note fate e sk disk = (Inr out, disk', sk')"
  shows "log_holds parse (es @ kept_events note (sk_announced_drop sk) [(e, out)]) disk' \<and>
    sk_announced_drop sk' = (sk_announced_drop sk \<or> out \<noteq> SinkAppended)"
  using assms(2,3)
  by (auto simp: sink_append_def Let_def dest!: write_record_Inr codec_line[OF assms(1) _ assms(2)]
      split: sum.splits if_splits prod.splits)

lemma kept_events_append:
  "kept_events note announced (xs @ ys) =
     kept_events note announced xs @ kept_events note (announced \<or> (\<exists>x\<in>set xs. snd x \<noteq> SinkAppended)) ys"
  by (induction "note" announced xs rule: kept_events.induct) auto

lemma append_all_Inr:
  "codec_ok ser parse \<Longrightarrow> log_holds parse es disk \<Longrightarrow>
   sink_append_all ser note evs sk disk = (Inr outs, disk', sk') \<Longrightarrow>
   length outs = length evs \<and>
   log_holds parse (es @ kept_events note (sk_announced_drop sk) (zip (map fst evs) outs)) disk'"
proof (induction evs arbitrary: es sk disk outs)
  case (Cons ev evs)
  obtain e fate where ev: "ev = (e, fate)" by fastforce
  with Cons.prems(3) obtain out disk1 sk1 outs1 where
    1: "sink_append ser note fate e sk disk = (Inr out, disk1, sk1)" and
    2: "sink_append_all ser note evs sk1 disk1 = (Inr outs1, disk', sk')" and outs: "outs = out # outs1"
    by (auto split: sum.splits prod.splits)
  from sink_append_Inr[OF Cons.prems(1,2) 1]
  have h: "log_holds parse (es @ kept_events note (sk_announced_drop sk) [(e, out)]) disk1"
    and a: "sk_announced_drop sk1 = (sk_announced_drop sk \<or> out \<noteq> SinkAppended)" by auto
  have "zip (map fst (ev # evs)) outs = [(e, out)] @ zip (map fst evs) outs1"
    by (simp add: outs ev)
  with Cons.IH[OF Cons.prems(1) h 2] show ?case
    by (simp only: kept_events_append a outs append_assoc) simp
qed simp

text \<open>C25: A sink opened on a readable log, and appending a list of events, leaves a readable log as
  long as no append fails, whatever the byte budget: a strict read then returns what it returned
  before, followed by the events whose append answered appended, in order, with one notice
  of the store at the place of the first drop.\<close>

theorem appended_events_are_read_back:
  assumes "codec_ok ser parse" and "read_log parse path (ReadBytes disk) = Inr es"
    and "sink_append_all ser note evs (sink_with_options path options disk) disk = (Inr outs, disk', sk')"
  shows "read_log parse path (ReadBytes disk') = Inr (es @ kept_events note False (zip (map fst evs) outs))"
  using append_all_Inr[OF assms(1) _ assms(3)] assms(2)
  by (simp add: read_iff_holds sink_with_options_def)

subsection \<open>Failing writes\<close>

lemma log_holds_lines:
  "log_holds parse es raw \<Longrightarrow> \<exists>bs. raw = lines_of bs \<and> list_all (\<lambda>b. newline \<notin> set b) bs \<and>
     malformed_at parse 0 0 bs = [] \<and> parsed_events parse bs = es"
  unfolding log_holds_def by (auto simp: malformed_Nil_iff dest: parsed_all)

lemma scan_with_tail:
  assumes "log_holds parse es raw" "newline \<notin> set t" "t \<noteq> []"
  shows "\<exists>n. scan_reader parse (raw @ t) =
     \<lparr>ls_events = es, ls_defects = [TruncatedTrailingRecord n (length raw) t]\<rparr>"
  using log_holds_lines[OF assms(1)] assms(2,3) by (auto simp: scan_reader_spec torn_tail_def)

lemma take_record:
  "newline \<notin> set body \<Longrightarrow> take n (body @ [newline]) = body @ [newline] \<or> newline \<notin> set (take n (body @ [newline]))"
  by (cases "n \<le> length body") (auto dest: in_set_takeD)

lemma write_record_disk: "write_record fate rec sk disk = (r, disk', sk') \<Longrightarrow> \<exists>n. disk' = disk @ take n rec"
  by (cases r) (auto dest!: write_record_Inl write_record_Inr intro: exI[of _ "length rec"])

lemma append_grows:
  assumes "sink_append ser note fate e sk disk = (r, disk', sk')"
  shows "disk' = disk \<or> (\<exists>e' rec n. e' \<in> {e, note e (sk_dropped sk + 1)} \<and> encode ser e' = Inr rec \<and>
     disk' = disk @ take n rec)"
  using assms unfolding sink_append_def Let_def
  by (auto dest!: write_record_disk split: sum.splits if_splits prod.splits simp del: take_append)

text \<open>C26: Whatever a write does, an append never changes what the log already held, and a torn record
  is never taken for an event: afterwards the log either reads strictly, as before or with one
  more event, the given one or the notice of a drop; or the tolerant reader still returns
  exactly the old events and reports the one fragment, at the offset where the log used to end.\<close>

theorem append_is_atomic_or_detected:
  assumes "codec_ok ser parse" and "read_log parse path (ReadBytes disk) = Inr es"
    and "sink_append ser note fate e sk disk = (r, disk', sk')"
  shows "(\<exists>added. read_log parse path (ReadBytes disk') = Inr (es @ added) \<and>
        added \<in> {[], [e], [note e (sk_dropped sk + 1)]}) \<or>
     (\<exists>line fragment. disk' = disk @ fragment \<and> ls_events (scan_reader parse disk') = es \<and>
        ls_defects (scan_reader parse disk') = [TruncatedTrailingRecord line (length disk) fragment])"
proof -
  from assms(2) have h: "log_holds parse es disk" by (simp add: read_iff_holds)
  then have same: "read_log parse path (ReadBytes disk) = Inr (es @ [])" by (simp add: read_iff_holds)
  consider "disk' = disk"
    | e' body n where "ser e' = Inr body" "e' \<in> {e, note e (sk_dropped sk + 1)}"
        "disk' = disk @ take n (body @ [newline])"
    using append_grows[OF assms(3)] unfolding encode_Inr by blast
  then show ?thesis
  proof cases
    case 1
    with same show ?thesis by blast
  next
    case 2
    with assms(1) have b: "newline \<notin> set body" "parse body = Inr e'" by (auto simp: codec_ok_def)
    show ?thesis
    proof (cases "newline \<in> set (take n (body @ [newline]))")
      case True
      with take_record[OF b(1)] 2(3) have "disk' = disk @ body @ [newline]" by metis
      with log_holds_snoc[OF h b] 2(2) show ?thesis by (auto simp: read_iff_holds)
    next
      case frag: False
      show ?thesis
      proof (cases "take n (body @ [newline]) = []")
        case True
        with 2(3) same show ?thesis by auto
      next
        case False
        from scan_with_tail[OF h frag False] 2(3) show ?thesis by auto
      qed
    qed
  qed
qed

text \<open>Nothing repairs a torn tail. When a log ends in a fragment without a newline, a sink opened on
  it glues the next record to the fragment: the append answers appended and yet, if the glued
  bytes are no JSON, no reader returns that event and every strict read fails from then on.\<close>

theorem append_after_torn_tail_is_lost:
  assumes "read_log parse path (ReadBytes disk) = Inr es"
    and "fragment \<noteq> []" and "newline \<notin> set fragment"
    and "ser e = Inr body" and "newline \<notin> set body" and "parse (fragment @ body) = Inl msg"
  shows "\<exists>line disk' sk'. sink_append ser note Written e
       (sink_with_options path sink_options_default (disk @ fragment)) (disk @ fragment) = (Inr SinkAppended, disk', sk') \<and>
     ls_events (scan_reader parse disk') = es \<and>
     read_log parse path (ReadBytes disk') = Inl (StoreMalformedRecord path line (length disk) msg)"
proof -
  from assms(1) obtain bs where bs: "disk = lines_of bs" "list_all (\<lambda>b. newline \<notin> set b) bs"
      "malformed_at parse 0 0 bs = []" "parsed_events parse bs = es"
    using log_holds_lines unfolding read_iff_holds by blast
  let ?d = "lines_of (bs @ [fragment @ body])"
  have m: "malformed_at parse line off (bs @ [b]) =
      malformed_at parse line off bs @ malformed_at parse (line + length bs) (off + length (lines_of bs)) [b]" for line off b
    by (induction bs arbitrary: line off) (simp_all add: add.assoc split: sum.split)
  have p: "parsed_events parse (bs @ [b]) = parsed_events parse bs @ parsed_events parse [b]" for b
    by (induction bs) auto
  have "scan_reader parse ?d = \<lparr>ls_events = es,
      ls_defects = [MalformedRecord (length bs + 1) (length disk) (fragment @ body) msg]\<rparr>"
    using scan_reader_spec[of "bs @ [fragment @ body]" "[]" parse] bs assms(3,5,6)
    by (simp add: m p torn_tail_def del: lines_of_simps(3))
  moreover have "?d = (disk @ fragment) @ (body @ [newline])" by (simp add: bs(1))
  ultimately show ?thesis
    by (simp add: sink_append_def encode_def assms(4) would_exceed_budget_def sink_with_options_def
        sink_options_default_def write_record_def read_log_cases Let_def del: lines_of_simps(3))
qed

subsection \<open>A small codec\<close>

definition an_event :: ir_event where
  "an_event = sample_event 1 ''a'' 0"

definition a_notice :: ir_event where
  "a_notice = sample_event 2 ''freshdag-store'' 0"

definition tiny_ser :: "ir_event \<Rightarrow> string + string" where
  "tiny_ser e = (if e = an_event then Inr ''a'' else if e = a_notice then Inr ''n'' else Inl ''no'')"

definition tiny_parse :: "string \<Rightarrow> string + ir_event" where
  "tiny_parse s = (if s = ''a'' then Inr an_event else if s = ''n'' then Inr a_notice else Inl ''bad'')"

lemma tiny_codec_ok: "codec_ok tiny_ser tiny_parse"
  by (simp add: codec_ok_def tiny_ser_def tiny_parse_def newline_def)

definition two_records :: "sink_options" where
  \<comment> \<open>a budget in which two records of two bytes fit\<close>
  "two_records = \<lparr>so_max_bytes = Some 2052, so_sync_on_append = False\<rparr>"

lemma tiny_run:
  "fst (sink_append_all tiny_ser (\<lambda>_ _. a_notice) [(an_event, Written), (an_event, Written), (an_event, Written)]
     (sink_with_options ''log'' two_records []) []) = Inr [SinkAppended, SinkAppended, DroppedNewest 1]"
  by code_simp

theorem appended_events_are_read_back_witness:
  "\<exists>disk. read_log tiny_parse ''log'' (ReadBytes disk) = Inr [an_event, an_event, a_notice]"
proof -
  obtain disk sk where "sink_append_all tiny_ser (\<lambda>_ _. a_notice)
      [(an_event, Written), (an_event, Written), (an_event, Written)]
      (sink_with_options ''log'' two_records []) [] = (Inr [SinkAppended, SinkAppended, DroppedNewest 1], disk, sk)"
    using tiny_run by (metis prod.collapse)
  moreover have "read_log tiny_parse ''log'' (ReadBytes []) = Inr []" by code_simp
  ultimately have "read_log tiny_parse ''log'' (ReadBytes disk) = Inr [an_event, an_event, a_notice]"
    using appended_events_are_read_back[OF tiny_codec_ok] by fastforce
  then show ?thesis by blast
qed

theorem append_is_atomic_or_detected_witness:
  "\<exists>line. ls_defects (scan_reader tiny_parse ''a'') = [TruncatedTrailingRecord line 0 ''a'']"
proof -
  have a: "sink_append tiny_ser (\<lambda>_ _. a_notice) (Torn ''full'' 1) an_event
      (sink_with_options ''log'' sink_options_default []) [] =
      (Inl (StoreIo ''log'' ''full''), ''a'', sink_with_options ''log'' sink_options_default [])"
    by code_simp
  have r: "read_log tiny_parse ''log'' (ReadBytes []) = Inr []" by code_simp
  have l: "isl (read_log tiny_parse ''log'' (ReadBytes ''a''))" by code_simp
  from append_is_atomic_or_detected[OF tiny_codec_ok r a] show ?thesis
  proof
    assume "\<exists>added. read_log tiny_parse ''log'' (ReadBytes ''a'') = Inr ([] @ added) \<and>
        added \<in> {[], [an_event], [a_notice]}"
    with l show ?thesis by auto
  next
    assume "\<exists>line fragment. ''a'' = [] @ fragment \<and> ls_events (scan_reader tiny_parse ''a'') = [] \<and>
        ls_defects (scan_reader tiny_parse ''a'') = [TruncatedTrailingRecord line (length []) fragment]"
    then show ?thesis by auto
  qed
qed

theorem append_after_torn_tail_is_lost_witness:
  "\<exists>line disk. read_log tiny_parse ''log'' (ReadBytes disk) = Inl (StoreMalformedRecord ''log'' line 2 ''bad'')"
proof -
  have "read_log tiny_parse ''log'' (ReadBytes (''a'' @ [newline])) = Inr [an_event]" by code_simp
  from append_after_torn_tail_is_lost[OF this, of "''a''" tiny_ser an_event "''a''" "''bad''" "\<lambda>_ _. a_notice"]
  show ?thesis by (auto simp: newline_def tiny_ser_def tiny_parse_def numeral_2_eq_2)
qed

end
