(* ===== verification/Store.thy ===== *)
theory Store
  imports Log_Facts Graph_Queries
begin

section \<open>The store directory\<close>

text \<open>
  \<open>freshdag-store/src/store.rs\<close> and \<open>derived.rs\<close>: a directory with the canonical log, the
  coverage registry and the disposable derived state. The derived directory is a map from file
  names to bytes, absent or present; the JSON codec of the derived values is the record
  \<open>derived_codec\<close>, whose fields write and read one value; what the operating system does with
  each directory and file operation is an argument.
\<close>

definition log_file_name :: string where
  "log_file_name = ''events.jsonl''"

definition coverage_file_name :: string where
  "coverage_file_name = ''coverage.jsonl''"

subsection \<open>Derived state on disk\<close>

definition derived_dir_name :: string where
  "derived_dir_name = ''derived''"

definition derived_format :: string where
  "derived_format = ''freshdag.derived/v0.1''"

definition manifest_file :: string where
  "manifest_file = ''manifest.json''"

definition computations_file :: string where
  "computations_file = ''computations.jsonl''"

definition reverse_index_file :: string where
  "reverse_index_file = ''reverse-index.jsonl''"

definition attribution_file :: string where
  "attribution_file = ''attribution.jsonl''"

definition defects_file :: string where
  "defects_file = ''defects.jsonl''"

record derived_manifest =
  dm_format :: string
  dm_source_digest :: string
  dm_event_count :: nat
  dm_computation_count :: nat
  dm_dependency_count :: nat
  dm_deterministic :: bool

record 'a codec =
  write_json :: "'a \<Rightarrow> string + string"
  read_json :: "string \<Rightarrow> string + 'a"

record derived_codec =
  dc_manifest :: "derived_manifest codec"
  dc_node :: "computation_node codec"
  dc_entry :: "reverse_index_entry codec"
  dc_attribution :: "computation_coverage codec"
  dc_defect :: "graph_defect codec"

definition ok_bytes :: "string + string \<Rightarrow> string" where
  \<comment> \<open>\<open>if let Ok(bytes) = to_vec(..) { hasher.update(&bytes) }\<close>\<close>
  "ok_bytes r = (case r of Inl _ \<Rightarrow> [] | Inr b \<Rightarrow> b)"

definition source_digest ::
  "(string \<Rightarrow> string) \<Rightarrow> (ir_event \<Rightarrow> string + string) \<Rightarrow> (coverage_manifest \<Rightarrow> string + string)
     \<Rightarrow> ir_event list \<Rightarrow> coverage_registry \<Rightarrow> string" where
  "source_digest hex ser ser_manifest events coverage =
     ''blake3:'' @ hex (
       concat (map (\<lambda>e. ok_bytes (ser e) @ [newline]) events) @ [CHR 0x00] @
       concat (map (\<lambda>(key, manifest). producer_key_display key @ ok_bytes (ser_manifest manifest) @ [newline])
         (cr_manifests coverage)))"

fun jsonl :: "('a \<Rightarrow> string + string) \<Rightarrow> 'a list \<Rightarrow> store_error + string" where
  "jsonl ser [] = Inr []"
| "jsonl ser (x # xs) =
     (case ser x of
        Inl e \<Rightarrow> Inl (StoreSerialize e)
      | Inr body \<Rightarrow> res_bind (jsonl ser xs) (\<lambda>rest. Inr (body @ newline # rest)))"

definition derived_manifest_of :: "derived_graph \<Rightarrow> string \<Rightarrow> derived_manifest" where
  "derived_manifest_of g digest =
     \<lparr>dm_format = derived_format, dm_source_digest = digest, dm_event_count = dg_event_count g,
      dm_computation_count = length (dg_computations g),
      dm_dependency_count = length (dg_reverse_index g), dm_deterministic = dg_deterministic g\<rparr>"

definition to_files :: "derived_codec \<Rightarrow> derived_graph \<Rightarrow> string \<Rightarrow> store_error + (string, string) bmap" where
  "to_files c g digest =
     (case write_json (dc_manifest c) (derived_manifest_of g digest) of
        Inl e \<Rightarrow> Inl (StoreSerialize e)
      | Inr manifest \<Rightarrow>
          res_bind (jsonl (write_json (dc_node c)) (bm_values (dg_computations g))) (\<lambda>computations.
          res_bind (jsonl (write_json (dc_entry c)) (bm_values (dg_reverse_index g))) (\<lambda>index.
          res_bind (jsonl (write_json (dc_attribution c)) (bm_values (dg_attribution g))) (\<lambda>attribution.
          res_bind (jsonl (write_json (dc_defect c)) (dg_defects g)) (\<lambda>defects.
          Inr (bm_put defects_file defects (bm_put attribution_file attribution
            (bm_put reverse_index_file index (bm_put computations_file computations
              (bm_put manifest_file manifest [])))))))))) "

datatype remove_fate = Removed | RemoveNotFound | RemoveFailed string

type_synonym derived_dir = "(string, string) bmap option"

definition drop_derived :: "string \<Rightarrow> remove_fate \<Rightarrow> derived_dir \<Rightarrow> (store_error + unit) \<times> derived_dir" where
  \<comment> \<open>a failing \<open>remove_dir_all\<close> is taken to have removed nothing\<close>
  "drop_derived dir fate d =
     (case fate of Removed \<Rightarrow> (Inr (), None) | RemoveNotFound \<Rightarrow> (Inr (), d)
      | RemoveFailed e \<Rightarrow> (Inl (StoreIo dir e), d))"

fun write_files ::
  "string \<Rightarrow> (string \<Rightarrow> (string \<times> nat) option) \<Rightarrow> (string \<times> string) list \<Rightarrow> (string, string) bmap
     \<Rightarrow> (store_error + unit) \<times> (string, string) bmap" where
  \<comment> \<open>a failing write leaves a prefix of the file\<close>
  "write_files dir fates [] d = (Inr (), d)"
| "write_files dir fates ((name, bytes) # rest) d =
     (case fates name of
        Some (e, n) \<Rightarrow> (Inl (StoreIo (path_join dir name) e), bm_put name (take n bytes) d)
      | None \<Rightarrow> write_files dir fates rest (bm_put name bytes d))"

definition write_to ::
  "derived_codec \<Rightarrow> string \<Rightarrow> remove_fate \<Rightarrow> string option \<Rightarrow> (string \<Rightarrow> (string \<times> nat) option)
     \<Rightarrow> derived_graph \<Rightarrow> string \<Rightarrow> derived_dir \<Rightarrow> (store_error + unit) \<times> derived_dir" where
  "write_to c dir remove_fate create_error fates g digest d =
     (case drop_derived dir remove_fate d of
        (Inl e, d) \<Rightarrow> (Inl e, d)
      | (Inr _, d) \<Rightarrow>
          (case create_error of
             Some e \<Rightarrow> (Inl (StoreIo dir e), d)
           | None \<Rightarrow>
               (let existing = (case d of None \<Rightarrow> [] | Some m \<Rightarrow> m) in
                case to_files c g digest of
                  Inl e \<Rightarrow> (Inl e, Some existing)
                | Inr files \<Rightarrow>
                    (case write_files dir fates files existing of (r, m) \<Rightarrow> (r, Some m)))))"

record loaded_derived =
  lo_manifest :: derived_manifest
  lo_computations :: "computation_node list"
  lo_reverse_index :: "reverse_index_entry list"
  lo_attribution :: "computation_coverage list"
  lo_defects :: "graph_defect list"

definition loaded_matches :: "loaded_derived \<Rightarrow> string \<Rightarrow> bool" where
  "loaded_matches l digest \<longleftrightarrow>
     dm_format (lo_manifest l) = derived_format \<and> dm_source_digest (lo_manifest l) = digest"

fun read_lines :: "(string \<Rightarrow> string + 'a) \<Rightarrow> string \<Rightarrow> (nat \<times> string) list \<Rightarrow> store_error + 'a list" where
  "read_lines parse path [] = Inr []"
| "read_lines parse path ((i, line) # rest) =
     (if line = [] then read_lines parse path rest
      else case parse line of
          Inl msg \<Rightarrow> Inl (StoreMalformedRecord path (i + 1) 0 msg)
        | Inr x \<Rightarrow> res_bind (read_lines parse path rest) (\<lambda>xs. Inr (x # xs)))"

definition read_jsonl ::
  "(string \<Rightarrow> string + 'a) \<Rightarrow> string \<Rightarrow> string \<Rightarrow> (string, string) bmap \<Rightarrow> store_error + 'a list" where
  \<comment> \<open>a missing file is an error\<close>
  "read_jsonl parse dir name m =
     (case map_of m name of
        None \<Rightarrow> Inl (StoreIo (path_join dir name) ''not found'')
      | Some raw \<Rightarrow> read_lines parse (path_join dir name) (enumerate 0 (split_on newline raw)))"

definition read_from :: "derived_codec \<Rightarrow> string \<Rightarrow> derived_dir \<Rightarrow> store_error + loaded_derived option" where
  "read_from c dir d =
     (case d of
        None \<Rightarrow> Inr None
      | Some m \<Rightarrow>
          (case map_of m manifest_file of
             None \<Rightarrow> Inr None
           | Some raw \<Rightarrow>
               (case read_json (dc_manifest c) raw of
                  Inl msg \<Rightarrow> Inl (StoreMalformedRecord (path_join dir manifest_file) 1 0 msg)
                | Inr manifest \<Rightarrow>
                    res_bind (read_jsonl (read_json (dc_node c)) dir computations_file m) (\<lambda>computations.
                    res_bind (read_jsonl (read_json (dc_entry c)) dir reverse_index_file m) (\<lambda>index.
                    res_bind (read_jsonl (read_json (dc_attribution c)) dir attribution_file m) (\<lambda>attribution.
                    res_bind (read_jsonl (read_json (dc_defect c)) dir defects_file m) (\<lambda>defects.
                    Inr (Some \<lparr>lo_manifest = manifest, lo_computations = computations,
                      lo_reverse_index = index, lo_attribution = attribution, lo_defects = defects\<rparr>))))))))"

subsection \<open>The store\<close>

record store =
  sto_root :: string
  sto_sink :: jsonl_sink
  sto_coverage :: coverage_registry

definition log_path :: "string \<Rightarrow> string" where
  "log_path root = path_join root log_file_name"

definition coverage_path :: "string \<Rightarrow> string" where
  "coverage_path root = path_join root coverage_file_name"

definition store_with_options ::
  "(string \<Rightarrow> string + coverage_registration) \<Rightarrow> sink_options \<Rightarrow> string option \<Rightarrow> string + string
     \<Rightarrow> read_outcome \<Rightarrow> string \<Rightarrow> store_error + store" where
  \<comment> \<open>the arguments are a failure to create the directory, the log as it was opened or the error,
    and the reading of the registry\<close>
  "store_with_options parse options mkdir_error opened coverage root =
     (case mkdir_error of
        Some e \<Rightarrow> Inl (StoreIo root e)
      | None \<Rightarrow>
          (case opened of
             Inl e \<Rightarrow> Inl (StoreIo (log_path root) e)
           | Inr disk \<Rightarrow>
               res_bind (registry_open parse (coverage_path root) coverage) (\<lambda>reg.
               Inr \<lparr>sto_root = root, sto_sink = sink_with_options (log_path root) options disk,
                    sto_coverage = reg\<rparr>)))"

definition derive_graph ::
  "(event_kind \<Rightarrow> json \<Rightarrow> string) \<Rightarrow> (string \<Rightarrow> string) \<Rightarrow> (ir_event \<Rightarrow> string + string)
     \<Rightarrow> (coverage_manifest \<Rightarrow> string + string) \<Rightarrow> (string \<Rightarrow> string + ir_event) \<Rightarrow> read_outcome
     \<Rightarrow> store \<Rightarrow> store_error + derived_graph \<times> string" where
  "derive_graph msg hex ser ser_manifest parse log sto =
     res_bind (read_log parse (log_path (sto_root sto)) log) (\<lambda>events.
       let canonical = linearize events
       in Inr (replay msg canonical (sto_coverage sto),
               source_digest hex ser ser_manifest canonical (sto_coverage sto)))"

definition rebuild_derived ::
  "derived_codec \<Rightarrow> remove_fate \<Rightarrow> string option \<Rightarrow> (string \<Rightarrow> (string \<times> nat) option)
     \<Rightarrow> store_error + derived_graph \<times> string \<Rightarrow> store \<Rightarrow> derived_dir
     \<Rightarrow> (store_error + derived_graph) \<times> derived_dir" where
  \<comment> \<open>the fifth argument is the result of \<open>derive_graph\<close>\<close>
  "rebuild_derived c remove_fate create_error fates derived sto d =
     (case derived of
        Inl e \<Rightarrow> (Inl e, d)
      | Inr (g, digest) \<Rightarrow>
          (case write_to c (path_join (sto_root sto) derived_dir_name) remove_fate create_error fates g digest d of
             (Inl e, d) \<Rightarrow> (Inl e, d)
           | (Inr _, d) \<Rightarrow> (Inr g, d)))"

definition load_derived :: "derived_codec \<Rightarrow> store \<Rightarrow> derived_dir \<Rightarrow> store_error + loaded_derived option" where
  "load_derived c sto d = read_from c (path_join (sto_root sto) derived_dir_name) d"

subsection \<open>Derived state is a function of the log\<close>

definition codec_law :: "'a codec \<Rightarrow> bool" where
  \<comment> \<open>the JSON codec reads back what it wrote, in one non-empty line\<close>
  "codec_law c \<longleftrightarrow> (\<forall>x body. write_json c x = Inr body \<longrightarrow> body \<noteq> [] \<and> newline \<notin> set body \<and> read_json c body = Inr x)"

definition derived_codec_ok :: "derived_codec \<Rightarrow> bool" where
  "derived_codec_ok c \<longleftrightarrow> codec_law (dc_manifest c) \<and> codec_law (dc_node c) \<and> codec_law (dc_entry c) \<and>
     codec_law (dc_attribution c) \<and> codec_law (dc_defect c)"

lemma read_jsonl_back:
  assumes "codec_law c" and "jsonl (write_json c) xs = Inr raw"
  shows "read_lines (read_json c) path (enumerate n (split_on newline raw)) = Inr xs"
  using assms(2)
proof (induction xs arbitrary: raw n)
  case (Cons x xs)
  then obtain body rest where "write_json c x = Inr body" "jsonl (write_json c) xs = Inr rest" "raw = body @ newline # rest"
    by (auto split: sum.splits simp: res_bind_def)
  with Cons.IH[of rest] assms(1) show ?case
    by (auto simp: split_on_append codec_law_def)
qed simp

lemma derived_names_distinct:
  "distinct [manifest_file, computations_file, reverse_index_file, attribution_file, defects_file]"
  by (simp add: manifest_file_def computations_file_def reverse_index_file_def attribution_file_def defects_file_def)

lemma to_files_Inr:
  assumes "to_files c g digest = Inr files"
  obtains manifest computations index attribution defects where
    "write_json (dc_manifest c) (derived_manifest_of g digest) = Inr manifest"
    "jsonl (write_json (dc_node c)) (bm_values (dg_computations g)) = Inr computations"
    "jsonl (write_json (dc_entry c)) (bm_values (dg_reverse_index g)) = Inr index"
    "jsonl (write_json (dc_attribution c)) (bm_values (dg_attribution g)) = Inr attribution"
    "jsonl (write_json (dc_defect c)) (dg_defects g) = Inr defects"
    "map_of files manifest_file = Some manifest" "map_of files computations_file = Some computations"
    "map_of files reverse_index_file = Some index" "map_of files attribution_file = Some attribution"
    "map_of files defects_file = Some defects" "bm_ok files"
  using assms derived_names_distinct
  by (auto simp: to_files_def res_bind_def simp del: bm_put.simps split: sum.splits)

lemma read_back:
  assumes "derived_codec_ok c" and "to_files c g digest = Inr files" and same: "map_of m = map_of files"
  shows "\<exists>l. read_from c dir (Some m) = Inr (Some l) \<and> loaded_matches l digest \<and>
     lo_computations l = bm_values (dg_computations g) \<and> lo_reverse_index l = bm_values (dg_reverse_index g) \<and>
     lo_attribution l = bm_values (dg_attribution g) \<and> lo_defects l = dg_defects g"
  using assms(2)
proof (rule to_files_Inr)
  fix manifest computations index attribution defects
  assume a: "write_json (dc_manifest c) (derived_manifest_of g digest) = Inr manifest"
    "jsonl (write_json (dc_node c)) (bm_values (dg_computations g)) = Inr computations"
    "jsonl (write_json (dc_entry c)) (bm_values (dg_reverse_index g)) = Inr index"
    "jsonl (write_json (dc_attribution c)) (bm_values (dg_attribution g)) = Inr attribution"
    "jsonl (write_json (dc_defect c)) (dg_defects g) = Inr defects"
    and m: "map_of files manifest_file = Some manifest" "map_of files computations_file = Some computations"
    "map_of files reverse_index_file = Some index" "map_of files attribution_file = Some attribution"
    "map_of files defects_file = Some defects"
  from assms(1) have l: "codec_law (dc_manifest c)" "codec_law (dc_node c)" "codec_law (dc_entry c)"
      "codec_law (dc_attribution c)" "codec_law (dc_defect c)"
    by (simp_all add: derived_codec_ok_def)
  from l(1) a(1) have "read_json (dc_manifest c) manifest = Inr (derived_manifest_of g digest)"
    by (simp add: codec_law_def)
  then show ?thesis
    using read_jsonl_back[OF l(2) a(2)] read_jsonl_back[OF l(3) a(3)] read_jsonl_back[OF l(4) a(4)]
      read_jsonl_back[OF l(5) a(5)]
    by (simp add: read_from_def read_jsonl_def same m loaded_matches_def derived_manifest_of_def)
qed

lemma write_files_all:
  "(\<And>name. fates name = None) \<Longrightarrow>
     write_files dir fates fs m = (Inr (), fold (\<lambda>(n, b). bm_put n b) fs m)"
  by (induction fs arbitrary: m) auto

lemma map_of_rewritten:
  assumes "bm_ok fs"
  shows "map_of (fold (\<lambda>(n, b). bm_put n b) fs []) = map_of fs"
proof -
  have d: "distinct (map fst fs)"
    using assms by (simp add: bm_ok_def strict_sorted_iff)
  then have "map_of (rev fs) = map_of fs"
    using map_of_inject_set[of "rev fs" fs] by (simp add: rev_map[symmetric])
  then show ?thesis by (auto simp: map_of_fold_put fun_eq_iff split: option.splits)
qed

lemma rebuild_read_back:
  assumes c: "derived_codec_ok c" and f: "to_files c g digest = Inr files"
    and r: "remove_fate = Removed \<or> remove_fate = RemoveNotFound \<and> d = None"
    and w: "rebuild_derived c remove_fate None (\<lambda>_. None) (Inr (g, digest)) sto d = (r', d')"
  shows "r' = Inr g \<and> (\<exists>l. load_derived c sto d' = Inr (Some l) \<and> loaded_matches l digest \<and>
     lo_computations l = bm_values (dg_computations g) \<and> lo_reverse_index l = bm_values (dg_reverse_index g) \<and>
     lo_attribution l = bm_values (dg_attribution g) \<and> lo_defects l = dg_defects g)"
proof -
  from f have "bm_ok files" by (rule to_files_Inr)
  note m = map_of_rewritten[OF this]
  from r w f have "r' = Inr g" "d' = Some (fold (\<lambda>(n, b). bm_put n b) files [])"
    by (auto simp: rebuild_derived_def write_to_def drop_derived_def write_files_all)
  with read_back[OF c f m, of "path_join (sto_root sto) derived_dir_name"] show ?thesis
    by (simp add: load_derived_def)
qed

lemma derive_graph_order_independent:
  assumes "read_log parse (log_path (sto_root sto)) log = Inr es"
    and "read_log parse (log_path (sto_root sto)) log' = Inr es'" and "mset es' = mset es"
    and "derive_graph msg hex ser ser_manifest parse log sto = Inr (g, digest)" and "dg_deterministic g"
  shows "derive_graph msg hex ser ser_manifest parse log' sto = Inr (g, digest)"
proof -
  have g: "g = replay msg (linearize es) (sto_coverage sto)"
    using assms(1,4) by (simp add: derive_graph_def Let_def)
  have "is_deterministic (linearize_checked (linearize es))"
    using assms(5) by (simp add: g replay_def Let_def split: prod.splits)
  then have "\<forall>a\<in>set es. \<forall>b\<in>set es. ev_event_id a = ev_event_id b \<longrightarrow> a = b"
    unfolding deterministic_iff by (simp add: linearize_set)
  then have "linearize es' = linearize es"
    using assms(3) by (rule linearize_order_independent)
  with assms(1,2,4) show ?thesis by (simp add: derive_graph_def Let_def)
qed

text \<open>C27: Derived state can be thrown away. Whatever \<open>derived/\<close> held, rebuilding it over a readable log
  gives the replay of that log in canonical order, deterministic or not, and loading it again gives
  the computations, the reverse index, the attributions and the defects of that graph, under a
  manifest that matches the digest of the log; the files do not depend on what was there before. If
  moreover the replay is deterministic, a log with the same events in another physical order gives
  the same graph, the same digest and the same files.\<close>

theorem derived_state_is_reconstructable:
  assumes "derived_codec_ok c"
    and "read_log parse (log_path (sto_root sto)) log = Inr es"
    and "derive_graph msg hex ser ser_manifest parse log sto = Inr (g, digest)"
    and "to_files c g digest = Inr files"
    and "remove_fate = Removed \<or> remove_fate = RemoveNotFound \<and> d = None"
    and "rebuild_derived c remove_fate None (\<lambda>_. None)
           (derive_graph msg hex ser ser_manifest parse log sto) sto d = (r, d')"
  shows "g = replay msg (linearize es) (sto_coverage sto) \<and>
    digest = source_digest hex ser ser_manifest (linearize es) (sto_coverage sto) \<and> r = Inr g \<and>
    (\<exists>l. load_derived c sto d' = Inr (Some l) \<and> loaded_matches l digest \<and>
       lo_computations l = bm_values (dg_computations g) \<and> lo_reverse_index l = bm_values (dg_reverse_index g) \<and>
       lo_attribution l = bm_values (dg_attribution g) \<and> lo_defects l = dg_defects g) \<and>
    (\<forall>e. rebuild_derived c Removed None (\<lambda>_. None) (Inr (g, digest)) sto e = (r, d')) \<and>
    (dg_deterministic g \<longrightarrow>
      (\<forall>log' es' e. read_log parse (log_path (sto_root sto)) log' = Inr es' \<and> mset es' = mset es \<longrightarrow>
         derive_graph msg hex ser ser_manifest parse log' sto = Inr (g, digest) \<and>
         rebuild_derived c Removed None (\<lambda>_. None)
           (derive_graph msg hex ser ser_manifest parse log' sto) sto e = (r, d')))"
proof -
  have g: "g = replay msg (linearize es) (sto_coverage sto)"
      "digest = source_digest hex ser ser_manifest (linearize es) (sto_coverage sto)"
    using assms(2,3) by (simp_all add: derive_graph_def Let_def)
  have w: "rebuild_derived c remove_fate None (\<lambda>_. None) (Inr (g, digest)) sto d = (r, d')"
    using assms(6) unfolding assms(3) .
  then have fresh: "rebuild_derived c Removed None (\<lambda>_. None) (Inr (g, digest)) sto e = (r, d')" for e
    using assms(5) by (auto simp: rebuild_derived_def write_to_def drop_derived_def)
  have "derive_graph msg hex ser ser_manifest parse log' sto = Inr (g, digest)"
    if "dg_deterministic g" "read_log parse (log_path (sto_root sto)) log' = Inr es'" "mset es' = mset es" for log' es'
    by (rule derive_graph_order_independent[OF assms(2) that(2,3) assms(3) that(1)])
  with g fresh rebuild_read_back[OF assms(1,4,5) w] show ?thesis by simp
qed

subsection \<open>A store with a small log\<close>

fun index_in :: "'a list \<Rightarrow> 'a \<Rightarrow> nat option" where
  "index_in [] x = None"
| "index_in (y # ys) x = (if y = x then Some 0 else map_option Suc (index_in ys x))"

lemma index_in_nth: "index_in xs x = Some i \<Longrightarrow> i < length xs \<and> xs ! i = x"
  by (induction xs arbitrary: i) (auto split: if_splits)

lemma index_in_mem: "x \<in> set xs \<Longrightarrow> index_in xs x \<noteq> None"
  by (induction xs) auto

definition table_codec :: "'a list \<Rightarrow> 'a codec" where
  \<comment> \<open>writes a value of the table as its position, in unary\<close>
  "table_codec xs =
     \<lparr>write_json = (\<lambda>x. case index_in xs x of None \<Rightarrow> Inl ''no'' | Some i \<Rightarrow> Inr (replicate (Suc i) CHR ''i'')),
      read_json = (\<lambda>s. if s = [] \<or> length xs < length s then Inl ''bad'' else Inr (xs ! (length s - 1)))\<rparr>"

lemma table_codec_law: "codec_law (table_codec xs)"
  by (auto simp: codec_law_def table_codec_def newline_def index_in_nth split: option.splits dest!: index_in_nth)

definition graph_codec :: "derived_graph \<Rightarrow> string \<Rightarrow> derived_codec" where
  "graph_codec g digest =
     \<lparr>dc_manifest = table_codec [derived_manifest_of g digest],
      dc_node = table_codec (bm_values (dg_computations g)),
      dc_entry = table_codec (bm_values (dg_reverse_index g)),
      dc_attribution = table_codec (bm_values (dg_attribution g)),
      dc_defect = table_codec (dg_defects g)\<rparr>"

lemma graph_codec_ok: "derived_codec_ok (graph_codec g digest)"
  by (simp add: derived_codec_ok_def graph_codec_def table_codec_law)

lemma jsonl_table: "set ys \<subseteq> set xs \<Longrightarrow> \<exists>raw. jsonl (write_json (table_codec xs)) ys = Inr raw"
  by (induction ys) (auto simp: table_codec_def dest!: index_in_mem)

lemma graph_codec_files: "\<exists>files. to_files (graph_codec g digest) g digest = Inr files"
proof -
  note t = jsonl_table[OF subset_refl]
  have "\<exists>b. write_json (table_codec [derived_manifest_of g digest]) (derived_manifest_of g digest) = Inr b"
    by (simp add: table_codec_def)
  then show ?thesis
    using t[of "bm_values (dg_computations g)"] t[of "bm_values (dg_reverse_index g)"]
      t[of "bm_values (dg_attribution g)"] t[of "dg_defects g"]
    by (auto simp: to_files_def graph_codec_def simp del: bm_put.simps)
qed

definition small_store :: store where
  "small_store = \<lparr>sto_root = ''s'', sto_sink = sink_with_options ''s/events.jsonl'' sink_options_default [],
     sto_coverage = registry_in_memory\<rparr>"

definition page_parse :: "string \<Rightarrow> string + ir_event" where
  \<comment> \<open>a read of \<open>/a\<close>, one of \<open>/b\<close>, and one of \<open>/c\<close> that claims the identifier of the first\<close>
  "page_parse s =
     (if s = ''a'' then Inr (read_event 1 1 ''/a'') else if s = ''b'' then Inr (read_event 2 2 ''/b'')
      else if s = ''c'' then Inr (read_event 1 1 ''/c'') else Inl ''bad'')"

abbreviation page_graph :: "ir_event list \<Rightarrow> derived_graph" where
  "page_graph es \<equiv> replay no_text (linearize es) registry_in_memory"

abbreviation page_derive :: "string \<Rightarrow> store_error + derived_graph \<times> string" where
  "page_derive raw \<equiv>
     derive_graph no_text (\<lambda>_. ''h'') (\<lambda>_. Inr ''e'') (\<lambda>_. Inl []) page_parse (ReadBytes raw) small_store"

lemma page_derived:
  assumes "read_log page_parse (log_path (sto_root small_store)) (ReadBytes raw) = Inr es"
  shows "page_derive raw = Inr (page_graph es, ''blake3:h'')"
  unfolding derive_graph_def assms by (simp add: source_digest_def small_store_def Let_def)

lemma page_reads:
  "read_log page_parse (log_path (sto_root small_store)) (ReadBytes (''a'' @ [newline] @ ''b'' @ [newline])) =
     Inr [read_event 1 1 ''/a'', read_event 2 2 ''/b'']"
  "read_log page_parse (log_path (sto_root small_store)) (ReadBytes (''b'' @ [newline] @ ''a'' @ [newline])) =
     Inr [read_event 2 2 ''/b'', read_event 1 1 ''/a'']"
  "read_log page_parse (log_path (sto_root small_store)) (ReadBytes (''a'' @ [newline] @ ''c'' @ [newline])) =
     Inr [read_event 1 1 ''/a'', read_event 1 1 ''/c'']"
  by code_simp+

theorem derived_state_is_reconstructable_witness:
  "(\<exists>g d l. rebuild_derived (graph_codec g ''blake3:h'') RemoveNotFound None (\<lambda>_. None)
        (page_derive (''a'' @ [newline] @ ''b'' @ [newline])) small_store None = (Inr g, d) \<and>
      rebuild_derived (graph_codec g ''blake3:h'') Removed None (\<lambda>_. None)
        (page_derive (''b'' @ [newline] @ ''a'' @ [newline])) small_store (Some [(''junk'', ''x'')]) = (Inr g, d) \<and>
      load_derived (graph_codec g ''blake3:h'') small_store d = Inr (Some l) \<and>
      map (map dep_key \<circ> cn_dependencies) (lo_computations l) = [[''file:///a'', ''file:///b'']]) \<and>
   (\<exists>g d l. \<not> dg_deterministic g \<and>
      rebuild_derived (graph_codec g ''blake3:h'') Removed None (\<lambda>_. None)
        (page_derive (''a'' @ [newline] @ ''c'' @ [newline])) small_store (Some [(''junk'', ''x'')]) = (Inr g, d) \<and>
      load_derived (graph_codec g ''blake3:h'') small_store d = Inr (Some l) \<and>
      lo_defects l = dg_defects g \<and> lo_defects l \<noteq> [])"
proof (intro conjI)
  let ?es = "[read_event 1 1 ''/a'', read_event 2 2 ''/b'']" and ?h = "''blake3:h''"
  let ?g = "page_graph ?es"
  obtain files where f: "to_files (graph_codec ?g ?h) ?g ?h = Inr files"
    using graph_codec_files by blast
  obtain r d where w: "rebuild_derived (graph_codec ?g ?h) RemoveNotFound None (\<lambda>_. None)
      (page_derive (''a'' @ [newline] @ ''b'' @ [newline])) small_store None = (r, d)"
    by fastforce
  have det: "dg_deterministic ?g" by code_simp
  have keys: "map (map dep_key \<circ> cn_dependencies) (bm_values (dg_computations ?g)) = [[''file:///a'', ''file:///b'']]"
    by code_simp
  have fate: "RemoveNotFound = Removed \<or> RemoveNotFound = RemoveNotFound \<and> (None :: derived_dir) = None"
    by simp
  note all = derived_state_is_reconstructable[OF graph_codec_ok page_reads(1) page_derived[OF page_reads(1)] f fate w]
  show "\<exists>g d l. rebuild_derived (graph_codec g ?h) RemoveNotFound None (\<lambda>_. None)
        (page_derive (''a'' @ [newline] @ ''b'' @ [newline])) small_store None = (Inr g, d) \<and>
      rebuild_derived (graph_codec g ?h) Removed None (\<lambda>_. None)
        (page_derive (''b'' @ [newline] @ ''a'' @ [newline])) small_store (Some [(''junk'', ''x'')]) = (Inr g, d) \<and>
      load_derived (graph_codec g ?h) small_store d = Inr (Some l) \<and>
      map (map dep_key \<circ> cn_dependencies) (lo_computations l) = [[''file:///a'', ''file:///b'']]"
  proof -
    obtain l where l: "load_derived (graph_codec ?g ?h) small_store d = Inr (Some l)"
        "lo_computations l = bm_values (dg_computations ?g)"
      using all by blast
    have "mset [read_event 2 2 ''/b'', read_event 1 1 ''/a''] = mset ?es"
      by simp
    then have "rebuild_derived (graph_codec ?g ?h) Removed None (\<lambda>_. None)
        (page_derive (''b'' @ [newline] @ ''a'' @ [newline])) small_store (Some [(''junk'', ''x'')]) = (r, d)"
      using all det page_reads(2) by blast
    moreover have "r = Inr ?g"
      using all by blast
    ultimately show ?thesis
      using l w keys by (intro exI[of _ ?g] exI[of _ d] exI[of _ l]) simp
  qed
next
  let ?es = "[read_event 1 1 ''/a'', read_event 1 1 ''/c'']" and ?h = "''blake3:h''"
  let ?g = "page_graph ?es"
  obtain files where f: "to_files (graph_codec ?g ?h) ?g ?h = Inr files"
    using graph_codec_files by blast
  obtain r d where w: "rebuild_derived (graph_codec ?g ?h) Removed None (\<lambda>_. None)
      (page_derive (''a'' @ [newline] @ ''c'' @ [newline])) small_store (Some [(''junk'', ''x'')]) = (r, d)"
    by fastforce
  have nondet: "\<not> dg_deterministic ?g" and defects: "dg_defects ?g \<noteq> []" by code_simp+
  note all = derived_state_is_reconstructable[OF graph_codec_ok page_reads(3) page_derived[OF page_reads(3)] f disjI1[OF refl] w]
  show "\<exists>g d l. \<not> dg_deterministic g \<and>
      rebuild_derived (graph_codec g ?h) Removed None (\<lambda>_. None)
        (page_derive (''a'' @ [newline] @ ''c'' @ [newline])) small_store (Some [(''junk'', ''x'')]) = (Inr g, d) \<and>
      load_derived (graph_codec g ?h) small_store d = Inr (Some l) \<and>
      lo_defects l = dg_defects g \<and> lo_defects l \<noteq> []"
    using all w nondet defects by (intro exI[of _ ?g] exI[of _ d]) auto
qed

end
