(* ===== verification/Claude_Hook.thy ===== *)
theory Claude_Hook
  imports Claude_Compile Claude_Coverage Messages Text Store
begin

section \<open>The Claude adapter: its sink and the hook binary\<close>

text \<open>
  \<open>freshdag-adapter-claude/src/sink.rs\<close> and \<open>src/bin/freshdag-claude-hook.rs\<close>. The sink
  appends to the first of three files that opens; what opening and each write do is a parameter,
  and the files are a map from paths to bytes. The binary is one function from its arguments, its
  environment and standard input to what it prints and leaves on disk. What holds of them is in
  \<open>Claude_Hook_Facts\<close>.
\<close>

subsection \<open>The sink\<close>

definition claude_max_bytes :: u64 where
  "claude_max_bytes = 64 * 1024 * 1024"

definition claude_reserve_bytes :: u64 where
  "claude_reserve_bytes = 8 * 1024"

definition buffer_suffix :: string where
  "buffer_suffix = ''.freshdag-buffer.jsonl''"

record claude_outcome =
  co_written :: nat
  co_dropped :: nat
  co_buffered_to :: "string option"
  co_errors :: "string list"

definition claude_outcome_default :: claude_outcome where
  "claude_outcome_default = \<lparr>co_written = 0, co_dropped = 0, co_buffered_to = None, co_errors = []\<rparr>"

record claude_sink =
  cs_path :: string
  cs_max_bytes :: u64

definition claude_sink_new :: "string \<Rightarrow> claude_sink" where
  "claude_sink_new path = \<lparr>cs_path = path, cs_max_bytes = claude_max_bytes\<rparr>"

definition with_max_bytes :: "u64 \<Rightarrow> claude_sink \<Rightarrow> claude_sink" where
  "with_max_bytes m sk = sk\<lparr>cs_max_bytes := m\<rparr>"

definition buffer_path :: "claude_sink \<Rightarrow> string" where
  "buffer_path sk = cs_path sk @ buffer_suffix"

text \<open>What the code relies on of the outside: the temporary directory, BLAKE3 in hexadecimal, the
  JSON serialiser, the printed form of an identifier, and the outcomes of the operating system's
  calls: which opens fail and how, whether the length of a file can be read, and the fate of each
  write and of the final flush.\<close>

datatype line_fate = LineWritten | LineTorn string nat  \<comment> \<open>the error, and the bytes that reached the file\<close>

record sink_world =
  sw_hex :: "string \<Rightarrow> string"
  sw_temp_dir :: string
  sw_ser :: "ir_event \<Rightarrow> string + string"
  sw_id_text :: "uuid \<Rightarrow> string"
  sw_open :: "string \<Rightarrow> string option"
  sw_stat :: "string \<Rightarrow> bool"
  sw_fate :: "nat \<Rightarrow> line_fate"
  sw_flush :: "string option"

type_synonym files = "string \<Rightarrow> string option"

definition fallback_buffer_path :: "sink_world \<Rightarrow> claude_sink \<Rightarrow> string" where
  "fallback_buffer_path w sk =
     path_push (sw_temp_dir w) (''freshdag-claude-'' @ take 16 (sw_hex w (cs_path sk)) @ ''.buffer.jsonl'')"

fun try_open ::
  "sink_world \<Rightarrow> (string \<times> bool) list \<Rightarrow> claude_outcome \<Rightarrow> string option \<times> claude_outcome" where
  \<comment> \<open>the loop of \<open>open_target\<close> over the candidates\<close>
  "try_open w [] out = (None, out)"
| "try_open w ((path, is_buffer) # rest) out =
     (case sw_open w path of
        None \<Rightarrow> (Some path, if is_buffer then out\<lparr>co_buffered_to := Some path\<rparr> else out)
      | Some err \<Rightarrow> try_open w rest (out\<lparr>co_errors := co_errors out @ [path @ '' unavailable: '' @ err]\<rparr>))"

definition open_target :: "sink_world \<Rightarrow> claude_sink \<Rightarrow> claude_outcome \<Rightarrow> string option \<times> claude_outcome" where
  "open_target w sk out =
     try_open w [(cs_path sk, False), (buffer_path sk, True), (fallback_buffer_path w sk, True)] out"

definition file_bytes_of :: "files \<Rightarrow> string \<Rightarrow> string" where
  \<comment> \<open>opening creates the file\<close>
  "file_bytes_of fs path = (case fs path of None \<Rightarrow> [] | Some b \<Rightarrow> b)"

definition file_len :: "sink_world \<Rightarrow> files \<Rightarrow> string \<Rightarrow> u64" where
  "file_len w fs path = (if sw_stat w path then of_nat (length (file_bytes_of fs path)) else 0)"

definition serialize_line :: "sink_world \<Rightarrow> ir_event \<Rightarrow> claude_outcome \<Rightarrow> string option \<times> claude_outcome" where
  "serialize_line w event out =
     (case sw_ser w event of
        Inr bytes \<Rightarrow> (Some bytes, out)
      | Inl err \<Rightarrow>
          (None, out\<lparr>co_errors := co_errors out @
                [''event '' @ sw_id_text w (ev_event_id event) @ '' failed to serialize: '' @ err],
              co_dropped := co_dropped out + 1\<rparr>))"

fun write_events ::
  "sink_world \<Rightarrow> u64 \<Rightarrow> string \<Rightarrow> nat \<Rightarrow> ir_event list \<Rightarrow> u64 \<Rightarrow> claude_outcome \<Rightarrow> string \<Rightarrow> claude_outcome \<times> string" where
  \<comment> \<open>the loop of \<open>write_all\<close>: the number of writes so far, the size it counts, the bytes of the file\<close>
  "write_events w max_bytes target n [] sz out bytes = (out, bytes)"
| "write_events w max_bytes target n (event # rest) sz out bytes =
     (case serialize_line w event out of
        (None, out) \<Rightarrow> write_events w max_bytes target n rest sz out bytes
      | (Some line, out) \<Rightarrow>
          let len = of_nat (length line) in
          if sat_add64 sz len > sat_sub64 max_bytes claude_reserve_bytes
          then write_events w max_bytes target n rest sz (out\<lparr>co_dropped := co_dropped out + 1\<rparr>) bytes
          else
            (case sw_fate w n of
               LineWritten \<Rightarrow>
                 write_events w max_bytes target (n + 1) rest (sz + (len + 1))
                   (out\<lparr>co_written := co_written out + 1\<rparr>) (bytes @ line @ [newline])
             | LineTorn err k \<Rightarrow>
                 write_events w max_bytes target (n + 1) rest sz
                   (out\<lparr>co_errors := co_errors out @ [''append to '' @ target @ '' failed: '' @ err],
                        co_dropped := co_dropped out + 1\<rparr>)
                   (bytes @ take k (line @ [newline]))))"

definition claude_write_all ::
  "sink_world \<Rightarrow> claude_sink \<Rightarrow> ir_event list \<Rightarrow> files \<Rightarrow> claude_outcome \<times> files" where
  "claude_write_all w sk events fs =
     (if events = [] then (claude_outcome_default, fs)
      else
        (case open_target w sk claude_outcome_default of
           (None, out) \<Rightarrow>
             (out\<lparr>co_errors := co_errors out @
                  [''no sink or buffer could be opened; '' @ show_nat (length events) @ '' event(s) not persisted''],
                co_dropped := length events\<rparr>, fs)
         | (Some target, out) \<Rightarrow>
             (let (out, bytes) = write_events w (cs_max_bytes sk) target 0 events (file_len w fs target) out
                    (file_bytes_of fs target);
                  out = (case sw_flush w of
                      None \<Rightarrow> out
                    | Some err \<Rightarrow> out\<lparr>co_errors := co_errors out @ [''flush of '' @ target @ '' failed: '' @ err]\<rparr>)
              in (out, fs(target := Some bytes)))))"

definition force_write :: "sink_world \<Rightarrow> claude_sink \<Rightarrow> ir_event \<Rightarrow> files \<Rightarrow> claude_outcome \<times> files" where
  "force_write w sk event fs =
     (case open_target w sk claude_outcome_default of
        (None, out) \<Rightarrow>
          (out\<lparr>co_errors := co_errors out @
               [''the record of a dropped event could not itself be persisted'']\<rparr>, fs)
      | (Some target, out) \<Rightarrow>
          (let bytes = file_bytes_of fs target in
           case serialize_line w event out of
             (None, out) \<Rightarrow> (out, fs(target := Some bytes))
           | (Some line, out) \<Rightarrow>
               (case sw_fate w 0 of
                  LineWritten \<Rightarrow>
                    (out\<lparr>co_written := co_written out + 1\<rparr>, fs(target := Some (bytes @ line @ [newline])))
                | LineTorn err k \<Rightarrow>
                    (out\<lparr>co_errors := co_errors out @ [''append to '' @ target @ '' failed: '' @ err]\<rparr>,
                     fs(target := Some (bytes @ take k (line @ [newline])))))))"

subsection \<open>The binary\<close>

definition default_store :: string where
  "default_store = ''.freshdag''"

definition help_text :: string where
  "help_text = concat (map (\<lambda>l. l @ [newline])
    [''freshdag-claude-hook '' @ [CHR 0xE2, CHR 0x80, CHR 0x94] @ '' compile one Claude Code hook payload into canonical IR'',
     [],
     ''USAGE:'',
     ''    freshdag-claude-hook [--store DIR] [--sink PATH] [--no-store]'',
     ''                         [--suppress PATTERNS] [--max-bytes N] [--stdout]'',
     [],
     ''    --store DIR   Store root (default `.freshdag`, env FRESHDAG_STORE).'',
     ''                  Events -> DIR/events.jsonl, manifest -> DIR/coverage.jsonl.'',
     ''    --sink PATH   Write events to PATH instead (env FRESHDAG_SINK).'',
     ''    --no-store    Publish no manifest and default no sink.'',
     ''    --suppress    Comma-separated event-kind patterns to suppress.'',
     ''    --max-bytes   Sink byte cap.'',
     ''    --stdout      Also print events to stdout. Debugging only.'',
     [],
     ''Reads one JSON hook payload on stdin. Always exits 0.''])"

record hook_args =
  ha_store :: "string option"
  ha_sink :: "string option"
  ha_suppress :: "string list"
  ha_max_bytes :: "u64 option"
  ha_stdout :: bool
  ha_no_store :: bool
  ha_help :: bool

definition hook_args_default :: hook_args where
  "hook_args_default = \<lparr>ha_store = None, ha_sink = None, ha_suppress = [], ha_max_bytes = None,
     ha_stdout = False, ha_no_store = False, ha_help = False\<rparr>"

definition split_patterns :: "string \<Rightarrow> string list" where
  "split_patterns raw = filter (\<lambda>s. s \<noteq> []) (map trim (split_on CHR '','' raw))"

fun parse_args :: "string list \<Rightarrow> hook_args \<Rightarrow> string + hook_args" where
  "parse_args [] args = Inr args"
| "parse_args (arg # rest) args =
     (if arg = ''--store'' then
        (case rest of [] \<Rightarrow> Inl ''--store requires a path''
         | v # after \<Rightarrow> parse_args after (args\<lparr>ha_store := Some v\<rparr>))
      else if arg = ''--no-store'' then parse_args rest (args\<lparr>ha_no_store := True\<rparr>)
      else if arg = ''--sink'' then
        (case rest of [] \<Rightarrow> Inl ''--sink requires a path''
         | v # after \<Rightarrow> parse_args after (args\<lparr>ha_sink := Some v\<rparr>))
      else if arg = ''--suppress'' then
        (case rest of [] \<Rightarrow> Inl ''--suppress requires a pattern list''
         | v # after \<Rightarrow> parse_args after (args\<lparr>ha_suppress := ha_suppress args @ split_patterns v\<rparr>))
      else if arg = ''--max-bytes'' then
        (case rest of [] \<Rightarrow> Inl ''--max-bytes requires a number''
         | v # after \<Rightarrow>
             (case parse_u64 v of None \<Rightarrow> Inl ''--max-bytes must be an integer''
              | Some n \<Rightarrow> parse_args after (args\<lparr>ha_max_bytes := Some n\<rparr>)))
      else if arg = ''--stdout'' then parse_args rest (args\<lparr>ha_stdout := True\<rparr>)
      else if arg = ''-h'' \<or> arg = ''--help'' then parse_args rest (args\<lparr>ha_help := True\<rparr>)
      else Inl (''unrecognized argument `'' @ arg @ ''`''))"

text \<open>The outside of one run: arguments, environment variables, standard input (or why it could not
  be read), the JSON parsers and the serialiser of a registration, clock and identifiers, the disk
  the fingerprints come from, the outcome of reading and appending to the registry, and the two
  worlds of the sink (the stream, and the record of a drop).\<close>

record hook_env =
  he_args :: "string list"
  he_var :: "string \<Rightarrow> string option"
  he_stdin :: "string + string"
  he_parse :: "string \<Rightarrow> string + json"
  he_parse_registration :: "string \<Rightarrow> string + coverage_registration"
  he_ser_registration :: "coverage_registration \<Rightarrow> string + string"
  he_clock :: "nat \<Rightarrow> instant"
  he_ids :: "nat \<Rightarrow> uuid"
  he_disk :: disk
  he_now :: instant
  he_registry_error :: "string option"
  he_register :: append_outcome
  he_sink :: sink_world
  he_force :: sink_world

record hook_result =
  hr_exit :: int
  hr_stdout :: "string list"
  hr_stderr :: "string list"
  hr_files :: files

definition hook_config :: "hook_env \<Rightarrow> hook_args \<Rightarrow> adapter_config" where
  "hook_config env args =
     with_suppressed_kinds
       (ha_suppress args @
        (case he_var env ''FRESHDAG_CLAUDE_SUPPRESS'' of None \<Rightarrow> [] | Some v \<Rightarrow> split_patterns v))
       adapter_config_new"

definition env_u64 :: "hook_env \<Rightarrow> string \<Rightarrow> u64 option" where
  "env_u64 env key = Option.bind (he_var env key) parse_u64"

definition or_else :: "'a option \<Rightarrow> 'a option \<Rightarrow> 'a option" where
  "or_else a b = (case a of Some x \<Rightarrow> Some x | None \<Rightarrow> b)"

definition hook_store_root :: "hook_env \<Rightarrow> hook_args \<Rightarrow> string option" where
  "hook_store_root env args =
     (if ha_no_store args then None
      else or_else (or_else (ha_store args) (he_var env ''FRESHDAG_STORE'')) (Some default_store))"

definition hook_sink_path :: "hook_env \<Rightarrow> hook_args \<Rightarrow> string option" where
  "hook_sink_path env args =
     or_else (or_else (or_else (ha_sink args) (he_var env ''FRESHDAG_SINK'')) (he_var env ''FRESHDAG_CLAUDE_SINK''))
       (map_option log_path (hook_store_root env args))"

definition claude_publish_manifest :: "hook_env \<Rightarrow> string \<Rightarrow> adapter_config \<Rightarrow> files \<Rightarrow> string list \<times> files" where
  \<comment> \<open>what is printed to standard error, and the files afterwards\<close>
  "claude_publish_manifest env store_root config fs =
     (let manifest = coverage_manifest_for config;
          path = coverage_path store_root;
          outcome = (case he_registry_error env of
              Some e \<Rightarrow> ReadFailed e
            | None \<Rightarrow> (case fs path of None \<Rightarrow> ReadNotFound | Some b \<Rightarrow> ReadBytes b))
      in case registry_open (he_parse_registration env) path outcome of
           Inl err \<Rightarrow> ([''freshdag-claude-hook: could not open '' @ path @ '': '' @ store_error_display err], fs)
         | Inr registry \<Rightarrow>
             (if registry_manifest registry (key_of_manifest manifest) \<noteq> None then ([], fs)
              else
                (case register_at (he_ser_registration env) (he_register env) manifest (he_now env) registry
                        (file_bytes_of fs path) of
                   (Inr _, bytes) \<Rightarrow> ([], fs(path := Some bytes))
                 | (Inl err, bytes) \<Rightarrow>
                     ([''freshdag-claude-hook: could not publish coverage manifest to '' @ path @ '': '' @
                         store_error_display err],
                      case err of StoreSerialize _ \<Rightarrow> fs | _ \<Rightarrow> fs(path := Some bytes)))))"

definition report_drop ::
  "hook_env \<Rightarrow> compiler \<Rightarrow> claude_sink \<Rightarrow> ir_event list \<Rightarrow> nat \<Rightarrow> files \<Rightarrow> string list \<times> files" where
  "report_drop env cp sk events dropped fs =
     (let session_id = (case events of [] \<Rightarrow> unknown_session_id | e # _ \<Rightarrow> ev_session_id e);
          diag = diagnostic_with ''sink'' (JStr (cs_path sk))
            (diagnostic_with ''dropped_count'' (JUInt (of_nat dropped))
            (diagnostic_new SinkBackpressureDrop
              (''the sink could not accept '' @ show_nat dropped @ '' event(s) from this hook invocation (byte cap '' @
               ''reached, or neither the sink nor any buffer was writable). The NEWEST were '' @
               ''dropped; already-written events were preserved (invariant #4).'')));
          event = fst (standalone_diagnostic cp session_id diag);
          (out, fs) = force_write (he_force env) sk event fs
      in (map (\<lambda>e. ''freshdag-claude-hook: '' @ e) (co_errors out) @
          [''freshdag-claude-hook: dropped '' @ show_nat dropped @ '' newest event(s); older events preserved''], fs))"

definition hook_print :: "hook_env \<Rightarrow> ir_event list \<Rightarrow> string list \<times> string list" where
  \<comment> \<open>what \<open>--stdout\<close> prints to standard output and to standard error\<close>
  "hook_print env events =
     (List.map_filter (\<lambda>e. case sw_ser (he_sink env) e of Inr line \<Rightarrow> Some line | Inl _ \<Rightarrow> None) events,
      List.map_filter (\<lambda>e. case sw_ser (he_sink env) e of Inr _ \<Rightarrow> None
         | Inl err \<Rightarrow> Some (''freshdag-claude-hook: serialize failed: '' @ err)) events)"

definition hook_write ::
  "hook_env \<Rightarrow> hook_args \<Rightarrow> compiler \<Rightarrow> ir_event list \<Rightarrow> string \<Rightarrow> files \<Rightarrow> string list \<times> files" where
  "hook_write env args cp events sink_path fs =
     (let sk = claude_sink_new sink_path;
          sk = (case or_else (ha_max_bytes args) (env_u64 env ''FRESHDAG_CLAUDE_MAX_SINK_BYTES'') of
              Some m \<Rightarrow> with_max_bytes m sk
            | None \<Rightarrow> sk);
          (out, fs) = claude_write_all (he_sink env) sk events fs;
          err1 = map (\<lambda>e. ''freshdag-claude-hook: '' @ e) (co_errors out);
          err2 = (case co_buffered_to out of None \<Rightarrow> []
            | Some b \<Rightarrow> [''freshdag-claude-hook: buffered to '' @ b @ '' because the sink was unavailable'']);
          (err3, fs) = (if co_dropped out > 0 then report_drop env cp sk events (co_dropped out) fs else ([], fs))
      in (err1 @ err2 @ err3, fs))"

definition hook_main :: "hook_env \<Rightarrow> files \<Rightarrow> hook_result" where
  "hook_main env fs =
     (case parse_args (he_args env) hook_args_default of
        Inl err \<Rightarrow>
          \<lparr>hr_exit = 0, hr_stdout = [],
           hr_stderr = [''freshdag-claude-hook: '' @ err @ [newline, newline] @ help_text], hr_files = fs\<rparr>
      | Inr args \<Rightarrow>
          if ha_help args then \<lparr>hr_exit = 0, hr_stdout = [], hr_stderr = [help_text], hr_files = fs\<rparr>
          else case he_stdin env of
            Inl err \<Rightarrow>
              \<lparr>hr_exit = 0, hr_stdout = [],
               hr_stderr = [''freshdag-claude-hook: could not read stdin: '' @ err], hr_files = fs\<rparr>
          | Inr input \<Rightarrow>
              (let config = hook_config env args;
                   cp = compiler_production (sw_hex (he_sink env)) (he_clock env) (he_ids env) (he_disk env) config;
                   (events, cp) = compile_str (he_parse env) cp input;
                   (printed, failed) = (if ha_stdout args then hook_print env events else ([], []));
                   (err1, fs) = (case hook_store_root env args of
                       None \<Rightarrow> ([], fs)
                     | Some root \<Rightarrow> claude_publish_manifest env root config fs);
                   (err2, fs) = (case hook_sink_path env args of
                       None \<Rightarrow>
                         (if ha_stdout args then []
                          else [''freshdag-claude-hook: no sink configured (--store, --sink, or $FRESHDAG_SINK); '' @
                                show_nat (length events) @ '' event(s) discarded''], fs)
                     | Some sink_path \<Rightarrow> hook_write env args cp events sink_path fs)
               in \<lparr>hr_exit = 0, hr_stdout = printed, hr_stderr = failed @ err1 @ err2, hr_files = fs\<rparr>))"

end
