(* ===== verification/Claude_Facts.thy ===== *)
theory Claude_Facts
  imports Claude_Compile Claude_Coverage Graph_Queries File_Probe
begin

section \<open>The Claude adapter: what it emits\<close>

text \<open>
  The properties of the compiled stream: it is never empty and wholly attributed to the session of
  the payload; its payloads decode at their kinds; every delegation to a subprocess raises an
  obligation in the store; a read and a write become what the store, the probes and \<open>mark\<close> rely
  on; and the coverage override withholds nothing silently. All of them rest on \<open>built\<close>, the
  description of the envelopes one handler builds.
\<close>

subsection \<open>Envelopes\<close>

type_synonym attribution_of = "string \<times> computation_id option"

fun built :: "compiler \<Rightarrow> nat \<Rightarrow> attribution_of \<Rightarrow> ir_event list \<Rightarrow> bool" where
  "built cp n who [] = True"
| "built cp n who (e # es) =
     (ev_event_id e = cp_ids cp n \<and> ev_ts e = cp_clock cp n \<and> ev_producer e = claude_producer \<and>
      ev_producer_version e = ac_producer_version (cp_config cp) \<and>
      (ev_session_id e, ev_computation_id e) = who \<and> built cp (n + 1) who es)"

definition advanced :: "compiler \<Rightarrow> nat \<Rightarrow> compiler" where
  "advanced cp n = cp\<lparr>cp_made := cp_made cp + n\<rparr>"

definition compiles_to :: "compiler \<Rightarrow> attribution_of \<Rightarrow> ir_event list \<times> compiler \<Rightarrow> bool" where
  "compiles_to cp who r \<longleftrightarrow> built cp (cp_made cp) who (fst r) \<and> snd r = advanced cp (length (fst r))"

lemma advanced_simps [simp]:
  "cp_ids (advanced cp n) = cp_ids cp" "cp_clock (advanced cp n) = cp_clock cp"
  "cp_config (advanced cp n) = cp_config cp" "cp_content (advanced cp n) = cp_content cp"
  "cp_hex (advanced cp n) = cp_hex cp" "cp_made (advanced cp n) = cp_made cp + n"
  "advanced (advanced cp n) m = advanced cp (n + m)" "advanced cp 0 = cp"
  by (simp_all add: advanced_def)

lemma built_advanced [simp]: "built (advanced cp m) n who es = built cp n who es"
  by (induction es arbitrary: n) auto

lemma built_append: "built cp n who (es @ fs) \<longleftrightarrow> built cp n who es \<and> built cp (n + length es) who fs"
  by (induction es arbitrary: n) auto

lemma built_all:
  "built cp n who es \<Longrightarrow> e \<in> set es \<Longrightarrow>
     ev_producer e = claude_producer \<and> ev_producer_version e = ac_producer_version (cp_config cp) \<and>
     ev_session_id e = fst who \<and> ev_computation_id e = snd who"
  by (induction es arbitrary: n) auto

lemma compiler_event_eq:
  "compiler_event cp ctx kind payload causal =
     (\<lparr>ev_event_id = cp_ids cp (cp_made cp), ev_producer = claude_producer,
       ev_producer_version = ac_producer_version (cp_config cp),
       ev_session_id = hc_session_id ctx, ev_computation_id = hc_computation_id ctx,
       ev_parent_id = causal, ev_causal_inputs = map_option (\<lambda>i. [i]) causal,
       ev_ts = cp_clock cp (cp_made cp), ev_kind = kind, ev_payload = payload\<rparr>, advanced cp 1)"
  by (simp add: compiler_event_def advanced_def)

abbreviation who_of :: "hook_ctx \<Rightarrow> attribution_of" where
  "who_of ctx \<equiv> (hc_session_id ctx, hc_computation_id ctx)"

lemma single_compiles [simp]: "compiles_to cp (who_of ctx) (single (compiler_event cp ctx kind payload causal))"
  by (simp add: compiles_to_def single_def compiler_event_eq)

lemma diagnostics_compile: "compiles_to cp (who_of ctx) (compile_diagnostics cp ctx causal ds)"
proof (induction ds arbitrary: cp)
  case (Cons d ds)
  then show ?case
    using Cons.IH[of "advanced cp 1"]
    by (auto simp: compiles_to_def compiler_diagnostic_def compiler_event_eq split_beta)
qed (simp add: compiles_to_def)

lemma diagnostics_shape:
  "e \<in> set (fst (compile_diagnostics cp ctx causal ds)) \<Longrightarrow>
     ev_kind e = Diagnostic \<and> ev_parent_id e = causal \<and> ev_causal_inputs e = map_option (\<lambda>i. [i]) causal"
  by (induction ds arbitrary: cp) (auto simp: compiler_diagnostic_def compiler_event_eq split_beta)

lemma diagnostics_count: "length (fst (compile_diagnostics cp ctx causal ds)) = length ds"
  by (induction ds arbitrary: cp) (auto simp: split_beta)

subsection \<open>The handlers\<close>

definition caused_by_first :: "ir_event list \<Rightarrow> bool" where
  \<comment> \<open>the first event stands for itself, each other one names it as its only cause\<close>
  "caused_by_first es \<longleftrightarrow>
     (case es of
        [] \<Rightarrow> False
      | e # rest \<Rightarrow>
          ev_parent_id e = None \<and> ev_causal_inputs e = None \<and>
          (\<forall>r\<in>set rest. ev_parent_id r = Some (ev_event_id e) \<and> ev_causal_inputs r = Some [ev_event_id e]))"

definition hook_kinds :: "hook_event \<Rightarrow> event_kind set" where
  "hook_kinds h =
     (case h of
        PreToolUse \<Rightarrow> {ToolInvoked, FsRead, FsWrite, Diagnostic}
      | PostToolUse \<Rightarrow> {ToolCompleted, Diagnostic}
      | SessionStart \<Rightarrow> {SessionStarted, ComputationStarted, Diagnostic}
      | SessionEnd \<Rightarrow> {ComputationEnded, SessionEnded}
      | _ \<Rightarrow> {Diagnostic})"

definition handled :: "compiler \<Rightarrow> attribution_of \<Rightarrow> event_kind set \<Rightarrow> ir_event list \<times> compiler \<Rightarrow> bool" where
  "handled cp who kinds r \<longleftrightarrow> compiles_to cp who r \<and> caused_by_first (fst r) \<and> ev_kind ` set (fst r) \<subseteq> kinds"

lemma single_diagnostic_handled:
  "Diagnostic \<in> kinds \<Longrightarrow> handled cp (who_of ctx) kinds (single (compiler_diagnostic cp ctx d None))"
  by (simp add: handled_def compiler_diagnostic_def single_def compiles_to_def compiler_event_eq caused_by_first_def)

lemma synthesize_fs_kind:
  "synthesize_fs hex raw input cwd content = (Some (k, v), ds) \<Longrightarrow>
     k = (if raw \<in> set read_tools then FsRead else FsWrite) \<and> (raw \<in> set read_tools \<or> raw \<in> set write_tools)"
  by (auto simp: synthesize_fs_def synthesize_read_def synthesize_write_def Let_def split_beta
      split: if_splits option.splits sum.splits)

definition hook_input :: "json \<Rightarrow> json" where
  "hook_input payload = (case json_get payload ''tool_input'' of None \<Rightarrow> JNull | Some v \<Rightarrow> v)"

definition invoked_of :: "hook_ctx \<Rightarrow> json \<Rightarrow> string \<Rightarrow> tool_invoked" where
  "invoked_of ctx payload raw =
     (let c = classify_hook_tool raw (hook_input payload)
      in \<lparr>ti_tool_name = cl_tool_name c, ti_tool_kind = cl_tool_kind c, ti_tool_input = hook_input payload,
          ti_cwd = hc_cwd ctx\<rparr>)"

definition fs_of :: "compiler \<Rightarrow> hook_ctx \<Rightarrow> json \<Rightarrow> string \<Rightarrow> (event_kind \<times> json) option" where
  "fs_of cp ctx payload raw = fst (synthesize_fs (cp_hex cp) raw (hook_input payload) (hc_cwd ctx) (cp_content cp))"

lemma pre_tool_use_eq:
  assumes "str_at payload ''tool_name'' = Some raw"
  obtains ds where
    "compile_pre_tool_use cp ctx payload =
       (let e = fst (compiler_event cp ctx ToolInvoked (ser_tool_invoked (invoked_of ctx payload raw)) None);
            fsl = (case fs_of cp ctx payload raw of None \<Rightarrow> []
               | Some (k, v) \<Rightarrow> [fst (compiler_event (advanced cp 1) ctx k v (Some (ev_event_id e)))]);
            r = compile_diagnostics (advanced cp (1 + length fsl)) ctx (Some (ev_event_id e)) ds
        in (e # fsl @ fst r, snd r))"
proof -
  obtain fs fds where s: "synthesize_fs (cp_hex cp) raw (hook_input payload) (hc_cwd ctx) (cp_content cp) = (fs, fds)"
    by fastforce
  let ?pending = "(if json_get payload ''tool_input'' = None
      then [diagnostic_with ''tool_name'' (JStr raw)
        (diagnostic_new MissingRequiredField
          ''PreToolUse payload has no `tool_input`; tool.invoked carries a null input'')]
      else []) @ cl_diagnostics (classify_hook_tool raw (hook_input payload)) @ fds"
  show thesis
    by (rule that[of ?pending], cases fs)
       (auto simp: compile_pre_tool_use_def assms hook_input_def[symmetric] s fs_of_def invoked_of_def Let_def
        split_beta single_def compiler_event_eq simp del: One_nat_def)
qed

lemma pre_tool_use_handled:
  "handled cp (who_of ctx) (hook_kinds PreToolUse) (compile_pre_tool_use cp ctx payload)"
proof (cases "str_at payload ''tool_name''")
  case None
  then show ?thesis by (simp add: compile_pre_tool_use_def single_diagnostic_handled hook_kinds_def)
next
  case (Some raw)
  then obtain ds where eq:
    "compile_pre_tool_use cp ctx payload =
       (let e = fst (compiler_event cp ctx ToolInvoked (ser_tool_invoked (invoked_of ctx payload raw)) None);
            fsl = (case fs_of cp ctx payload raw of None \<Rightarrow> []
               | Some (k, v) \<Rightarrow> [fst (compiler_event (advanced cp 1) ctx k v (Some (ev_event_id e)))]);
            r = compile_diagnostics (advanced cp (1 + length fsl)) ctx (Some (ev_event_id e)) ds
        in (e # fsl @ fst r, snd r))"
    by (rule pre_tool_use_eq)
  have k: "k \<in> {FsRead, FsWrite}" if "fs_of cp ctx payload raw = Some (k, v)" for k v
    using that synthesize_fs_kind[of "cp_hex cp" raw "hook_input payload" "hc_cwd ctx" "cp_content cp" k v]
    by (auto simp: fs_of_def prod_eq_iff)
  show ?thesis
  proof (cases "fs_of cp ctx payload raw")
    case None
    then show ?thesis
      unfolding eq using diagnostics_compile[of "advanced cp 1" ctx] diagnostics_shape
      by (auto simp: Let_def handled_def compiler_event_eq compiles_to_def caused_by_first_def hook_kinds_def
          simp del: One_nat_def)
  next
    case (Some kv)
    then show ?thesis
      unfolding eq using diagnostics_compile[of "advanced cp 2" ctx] diagnostics_shape k
      by (cases kv) (auto simp: Let_def handled_def compiler_event_eq compiles_to_def caused_by_first_def
          hook_kinds_def numeral_2_eq_2)
  qed
qed

lemma post_tool_use_handled:
  "handled cp (who_of ctx) (hook_kinds PostToolUse) (compile_post_tool_use cp ctx payload)"
proof (cases "str_at payload ''tool_name''")
  case None
  then show ?thesis by (simp add: compile_post_tool_use_def single_diagnostic_handled hook_kinds_def)
next
  case (Some raw)
  then show ?thesis
    using diagnostics_compile[of "advanced cp 1" ctx] diagnostics_shape
    by (auto simp: compile_post_tool_use_def Let_def split_beta handled_def compiler_event_eq compiles_to_def
        caused_by_first_def hook_kinds_def simp del: One_nat_def)
qed

lemma session_handled:
  "handled cp (who_of ctx) (hook_kinds SessionStart) (compile_session_start cp ctx payload)"
  "handled cp (who_of ctx) (hook_kinds SessionEnd) (compile_session_end cp ctx payload)"
  by (auto simp: compile_session_start_def compile_session_end_def Let_def split_beta handled_def compiler_event_eq
      compiler_diagnostic_def compiles_to_def caused_by_first_def hook_kinds_def)

lemma hook_event_handled: "handled cp (who_of ctx) (hook_kinds h) (compile_hook_event cp ctx payload h)"
  using pre_tool_use_handled post_tool_use_handled session_handled
  by (cases h) (simp_all add: compile_hook_event_def unmapped_hook_event_def single_diagnostic_handled hook_kinds_def)

subsection \<open>A whole payload\<close>

definition payload_who :: "compiler \<Rightarrow> json \<Rightarrow> attribution_of" where
  \<comment> \<open>the session and the computation a payload is attributed to\<close>
  "payload_who cp payload =
     (case (str_at payload ''hook_event_name'', str_at payload ''session_id'') of
        (Some _, Some s) \<Rightarrow> (s, Some (computation_of cp s))
      | _ \<Rightarrow> (unknown_session_id, None))"

definition payload_hook :: "json \<Rightarrow> hook_event option" where
  \<comment> \<open>the recognised hook event of an attributable payload\<close>
  "payload_hook payload =
     (case (str_at payload ''hook_event_name'', str_at payload ''session_id'') of
        (Some h, Some _) \<Rightarrow> hook_event_parse h
      | _ \<Rightarrow> None)"

definition payload_kinds :: "json \<Rightarrow> event_kind set" where
  "payload_kinds payload = (case payload_hook payload of Some h \<Rightarrow> hook_kinds h | None \<Rightarrow> {Diagnostic})"

lemma str_at_object: "str_at payload k = Some v \<Longrightarrow> as_object payload \<noteq> None"
  by (cases payload) (auto simp: str_at_def)

lemma orphan_handled:
  "Diagnostic \<in> kinds \<Longrightarrow> handled cp (unknown_session_id, None) kinds (single (orphan_diagnostic cp d))"
  using single_diagnostic_handled[of kinds cp "\<lparr>hc_session_id = unknown_session_id, hc_computation_id = None, hc_cwd = None\<rparr>" d]
  by (simp add: orphan_diagnostic_def)

lemma who_of_context: "who_of (context_for cp s payload) = (s, Some (computation_of cp s))"
  by (simp add: context_for_def)

lemma compile_inner_event:
  "payload_hook payload = Some h \<Longrightarrow> str_at payload ''session_id'' = Some s \<Longrightarrow>
     compile_inner cp payload = compile_hook_event cp (context_for cp s payload) payload h"
  by (auto simp: payload_hook_def compile_inner_def dest: str_at_object split: option.splits)

lemma inner_handled: "handled cp (payload_who cp payload) (payload_kinds payload) (compile_inner cp payload)"
proof (cases "payload_hook payload")
  case (Some h)
  then obtain s where s: "str_at payload ''session_id'' = Some s" "payload_who cp payload = (s, Some (computation_of cp s))"
    by (auto simp: payload_hook_def payload_who_def split: option.splits)
  show ?thesis
    using hook_event_handled[of cp "context_for cp s payload" h payload] Some s
    by (simp add: compile_inner_event payload_kinds_def who_of_context)
next
  case None
  show ?thesis
  proof (cases "str_at payload ''hook_event_name'' \<noteq> None \<and> str_at payload ''session_id'' \<noteq> None")
    case True
    then obtain h s where hs: "str_at payload ''hook_event_name'' = Some h" "str_at payload ''session_id'' = Some s"
      by auto
    obtain obj where "as_object payload = Some obj" using str_at_object[OF hs(1)] by blast
    then show ?thesis
      using hs None single_diagnostic_handled[of "{Diagnostic}" cp "context_for cp s payload"]
      by (simp add: compile_inner_def payload_hook_def payload_kinds_def payload_who_def who_of_context)
  next
    case False
    then have "payload_who cp payload = (unknown_session_id, None)"
      by (auto simp: payload_who_def split: option.splits)
    moreover have "\<exists>d. compile_inner cp payload = single (orphan_diagnostic cp d)"
      using False by (auto simp: compile_inner_def Let_def split: option.splits)
    ultimately show ?thesis
      using None orphan_handled[of "{Diagnostic}" cp] by (auto simp: payload_kinds_def)
  qed
qed

definition withheld :: "compiler \<Rightarrow> json \<Rightarrow> ir_event list" where
  "withheld cp payload = filter (\<lambda>ev. kind_suppressed (cp_config cp) (ev_kind ev)) (fst (compile_inner cp payload))"

definition passed :: "compiler \<Rightarrow> json \<Rightarrow> ir_event list" where
  "passed cp payload = filter (\<lambda>ev. \<not> kind_suppressed (cp_config cp) (ev_kind ev)) (fst (compile_inner cp payload))"

lemma inner_config [simp]: "cp_config (snd (compile_inner cp payload)) = cp_config cp"
  using inner_handled[of cp payload] by (simp add: handled_def compiles_to_def)

lemma compile_value_cases:
  obtains (all) "withheld cp payload = []" "compile_value cp payload = compile_inner cp payload"
      "passed cp payload = fst (compile_inner cp payload)"
  | (some) d where "withheld cp payload \<noteq> []"
      "fst (compile_value cp payload) = passed cp payload @ [d]"
      "ev_kind d = Diagnostic" "ev_producer d = claude_producer"
      "ev_producer_version d = ac_producer_version (cp_config cp)"
      "(ev_session_id d, ev_computation_id d) = payload_who cp payload"
      "ev_event_id d = cp_ids cp (cp_made cp + length (fst (compile_inner cp payload)))"
      "str_at (ev_payload d) ''code'' = Some ''coverage-override-suppressed''"
      "json_get (ev_payload d) ''suppressed_count'' = Some (JUInt (of_nat (length (withheld cp payload))))"
proof -
  let ?r = "compile_inner cp payload"
  have r: "snd ?r = advanced cp (length (fst ?r))" "built cp (cp_made cp) (payload_who cp payload) (fst ?r)"
    using inner_handled[of cp payload] by (simp_all add: handled_def compiles_to_def)
  show thesis
  proof (cases "withheld cp payload")
    case Nil
    then have "filter (\<lambda>ev. \<not> kind_suppressed (cp_config cp) (ev_kind ev)) (fst ?r) = fst ?r"
      by (auto simp: withheld_def filter_empty_conv intro!: filter_True)
    with Nil show thesis
      by (intro all) (auto simp: compile_value_def apply_coverage_override_def passed_def withheld_def Let_def split_beta
          simp del: filter.simps intro!: prod_eqI)
  next
    case (Cons e es)
    then have "ac_suppressed_kinds (cp_config cp) \<noteq> []"
      by (auto simp: withheld_def kind_suppressed_def filter_eq_Cons_iff)
    moreover have "e \<in> set (fst ?r)"
      using Cons by (auto simp: withheld_def filter_eq_Cons_iff)
    ultimately show thesis
      using Cons built_all[OF r(2)] r(1)
      by (intro some) (auto simp: compile_value_def apply_coverage_override_def passed_def withheld_def Let_def split_beta
          compiler_diagnostic_def compiler_event_eq diagnostic_to_payload_def diagnostic_with_def diagnostic_new_def
          str_at_def json_get_obj)
  qed
qed

lemma compile_value_all:
  assumes "\<And>e. e \<in> set (fst (compile_inner cp payload)) \<Longrightarrow> \<not> kind_suppressed (cp_config cp) (ev_kind e) \<Longrightarrow> Q e"
    and "\<And>e. ev_kind e = Diagnostic \<Longrightarrow> ev_producer e = claude_producer \<Longrightarrow>
      ev_producer_version e = ac_producer_version (cp_config cp) \<Longrightarrow>
      (ev_session_id e, ev_computation_id e) = payload_who cp payload \<Longrightarrow> Q e"
    and "e \<in> set (fst (compile_value cp payload))"
  shows "Q e"
proof (cases rule: compile_value_cases[of cp payload])
  case all
  then show ?thesis
    using assms(1,3) by (auto simp: withheld_def filter_empty_conv)
next
  case (some d)
  then show ?thesis using assms by (auto simp: passed_def)
qed

lemma value_attributed:
  assumes "e \<in> set (fst (compile_value cp payload))"
  shows "ev_producer e = claude_producer \<and> ev_producer_version e = ac_producer_version (cp_config cp) \<and>
    (ev_session_id e, ev_computation_id e) = payload_who cp payload"
  using assms inner_handled[of cp payload]
  by (elim compile_value_all[rotated 2]) (auto simp: handled_def compiles_to_def dest: built_all)

text \<open>C5: No payload is lost: whatever bytes arrive on standard input, at least one event comes out.
  Each event carries the adapter's name and version; if the input is a JSON object with a hook
  event name and a session identifier, each carries that session and the computation derived from
  it, and else none is attributed to a computation.\<close>

theorem every_payload_is_recorded:
  "let es = fst (compile_str parse cp input);
       who = (case parse input of Inl _ \<Rightarrow> (unknown_session_id, None) | Inr v \<Rightarrow> payload_who cp v)
   in es \<noteq> [] \<and>
      list_all (\<lambda>e. ev_producer e = claude_producer \<and>
        ev_producer_version e = ac_producer_version (cp_config cp) \<and>
        (ev_session_id e, ev_computation_id e) = who) es"
proof (cases "parse input")
  case (Inl err)
  then show ?thesis
    by (simp add: compile_str_def single_def orphan_diagnostic_def compiler_diagnostic_def compiler_event_eq)
next
  case (Inr v)
  have h: "handled cp (payload_who cp v) (payload_kinds v) (compile_inner cp v)" by (rule inner_handled)
  have "fst (compile_value cp v) \<noteq> []"
    using h by (cases rule: compile_value_cases[of cp v]) (auto simp: handled_def caused_by_first_def)
  then show ?thesis
    using Inr value_attributed by (simp add: compile_str_def Let_def list_all_iff)
qed

text \<open>C7: The coverage override withholds nothing silently: no event of a suppressed kind is emitted,
  the events of the other kinds all are, in order, and when at least one was withheld the stream
  ends in one more diagnostic, which says how many. A diagnostic is never withheld.\<close>

theorem override_is_never_silent:
  "let inner = fst (compile_inner cp payload);
       hit = (\<lambda>e. ev_kind e \<noteq> Diagnostic \<and>
                list_ex (\<lambda>p. pattern_matches p (ev_kind e)) (ac_suppressed_kinds (cp_config cp)))
   in \<exists>notice. fst (compile_value cp payload) = filter (\<lambda>e. \<not> hit e) inner @ notice \<and>
        (if filter hit inner = [] then notice = []
         else \<exists>d. notice = [d] \<and> ev_kind d = Diagnostic \<and>
           str_at (ev_payload d) ''code'' = Some ''coverage-override-suppressed'' \<and>
           json_get (ev_payload d) ''suppressed_count'' = Some (JUInt (of_nat (length (filter hit inner)))))"
proof (cases rule: compile_value_cases[of cp payload])
  case all
  then show ?thesis by (simp add: Let_def passed_def withheld_def kind_suppressed_def)
next
  case (some d)
  then show ?thesis
    by (auto simp: Let_def passed_def withheld_def kind_suppressed_def)
qed

subsection \<open>Typed payloads\<close>

definition content_ok :: "content_source \<Rightarrow> bool" where
  \<comment> \<open>what \<open>Hash::new\<close> establishes of the hash a source returns\<close>
  "content_ok content \<longleftrightarrow> (\<forall>path h sz. content path = Some (h, sz) \<longrightarrow> hash_wf h)"

definition hex_ok :: "(string \<Rightarrow> string) \<Rightarrow> bool" where
  \<comment> \<open>a BLAKE3 digest in hexadecimal: 64 lower-case digits\<close>
  "hex_ok hex \<longleftrightarrow> (\<forall>b. hash_wf \<lparr>algo = Blake3, digest_hex = hex b\<rparr>)"

lemma sources_ok: "content_ok no_content" "content_ok (disk_content hex m dk)"
  using disk_content_Some by (auto simp: content_ok_def no_content_def) blast+

definition read_of :: "resolved_path \<Rightarrow> content_source \<Rightarrow> fs_read" where
  "read_of resolved content =
     \<lparr>fr_path = rp_path resolved, fr_size = (case content (rp_path resolved) of None \<Rightarrow> 0 | Some (h, sz) \<Rightarrow> sz),
      fr_hash = map_option fst (content (rp_path resolved)), fr_follow_symlink_target = None,
      fr_raw_path = rp_raw_path resolved, fr_read_kind = DirectRead, fr_impure = False\<rparr>"

definition write_of :: "(string \<Rightarrow> string) \<Rightarrow> string option \<Rightarrow> resolved_path \<Rightarrow> fs_write" where
  "write_of hex content resolved =
     \<lparr>fw_path = rp_path resolved, fw_size = (case content of None \<Rightarrow> 0 | Some c \<Rightarrow> of_nat (length c)),
      fw_hash = map_option (\<lambda>c. \<lparr>algo = Blake3, digest_hex = hex c\<rparr>) content, fw_mode = TruncateMode,
      fw_raw_path = rp_raw_path resolved\<rparr>"

definition write_content :: "string \<Rightarrow> json \<Rightarrow> string option" where
  "write_content raw input = (if raw = ''Write'' then str_at input ''content'' else None)"

lemma synthesize_read_eq:
  "synthesize_read resolved content =
     (FsRead, json_insert ''observation'' (JStr observation_pre_execution_intent)
       (json_insert ''size_observed'' (JBool (content (rp_path resolved) \<noteq> None)) (ser_fs_read (read_of resolved content))))"
  by (cases "content (rp_path resolved)") (auto simp: synthesize_read_def read_of_def)

lemma synthesize_write_eq:
  "fst (synthesize_write hex raw input resolved) =
     (FsWrite, json_insert ''observation'' (JStr observation_pre_execution_intent)
       ((if write_content raw input = None then json_insert ''size_observed'' (JBool False) else (\<lambda>v. v))
         (ser_fs_write (write_of hex (write_content raw input) resolved))))"
  by (cases "write_content raw input") (auto simp: synthesize_write_def write_of_def write_content_def Let_def split_beta)

lemma inserted_decodes:
  assumes "\<exists>m. j = JObj m"
  shows "\<exists>m. json_insert k v j = JObj m"
    and "k \<notin> set (field_names FsRead) \<Longrightarrow> de_fs_read (json_insert k v j) = de_fs_read j"
    and "k \<notin> set (field_names FsWrite) \<Longrightarrow> de_fs_write (json_insert k v j) = de_fs_write j"
    and "k \<notin> set (field_names ToolCompleted) \<Longrightarrow> de_tool_completed (json_insert k v j) = de_tool_completed j"
  using assms decode_ignores_other_fields by auto

lemma read_decodes:
  assumes "content_ok content"
  shows "de_fs_read (snd (synthesize_read resolved content)) = Some (read_of resolved content)"
proof -
  have "payload_wf (FsReadPayload (read_of resolved content))"
    using assms by (auto simp: read_of_def content_ok_def split: option.splits)
  then show ?thesis
    by (simp add: synthesize_read_eq inserted_decodes ser_is_obj de_ser_fs_read field_names_def
        del: json_insert.simps)
qed

lemma write_decodes:
  assumes "hex_ok hex"
  shows "de_fs_write (snd (fst (synthesize_write hex raw input resolved))) =
    Some (write_of hex (write_content raw input) resolved)"
proof -
  have "payload_wf (FsWritePayload (write_of hex (write_content raw input) resolved))"
    using assms by (auto simp: write_of_def hex_ok_def split: option.splits)
  note d = de_ser_fs_write[OF this]
  show ?thesis
    by (cases "write_content raw input")
       (use d in \<open>simp_all add: synthesize_write_eq inserted_decodes ser_is_obj field_names_def
          del: json_insert.simps\<close>)
qed

text \<open>Which file access the store sees of a tool call.\<close>

lemma fs_of_cases:
  assumes "fs_of cp ctx payload raw = Some (k, v)"
  obtains (read) raw_path r where "raw \<in> set read_tools" "k = FsRead"
      "str_at (hook_input payload) (file_path_key raw) = Some raw_path" "resolve_path raw_path (hc_cwd ctx) = Inr r"
      "(k, v) = synthesize_read r (cp_content cp)"
  | (wrote) raw_path r where "raw \<notin> set read_tools" "raw \<in> set write_tools" "k = FsWrite"
      "str_at (hook_input payload) (file_path_key raw) = Some raw_path" "resolve_path raw_path (hc_cwd ctx) = Inr r"
      "(k, v) = fst (synthesize_write (cp_hex cp) raw (hook_input payload) r)"
  using assms
  by (auto simp: fs_of_def synthesize_fs_def Let_def split_beta synthesize_read_eq synthesize_write_eq
      split: if_splits option.splits sum.splits)

definition typed_ok :: "ir_event \<Rightarrow> bool" where
  "typed_ok e \<longleftrightarrow> (case ev_kind e of
      FsRead \<Rightarrow> de_fs_read (ev_payload e) \<noteq> None
    | FsWrite \<Rightarrow> de_fs_write (ev_payload e) \<noteq> None
    | ToolInvoked \<Rightarrow> de_tool_invoked (ev_payload e) \<noteq> None
    | ToolCompleted \<Rightarrow> de_tool_completed (ev_payload e) \<noteq> None
    | _ \<Rightarrow> True)"

definition typed_kinds :: "event_kind set" where
  "typed_kinds = {FsRead, FsWrite, ToolInvoked, ToolCompleted}"

lemma typed_ok_other: "ev_kind e \<notin> typed_kinds \<Longrightarrow> typed_ok e"
  by (cases "ev_kind e") (simp_all add: typed_ok_def typed_kinds_def)

lemma typed_ok_decodes:
  "typed_ok e \<Longrightarrow> ev_kind e \<in> typed_kinds \<Longrightarrow> \<exists>p. decode_payload msg e = Inr p \<and> typed_kind p = ev_kind e"
  by (auto simp: typed_ok_def typed_kinds_def decode_payload_def typed_or_def typed_kind_def)

lemma diagnostics_typed: "e \<in> set (fst (compile_diagnostics cp ctx causal ds)) \<Longrightarrow> typed_ok e"
  by (rule typed_ok_other) (auto dest: diagnostics_shape simp: typed_kinds_def)

lemma diagnostic_typed: "typed_ok (fst (compiler_diagnostic cp ctx d causal))"
  by (rule typed_ok_other) (simp add: compiler_diagnostic_def compiler_event_eq typed_kinds_def)

lemma handler_typed:
  assumes "hex_ok (cp_hex cp)" and "content_ok (cp_content cp)"
    and "e \<in> set (fst (compile_hook_event cp ctx payload h))"
  shows "typed_ok e"
proof -
  have pre: "typed_ok e" if m: "e \<in> set (fst (compile_pre_tool_use cp ctx payload))"
  proof (cases "str_at payload ''tool_name''")
    case None
    then show ?thesis using m by (simp add: compile_pre_tool_use_def single_def diagnostic_typed)
  next
    case (Some raw)
    have fs: "typed_ok (fst (compiler_event cp' ctx k v c))" if "fs_of cp ctx payload raw = Some (k, v)" for cp' k v c
      using that
    proof (cases rule: fs_of_cases)
      case (read raw_path r)
      then show ?thesis
        using read_decodes[OF assms(2), of r] by (cases "synthesize_read r (cp_content cp)") (simp add: typed_ok_def compiler_event_eq)
    next
      case (wrote raw_path r)
      then show ?thesis
        using write_decodes[OF assms(1), of raw "hook_input payload" r]
        by (cases "fst (synthesize_write (cp_hex cp) raw (hook_input payload) r)") (simp add: typed_ok_def compiler_event_eq)
    qed
    have "typed_ok (fst (compiler_event cp ctx ToolInvoked (ser_tool_invoked t) None))" for t
      by (simp add: typed_ok_def compiler_event_eq de_ser_tool_invoked)
    then show ?thesis
      using m fs by (rule_tac pre_tool_use_eq[OF Some, of cp ctx])
        (auto simp: Let_def dest: diagnostics_typed split: option.splits)
  qed
  have post: "typed_ok e" if m: "e \<in> set (fst (compile_post_tool_use cp ctx payload))"
  proof (cases "str_at payload ''tool_name''")
    case None
    then show ?thesis using m by (simp add: compile_post_tool_use_def single_def diagnostic_typed)
  next
    case (Some raw)
    have "de_tool_completed (json_insert ''tool_name'' a (json_insert ''duration_observed'' b (ser_tool_completed t))) = Some t"
      for a b t
      by (simp add: inserted_decodes ser_is_obj de_ser_tool_completed field_names_def del: json_insert.simps)
    then show ?thesis
      using m Some by (auto simp: compile_post_tool_use_def Let_def split_beta compiler_event_eq typed_ok_def
          simp del: json_insert.simps dest: diagnostics_typed)
  qed
  have "ev_kind ` set (fst (compile_hook_event cp ctx payload h)) \<subseteq> hook_kinds h"
    using hook_event_handled[of cp ctx h payload] by (simp add: handled_def)
  then have "ev_kind e \<in> hook_kinds h" using assms(3) by blast
  then show ?thesis
    using pre post assms(3)
    by (cases h) (auto simp: compile_hook_event_def hook_kinds_def typed_kinds_def intro: typed_ok_other)
qed

lemma inner_typed:
  assumes "hex_ok (cp_hex cp)" and "content_ok (cp_content cp)" and "e \<in> set (fst (compile_inner cp payload))"
  shows "typed_ok e"
proof (cases "payload_hook payload")
  case (Some h)
  then obtain s where "str_at payload ''session_id'' = Some s"
    by (auto simp: payload_hook_def split: option.splits)
  then show ?thesis
    using handler_typed[OF assms(1,2)] assms(3) Some by (simp add: compile_inner_event)
next
  case None
  then have "ev_kind e = Diagnostic"
    using inner_handled[of cp payload] assms(3) by (auto simp: handled_def payload_kinds_def)
  then show ?thesis by (simp add: typed_ok_other typed_kinds_def)
qed

text \<open>C6: The compiled stream is well typed: each event of a kind that has a typed payload decodes to
  a payload of that kind. What the code relies on is that BLAKE3 digests are printed as 64
  lower-case hexadecimal digits and that the fingerprint source returns hashes \<open>Hash::new\<close>
  accepts, which both of its sources do.\<close>

theorem emitted_payloads_decode:
  assumes "\<And>b. hash_wf \<lparr>algo = Blake3, digest_hex = cp_hex cp b\<rparr>"
    and "\<And>path h sz. cp_content cp path = Some (h, sz) \<Longrightarrow> hash_wf h"
    and "e \<in> set (fst (compile_str parse cp input))"
    and "ev_kind e \<in> {FsRead, FsWrite, ToolInvoked, ToolCompleted}"
  shows "\<exists>p. decode_payload msg e = Inr p \<and> typed_kind p = ev_kind e"
proof -
  have ok: "hex_ok (cp_hex cp)" "content_ok (cp_content cp)"
    using assms(1,2) by (auto simp: hex_ok_def content_ok_def)
  have "typed_ok e"
  proof (cases "parse input")
    case (Inl err)
    then show ?thesis
      using assms(3) by (simp add: compile_str_def single_def orphan_diagnostic_def diagnostic_typed)
  next
    case (Inr v)
    then have "e \<in> set (fst (compile_value cp v))" using assms(3) by (simp add: compile_str_def)
    then show ?thesis
      by (elim compile_value_all[rotated 2]) (auto intro: inner_typed[OF ok] typed_ok_other simp: typed_kinds_def)
  qed
  then show ?thesis using typed_ok_decodes assms(4) by (simp add: typed_kinds_def)
qed

subsection \<open>Delegations raise obligations\<close>

definition delegating_tools :: "string list" where
  "delegating_tools = [''Bash'', ''Task'', ''Agent'']"

lemma mcp_kind [simp]: "cl_tool_kind (classify_mcp raw) = Mcp"
  by (auto simp: classify_mcp_def split: option.splits)

lemma skill_kind [simp]: "cl_tool_kind (classify_skill raw input) = Skill"
  by (auto simp: classify_skill_def split: option.splits)

lemma delegating_kind:
  "cl_tool_kind (classify_hook_tool raw input) \<in> {Bash, Task} \<longleftrightarrow> raw \<in> set delegating_tools"
  by (auto simp: classify_hook_tool_def tool_name_defs delegating_tools_def starts_with_def)

lemma invoked_spawns:
  "spawns_subprocess (fst (compiler_event cp ctx ToolInvoked (ser_tool_invoked (invoked_of ctx payload raw)) c)) \<longleftrightarrow>
     raw \<in> set delegating_tools"
proof -
  have "str_at (ser_tool_invoked t) ''tool_kind'' = Some (tool_kind_wire (ti_tool_kind t))" for t
    by (simp add: str_at_def ser_tool_invoked_lookup)
  moreover have "tool_kind_wire k \<in> {''bash'', ''task''} \<longleftrightarrow> k \<in> {Bash, Task}" for k
    by (cases k) simp_all
  ultimately show ?thesis
    using delegating_kind[of raw "hook_input payload"]
    by (simp add: spawns_subprocess_def compiler_event_eq invoked_of_def Let_def)
qed

lemma pre_tool_use_spawns:
  assumes "str_at payload ''tool_name'' = Some raw"
  shows "(\<exists>e\<in>set (fst (compile_pre_tool_use cp ctx payload)). spawns_subprocess e) \<longleftrightarrow> raw \<in> set delegating_tools"
proof -
  have fs: "\<not> spawns_subprocess (fst (compiler_event cp' ctx k v c))" if "fs_of cp ctx payload raw = Some (k, v)" for cp' k v c
    using that by (cases rule: fs_of_cases) (simp_all add: spawns_subprocess_def compiler_event_eq)
  have di: "\<not> spawns_subprocess e" if "e \<in> set (fst (compile_diagnostics cp' ctx c ds))" for e cp' c ds
    using diagnostics_shape[OF that] by (simp add: spawns_subprocess_def)
  show ?thesis
    by (rule pre_tool_use_eq[OF assms, of cp ctx])
      (auto simp: Let_def invoked_spawns fs dest: di split: option.splits)
qed

lemma inner_spawns:
  "(\<exists>e\<in>set (fst (compile_inner cp payload)). spawns_subprocess e) \<longleftrightarrow>
     payload_hook payload = Some PreToolUse \<and> (\<exists>raw. str_at payload ''tool_name'' = Some raw \<and> raw \<in> set delegating_tools)"
proof (cases "payload_hook payload = Some PreToolUse")
  case True
  then obtain s where s: "str_at payload ''session_id'' = Some s"
    by (auto simp: payload_hook_def split: option.splits)
  show ?thesis
  proof (cases "str_at payload ''tool_name''")
    case None
    then show ?thesis
      using True s by (simp add: compile_inner_event compile_hook_event_def compile_pre_tool_use_def single_def
          compiler_diagnostic_def compiler_event_eq spawns_subprocess_def)
  next
    case (Some raw)
    then show ?thesis
      using True s pre_tool_use_spawns[OF Some, of cp "context_for cp s payload"]
      by (simp add: compile_inner_event compile_hook_event_def)
  qed
next
  case False
  have "ToolInvoked \<notin> payload_kinds payload"
    using False by (auto simp: payload_kinds_def hook_kinds_def split: option.splits hook_event.splits)
  then have "\<not> spawns_subprocess e" if "e \<in> set (fst (compile_inner cp payload))" for e
    using inner_handled[of cp payload] that by (auto simp: handled_def spawns_subprocess_def)
  with False show ?thesis by blast
qed

lemma value_spawns:
  "(\<exists>e\<in>set (fst (compile_value cp payload)). spawns_subprocess e) \<longleftrightarrow>
     (\<exists>e\<in>set (fst (compile_inner cp payload)). spawns_subprocess e) \<and> \<not> kind_suppressed (cp_config cp) ToolInvoked"
proof (cases rule: compile_value_cases[of cp payload])
  case all
  then show ?thesis
    by (auto simp: withheld_def filter_empty_conv) (auto simp: spawns_subprocess_def)
next
  case (some d)
  then have "\<not> spawns_subprocess d" by (simp add: spawns_subprocess_def)
  with some(2) show ?thesis
    by (auto simp: passed_def) (auto simp: spawns_subprocess_def)
qed

text \<open>A delegation leaves a trace the store keys on: compiling a payload yields an event that
  raises an observation obligation exactly when it is a \<open>PreToolUse\<close> of a session for the tool
  \<open>Bash\<close>, \<open>Task\<close> or \<open>Agent\<close> and the coverage override does not suppress
  \<open>tool.invoked\<close>. So an override of \<open>tool.invoked\<close> makes each delegation invisible to
  the rule that demands an observer.\<close>

theorem delegation_raises_obligation:
  "(\<exists>e\<in>set (fst (compile_value cp payload)). spawns_subprocess e) \<longleftrightarrow>
     str_at payload ''hook_event_name'' = Some ''PreToolUse'' \<and> str_at payload ''session_id'' \<noteq> None \<and>
     (\<exists>raw. str_at payload ''tool_name'' = Some raw \<and> raw \<in> {''Bash'', ''Task'', ''Agent''}) \<and>
     \<not> list_ex (\<lambda>p. pattern_matches p ToolInvoked) (ac_suppressed_kinds (cp_config cp))"
proof -
  have "payload_hook payload = Some PreToolUse \<longleftrightarrow>
      str_at payload ''hook_event_name'' = Some ''PreToolUse'' \<and> str_at payload ''session_id'' \<noteq> None"
    by (auto simp: payload_hook_def hook_event_parse_iff split: option.splits)
  then show ?thesis
    by (simp add: value_spawns inner_spawns kind_suppressed_def delegating_tools_def)
qed

subsection \<open>Reads and writes\<close>

lemma fs_event_emitted:
  assumes "str_at payload ''hook_event_name'' = Some ''PreToolUse''" and "str_at payload ''session_id'' = Some s"
    and "str_at payload ''tool_name'' = Some raw"
    and "fs_of cp (context_for cp s payload) payload raw = Some (k, v)" and "\<not> kind_suppressed (cp_config cp) k"
  shows "\<exists>e\<in>set (fst (compile_value cp payload)). ev_kind e = k \<and> ev_payload e = v \<and>
    ev_computation_id e = Some (computation_of cp s)"
proof -
  let ?ctx = "context_for cp s payload"
  have "payload_hook payload = Some PreToolUse"
    using assms(1,2) by (simp add: payload_hook_def hook_event_parse_def)
  then have i: "compile_inner cp payload = compile_pre_tool_use cp ?ctx payload"
    using assms(2) by (simp add: compile_inner_event compile_hook_event_def)
  obtain c where c: "fst (compiler_event (advanced cp 1) ?ctx k v c) \<in> set (fst (compile_inner cp payload))"
    unfolding i using assms(4) by (rule_tac pre_tool_use_eq[OF assms(3), of cp ?ctx]) (auto simp: Let_def)
  let ?e = "fst (compiler_event (advanced cp 1) ?ctx k v c)"
  have e: "ev_kind ?e = k" "ev_payload ?e = v" "ev_computation_id ?e = Some (computation_of cp s)"
    by (simp_all add: compiler_event_eq context_for_def)
  have "?e \<in> set (fst (compile_value cp payload))"
    using c assms(5) e(1) by (cases rule: compile_value_cases[of cp payload]) (auto simp: passed_def)
  with e show ?thesis by blast
qed

lemma fs_of_read:
  assumes "str_at (hook_input payload) ''file_path'' = Some raw_path" and "resolve_path raw_path (hc_cwd ctx) = Inr r"
  shows "fs_of cp ctx payload ''Read'' = Some (synthesize_read r (cp_content cp))"
  using assms by (simp add: fs_of_def synthesize_fs_def read_tools_def write_tools_def file_path_key_def)

lemma fs_of_write:
  assumes "str_at (hook_input payload) ''file_path'' = Some raw_path" and "resolve_path raw_path (hc_cwd ctx) = Inr r"
  shows "fs_of cp ctx payload ''Write'' = Some (fst (synthesize_write (cp_hex cp) ''Write'' (hook_input payload) r))"
  using assms by (simp add: fs_of_def synthesize_fs_def read_tools_def write_tools_def file_path_key_def split_beta)

lemma read_is_edge:
  assumes "content_ok (cp_content cp)" and "ev_kind e = FsRead"
    and "ev_payload e = snd (synthesize_read r (cp_content cp))" and "cp_content cp (rp_path r) = Some (h, sz)"
    and "\<not> path_in (rp_path r) written"
  shows "classify_read msg e position written artifacts c =
    EdgeOf ((exact_file (rp_path r) h (observed_at (ev_ts e)))
      \<lparr>dep_produced_by := producing_artifact artifacts (rp_path r) position c\<rparr>)"
  using assms(2-5) read_decodes[OF assms(1), of r]
  by (simp add: classify_read_def decode_payload_def typed_or_def read_of_def)

lemma absolute_is_opened: "path_is_absolute p \<Longrightarrow> file_resolve base (''file://'' @ p) = p"
  by (simp add: file_resolve_def)

text \<open>C4: From the hook to the probe: a \<open>Read\<close> of a file the adapter can fingerprint becomes an
  event of the session's computation that the store classifies as a dependency (unless the
  computation wrote that path before), and the file probe, whatever its base directory, confirms
  that dependency exactly when the file at the normalised path then holds bytes with the digest of
  the bytes the adapter read from disk.\<close>

theorem read_is_verified_by_the_probe:
  assumes "str_at payload ''hook_event_name'' = Some ''PreToolUse''" and "str_at payload ''session_id'' = Some s"
    and "str_at payload ''tool_name'' = Some ''Read''" and "json_get payload ''tool_input'' = Some input"
    and "str_at input ''file_path'' = Some raw_path" and "resolve_path raw_path (str_at payload ''cwd'') = Inr r"
    and "path_is_absolute (rp_path r)" and "cp_content cp = disk_content (cp_hex cp) limit dk"
    and "disk_content (cp_hex cp) limit dk (rp_path r) = Some (h, sz)"
    and "\<not> kind_suppressed (cp_config cp) FsRead" and "\<not> path_in (rp_path r) written"
  shows "\<exists>e\<in>set (fst (compile_value cp payload)). \<exists>bytes d.
    ev_kind e = FsRead \<and> ev_computation_id e = Some (computation_of cp s) \<and>
    disk_read dk (rp_path r) = Some bytes \<and>
    classify_read msg e position written artifacts (computation_of cp s) = EdgeOf d \<and>
    (file_check (cp_hex cp) base fs (dep_key d) (dep_fingerprint d) ttl = ProbeMatch (dep_fingerprint d) Exact \<longleftrightarrow>
      (\<exists>now. contents fs (rp_path r) = Some now \<and> cp_hex cp now = cp_hex cp bytes))"
proof -
  have ok: "content_ok (cp_content cp)" by (simp add: assms(8) sources_ok)
  obtain bytes where b: "disk_read dk (rp_path r) = Some bytes" "h = \<lparr>algo = Blake3, digest_hex = cp_hex cp bytes\<rparr>"
      "hash_wf h"
    using disk_content_Some[OF assms(9)] by blast
  have "str_at (hook_input payload) ''file_path'' = Some raw_path"
    using assms(4,5) by (simp add: hook_input_def)
  moreover have "resolve_path raw_path (hc_cwd (context_for cp s payload)) = Inr r"
    using assms(6) by (simp add: context_for_def)
  ultimately have "fs_of cp (context_for cp s payload) payload ''Read'' = Some (synthesize_read r (cp_content cp))"
    by (rule fs_of_read)
  then obtain e where e: "e \<in> set (fst (compile_value cp payload))" "ev_kind e = FsRead"
      "ev_payload e = snd (synthesize_read r (cp_content cp))" "ev_computation_id e = Some (computation_of cp s)"
    using fs_event_emitted[OF assms(1-3), of cp FsRead "snd (synthesize_read r (cp_content cp))"] assms(10)
    by (auto simp: synthesize_read_eq)
  let ?d = "(exact_file (rp_path r) h (observed_at (ev_ts e)))
      \<lparr>dep_produced_by := producing_artifact artifacts (rp_path r) position (computation_of cp s)\<rparr>"
  have "classify_read msg e position written artifacts (computation_of cp s) = EdgeOf ?d"
    by (rule read_is_edge[OF ok e(2,3) _ assms(11)]) (simp add: assms(8,9))
  moreover have "file_check (cp_hex cp) base fs (dep_key ?d) (dep_fingerprint ?d) ttl = ProbeMatch (dep_fingerprint ?d) Exact \<longleftrightarrow>
      (\<exists>now. contents fs (rp_path r) = Some now \<and> cp_hex cp now = cp_hex cp bytes)"
    using b(2,3) absolute_is_opened[OF assms(7), of base]
    by (auto simp: file_match exact_file_def hash_display_def)
  ultimately show ?thesis using e b(1) by blast
qed

subsection \<open>Brackets, causes, names\<close>

lemma payload_hook_iff:
  "payload_hook payload = Some h \<longleftrightarrow>
     str_at payload ''hook_event_name'' = Some (hook_event_as_str h) \<and> str_at payload ''session_id'' \<noteq> None"
  by (auto simp: payload_hook_def hook_event_parse_iff split: option.splits)

lemma value_kind:
  assumes "k \<noteq> Diagnostic"
  shows "k \<in> ev_kind ` set (fst (compile_value cp payload)) \<longleftrightarrow>
    k \<in> ev_kind ` set (fst (compile_inner cp payload)) \<and> \<not> kind_suppressed (cp_config cp) k"
proof (cases rule: compile_value_cases[of cp payload])
  case all
  then show ?thesis by (auto simp: withheld_def filter_empty_conv)
next
  case (some d)
  then show ?thesis using assms by (auto simp: passed_def image_iff)
qed

lemma inner_kind_hook:
  "k \<in> ev_kind ` set (fst (compile_inner cp payload)) \<Longrightarrow> k \<noteq> Diagnostic \<Longrightarrow>
     \<exists>h. payload_hook payload = Some h \<and> k \<in> hook_kinds h"
  using inner_handled[of cp payload] by (auto simp: handled_def payload_kinds_def split: option.splits)

lemma bracket_hooks:
  "ComputationStarted \<in> ev_kind ` set (fst (compile_inner cp payload)) \<Longrightarrow> payload_hook payload = Some SessionStart"
  "ComputationEnded \<in> ev_kind ` set (fst (compile_inner cp payload)) \<Longrightarrow> payload_hook payload = Some SessionEnd"
proof -
  have hooks: "ComputationStarted \<in> hook_kinds h \<longleftrightarrow> h = SessionStart" "ComputationEnded \<in> hook_kinds h \<longleftrightarrow> h = SessionEnd" for h
    by (cases h; simp add: hook_kinds_def)+
  have "\<exists>h. payload_hook payload = Some h \<and> k \<in> hook_kinds h"
    if "k \<in> ev_kind ` set (fst (compile_inner cp payload))" "k \<noteq> Diagnostic" for k
    using inner_kind_hook that by blast
  from this[of ComputationStarted] this[of ComputationEnded] hooks
  show "ComputationStarted \<in> ev_kind ` set (fst (compile_inner cp payload)) \<Longrightarrow> payload_hook payload = Some SessionStart"
    "ComputationEnded \<in> ev_kind ` set (fst (compile_inner cp payload)) \<Longrightarrow> payload_hook payload = Some SessionEnd"
    by fastforce+
qed

lemma session_start_kinds:
  "ComputationStarted \<in> ev_kind ` set (fst (compile_session_start cp ctx payload)) \<longleftrightarrow>
     str_at payload ''source'' = Some ''startup''"
  by (simp add: compile_session_start_def Let_def split_beta compiler_event_eq compiler_diagnostic_def)

lemma session_end_kinds: "ComputationEnded \<in> ev_kind ` set (fst (compile_session_end cp ctx payload))"
  by (simp add: compile_session_end_def Let_def split_beta compiler_event_eq)

text \<open>The brackets of a computation: a payload opens the computation of its session exactly when it
  is a \<open>SessionStart\<close> whose source is \<open>startup\<close>, and closes it exactly when it is a
  \<open>SessionEnd\<close>, whatever the reason, unless the override suppresses that kind. So a session
  that was resumed is closed without having been opened again.\<close>

theorem computation_brackets:
  "(ComputationStarted \<in> ev_kind ` set (fst (compile_value cp payload)) \<longleftrightarrow>
      str_at payload ''hook_event_name'' = Some ''SessionStart'' \<and> str_at payload ''session_id'' \<noteq> None \<and>
      str_at payload ''source'' = Some ''startup'' \<and>
      \<not> list_ex (\<lambda>p. pattern_matches p ComputationStarted) (ac_suppressed_kinds (cp_config cp))) \<and>
   (ComputationEnded \<in> ev_kind ` set (fst (compile_value cp payload)) \<longleftrightarrow>
      str_at payload ''hook_event_name'' = Some ''SessionEnd'' \<and> str_at payload ''session_id'' \<noteq> None \<and>
      \<not> list_ex (\<lambda>p. pattern_matches p ComputationEnded) (ac_suppressed_kinds (cp_config cp)))"
proof -
  have "ComputationStarted \<in> ev_kind ` set (fst (compile_inner cp payload)) \<longleftrightarrow>
      payload_hook payload = Some SessionStart \<and> str_at payload ''source'' = Some ''startup''"
  proof (cases "payload_hook payload = Some SessionStart")
    case True
    moreover from this obtain s where "str_at payload ''session_id'' = Some s" by (auto simp: payload_hook_iff)
    ultimately show ?thesis
      using session_start_kinds by (simp add: compile_inner_event compile_hook_event_def)
  qed (use bracket_hooks(1) in metis)
  moreover have "ComputationEnded \<in> ev_kind ` set (fst (compile_inner cp payload)) \<longleftrightarrow>
      payload_hook payload = Some SessionEnd"
  proof (cases "payload_hook payload = Some SessionEnd")
    case True
    moreover from this obtain s where "str_at payload ''session_id'' = Some s" by (auto simp: payload_hook_iff)
    ultimately show ?thesis
      using session_end_kinds by (simp add: compile_inner_event compile_hook_event_def)
  qed (use bracket_hooks(2) in metis)
  moreover have "kind_suppressed (cp_config cp) k \<longleftrightarrow>
      list_ex (\<lambda>p. pattern_matches p k) (ac_suppressed_kinds (cp_config cp))" if "k \<noteq> Diagnostic" for k
    using that by (simp add: kind_suppressed_def)
  ultimately show ?thesis
    using value_kind[of ComputationStarted cp payload] value_kind[of ComputationEnded cp payload]
    unfolding payload_hook_iff by simp
qed

text \<open>Within one payload, causes point to the first event: it has none, and each other event
  compiled from the payload names it as its parent and as its only causal input.\<close>

theorem causes_point_to_the_first_event:
  "case fst (compile_inner cp payload) of
     [] \<Rightarrow> False
   | e # rest \<Rightarrow>
       ev_parent_id e = None \<and> ev_causal_inputs e = None \<and>
       list_all (\<lambda>r. ev_parent_id r = Some (ev_event_id e) \<and> ev_causal_inputs r = Some [ev_event_id e]) rest"
  using inner_handled[of cp payload]
  by (auto simp: handled_def caused_by_first_def list_all_iff split: list.splits)

lemma skill_name_differs: "''skill/'' @ n \<noteq> ''Skill''"
  by simp

lemma classified_names:
  "cl_tool_name (classify_hook_tool raw input) = cl_tool_name (classify_hook_tool raw JNull) \<longleftrightarrow>
     \<not> (raw = ''Skill'' \<and> skill_name_from_input input \<noteq> None)"
proof -
  have "skill_name_from_input JNull = None"
    by (simp add: skill_name_from_input_def skill_name_keys_def str_at_def)
  then show ?thesis
    by (auto simp: classify_hook_tool_def classify_skill_def tool_name_defs starts_with_def split: option.splits)
qed

text \<open>A consumer that pairs invocations and completions by tool name finds them for each tool but
  a named skill: for the same runtime tool name, \<open>tool.completed\<close> carries the name of
  \<open>tool.invoked\<close> unless the tool is \<open>Skill\<close> and its input names the skill, since the
  completion is normalised without the input.\<close>

theorem completion_is_named_like_invocation:
  assumes "str_at pre ''tool_name'' = Some raw" and "str_at post ''tool_name'' = Some raw"
  shows "str_at (ev_payload (hd (fst (compile_pre_tool_use cp ctx pre)))) ''tool_name'' =
      str_at (ev_payload (hd (fst (compile_post_tool_use cp' ctx' post)))) ''tool_name'' \<longleftrightarrow>
    \<not> (raw = ''Skill'' \<and>
       skill_name_from_input (case json_get pre ''tool_input'' of None \<Rightarrow> JNull | Some v \<Rightarrow> v) \<noteq> None)"
proof -
  have "ev_payload (hd (fst (compile_pre_tool_use cp ctx pre))) = ser_tool_invoked (invoked_of ctx pre raw)"
    by (rule pre_tool_use_eq[OF assms(1), of cp ctx]) (simp add: Let_def compiler_event_eq)
  then have "str_at (ev_payload (hd (fst (compile_pre_tool_use cp ctx pre)))) ''tool_name'' =
      Some (cl_tool_name (classify_hook_tool raw (hook_input pre)))"
    by (simp add: str_at_def ser_tool_invoked_lookup invoked_of_def Let_def)
  moreover have "str_at (ev_payload (hd (fst (compile_post_tool_use cp' ctx' post)))) ''tool_name'' =
      Some (cl_tool_name (classify_hook_tool raw JNull))"
  proof -
    obtain b t where p: "ev_payload (hd (fst (compile_post_tool_use cp' ctx' post))) =
        json_insert ''tool_name'' (JStr (cl_tool_name (classify_hook_tool raw JNull)))
          (json_insert ''duration_observed'' b (ser_tool_completed t))"
      by (simp add: compile_post_tool_use_def assms(2) Let_def split_beta compiler_event_eq del: json_insert.simps)
    obtain m where "json_insert ''duration_observed'' b (ser_tool_completed t) = JObj m"
      using inserted_decodes(1) ser_is_obj(4) by blast
    then show ?thesis by (simp add: p str_at_def)
  qed
  ultimately show ?thesis
    using classified_names[of raw "hook_input pre"] by (simp add: hook_input_def)
qed

text \<open>A hook event the adapter does not recognise, such as the one the runtime sends for a failed
  tool call, leaves exactly one event of the session: a diagnostic of severity \<open>warning\<close>.\<close>

theorem unknown_hook_is_a_warning:
  assumes "str_at payload ''hook_event_name'' = Some n" and "str_at payload ''session_id'' = Some s"
    and "n \<notin> hook_event_as_str ` set hook_event_all"
  shows "\<exists>e. fst (compile_value cp payload) = [e] \<and> ev_kind e = Diagnostic \<and> ev_session_id e = s \<and>
    str_at (ev_payload e) ''code'' = Some ''unknown-hook-event'' \<and>
    str_at (ev_payload e) ''severity'' = Some ''warning'' \<and> str_at (ev_payload e) ''hook_event'' = Some n"
proof -
  have h: "hook_event_parse n = None"
    using assms(3) by (cases "hook_event_parse n") (auto simp: hook_event_parse_iff hook_event_all_set)
  obtain obj where "as_object payload = Some obj" using str_at_object[OF assms(1)] by blast
  then obtain d where d: "compile_inner cp payload =
      single (compiler_diagnostic cp (context_for cp s payload)
        (diagnostic_with ''payload_keys'' (payload_keys payload) (diagnostic_with ''hook_event'' (JStr n)
          (diagnostic_new UnknownHookEvent d))) None)"
    using assms(1,2) h by (simp add: compile_inner_def Let_def)
  have "withheld cp payload = []"
    by (simp add: withheld_def d single_def compiler_diagnostic_def compiler_event_eq kind_suppressed_def)
  then have "compile_value cp payload = compile_inner cp payload"
    by (cases rule: compile_value_cases[of cp payload]) simp_all
  then show ?thesis
    by (simp add: d single_def compiler_diagnostic_def compiler_event_eq context_for_def diagnostic_to_payload_def
        diagnostic_with_def diagnostic_new_def str_at_def json_get_obj)
qed

subsection \<open>Concrete payloads\<close>

definition zero_hex :: "string \<Rightarrow> string" where
  "zero_hex b = replicate 64 (CHR ''0'')"

definition small_disk :: disk where
  "small_disk = \<lparr>disk_metadata = (\<lambda>p. if p = ''/r/a'' then Some (True, 1) else None),
     disk_read = (\<lambda>p. if p = ''/r/a'' then Some ''x'' else None)\<rparr>"

definition small_compiler :: compiler where
  "small_compiler = compiler_production zero_hex (\<lambda>n. int n) (\<lambda>n. of_nat n) small_disk adapter_config_new"

definition read_payload :: json where
  "read_payload = JObj [(''cwd'', JStr ''/r''), (''hook_event_name'', JStr ''PreToolUse''),
     (''session_id'', JStr ''s''), (''tool_input'', JObj [(''file_path'', JStr ''b/../a'')]),
     (''tool_name'', JStr ''Read'')]"

definition failure_payload :: json where
  "failure_payload = JObj [(''hook_event_name'', JStr ''PostToolUseFailure''), (''session_id'', JStr ''s'')]"

lemma zero_hex_wf: "hash_wf \<lparr>algo = Blake3, digest_hex = zero_hex b\<rparr>"
  using zero_hash_wf by (simp add: zero_hash_def zero_hex_def)

lemma small_content: "cp_content small_compiler = disk_content (cp_hex small_compiler) default_max_hash_bytes small_disk"
  and small_hex: "cp_hex small_compiler = zero_hex"
  and small_unsuppressed: "\<not> kind_suppressed (cp_config small_compiler) k"
  by (simp_all add: small_compiler_def compiler_production_def with_content_def compiler_new_def adapter_config_new_def
      kind_suppressed_def)

lemma small_read: "disk_read small_disk ''/r/a'' = Some ''x''"
  by (simp add: small_disk_def)

lemma small_resolve: "resolve_path ''b/../a'' (Some ''/r'') = Inr \<lparr>rp_path = ''/r/a'', rp_raw_path = Some ''b/../a''\<rparr>"
  by code_simp

lemma small_fingerprint:
  "disk_content (cp_hex small_compiler) default_max_hash_bytes small_disk ''/r/a'' =
     Some (\<lparr>algo = Blake3, digest_hex = zero_hex ''x''\<rparr>, 1)"
proof -
  have "hash_new Blake3 (zero_hex b) = Inr \<lparr>algo = Blake3, digest_hex = zero_hex b\<rparr>" for b
    using zero_hex_wf by (simp add: hash_new_Inr)
  then show ?thesis
    by (simp add: disk_content_def small_disk_def small_hex default_max_hash_bytes_def)
qed

theorem payload_roundtrip_witness:
  "decode_payload (\<lambda>_ _. []) (\<lparr>ev_event_id = 1, ev_producer = ''p'', ev_producer_version = ''1'', ev_session_id = ''s'',
      ev_computation_id = None, ev_parent_id = None, ev_causal_inputs = None, ev_ts = 0, ev_kind = FsWrite,
      ev_payload = ser_fs_write (write_of zero_hex (Some ''x'') \<lparr>rp_path = ''/a'', rp_raw_path = None\<rparr>)\<rparr>) =
   Inr (FsWritePayload (write_of zero_hex (Some ''x'') \<lparr>rp_path = ''/a'', rp_raw_path = None\<rparr>))"
  by (rule payload_roundtrip) (simp_all add: write_of_def zero_hex_wf typed_kind_def)

theorem normalize_canonical_witness:
  "lexically_normalize ''/a/./b/../../../c'' = ''/c'' \<and>
   lexically_normalize ''/a/./b/../../../c'' = lexically_normalize ''/a//b/../../../c/'' \<and>
   list_all path_name (snd (path_components (lexically_normalize ''/a/./b/../../../c'')))"
proof -
  have "path_eq ''/a/./b/../../../c'' ''/a//b/../../../c/''" "path_is_absolute ''/a/./b/../../../c''"
    by code_simp+
  then show ?thesis
    using normalize_canonical[of "''/a/./b/../../../c''" "''/a//b/../../../c/''"] by (intro conjI) (code_simp, blast+)
qed

theorem emitted_payloads_decode_witness:
  "\<exists>p. decode_payload (\<lambda>_ _. []) (hd (fst (compile_str (\<lambda>_. Inr read_payload) small_compiler []))) = Inr p \<and>
     typed_kind p = ToolInvoked"
proof -
  let ?es = "fst (compile_str (\<lambda>_. Inr read_payload) small_compiler [])"
  have ok: "hash_wf h" if "cp_content small_compiler path = Some (h, sz)" for path h sz
    using that sources_ok(2) unfolding small_content content_ok_def by blast
  let ?ctx = "context_for small_compiler ''s'' read_payload"
  have "ac_suppressed_kinds (cp_config small_compiler) = []"
    by (simp add: small_compiler_def compiler_production_def with_content_def compiler_new_def adapter_config_new_def)
  moreover have "compile_inner small_compiler read_payload = compile_pre_tool_use small_compiler ?ctx read_payload"
    by (subst compile_inner_event[of _ PreToolUse])
       (simp_all add: payload_hook_iff read_payload_def str_at_def compile_hook_event_def)
  ultimately have i: "?es = fst (compile_pre_tool_use small_compiler ?ctx read_payload)"
    using inner_config[of small_compiler read_payload]
    by (simp add: compile_str_def compile_value_def split_beta apply_coverage_override_def)
  have "str_at read_payload ''tool_name'' = Some ''Read''" by (simp add: read_payload_def str_at_def)
  then have "?es \<noteq> [] \<and> ev_kind (hd ?es) = ToolInvoked"
    unfolding i by (rule pre_tool_use_eq[of _ _ small_compiler ?ctx]) (simp add: Let_def compiler_event_eq)
  then show ?thesis
    using emitted_payloads_decode[of small_compiler "hd ?es" "\<lambda>_. Inr read_payload" "[]" "\<lambda>_ _. []", OF _ ok]
      zero_hex_wf by (simp add: small_hex)
qed

theorem read_is_verified_by_the_probe_witness:
  "\<exists>e\<in>set (fst (compile_value small_compiler read_payload)). \<exists>d.
     ev_kind e = FsRead \<and> classify_read (\<lambda>_ _. []) e 0 [] [] (computation_of small_compiler ''s'') = EdgeOf d \<and>
     file_check zero_hex ''/elsewhere'' (\<lambda>p. if p = ''/r/a'' then Inr [Inr ''x''] else Inr []) (dep_key d)
       (dep_fingerprint d) None = ProbeMatch (dep_fingerprint d) Exact"
proof -
  have "contents (\<lambda>p. if p = ''/r/a'' then Inr [Inr ''x''] else Inr []) ''/r/a'' = Some ''x''"
    by (simp add: contents_def)
  then show ?thesis
    using read_is_verified_by_the_probe[of read_payload "''s''" "JObj [(''file_path'', JStr ''b/../a'')]" "''b/../a''"
        "\<lparr>rp_path = ''/r/a'', rp_raw_path = Some ''b/../a''\<rparr>" small_compiler default_max_hash_bytes small_disk
        "\<lparr>algo = Blake3, digest_hex = zero_hex ''x''\<rparr>" 1 "[]" "\<lambda>_ _. []" 0 "[]" "''/elsewhere''"
        "\<lambda>p. if p = ''/r/a'' then Inr [Inr ''x''] else Inr []" None]
      small_resolve small_fingerprint small_content small_unsuppressed
    by (auto simp: read_payload_def str_at_def path_is_absolute_def starts_with_def path_in_def small_hex
        small_read)
qed

theorem completion_is_named_like_invocation_witness:
  "str_at (ev_payload (hd (fst (compile_pre_tool_use small_compiler
       (context_for small_compiler ''s'' read_payload) read_payload)))) ''tool_name'' =
   str_at (ev_payload (hd (fst (compile_post_tool_use small_compiler
       (context_for small_compiler ''s'' read_payload) read_payload)))) ''tool_name''"
  using completion_is_named_like_invocation[of read_payload "''Read''" read_payload small_compiler
      "context_for small_compiler ''s'' read_payload" small_compiler "context_for small_compiler ''s'' read_payload"]
  by (simp add: read_payload_def str_at_def)

theorem unknown_hook_is_a_warning_witness:
  "\<exists>e. fst (compile_value small_compiler failure_payload) = [e] \<and>
     str_at (ev_payload e) ''severity'' = Some ''warning''"
proof -
  have "''PostToolUseFailure'' \<notin> hook_event_as_str ` set hook_event_all"
    by (simp add: hook_event_all_def)
  then show ?thesis
    using unknown_hook_is_a_warning[of failure_payload "''PostToolUseFailure''" "''s''" small_compiler]
    by (auto simp: failure_payload_def str_at_def)
qed

end
