(* ===== verification/Claude_Hook_Facts.thy ===== *)
theory Claude_Hook_Facts
  imports Claude_Hook Claude_Facts Log_Facts "HOL-Library.Sublist"
begin

section \<open>The Claude adapter: what the hook binary leaves behind\<close>

text \<open>
  The sink never takes a byte away and accounts for each event; what it writes, the store's strict
  reader returns; its stream keeps the cap; and of the whole binary: all it does to any file is to
  append, past the capped stream only the record of a drop, it keeps standard output clean, and the manifest it publishes is the first one, not the narrowed
  one.
\<close>

subsection \<open>The sink\<close>

definition accounts :: "nat \<Rightarrow> claude_outcome \<Rightarrow> string \<Rightarrow> claude_outcome \<Rightarrow> string \<Rightarrow> bool" where
  "accounts n out bytes out' bytes' \<longleftrightarrow> (\<exists>added. bytes' = bytes @ added) \<and>
     co_written out' + co_dropped out' = co_written out + co_dropped out + n"

lemma accounts_step:
  "accounts n out1 (bytes @ s) out' bytes' \<Longrightarrow> co_written out1 + co_dropped out1 = co_written out + co_dropped out + 1 \<Longrightarrow>
     accounts (Suc n) out bytes out' bytes'"
  by (auto simp: accounts_def)

lemma write_events_accounts:
  "write_events w m target n es sz out bytes = (out', bytes') \<Longrightarrow> accounts (length es) out bytes out' bytes'"
proof (induction w m target n es sz out bytes rule: write_events.induct)
  case (2 w m target n e rest sz out bytes)
  show ?case
  proof (cases "sw_ser w e")
    case (Inl err)
    then have l: "serialize_line w e out = (None, out\<lparr>co_errors := co_errors out @
                [''event '' @ sw_id_text w (ev_event_id e) @ '' failed to serialize: '' @ err],
              co_dropped := co_dropped out + 1\<rparr>)"
      by (simp add: serialize_line_def)
    show ?thesis
      using 2(1)[OF l[symmetric] refl] 2(5) by (simp add: l) (rule accounts_step[of _ _ _ "[]"], auto)
  next
    case (Inr line)
    then have l: "serialize_line w e out = (Some line, out)" by (simp add: serialize_line_def)
    show ?thesis
    proof (cases "sat_add64 sz (of_nat (length line)) > sat_sub64 m claude_reserve_bytes")
      case True
      show ?thesis
        using 2(2)[OF l[symmetric] refl refl] True 2(5) by (simp add: l) (rule accounts_step[of _ _ _ "[]"], auto)
    next
      case False
      show ?thesis
      proof (cases "sw_fate w n")
        case LineWritten
        then show ?thesis
          using 2(3)[OF l[symmetric] refl refl False LineWritten] 2(5) False
          by (simp add: l Let_def) (rule accounts_step[of _ _ _ "line @ [newline]"], auto)
      next
        case (LineTorn err k)
        then show ?thesis
          using 2(4)[OF l[symmetric] refl refl False LineTorn] 2(5) False
          by (simp add: l Let_def) (rule accounts_step[of _ _ _ "take k (line @ [newline])"], auto)
      qed
    qed
  qed
qed (simp add: accounts_def)

definition persisted :: "sink_world \<Rightarrow> ir_event list \<Rightarrow> nat \<Rightarrow> string \<Rightarrow> nat \<Rightarrow> string \<Rightarrow> bool" where
  \<comment> \<open>the file grew by the complete records of a subsequence of the events\<close>
  "persisted w es n old n' new \<longleftrightarrow>
     (\<exists>kept bodies. subseq kept es \<and> map (sw_ser w) kept = map Inr bodies \<and>
        new = old @ lines_of bodies \<and> n' = n + length kept)"

lemma persisted_Nil [simp]: "persisted w [] n old n' new \<longleftrightarrow> n' = n \<and> new = old"
  unfolding persisted_def by (auto simp: lines_of_def dest!: list_emb_Nil2)

lemma persisted_skip: "persisted w es n old n' new \<Longrightarrow> persisted w (e # es) n old n' new"
  unfolding persisted_def by (elim exE conjE, rule_tac x = kept in exI, rule_tac x = bodies in exI)
     (auto intro: list_emb_Cons)

lemma persisted_take:
  "persisted w es (n + 1) (old @ b @ [newline]) n' new \<Longrightarrow> sw_ser w e = Inr b \<Longrightarrow> persisted w (e # es) n old n' new"
  unfolding persisted_def
  by (elim exE conjE, rule_tac x = "e # kept" in exI, rule_tac x = "b # bodies" in exI) (simp add: lines_of_def)

lemma write_events_kept:
  assumes "\<And>i. sw_fate w i = LineWritten"
  shows "write_events w m target n es sz out bytes = (out', bytes') \<Longrightarrow>
     persisted w es (co_written out) bytes (co_written out') bytes'"
  using assms
proof (induction w m target n es sz out bytes rule: write_events.induct)
  case (2 w m target n e rest sz out bytes)
  show ?case
  proof (cases "sw_ser w e")
    case (Inl err)
    then show ?thesis using 2 by (intro persisted_skip) (fastforce simp: serialize_line_def)
  next
    case (Inr line)
    show ?thesis
    proof (cases "sat_add64 sz (of_nat (length line)) > sat_sub64 m claude_reserve_bytes")
      case True
      then show ?thesis using 2 Inr by (intro persisted_skip) (fastforce simp: serialize_line_def)
    next
      case False
      then show ?thesis
        using 2 Inr by (intro persisted_take[OF _ Inr]) (fastforce simp: serialize_line_def Let_def)
    qed
  qed
qed simp

lemma log_holds_append:
  assumes "codec_ok ser parse" and "log_holds parse es raw" and "map ser kept = map Inr bodies"
  shows "log_holds parse (es @ kept) (raw @ lines_of bodies)"
  using assms(2,3)
proof (induction kept arbitrary: es raw bodies)
  case (Cons e kept)
  then obtain b bs where b: "bodies = b # bs" "ser e = Inr b" "map ser kept = map Inr bs"
    by (cases bodies) auto
  then have "newline \<notin> set b" "parse b = Inr e" using assms(1) by (auto simp: codec_ok_def)
  then have "log_holds parse (es @ [e]) (raw @ b @ [newline])"
    using log_holds_snoc Cons.prems(1) by blast
  from Cons.IH[OF this b(3)] show ?case by (simp add: b(1) lines_of_def)
qed (simp add: lines_of_def)

definition first_open :: "sink_world \<Rightarrow> claude_sink \<Rightarrow> string option" where
  \<comment> \<open>the target: the first candidate that opens\<close>
  "first_open w sk = find (\<lambda>p. sw_open w p = None) [cs_path sk, buffer_path sk, fallback_buffer_path w sk]"

lemma open_target_first:
  "fst (open_target w sk out) = first_open w sk"
  "co_written (snd (open_target w sk out)) = co_written out" "co_dropped (snd (open_target w sk out)) = co_dropped out"
  by (auto simp: open_target_def first_open_def split: option.splits)

definition grown :: "files \<Rightarrow> files \<Rightarrow> bool" where
  \<comment> \<open>each file is as before, or holds its old bytes and perhaps more\<close>
  "grown fs fs' \<longleftrightarrow> (\<forall>p. fs' p = fs p \<or> (\<exists>added. fs' p = Some (file_bytes_of fs p @ added)))"

lemma grown_refl [simp]: "grown fs fs"
  by (simp add: grown_def)

lemma grown_append: "grown fs (fs(p := Some (file_bytes_of fs p @ added)))"
  by (simp add: grown_def)

lemma grown_trans:
  assumes "grown a b" and "grown b c"
  shows "grown a c"
  unfolding grown_def
proof
  fix p
  have "b p = a p \<or> (\<exists>x. b p = Some (file_bytes_of a p @ x))" and "c p = b p \<or> (\<exists>y. c p = Some (file_bytes_of b p @ y))"
    using assms by (auto simp: grown_def)
  then show "c p = a p \<or> (\<exists>z. c p = Some (file_bytes_of a p @ z))"
    by (auto simp: file_bytes_of_def)
qed

lemma write_all_outcome:
  assumes "claude_write_all w sk events fs = (out, fs')"
  shows "co_written out + co_dropped out = length events \<and>
    (case first_open w sk of
       None \<Rightarrow> fs' = fs \<and> co_written out = 0
     | Some target \<Rightarrow> fs' = fs \<or> (\<exists>added. fs' = fs(target := Some (file_bytes_of fs target @ added))))"
proof (cases "events = []")
  case True
  then show ?thesis using assms by (auto simp: claude_write_all_def claude_outcome_default_def split: option.splits)
next
  case False
  obtain t out0 where o: "open_target w sk claude_outcome_default = (t, out0)" by fastforce
  have t: "t = first_open w sk" "co_written out0 = 0" "co_dropped out0 = 0"
    using open_target_first[of w sk claude_outcome_default, unfolded o] by (simp_all add: claude_outcome_default_def)
  show ?thesis
  proof (cases t)
    case None
    then show ?thesis
      using assms False t by (auto simp: claude_write_all_def o)
  next
    case (Some target)
    obtain out1 bytes where r: "write_events w (cs_max_bytes sk) target 0 events (file_len w fs target) out0
        (file_bytes_of fs target) = (out1, bytes)" by fastforce
    have "accounts (length events) out0 (file_bytes_of fs target) out1 bytes"
      by (rule write_events_accounts[OF r])
    then show ?thesis
      using assms False t Some
      by (auto simp: claude_write_all_def o r accounts_def split: option.splits)
  qed
qed

text \<open>The sink accounts for each event and never rewrites: whatever opens fail and writes tear,
  the events written and the events dropped add up, each file keeps the bytes it had, and at most
  one file grew, the first of the sink, its sibling buffer and the temporary buffer that opens. If
  none opens, nothing is written and everything is dropped.\<close>

theorem sink_accounts_and_appends:
  assumes "claude_write_all w sk events fs = (out, fs')"
  shows "co_written out + co_dropped out = length events \<and>
    (case find (\<lambda>p. sw_open w p = None) [cs_path sk, buffer_path sk, fallback_buffer_path w sk] of
       None \<Rightarrow> fs' = fs \<and> co_written out = 0
     | Some target \<Rightarrow> fs' = fs \<or> (\<exists>added. fs' = fs(target := Some (file_bytes_of fs target @ added))))"
  by (rule write_all_outcome[OF assms, unfolded first_open_def])

text \<open>C10: What the adapter writes, the store reads: when the target holds a readable log and no write
  tears, the file afterwards reads strictly as the old events followed by the events written, a
  subsequence of the stream, in order.\<close>

theorem sink_output_is_readable:
  assumes "claude_write_all w sk events fs = (out, fs')" and "codec_ok (sw_ser w) parse"
    and "sw_open w (cs_path sk) = None" and "\<And>i. sw_fate w i = LineWritten"
    and "read_log parse path (ReadBytes (case fs (cs_path sk) of None \<Rightarrow> [] | Some b \<Rightarrow> b)) = Inr old"
  shows "\<exists>written. subseq written events \<and> length written = co_written out \<and>
    read_log parse path (ReadBytes (case fs' (cs_path sk) of None \<Rightarrow> [] | Some b \<Rightarrow> b)) = Inr (old @ written)"
proof (cases "events = []")
  case True
  then show ?thesis
    using assms by (auto simp: claude_write_all_def claude_outcome_default_def)
next
  case False
  let ?t = "cs_path sk"
  have o: "open_target w sk claude_outcome_default = (Some ?t, claude_outcome_default)"
    using assms(3) by (simp add: open_target_def)
  obtain out1 bytes where r: "write_events w (cs_max_bytes sk) ?t 0 events (file_len w fs ?t) claude_outcome_default
      (file_bytes_of fs ?t) = (out1, bytes)" by fastforce
  obtain written bodies where k: "subseq written events" "map (sw_ser w) written = map Inr bodies"
      "bytes = file_bytes_of fs ?t @ lines_of bodies" "co_written out1 = length written"
    using write_events_kept[OF assms(4) r] by (auto simp: persisted_def claude_outcome_default_def)
  have res: "co_written out = co_written out1" "fs' ?t = Some bytes"
    using assms(1) False by (auto simp: claude_write_all_def o r split: option.splits)
  have "log_holds parse old (file_bytes_of fs ?t)"
    using assms(5) by (simp add: read_iff_holds file_bytes_of_def)
  from log_holds_append[OF assms(2) this k(2)] show ?thesis
    using k res by (auto simp: read_iff_holds)
qed

subsection \<open>The cap\<close>

lemma sat_add64_le:
  assumes "sat_add64 a b \<le> c" and "c < - 1"
  shows "unat a + unat b \<le> unat c"
proof -
  have n: "\<not> a + b < a" using assms by (auto simp: sat_add64_def)
  then have "unat (a + b) = unat a + unat b"
    using unat_plus_simple[of a b] by (simp add: not_less)
  then show ?thesis using assms n by (simp add: sat_add64_def word_le_nat_alt)
qed

lemma unat_max64: "unat (- 1 :: u64) = 2 ^ 64 - 1"
  by (simp add: unsigned_minus_1_eq_mask mask_eq_exp_minus_1)

definition sink_limit :: "u64 \<Rightarrow> u64" where
  "sink_limit m = sat_sub64 m claude_reserve_bytes"

lemma sink_limit_unat: "unat (sink_limit m) = unat m - 8192" and sink_limit_less: "sink_limit m < - 1"
proof -
  have r: "claude_reserve_bytes = 8192" by (simp add: claude_reserve_bytes_def)
  show l: "unat (sink_limit m) = unat m - 8192"
    by (auto simp: sink_limit_def sat_sub64_def r word_less_nat_alt unat_sub_if_size)
  have "unat m < 2 ^ 64" using unsigned_less[of m, where ?'a = nat] by simp
  then have "unat (sink_limit m) < unat (- 1 :: u64)" unfolding l unat_max64 by simp
  then show "sink_limit m < - 1" by (simp add: word_less_nat_alt)
qed

lemma counted_size:
  fixes sz len m :: u64
  assumes "unat sz + unat len \<le> unat (sink_limit m)"
  shows "unat (sz + (len + 1)) = unat sz + unat len + 1"
proof -
  have "unat (sink_limit m) < 2 ^ 64 - 1"
    using sink_limit_less[of m] unfolding word_less_nat_alt unat_max64 .
  then have "unat sz + (unat len + 1) < 2 ^ 64" using assms by simp
  then show ?thesis by (simp add: unat_word_ariths)
qed

lemma write_events_bounded:
  assumes "\<And>i. sw_fate w i = LineWritten"
  shows "write_events w m target n es sz out bytes = (out', bytes') \<Longrightarrow>
     (\<And>e b. e \<in> set es \<Longrightarrow> sw_ser w e = Inr b \<Longrightarrow> length b < 2 ^ 64) \<Longrightarrow> unat sz = length bytes \<Longrightarrow>
     length bytes' \<le> max (length bytes) (unat (sink_limit m) + 1)"
  using assms
proof (induction w m target n es sz out bytes rule: write_events.induct)
  case (2 w m target n e rest sz out bytes)
  show ?case
  proof (cases "sw_ser w e")
    case (Inl err)
    then show ?thesis using 2 by (auto simp: serialize_line_def)
  next
    case (Inr line)
    then have l: "serialize_line w e out = (Some line, out)" by (simp add: serialize_line_def)
    have len: "unat (of_nat (length line) :: u64) = length line"
      using 2(6)[of e line] Inr by (simp add: unsigned_of_nat take_bit_nat_eq_self)
    show ?thesis
    proof (cases "sat_add64 sz (of_nat (length line)) > sat_sub64 m claude_reserve_bytes")
      case True
      show ?thesis
        by (rule 2(2)[OF l[symmetric] refl refl True]) (use 2(5-8) l True in auto)
    next
      case False
      then have fit: "unat sz + unat (of_nat (length line) :: u64) \<le> unat (sink_limit m)"
        by (intro sat_add64_le) (simp_all add: sink_limit_def[symmetric] sink_limit_less)
      note sz = counted_size[OF fit]
      have "length bytes' \<le> max (length (bytes @ line @ [newline])) (unat (sink_limit m) + 1)"
        by (rule 2(3)[OF l[symmetric] refl refl False])
           (use 2(5-8) len sz False l in \<open>auto simp: Let_def\<close>)
      then show ?thesis using fit len 2(7) by simp
    qed
  qed
qed simp

text \<open>The stream of one invocation: when the length of the sink can be read and its writes succeed,
  the file is afterwards no longer than it was, or no longer than the cap less the reserve, plus the
  one newline the check leaves out.\<close>

lemma write_all_capped:
  assumes "claude_write_all w sk events fs = (out, fs')" and "sw_open w (cs_path sk) = None"
    and "sw_stat w (cs_path sk)" and "\<And>i. sw_fate w i = LineWritten"
    and "length (file_bytes_of fs (cs_path sk)) < 2 ^ 64"
    and "\<And>e line. e \<in> set events \<Longrightarrow> sw_ser w e = Inr line \<Longrightarrow> length line < 2 ^ 64"
  shows "length (file_bytes_of fs' (cs_path sk)) \<le>
    max (length (file_bytes_of fs (cs_path sk))) (unat (cs_max_bytes sk) - 8192 + 1)"
proof (cases "events = []")
  case True
  then show ?thesis using assms(1) by (auto simp: claude_write_all_def)
next
  case False
  let ?t = "cs_path sk"
  have o: "open_target w sk claude_outcome_default = (Some ?t, claude_outcome_default)"
    using assms(2) by (simp add: open_target_def)
  obtain out1 bytes where r: "write_events w (cs_max_bytes sk) ?t 0 events (file_len w fs ?t) claude_outcome_default
      (file_bytes_of fs ?t) = (out1, bytes)" by fastforce
  have "unat (file_len w fs ?t) = length (file_bytes_of fs ?t)"
    using assms(3,5) by (simp add: file_len_def unsigned_of_nat take_bit_nat_eq_self)
  from write_events_bounded[OF assms(4) r assms(6) this]
  have "length bytes \<le> max (length (file_bytes_of fs ?t)) (unat (cs_max_bytes sk) - 8192 + 1)"
    by (simp add: sink_limit_unat)
  moreover have "fs' ?t = Some bytes"
    using assms(1) False by (auto simp: claude_write_all_def o r split: option.splits)
  ultimately show ?thesis by (simp add: file_bytes_of_def[of fs'])
qed

text \<open>What does not fit is skipped, not the end of the stream: of two events of which only the
  second fits under the cap, the older is dropped and the newer written.\<close>

theorem older_event_may_be_dropped:
  assumes "sw_open w (cs_path sk) = None" and "sw_stat w (cs_path sk)" and "sw_flush w = None"
    and "sw_fate w 0 = LineWritten" and "sw_ser w older = Inr long" and "sw_ser w newer = Inr short"
    and "length (file_bytes_of fs (cs_path sk)) + length long < 2 ^ 64"
    and "unat (cs_max_bytes sk) - 8192 < length (file_bytes_of fs (cs_path sk)) + length long"
    and "length (file_bytes_of fs (cs_path sk)) + length short \<le> unat (cs_max_bytes sk) - 8192"
  shows "claude_write_all w sk [older, newer] fs =
    (\<lparr>co_written = 1, co_dropped = 1, co_buffered_to = None, co_errors = []\<rparr>,
     fs(cs_path sk := Some (file_bytes_of fs (cs_path sk) @ short @ [newline])))"
proof -
  let ?old = "length (file_bytes_of fs (cs_path sk))" and ?lim = "sink_limit (cs_max_bytes sk)"
  have u: "unat (of_nat n :: u64) = n" if "n < 2 ^ 64" for n
    using that by (simp add: unsigned_of_nat take_bit_nat_eq_self)
  have add: "sat_add64 (of_nat ?old) (of_nat n) = of_nat (?old + n)" if "?old + n < 2 ^ 64" for n
  proof -
    have "unat (of_nat ?old + of_nat n :: u64) = ?old + n"
      using u[of "?old + n"] that by simp
    then show ?thesis using u[of ?old] that by (simp add: sat_add64_def word_less_nat_alt)
  qed
  have lim: "unat ?lim < 2 ^ 64" using unsigned_less[of ?lim, where ?'a = nat] by simp
  have s: "?old + length short < 2 ^ 64" using assms(9) lim by (simp add: sink_limit_unat)
  have "?lim < sat_add64 (of_nat ?old) (of_nat (length long))"
    unfolding add[OF assms(7)] word_less_nat_alt u[OF assms(7)] using assms(8) by (simp add: sink_limit_unat)
  moreover have "\<not> ?lim < sat_add64 (of_nat ?old) (of_nat (length short))"
    unfolding add[OF s] word_less_nat_alt u[OF s] using assms(9) by (simp add: sink_limit_unat)
  ultimately show ?thesis
    using assms(1-6)
    by (simp add: claude_write_all_def open_target_def claude_outcome_default_def serialize_line_def Let_def
        file_len_def sink_limit_def)
qed

subsection \<open>The binary\<close>

lemma grown_target: "grown fs (fs(p := Some (file_bytes_of fs p)))"
  using grown_append[of fs p "[]"] by simp

lemma write_all_grown: "grown fs (snd (claude_write_all w sk events fs))"
  using write_all_outcome[of w sk events fs "fst (claude_write_all w sk events fs)" "snd (claude_write_all w sk events fs)"]
  by (auto intro: grown_append split: option.splits)

lemma force_write_grown: "grown fs (snd (force_write w sk e fs))"
  by (auto simp: force_write_def Let_def intro: grown_append grown_target
      split: prod.splits option.splits line_fate.splits)

lemma publish_grown: "grown fs (snd (claude_publish_manifest env root config fs))"
  by (auto simp: claude_publish_manifest_def register_at_def Let_def intro: grown_append grown_target
      split: sum.splits prod.splits option.splits append_outcome.splits store_error.splits if_splits)

lemma report_drop_grown: "grown fs (snd (report_drop env cp sk events n fs))"
  using force_write_grown by (simp add: report_drop_def Let_def split_beta)

lemma hook_write_grown: "grown fs (snd (hook_write env args cp events path fs))"
  using grown_trans[OF write_all_grown report_drop_grown] write_all_grown
  by (simp add: hook_write_def Let_def split_beta)

lemma grown_prefix: "grown fs fs' \<Longrightarrow> prefix (file_bytes_of fs p) (file_bytes_of fs' p)"
  unfolding grown_def by (erule_tac x = p in allE) (auto simp: file_bytes_of_def)

lemma parse_args_stdout:
  "parse_args raw args = Inr args' \<Longrightarrow> ha_stdout args' \<Longrightarrow> ha_stdout args \<or> ''--stdout'' \<in> set raw"
  by (induction raw args rule: parse_args.induct)
     (auto simp: Let_def split: if_splits list.splits option.splits)

lemma open_target_here:
  "sw_open w (cs_path sk) = None \<Longrightarrow> open_target w sk out = (Some (cs_path sk), out)"
  by (simp add: open_target_def)

lemma force_write_adds:
  \<comment> \<open>to any file, at most the one record, or the part of it that was written\<close>
  "\<exists>added. file_bytes_of (snd (force_write w sk e fs)) p = file_bytes_of fs p @ added \<and>
     (added = [] \<or> (\<exists>line. sw_ser w e = Inr line \<and> prefix added (line @ [newline])))"
proof -
  obtain t out where o: "open_target w sk claude_outcome_default = (t, out)" by fastforce
  show ?thesis
  proof (cases "t = Some p \<and> (\<exists>line. sw_ser w e = Inr line)")
    case True
    then obtain line where l: "t = Some p" "sw_ser w e = Inr line" by blast
    show ?thesis
    proof (cases "sw_fate w 0")
      case LineWritten
      then show ?thesis
        using l by (simp add: force_write_def o serialize_line_def Let_def file_bytes_of_def)
    next
      case (LineTorn err k)
      then show ?thesis
        using l take_is_prefix[of k "line @ [newline]"]
        by (simp add: force_write_def o serialize_line_def Let_def file_bytes_of_def del: take_append)
    qed
  next
    case False
    then have "file_bytes_of (snd (force_write w sk e fs)) p = file_bytes_of fs p"
      by (auto simp: force_write_def o serialize_line_def Let_def file_bytes_of_def
          split: option.splits sum.splits line_fate.splits)
    then show ?thesis by simp
  qed
qed

definition drop_notice :: "nat \<Rightarrow> ir_event \<Rightarrow> bool" where
  \<comment> \<open>the record that an invocation dropped so many events\<close>
  "drop_notice n e \<longleftrightarrow> ev_kind e = Diagnostic \<and>
     str_at (ev_payload e) ''code'' = Some ''sink-backpressure-drop'' \<and>
     json_get (ev_payload e) ''dropped_count'' = Some (JUInt (of_nat n))"

definition drop_message :: "nat \<Rightarrow> string" where
  "drop_message n = ''freshdag-claude-hook: dropped '' @ show_nat n @ '' newest event(s); older events preserved''"

lemma standalone_notice:
  "drop_notice n (fst (standalone_diagnostic cp session_id
     (diagnostic_with ''sink'' v (diagnostic_with ''dropped_count'' (JUInt (of_nat n))
        (diagnostic_new SinkBackpressureDrop text)))))"
  by (simp add: drop_notice_def standalone_diagnostic_def compiler_diagnostic_def compiler_event_def
      diagnostic_to_payload_def diagnostic_with_def diagnostic_new_def json_get_obj str_at_def)

lemma report_drop_adds:
  "\<exists>added. file_bytes_of (snd (report_drop env cp sk events n fs)) p = file_bytes_of fs p @ added \<and>
     (added = [] \<or> (\<exists>e line. drop_notice n e \<and> sw_ser (he_force env) e = Inr line \<and> prefix added (line @ [newline])))"
  "drop_message n \<in> set (fst (report_drop env cp sk events n fs))"
proof -
  have "\<exists>e. snd (report_drop env cp sk events n fs) = snd (force_write (he_force env) sk e fs) \<and> drop_notice n e"
    unfolding report_drop_def Let_def split_beta snd_conv
    by (rule exI, rule conjI[OF refl], rule standalone_notice)
  then show "\<exists>added. file_bytes_of (snd (report_drop env cp sk events n fs)) p = file_bytes_of fs p @ added \<and>
     (added = [] \<or> (\<exists>e line. drop_notice n e \<and> sw_ser (he_force env) e = Inr line \<and> prefix added (line @ [newline])))"
    using force_write_adds[of "he_force env" sk _ fs p] by metis
  show "drop_message n \<in> set (fst (report_drop env cp sk events n fs))"
    by (simp add: report_drop_def Let_def split_beta drop_message_def)
qed

definition byte_cap :: "hook_env \<Rightarrow> hook_args \<Rightarrow> nat" where
  \<comment> \<open>the cap in force: \<open>--max-bytes\<close>, else the environment, else 64 MiB\<close>
  "byte_cap env args =
     (case ha_max_bytes args of
        Some m \<Rightarrow> unat m
      | None \<Rightarrow>
          (case Option.bind (he_var env ''FRESHDAG_CLAUDE_MAX_SINK_BYTES'') parse_u64 of
             Some m \<Rightarrow> unat m
           | None \<Rightarrow> 67108864))"

definition within_cap :: "hook_env \<Rightarrow> nat \<Rightarrow> string list \<Rightarrow> string \<Rightarrow> string \<Rightarrow> bool" where
  \<comment> \<open>the stream stays under the cap less the reserve, and only the record of a drop may follow it\<close>
  "within_cap env cap said old new \<longleftrightarrow>
     (\<exists>stream tail. new = old @ stream @ tail \<and>
        length (old @ stream) \<le> max (length old) (cap - 8192 + 1) \<and>
        (tail = [] \<or>
          (\<exists>n e line. 0 < n \<and> drop_message n \<in> set said \<and> drop_notice n e \<and>
             sw_ser (he_force env) e = Inr line \<and> prefix tail (line @ [newline]))))"

lemma within_cap_refl [simp]: "within_cap env cap said old old"
  unfolding within_cap_def by (intro exI[of _ "[]"]) simp

lemma within_cap_said: "within_cap env cap said old new \<Longrightarrow> set said \<subseteq> set said' \<Longrightarrow> within_cap env cap said' old new"
  unfolding within_cap_def by blast

lemma hook_write_capped:
  assumes "sw_open (he_sink env) path = None"
    and "sw_stat (he_sink env) path" and "\<And>i. sw_fate (he_sink env) i = LineWritten"
    and "length (file_bytes_of fs path) < 2 ^ 64"
    and "\<And>e line. e \<in> set events \<Longrightarrow> sw_ser (he_sink env) e = Inr line \<Longrightarrow> length line < 2 ^ 64"
  shows "within_cap env (byte_cap env args) (fst (hook_write env args cp events path fs))
    (file_bytes_of fs path) (file_bytes_of (snd (hook_write env args cp events path fs)) path)"
proof -
  define sk where "sk = (case or_else (ha_max_bytes args) (env_u64 env ''FRESHDAG_CLAUDE_MAX_SINK_BYTES'') of
      Some m \<Rightarrow> with_max_bytes m (claude_sink_new path) | None \<Rightarrow> claude_sink_new path)"
  have sk: "cs_path sk = path" "unat (cs_max_bytes sk) = byte_cap env args"
    by (simp_all add: sk_def byte_cap_def or_else_def env_u64_def with_max_bytes_def claude_sink_new_def
        claude_max_bytes_def split: option.split)
  obtain out fs1 where run: "claude_write_all (he_sink env) sk events fs = (out, fs1)" by fastforce
  have len: "length (file_bytes_of fs1 path) \<le> max (length (file_bytes_of fs path)) (byte_cap env args - 8192 + 1)"
    using write_all_capped[OF run] assms sk by simp
  have "grown fs fs1"
    using write_all_grown[of fs "he_sink env" sk events] run by simp
  then obtain stream where stream: "file_bytes_of fs1 path = file_bytes_of fs path @ stream"
    using grown_prefix[of fs fs1 path] by (auto simp: prefix_def)
  show ?thesis
  proof (cases "co_dropped out = 0")
    case True
    then have "snd (hook_write env args cp events path fs) = fs1"
      by (simp add: hook_write_def Let_def sk_def[symmetric] run)
    then show ?thesis
      using len stream unfolding within_cap_def by (intro exI[of _ stream] exI[of _ "[]"]) simp
  next
    case False
    then have w: "snd (hook_write env args cp events path fs) = snd (report_drop env cp sk events (co_dropped out) fs1)"
        "set (fst (report_drop env cp sk events (co_dropped out) fs1)) \<subseteq> set (fst (hook_write env args cp events path fs))"
      by (auto simp: hook_write_def Let_def sk_def[symmetric] run split: prod.split)
    obtain tail where "file_bytes_of (snd (report_drop env cp sk events (co_dropped out) fs1)) path =
          file_bytes_of fs1 path @ tail"
        "tail = [] \<or> (\<exists>e line. drop_notice (co_dropped out) e \<and> sw_ser (he_force env) e = Inr line \<and>
           prefix tail (line @ [newline]))"
      using report_drop_adds(1) by blast
    moreover have "drop_message (co_dropped out) \<in> set (fst (hook_write env args cp events path fs))"
      using w(2) report_drop_adds(2) by blast
    ultimately show ?thesis
      using len stream w(1) False unfolding within_cap_def
      by (intro exI[of _ stream] exI[of _ tail]) auto
  qed
qed

lemma publish_elsewhere:
  "coverage_path root \<noteq> p \<Longrightarrow> snd (claude_publish_manifest env root config fs) p = fs p"
  by (auto simp: claude_publish_manifest_def Let_def
      split: sum.splits prod.splits option.splits store_error.splits if_splits)

lemma hook_main_capped:
  assumes "parse_args (he_args env) hook_args_default = Inr args" and "hook_sink_path env args = Some path"
    and "map_option coverage_path (hook_store_root env args) \<noteq> Some path"
    and "sw_open (he_sink env) path = None" and "sw_stat (he_sink env) path"
    and "\<And>i. sw_fate (he_sink env) i = LineWritten"
    and "length (file_bytes_of fs path) < 2 ^ 64"
    and "\<And>e line. sw_ser (he_sink env) e = Inr line \<Longrightarrow> length line < 2 ^ 64"
  shows "within_cap env (byte_cap env args) (hr_stderr (hook_main env fs)) (file_bytes_of fs path)
    (file_bytes_of (hr_files (hook_main env fs)) path)"
proof (cases "ha_help args \<or> isl (he_stdin env)")
  case True
  then have "hr_files (hook_main env fs) = fs"
    by (auto simp: hook_main_def assms(1) isl_def)
  then show ?thesis by simp
next
  case False
  then obtain input where i: "\<not> ha_help args" "he_stdin env = Inr input" by (cases "he_stdin env") auto
  define made where "made = compile_str (he_parse env)
    (compiler_production (sw_hex (he_sink env)) (he_clock env) (he_ids env) (he_disk env) (hook_config env args)) input"
  define mid where "mid = snd (case hook_store_root env args of None \<Rightarrow> ([], fs)
    | Some root \<Rightarrow> claude_publish_manifest env root (hook_config env args) fs)"
  let ?w = "hook_write env args (snd made) (fst made) path mid"
  have "mid path = fs path"
    using assms(3) publish_elsewhere[of _ path env "hook_config env args" fs]
    by (simp add: mid_def split: option.split)
  then have same: "file_bytes_of mid path = file_bytes_of fs path"
    by (simp add: file_bytes_of_def)
  have main: "hr_files (hook_main env fs) = snd ?w" "set (fst ?w) \<subseteq> set (hr_stderr (hook_main env fs))"
    by (auto simp: hook_main_def assms(1,2) i made_def mid_def Let_def split_beta)
  show ?thesis
    unfolding main(1)
    using hook_write_capped[of env path mid "fst made" args "snd made"] assms(4-8) same
    by (intro within_cap_said[OF _ main(2)]) simp
qed

text \<open>C11: The cap of the sink, over a whole invocation of the binary. When the sink opens, its length can
  be read and the writes of the stream succeed (and the sink is not the file of the coverage
  registry), the invocation appends a stream and possibly a tail: with the stream the file is no
  longer than it was, or no longer than the cap less the reserve of 8 KiB plus the one newline the
  check leaves out. A tail appears only when the run said on standard error that it dropped events,
  and it is, or begins, the one record of that drop, naming how many. That record ignores the cap,
  but the reserve is made for it: on a file the stream could have left behind, a record shorter than the
  reserve keeps the file within the cap itself.\<close>

theorem sink_cap_holds:
  assumes "parse_args (he_args env) hook_args_default = Inr args" and "hook_sink_path env args = Some path"
    and "map_option coverage_path (hook_store_root env args) \<noteq> Some path"
    and "sw_open (he_sink env) path = None" and "sw_stat (he_sink env) path"
    and "\<And>i. sw_fate (he_sink env) i = LineWritten"
    and "length (file_bytes_of fs path) < 2 ^ 64"
    and "\<And>e line. sw_ser (he_sink env) e = Inr line \<Longrightarrow> length line < 2 ^ 64"
  shows "\<exists>stream tail. file_bytes_of (hr_files (hook_main env fs)) path = file_bytes_of fs path @ stream @ tail \<and>
    length (file_bytes_of fs path @ stream) \<le> max (length (file_bytes_of fs path)) (byte_cap env args - 8192 + 1) \<and>
    (tail = [] \<or>
      (\<exists>n e line. 0 < n \<and> drop_message n \<in> set (hr_stderr (hook_main env fs)) \<and> drop_notice n e \<and>
         sw_ser (he_force env) e = Inr line \<and> prefix tail (line @ [newline]) \<and>
         (length line + 1 < 8192 \<and> 8192 \<le> byte_cap env args \<and>
            length (file_bytes_of fs path) \<le> byte_cap env args - 8192 + 1 \<longrightarrow>
          length (file_bytes_of (hr_files (hook_main env fs)) path) \<le> byte_cap env args)))"
proof -
  have "within_cap env (byte_cap env args) (hr_stderr (hook_main env fs)) (file_bytes_of fs path)
      (file_bytes_of (hr_files (hook_main env fs)) path)"
    by (rule hook_main_capped[OF assms])
  then obtain stream tail where p: "file_bytes_of (hr_files (hook_main env fs)) path = file_bytes_of fs path @ stream @ tail"
      "length (file_bytes_of fs path @ stream) \<le> max (length (file_bytes_of fs path)) (byte_cap env args - 8192 + 1)"
      "tail = [] \<or> (\<exists>n e line. 0 < n \<and> drop_message n \<in> set (hr_stderr (hook_main env fs)) \<and> drop_notice n e \<and>
             sw_ser (he_force env) e = Inr line \<and> prefix tail (line @ [newline]))"
    unfolding within_cap_def by blast
  have "length tail \<le> length line + 1" if "prefix tail (line @ [newline])" for line
    using prefix_length_le[OF that] by simp
  then show ?thesis
    using p by (intro exI[of _ stream] exI[of _ tail] conjI) fastforce+
qed

text \<open>C9: The binary never blocks the runtime and never rewrites: whatever the arguments, the payload
  and the failures of the system, it exits 0, prints nothing on standard output unless \<open>--stdout\<close>
  was given, and each file it touches keeps its old bytes as a prefix.\<close>

theorem hook_never_blocks_or_rewrites:
  "hr_exit (hook_main env fs) = 0 \<and>
   (hr_stdout (hook_main env fs) = [] \<or> ''--stdout'' \<in> set (he_args env)) \<and>
   prefix (file_bytes_of fs p) (file_bytes_of (hr_files (hook_main env fs)) p)"
proof -
  have g: "grown fs (hr_files (hook_main env fs))"
    using publish_grown hook_write_grown grown_trans[OF publish_grown hook_write_grown]
    by (auto simp: hook_main_def Let_def split_beta split: sum.splits option.splits)
  have o: "hr_stdout (hook_main env fs) = [] \<or> ''--stdout'' \<in> set (he_args env)"
    using parse_args_stdout[of "he_args env" hook_args_default]
    by (auto simp: hook_main_def Let_def split_beta hook_args_default_def split: sum.splits option.splits)
  have "hr_exit (hook_main env fs) = 0"
    by (auto simp: hook_main_def Let_def split_beta split: sum.splits option.splits)
  with grown_prefix[OF g] o show ?thesis by blast
qed

text \<open>The first manifest stays: once the registry holds the manifest of an unrestricted run, a run
  under any suppression publishes nothing. If the suppression withholds tool invocations, the
  manifest in force still lets their absence count as evidence, while the manifest of the
  configuration would not.\<close>

theorem first_manifest_stays:
  assumes "config = with_suppressed_kinds patterns adapter_config_new"
    and "list_ex (\<lambda>s. pattern_matches s ToolInvoked) patterns"
    and "registry_open (he_parse_registration env) (coverage_path root) (ReadBytes bytes) = Inr registry"
    and "he_registry_error env = None" and "fs (coverage_path root) = Some bytes"
    and "registry_manifest registry (key_of_manifest (coverage_manifest_for adapter_config_new)) =
      Some (coverage_manifest_for adapter_config_new)"
  shows "claude_publish_manifest env root config fs = ([], fs) \<and>
    manifest_discharges (coverage_manifest_for adapter_config_new) ToolInvoked \<and>
    \<not> manifest_discharges (coverage_manifest_for config) ToolInvoked"
proof -
  have key: "key_of_manifest (coverage_manifest_for config) = key_of_manifest (coverage_manifest_for adapter_config_new)"
    by (simp add: assms(1) key_of_manifest_def coverage_manifest_for_def manifest_with_version_def
        with_suppressed_kinds_def adapter_config_new_def Let_def)
  have "claude_publish_manifest env root config fs = ([], fs)"
    using assms(3-6) by (simp add: claude_publish_manifest_def Let_def key)
  moreover have new: "manifest_covers (coverage_manifest_for adapter_config_new) ToolInvoked"
    by (simp add: covers_for adapter_config_new_def adapter_emits_def declared_patterns)
  moreover have "\<not> manifest_covers (coverage_manifest_for config) ToolInvoked"
    using assms(2) common_kind_intersects[of _ ToolInvoked]
    by (auto simp: covers_for assms(1) with_suppressed_kinds_def list_ex_iff)
  moreover have "manifest_discharges (coverage_manifest_for c) ToolInvoked \<longleftrightarrow>
      manifest_covers (coverage_manifest_for c) ToolInvoked" for c
    by (rule dischargeable_without_notes) (auto simp: partial_notes_list declared_patterns)
  ultimately show ?thesis by blast
qed

subsection \<open>Concrete runs\<close>

definition calm_world :: "(ir_event \<Rightarrow> string + string) \<Rightarrow> sink_world" where
  \<comment> \<open>everything opens and each write succeeds\<close>
  "calm_world ser = \<lparr>sw_hex = (\<lambda>_. zero_hex []), sw_temp_dir = ''/tmp'', sw_ser = ser, sw_id_text = (\<lambda>_. ''id''),
     sw_open = (\<lambda>_. None), sw_stat = (\<lambda>_. True), sw_fate = (\<lambda>_. LineWritten), sw_flush = None\<rparr>"

lemma calm_simps [simp]:
  "sw_ser (calm_world ser) = ser" "sw_open (calm_world ser) p = None" "sw_stat (calm_world ser) p"
  "sw_fate (calm_world ser) i = LineWritten" "sw_flush (calm_world ser) = None"
  by (simp_all add: calm_world_def)

definition short_or_long :: "ir_event \<Rightarrow> string + string" where
  "short_or_long e = Inr (if ev_event_id e = 1 then ''long'' else ''n'')"

definition small_sink :: claude_sink where
  "small_sink = with_max_bytes 8194 (claude_sink_new ''log'')"

lemma small_sink_simps [simp]: "cs_path small_sink = ''log''" "cs_max_bytes small_sink = 8194"
  by (simp_all add: small_sink_def with_max_bytes_def claude_sink_new_def)

lemma fixture_ids [simp]: "ev_event_id an_event = 1" "ev_event_id a_notice = 2"
  by (simp_all add: an_event_def a_notice_def sample_event_def)

lemma small_run:
  "claude_write_all (calm_world tiny_ser) small_sink [an_event, a_notice] Map.empty =
     (\<lparr>co_written = 1, co_dropped = 1, co_buffered_to = None, co_errors = []\<rparr>, [''log'' \<mapsto> ''a'' @ [newline]])"
proof -
  have n: "a_notice \<noteq> an_event" using fixture_ids by force
  show ?thesis
    by (simp add: claude_write_all_def open_target_def claude_outcome_default_def serialize_line_def Let_def
        file_len_def file_bytes_of_def tiny_ser_def n sat_add64_def sat_sub64_def claude_reserve_bytes_def)
qed

theorem sink_accounts_and_appends_witness:
  "claude_write_all (calm_world tiny_ser) small_sink [an_event, a_notice] Map.empty =
     (\<lparr>co_written = 1, co_dropped = 1, co_buffered_to = None, co_errors = []\<rparr>, [''log'' \<mapsto> ''a'' @ [newline]]) \<and>
   (1 :: nat) + 1 = length [an_event, a_notice]"
  using sink_accounts_and_appends[OF small_run] small_run by simp

theorem sink_output_is_readable_witness:
  "\<exists>written. subseq written [an_event, a_notice] \<and> length written = 1 \<and>
     read_log tiny_parse ''log'' (ReadBytes (''a'' @ [newline])) = Inr ([] @ written)"
proof -
  have e: "read_log tiny_parse ''log'' (ReadBytes []) = Inr []"
    unfolding read_iff_holds by (auto simp: log_holds_def lines_of_def)
  show ?thesis
    using sink_output_is_readable[OF small_run, of tiny_parse "''log''" "[]"] e tiny_codec_ok by simp
qed

theorem older_event_may_be_dropped_witness:
  "claude_write_all (calm_world short_or_long) small_sink [an_event, a_notice] Map.empty =
     (\<lparr>co_written = 1, co_dropped = 1, co_buffered_to = None, co_errors = []\<rparr>, [''log'' \<mapsto> ''n'' @ [newline]])"
  using older_event_may_be_dropped[of "calm_world short_or_long" small_sink an_event "''long''" a_notice "''n''" Map.empty]
  by (simp add: short_or_long_def file_bytes_of_def)

definition published :: coverage_registration where
  "published = \<lparr>rg_registered_at = 0, rg_manifest = coverage_manifest_for adapter_config_new\<rparr>"

definition quiet_env :: hook_env where
  "quiet_env = \<lparr>he_args = [], he_var = (\<lambda>_. None), he_stdin = Inr [], he_parse = (\<lambda>_. Inr JNull),
     he_parse_registration = (\<lambda>_. Inr published), he_ser_registration = (\<lambda>_. Inr ''r''), he_clock = (\<lambda>_. 0),
     he_ids = (\<lambda>_. 0), he_disk = small_disk, he_now = 0, he_registry_error = None, he_register = Appended,
     he_sink = calm_world tiny_ser, he_force = calm_world tiny_ser\<rparr>"

theorem first_manifest_stays_witness:
  "claude_publish_manifest quiet_env ''.freshdag'' (with_suppressed_kinds [''tool.*''] adapter_config_new)
     [coverage_path ''.freshdag'' \<mapsto> ''r'' @ [newline]] = ([], [coverage_path ''.freshdag'' \<mapsto> ''r'' @ [newline]])"
proof -
  let ?m = "coverage_manifest_for adapter_config_new" and ?p = "coverage_path ''.freshdag''"
  have o: "registry_open (he_parse_registration quiet_env) ?p (ReadBytes (''r'' @ [newline])) =
      Inr \<lparr>cr_path = Some ?p, cr_manifests = [(key_of_manifest ?m, ?m)]\<rparr>"
    by (simp add: registry_open_def quiet_env_def newline_def published_def)
  have t: "list_ex (\<lambda>s. pattern_matches s ToolInvoked) [''tool.*'']"
    by (simp add: declared_patterns)
  show ?thesis
    using first_manifest_stays[OF refl t o, of "[?p \<mapsto> ''r'' @ [newline]]"]
    by (simp add: quiet_env_def registry_manifest_def)
qed

definition drop_ser :: "ir_event \<Rightarrow> string + string" where
  "drop_ser e = Inr (if str_at (ev_payload e) ''code'' = Some ''sink-backpressure-drop'' then ''drop'' else ''event'')"

definition capped_env :: hook_env where
  \<comment> \<open>a payload that is no JSON, compiled to one diagnostic that does not fit under the cap\<close>
  "capped_env = quiet_env\<lparr>he_args := [''--no-store'', ''--sink'', ''log'', ''--max-bytes'', ''8194''],
     he_parse := (\<lambda>_. Inl ''bad''), he_sink := calm_world drop_ser, he_force := calm_world drop_ser\<rparr>"

definition capped_args :: hook_args where
  "capped_args = hook_args_default\<lparr>ha_no_store := True, ha_sink := Some ''log'', ha_max_bytes := Some 8194\<rparr>"

lemma capped_env_simps [simp]:
  "he_stdin capped_env = Inr []" "he_parse capped_env s = Inl ''bad''" "he_sink capped_env = calm_world drop_ser"
  "he_force capped_env = calm_world drop_ser" "he_var capped_env v = None" "he_clock capped_env = (\<lambda>_. 0)"
  "he_ids capped_env = (\<lambda>_. 0)"
  by (simp_all add: capped_env_def quiet_env_def)

lemma parse_8194: "parse_u64 ''8194'' = Some 8194"
  by (simp add: parse_u64_def starts_with_def is_digit_char_def)

lemma capped_args: "parse_args (he_args capped_env) hook_args_default = Inr capped_args"
  by (simp add: capped_env_def quiet_env_def parse_8194 capped_args_def hook_args_default_def)

lemma capped_args_simps [simp]:
  "ha_no_store capped_args" "ha_sink capped_args = Some ''log''" "ha_max_bytes capped_args = Some 8194"
  "\<not> ha_help capped_args" "\<not> ha_stdout capped_args" "ha_suppress capped_args = []"
  by (simp_all add: capped_args_def hook_args_default_def)

lemma hook_files_no_store:
  assumes "parse_args (he_args env) hook_args_default = Inr args" "\<not> ha_help args" "ha_no_store args"
    "he_stdin env = Inr input" "hook_sink_path env args = Some path"
    "compile_str (he_parse env) (compiler_production (sw_hex (he_sink env)) (he_clock env) (he_ids env) (he_disk env)
       (hook_config env args)) input = (events, cp)"
  shows "hr_files (hook_main env fs) = snd (hook_write env args cp events path fs)"
  using assms by (simp add: hook_main_def Let_def split_beta hook_store_root_def)

lemma capped_run:
  "file_bytes_of (hr_files (hook_main capped_env [''log'' \<mapsto> [CHR ''x'', newline]])) ''log'' =
     ''x'' @ [newline] @ ''drop'' @ [newline]"
proof -
  obtain e cp where ev: "compile_str (he_parse capped_env) (compiler_production (sw_hex (he_sink capped_env))
        (he_clock capped_env) (he_ids capped_env) (he_disk capped_env) (hook_config capped_env capped_args)) [] =
        ([e], cp)"
      and code: "str_at (ev_payload e) ''code'' = Some ''malformed-payload''"
    by (simp add: compile_str_def single_def orphan_diagnostic_def compiler_diagnostic_def compiler_event_def
        diagnostic_to_payload_def diagnostic_new_def json_get_obj str_at_def)
  have line: "sw_ser (calm_world drop_ser) e = Inr ''event''"
    by (simp add: drop_ser_def code)
  let ?fs = "[''log'' \<mapsto> [CHR ''x'', newline]]"
  have sink: "hook_sink_path capped_env capped_args = Some ''log''"
    by (simp add: hook_sink_path_def or_else_def)
  have all: "claude_write_all (calm_world drop_ser) small_sink [e] ?fs =
      (\<lparr>co_written = 0, co_dropped = 1, co_buffered_to = None, co_errors = []\<rparr>, ?fs)"
    using line by (simp add: claude_write_all_def open_target_def claude_outcome_default_def serialize_line_def
        Let_def file_len_def file_bytes_of_def sat_add64_def sat_sub64_def claude_reserve_bytes_def)
  have forced: "snd (force_write (calm_world drop_ser) small_sink x ?fs) ''log'' = Some (''x'' @ [newline] @ ''drop'' @ [newline])"
    if "drop_notice 1 x" for x
    using that by (simp add: drop_notice_def force_write_def open_target_def serialize_line_def drop_ser_def
        Let_def file_bytes_of_def)
  have "\<exists>x. snd (report_drop capped_env cp small_sink [e] 1 ?fs) = snd (force_write (calm_world drop_ser) small_sink x ?fs) \<and>
      drop_notice 1 x"
    unfolding report_drop_def Let_def split_beta snd_conv capped_env_simps
    by (rule exI, rule conjI[OF refl], rule standalone_notice)
  then have "snd (report_drop capped_env cp small_sink [e] 1 ?fs) ''log'' = Some (''x'' @ [newline] @ ''drop'' @ [newline])"
    using forced by auto
  then have "snd (hook_write capped_env capped_args cp [e] ''log'' ?fs) ''log'' = Some (''x'' @ [newline] @ ''drop'' @ [newline])"
    by (simp add: hook_write_def or_else_def small_sink_def[symmetric] all Let_def split_beta)
  then show ?thesis
    using hook_files_no_store[OF capped_args _ _ _ sink ev, of ?fs] by (simp add: file_bytes_of_def)
qed

theorem sink_cap_holds_witness:
  "\<exists>stream tail. file_bytes_of (hr_files (hook_main capped_env [''log'' \<mapsto> [CHR ''x'', newline]])) ''log'' =
       ''x'' @ [newline] @ stream @ tail \<and>
     stream @ tail = ''drop'' @ [newline] \<and> length (''x'' @ [newline] @ stream) \<le> 3 \<and> tail \<noteq> [] \<and>
     (\<exists>n e. 0 < n \<and> drop_message n \<in> set (hr_stderr (hook_main capped_env [''log'' \<mapsto> [CHR ''x'', newline]])) \<and>
        drop_notice n e) \<and>
     length (file_bytes_of (hr_files (hook_main capped_env [''log'' \<mapsto> [CHR ''x'', newline]])) ''log'') \<le> 8194"
proof -
  let ?fs = "[''log'' \<mapsto> [CHR ''x'', newline]]"
  let ?main = "hook_main capped_env ?fs"
  have old: "file_bytes_of ?fs ''log'' = [CHR ''x'', newline]"
    by (simp add: file_bytes_of_def)
  have cap: "byte_cap capped_env capped_args = 8194"
    by (simp add: byte_cap_def)
  have line: "length l < 2 ^ 64" if "drop_ser e = Inr l" for e l
    using that by (auto simp: drop_ser_def split: if_splits)
  have sink: "hook_sink_path capped_env capped_args = Some ''log''"
    "map_option coverage_path (hook_store_root capped_env capped_args) \<noteq> Some ''log''"
    by (simp_all add: hook_sink_path_def hook_store_root_def or_else_def)
  obtain stream tail where r: "file_bytes_of (hr_files ?main) ''log'' = ''x'' @ [newline] @ stream @ tail"
      "length (''x'' @ [newline] @ stream) \<le> 3"
      "tail = [] \<or> (\<exists>n e. 0 < n \<and> drop_message n \<in> set (hr_stderr ?main) \<and> drop_notice n e)"
    using sink_cap_holds[OF capped_args sink, of ?fs] line by (auto simp: old cap)
  then have st: "stream @ tail = ''drop'' @ [newline]"
    using capped_run by simp
  then have "tail \<noteq> []"
    using r(2) by auto
  with r st capped_run show ?thesis
    by (intro exI[of _ stream] exI[of _ tail]) auto
qed

end
