(* ===== verification/Cli_Check.thy ===== *)
theory Cli_Check
  imports Store Probe_Contract "HOL-Library.Code_Target_Nat"
begin

section \<open>\<open>freshdag check\<close>\<close>

text \<open>
  \<open>crates/freshdag-cli/src/exit.rs\<close>, \<open>check.rs\<close> and the check command of \<open>main.rs\<close>: the exit
  codes, the resolution of a selector to an artifact, the probe registry of the command, and the
  composition of store, engine and probes. What the process finds in its environment is the
  record \<open>check_env\<close>. The world of a probe is a pair of what the file probe and what the https
  probe sees.
\<close>

subsection \<open>Exit codes\<close>

datatype exit =
    ExitValid | ExitStale | ExitUnknown | EngineRefused | ExitStoreError | ExitUsage | NotImplemented

fun exit_code :: "exit \<Rightarrow> int" where
  "exit_code ExitValid = 0"
| "exit_code ExitStale = 1"
| "exit_code ExitUnknown = 2"
| "exit_code EngineRefused = 3"
| "exit_code ExitStoreError = 4"
| "exit_code ExitUsage = 5"
| "exit_code NotImplemented = 6"

fun for_status :: "validity_status \<Rightarrow> bool \<Rightarrow> exit" where
  "for_status Valid accept_likely_valid = ExitValid"
| "for_status LikelyValid accept_likely_valid = (if accept_likely_valid then ExitValid else ExitUnknown)"
| "for_status UnknownStatus accept_likely_valid = ExitUnknown"
| "for_status Stale accept_likely_valid = ExitStale"

definition for_status_with_reasons :: "validity_status \<Rightarrow> validity_reason list \<Rightarrow> bool \<Rightarrow> exit" where
  "for_status_with_reasons status reasons accept_likely_valid =
     (let unverified = list_ex (\<lambda>r. reason r \<in> {VolatileWithinTtlUnprobed, ProbeUnknown}) reasons
      in if accept_likely_valid \<and> unverified \<and> status = LikelyValid then ExitUnknown
         else for_status status accept_likely_valid)"

subsection \<open>The check\<close>

definition max_suggestions :: nat where
  "max_suggestions = 20"

datatype check_error =
    CheckNoStore string
  | CheckStore store_error
  | CheckEngine engine_error
  | NoSuchArtifact (ce_requested: string) (ce_known: "string list")
  | AmbiguousSelector (ce_requested: string) (ce_matches: "string list")
  | CheckJson string

fun check_error_exit :: "check_error \<Rightarrow> exit" where
  "check_error_exit (CheckNoStore _) = ExitStoreError"
| "check_error_exit (CheckStore _) = ExitStoreError"
| "check_error_exit (CheckJson _) = ExitStoreError"
| "check_error_exit (CheckEngine _) = EngineRefused"
| "check_error_exit (NoSuchArtifact _ _) = ExitUsage"
| "check_error_exit (AmbiguousSelector _ _) = ExitUsage"

record checked =
  ck_certificate :: certificate
  ck_warnings :: "string list"

record selectors =
  sel_by_path :: "(string, string list) bmap"
  sel_ids :: "string list"

fun resolve_step :: "ir_event \<Rightarrow> selectors \<Rightarrow> selectors" where
  \<comment> \<open>one turn of the loop; the ids of a path and the ids are \<open>BTreeSet\<close>s\<close>
  "resolve_step e s =
     (if ev_kind e \<noteq> ArtifactProduced then s
      else case str_at (ev_payload e) ''artifact_id'' of
          None \<Rightarrow> s
        | Some i \<Rightarrow>
            (let s = s\<lparr>sel_ids := bset (i # sel_ids s)\<rparr> in
             case str_at (ev_payload e) ''path'' of
               None \<Rightarrow> s
             | Some p \<Rightarrow> s\<lparr>sel_by_path := bm_alter p [] (\<lambda>is. bset (i # is)) (sel_by_path s)\<rparr>))"

definition resolve :: "ir_event list \<Rightarrow> string \<Rightarrow> check_error + artifact_id" where
  "resolve events selector =
     (let s = fold resolve_step events \<lparr>sel_by_path = [], sel_ids = []\<rparr> in
      if selector \<in> set (sel_ids s) then Inr selector
      else case map_of (sel_by_path s) selector of
          Some matches \<Rightarrow>
            (if length matches = 1 then Inr (hd matches)
             else Inl (AmbiguousSelector selector matches))
        | None \<Rightarrow> Inl (NoSuchArtifact selector (take max_suggestions (sel_ids s))))"

fun registration_error_display :: "registration_error \<Rightarrow> string" where
  "registration_error_display (Tie i) = ''probe registration tie: `'' @ i @ ''` is already registered''"

definition registered :: "string \<Rightarrow> 'w probe \<Rightarrow> string list \<times> 'w probe_registry \<Rightarrow> string list \<times> 'w probe_registry" where
  \<comment> \<open>\<open>registry.register(..)\<close>, or a warning\<close>
  "registered scheme p s =
     (case s of (warnings, registry) \<Rightarrow>
       (case register_probe p registry of
          (Inr _, registry) \<Rightarrow> (warnings, registry)
        | (Inl e, registry) \<Rightarrow>
            (warnings @ [''could not register the '' @ scheme @ '':// probe: '' @ registration_error_display e], registry)))"

definition check_probes :: "'w probe \<Rightarrow> string + 'w probe \<Rightarrow> string list \<times> 'w probe_registry" where
  \<comment> \<open>the file probe, and the https probe if it could be built\<close>
  "check_probes file_pr https_pr =
     (let s = registered ''file'' file_pr ([], []) in
      case https_pr of
        Inr pr \<Rightarrow> registered ''https'' pr s
      | Inl e \<Rightarrow>
          (fst s @ [''no https:// probe: '' @ e @ ''. https dependencies will report `no-probe-available`, i.e. unknown '' @
             [CHR 0xE2, CHR 0x80, CHR 0x94] @ '' never fresh.''], snd s))"

definition seeing :: "('v \<Rightarrow> 'w) \<Rightarrow> 'w probe \<Rightarrow> 'v probe" where
  \<comment> \<open>a probe that sees one part of the world\<close>
  "seeing f p = \<lparr>p_scheme = p_scheme p, p_host_pattern = p_host_pattern p, p_priority = p_priority p,
     p_check = (\<lambda>v. p_check p (f v))\<rparr>"

record 'u outside =
  \<comment> \<open>the code that is not the program's: URLs, checked addition of durations, BLAKE3, and serde\<close>
  o_url :: "'u url_ops"
  o_tadd :: "instant \<Rightarrow> int \<Rightarrow> instant option"
  o_hex :: "string \<Rightarrow> string"
  o_msg :: "event_kind \<Rightarrow> json \<Rightarrow> string"
  o_write_certificate :: "certificate \<Rightarrow> string + string"
  o_read_event :: "string \<Rightarrow> string + ir_event"
  o_read_registration :: "string \<Rightarrow> string + coverage_registration"

record 'h check_env =
  \<comment> \<open>what one run of the command finds\<close>
  env_log_is_file :: bool
  env_mkdir_error :: "string option"
  env_opened :: "string + string"
  env_coverage :: read_outcome
  env_log :: read_outcome
  env_current_dir :: "string option"
  env_https :: "string + 'h transport"
  env_now :: instant
  env_world :: "nat \<Rightarrow> file_system \<times> 'h"

definition map_err :: "('e \<Rightarrow> 'f) \<Rightarrow> 'e + 'a \<Rightarrow> 'f + 'a" where
  "map_err f r = (case r of Inl e \<Rightarrow> Inl (f e) | Inr a \<Rightarrow> Inr a)"

definition opened_store :: "'u outside \<Rightarrow> 'h check_env \<Rightarrow> string \<Rightarrow> store_error + store" where
  \<comment> \<open>\<open>Store::open\<close>\<close>
  "opened_store lib env root =
     store_with_options (o_read_registration lib) sink_options_default (env_mkdir_error env)
       (env_opened env) (env_coverage env) root"

definition env_base :: "'h check_env \<Rightarrow> string" where
  \<comment> \<open>\<open>current_dir().unwrap_or_else(|_| ".")\<close>\<close>
  "env_base env = (case env_current_dir env of None \<Rightarrow> ''.'' | Some d \<Rightarrow> d)"

definition env_probes :: "'u outside \<Rightarrow> 'h check_env \<Rightarrow> string list \<times> (file_system \<times> 'h) probe_registry" where
  "env_probes lib env =
     check_probes
       (seeing fst (file_probe (o_hex lib) (env_base env)))
       (map_sum id (\<lambda>exec. seeing snd (https_probe (o_url lib) (o_hex lib) exec https_config_default)) (env_https env))"

definition check_engine ::
  "'u outside \<Rightarrow> 'h check_env \<Rightarrow> ir_event list \<Rightarrow> coverage_registry \<Rightarrow> (file_system \<times> 'h) engine" where
  "check_engine lib env events coverage =
     engine_build (o_msg lib) events coverage (snd (env_probes lib env)) None"

definition check_run :: "'u outside \<Rightarrow> 'h check_env \<Rightarrow> string \<Rightarrow> string \<Rightarrow> check_error + checked" where
  "check_run lib env root selector =
     (if \<not> env_log_is_file env then Inl (CheckNoStore root)
      else
        res_bind (map_err CheckStore (opened_store lib env root)) (\<lambda>sto.
        res_bind (map_err CheckStore (read_log (o_read_event lib) (log_path root) (env_log env))) (\<lambda>events.
        res_bind (resolve events selector) (\<lambda>artifact.
        res_bind (map_err CheckEngine (fst (engine_check (o_tadd lib) (o_hex lib) (o_write_certificate lib)
          (env_now env) (env_world env) (check_engine lib env events (sto_coverage sto)) artifact))) (\<lambda>outcome.
        Inr \<lparr>ck_certificate = chk_certificate outcome, ck_warnings = fst (env_probes lib env)\<rparr>)))))"

definition check_exit :: "bool \<Rightarrow> bool \<Rightarrow> (certificate \<Rightarrow> string + string) \<Rightarrow> check_error + checked \<Rightarrow> exit" where
  \<comment> \<open>the exit of \<open>check_command\<close>: the flags, the JSON printer, the result of the run\<close>
  "check_exit json accept_likely_valid pretty result =
     (case result of
        Inl e \<Rightarrow> check_error_exit e
      | Inr c \<Rightarrow>
          (let s = ct_status (ck_certificate c);
               exit = for_status_with_reasons (st_value s) (st_reasons s) accept_likely_valid
           in if json then
                (case map_err CheckJson (pretty (ck_certificate c)) of
                   Inl e \<Rightarrow> check_error_exit e
                 | Inr _ \<Rightarrow> exit)
              else exit))"

subsection \<open>Resolving a selector\<close>

definition artifact_ids :: "ir_event list \<Rightarrow> string set" where
  "artifact_ids events = {i. \<exists>e\<in>set events. ev_kind e = ArtifactProduced \<and> str_at (ev_payload e) ''artifact_id'' = Some i}"

definition ids_at_path :: "ir_event list \<Rightarrow> string \<Rightarrow> string set" where
  "ids_at_path events p = {i. \<exists>e\<in>set events. ev_kind e = ArtifactProduced \<and>
     str_at (ev_payload e) ''artifact_id'' = Some i \<and> str_at (ev_payload e) ''path'' = Some p}"

lemma artifact_ids_Cons:
  "artifact_ids (e # es) = (if ev_kind e = ArtifactProduced
     then set_option (str_at (ev_payload e) ''artifact_id'') else {}) \<union> artifact_ids es"
  by (auto simp: artifact_ids_def)

lemma resolve_ids:
  "set (sel_ids (fold resolve_step events s)) = artifact_ids events \<union> set (sel_ids s)"
proof (induction events arbitrary: s)
  case (Cons e events)
  then show ?case by (auto simp: artifact_ids_Cons Let_def split: option.splits)
qed (simp add: artifact_ids_def)

definition path_ids :: "selectors \<Rightarrow> string \<Rightarrow> string set" where
  "path_ids s p = (case map_of (sel_by_path s) p of None \<Rightarrow> {} | Some is \<Rightarrow> set is)"

definition selectors_ok :: "selectors \<Rightarrow> bool" where
  "selectors_ok s \<longleftrightarrow> (\<forall>p is. map_of (sel_by_path s) p = Some is \<longrightarrow> is \<noteq> [] \<and> is = bset is)"

lemma resolve_step_ok: "selectors_ok s \<Longrightarrow> selectors_ok (resolve_step e s)"
  by (auto simp: selectors_ok_def bm_alter_def Let_def bset_eq_iff split: option.splits)

lemma resolve_fold_ok: "selectors_ok s \<Longrightarrow> selectors_ok (fold resolve_step events s)"
  by (induction events arbitrary: s) (simp_all add: resolve_step_ok del: resolve_step.simps)

lemma resolve_paths:
  "path_ids (fold resolve_step events s) p = ids_at_path events p \<union> path_ids s p"
proof (induction events arbitrary: s)
  case (Cons e events)
  have "path_ids (resolve_step e s) p = ids_at_path [e] p \<union> path_ids s p"
    by (auto simp: path_ids_def ids_at_path_def bm_alter_def Let_def split: option.splits)
  moreover have "ids_at_path (e # events) p = ids_at_path [e] p \<union> ids_at_path events p"
    by (auto simp: ids_at_path_def)
  ultimately show ?case using Cons by (auto simp del: resolve_step.simps)
qed (simp add: ids_at_path_def)

lemma sole_member:
  assumes "xs \<noteq> []" "xs = bset xs"
  shows "length xs = 1 \<and> hd xs = a \<longleftrightarrow> set xs = {a}"
proof
  assume "length xs = 1 \<and> hd xs = a"
  then show "set xs = {a}" by (cases xs) auto
next
  assume s: "set xs = {a}"
  then have "length xs = 1"
    using distinct_card[of xs] assms(2) by (metis bset_distinct card.empty card_insert_disjoint empty_iff finite.emptyI One_nat_def)
  with s show "length xs = 1 \<and> hd xs = a" by (cases xs) auto
qed

lemma resolve_cases:
  "resolve events selector =
     (if selector \<in> artifact_ids events then Inr selector
      else case map_of (sel_by_path (fold resolve_step events \<lparr>sel_by_path = [], sel_ids = []\<rparr>)) selector of
          Some matches \<Rightarrow> (if length matches = 1 then Inr (hd matches) else Inl (AmbiguousSelector selector matches))
        | None \<Rightarrow> Inl (NoSuchArtifact selector (take max_suggestions
             (sel_ids (fold resolve_step events \<lparr>sel_by_path = [], sel_ids = []\<rparr>)))))"
  by (simp add: resolve_def resolve_ids Let_def)

lemma matches_at:
  assumes "selectors_ok s" and "path_ids s p = A"
  shows "case map_of (sel_by_path s) p of None \<Rightarrow> A = {} | Some ms \<Rightarrow> ms \<noteq> [] \<and> ms = bset ms \<and> set ms = A"
  using assms by (auto simp: selectors_ok_def path_ids_def split: option.splits)

lemma resolve_facts:
  "(resolve events selector = Inr a \<longleftrightarrow>
      (if selector \<in> artifact_ids events then a = selector else ids_at_path events selector = {a})) \<and>
   (resolve events selector = Inl (AmbiguousSelector selector ms) \<longleftrightarrow>
      selector \<notin> artifact_ids events \<and> card (ids_at_path events selector) \<ge> 2 \<and>
      ms = sorted_list_of_set (ids_at_path events selector))"
proof -
  define s where "s = fold resolve_step events \<lparr>sel_by_path = [], sel_ids = []\<rparr>"
  have ok: "selectors_ok s"
    unfolding s_def by (rule resolve_fold_ok) (simp add: selectors_ok_def)
  have "path_ids s selector = ids_at_path events selector"
    unfolding s_def resolve_paths by (simp add: path_ids_def)
  note m = matches_at[OF ok this]
  show ?thesis
  proof (cases "map_of (sel_by_path s) selector")
    case None
    with m show ?thesis by (auto simp: resolve_cases s_def[symmetric])
  next
    case (Some l)
    with m have l: "l \<noteq> []" "l = bset l" "set l = ids_at_path events selector" by simp_all
    have d: "distinct l" "sorted l" using l(2) by (metis bset_distinct bset_sorted)+
    then have c: "card (ids_at_path events selector) = length l" "sorted_list_of_set (ids_at_path events selector) = l"
      using l(3) by (metis distinct_card) (metis l(3) d sorted_list_of_set.idem_if_sorted_distinct)
    have "length l \<noteq> 1 \<longleftrightarrow> length l \<ge> 2" using l(1) by (cases l; cases "tl l") auto
    with c Some sole_member[OF l(1,2), of a] l(3) show ?thesis
      by (auto simp: resolve_cases s_def[symmetric])
  qed
qed

lemma resolve_iff:
  "resolve events selector = Inr a \<longleftrightarrow>
     (if selector \<in> artifact_ids events then a = selector else ids_at_path events selector = {a})"
  by (rule conjunct1[OF resolve_facts])

text \<open>A selector is resolved to an artifact exactly when it is the identifier of a recorded artifact,
  or else when it is the recorded path of exactly one. It is refused as ambiguous exactly when
  it is no identifier and the path of at least two, and then all of them are named.\<close>

theorem resolve_never_guesses:
  "(resolve events selector = Inr a \<longleftrightarrow>
      (if selector \<in> artifact_ids events then a = selector else ids_at_path events selector = {a})) \<and>
   (resolve events selector = Inl (AmbiguousSelector selector ms) \<longleftrightarrow>
      selector \<notin> artifact_ids events \<and> card (ids_at_path events selector) \<ge> 2 \<and>
      ms = sorted_list_of_set (ids_at_path events selector))"
  by (rule resolve_facts)

subsection \<open>What an exit code says\<close>

lemma tool_errors_exit: "exit_code (check_error_exit e) > 2"
  by (cases e) auto

lemma for_status_codes:
  "exit_code (for_status_with_reasons s rs acc) \<le> 2"
  "exit_code (for_status_with_reasons s rs acc) = 0 \<longleftrightarrow>
     s = Valid \<or> s = LikelyValid \<and> acc \<and> (\<forall>r\<in>set rs. reason r \<notin> {VolatileWithinTtlUnprobed, ProbeUnknown})"
  "exit_code (for_status_with_reasons s rs acc) = 1 \<longleftrightarrow> s = Stale"
  by (cases s; auto simp: for_status_with_reasons_def list_ex_iff Let_def)+

text \<open>The exit code of \<open>freshdag check\<close> is contractual. It is at most 2 exactly when a
  certificate was issued (and printed); it is 0 exactly when its status is Valid, or
  LikelyValid with the flag given and no reason that stands for an edge no probe confirmed;
  it is 1 exactly when the status is Stale. Every failure of the tool exits above 2.\<close>

theorem check_exit_codes:
  "(exit_code (check_exit json acc pretty result) \<le> 2 \<longleftrightarrow>
      (\<exists>c. result = Inr c \<and> \<not> (json \<and> isl (pretty (ck_certificate c))))) \<and>
   (exit_code (check_exit json acc pretty result) = 0 \<longleftrightarrow>
      (\<exists>c. result = Inr c \<and> \<not> (json \<and> isl (pretty (ck_certificate c))) \<and>
         (let s = ct_status (ck_certificate c) in
          st_value s = Valid \<or> st_value s = LikelyValid \<and> acc \<and>
            \<not> (\<exists>r\<in>set (st_reasons s). reason r = VolatileWithinTtlUnprobed \<or> reason r = ProbeUnknown)))) \<and>
   (exit_code (check_exit json acc pretty result) = 1 \<longleftrightarrow>
      (\<exists>c. result = Inr c \<and> \<not> (json \<and> isl (pretty (ck_certificate c))) \<and>
         st_value (ct_status (ck_certificate c)) = Stale))"
proof (cases result)
  case (Inl e)
  with tool_errors_exit[of e] show ?thesis by (auto simp: check_exit_def)
next
  case (Inr c)
  show ?thesis
  proof (cases "json \<and> isl (pretty (ck_certificate c))")
    case True
    with Inr show ?thesis by (auto simp: check_exit_def map_err_def isl_def Let_def)
  next
    case False
    then have e: "check_exit json acc pretty (Inr c) =
        for_status_with_reasons (st_value (ct_status (ck_certificate c))) (st_reasons (ct_status (ck_certificate c))) acc"
      by (auto simp: check_exit_def map_err_def Let_def split: sum.splits)
    show ?thesis
      unfolding Inr e for_status_codes Let_def using False for_status_codes(1) by auto
  qed
qed

lemma check_exit_zero:
  "exit_code (check_exit json acc pretty (Inr c)) = 0 \<Longrightarrow>
     st_value (ct_status (ck_certificate c)) = Valid \<or> st_value (ct_status (ck_certificate c)) = LikelyValid \<and> acc"
  by (auto simp: check_exit_def map_err_def for_status_codes Let_def split: if_splits sum.splits)

lemma check_exit_valid:
  "st_value (ct_status (ck_certificate c)) = Valid \<Longrightarrow> exit_code (check_exit False acc pretty (Inr c)) = 0"
  by (simp add: check_exit_def Let_def for_status_with_reasons_def)

lemma check_run_Inr:
  assumes "check_run lib env root selector = Inr c"
  obtains sto events artifact outcome where "env_log_is_file env" "opened_store lib env root = Inr sto"
    "read_log (o_read_event lib) (log_path root) (env_log env) = Inr events"
    "resolve events selector = Inr artifact"
    "fst (engine_check (o_tadd lib) (o_hex lib) (o_write_certificate lib) (env_now env) (env_world env)
        (check_engine lib env events (sto_coverage sto)) artifact) = Inr outcome"
    "chk_certificate outcome = ck_certificate c"
  using assms by (auto simp: check_run_def res_bind_def map_err_def split: if_splits sum.splits)

subsection \<open>From exit code 0 to the world\<close>

lemma check_probe_schemes:
  assumes "select_probe (snd (env_probes lib env)) sch key = Inr sel"
  shows "sch = ''file'' \<and> sel_probe sel = seeing fst (file_probe (o_hex lib) (env_base env)) \<or>
    (\<exists>exec. sch = ''https'' \<and> env_https env = Inr exec \<and>
       sel_probe sel = seeing snd (https_probe (o_url lib) (o_hex lib) exec https_config_default))"
  using assms
  by (cases "env_https env")
     (auto simp: env_probes_def check_probes_def registered_def register_probe_def select_probe_def Let_def
       seeing_def file_probe_def https_probe_def probe_identity_derive_def split: if_splits)

definition confirmed_now :: "'u outside \<Rightarrow> 'h check_env \<Rightarrow> nat \<Rightarrow> dependency \<Rightarrow> bool" where
  \<comment> \<open>the \<open>i\<close>-th dependency was read or asked for in this run and showed the recorded fingerprint\<close>
  "confirmed_now lib env i d \<longleftrightarrow>
     dep_scheme d = ''file'' \<and>
       (\<exists>b. contents (fst (env_world env i)) (file_resolve (env_base env) (dep_key d)) = Some b \<and>
          dep_fingerprint d = \<lparr>fp_kind = ContentHash, fp_payload = ''blake3:'' @ o_hex lib b\<rparr>) \<or>
     dep_scheme d = ''https'' \<and>
       (\<exists>exec ofp otc. env_https env = Inr exec \<and>
          https_check (o_url lib) (o_hex lib) exec https_config_default (snd (env_world env i)) (dep_key d)
            (dep_fingerprint d) (dep_ttl_seconds d) = ProbeMatch ofp otc \<and>
          https_subject (dep_fingerprint d) \<noteq> None \<and> https_subject ofp = https_subject (dep_fingerprint d))"

lemma match_confirms:
  assumes "select_probe (snd (env_probes lib env)) (dep_scheme d) (dep_key d) = Inr sel"
    and "p_check (sel_probe sel) (env_world env i) (dep_key d) (dep_fingerprint d) (dep_ttl_seconds d) = ProbeMatch ofp otc"
  shows "confirmed_now lib env i d"
  using check_probe_schemes[OF assms(1)]
proof (elim disjE exE conjE)
  assume s: "dep_scheme d = ''file''" "sel_probe sel = seeing fst (file_probe (o_hex lib) (env_base env))"
  with assms(2) have "file_check (o_hex lib) (env_base env) (fst (env_world env i)) (dep_key d) (dep_fingerprint d)
      (dep_ttl_seconds d) = ProbeMatch ofp otc"
    by (simp add: seeing_def file_probe_def)
  with s show ?thesis
    unfolding file_match confirmed_now_def by (cases "dep_fingerprint d") auto
next
  fix exec assume s: "dep_scheme d = ''https''" "env_https env = Inr exec"
    "sel_probe sel = seeing snd (https_probe (o_url lib) (o_hex lib) exec https_config_default)"
  with assms(2) have m: "https_check (o_url lib) (o_hex lib) exec https_config_default (snd (env_world env i)) (dep_key d)
      (dep_fingerprint d) (dep_ttl_seconds d) = ProbeMatch ofp otc"
    by (simp add: seeing_def https_probe_def)
  from https_contract.match_same[OF m] m s show ?thesis
    unfolding confirmed_now_def by blast
qed

lemma check_exit_zero_reasons:
  assumes "exit_code (check_exit json acc pretty (Inr c)) = 0"
  shows "st_value (ct_status (ck_certificate c)) = Valid \<or>
    st_value (ct_status (ck_certificate c)) = LikelyValid \<and> acc \<and>
    (\<forall>r\<in>set (st_reasons (ct_status (ck_certificate c))). reason r \<notin> {VolatileWithinTtlUnprobed, ProbeUnknown})"
  using assms by (auto simp: check_exit_def map_err_def for_status_codes Let_def split: if_splits sum.splits)

text \<open>C21: End to end: what exit code 0 of \<open>freshdag check\<close> means. The selector names exactly one
  recorded artifact of the log the command read; the certificate is the one of that artifact and of
  the only computation that produced it, and lists the dependencies recorded for that
  computation, at least one. Its status is Valid, or LikelyValid when \<open>--accept-likely-valid\<close> was given and no reason
  says that an edge went unprobed or undecided. Either way each dependency was confirmed during this run:
  a file dependency could be read, and its recorded fingerprint is the printed BLAKE3 digest of the
  bytes it then held; any other dependency is an https one, and the response showed the recorded
  validator or digest again. Under a Valid status each was recorded at class Exact or Versioned.\<close>

theorem exit_zero_means_unchanged:
  assumes "check_run lib env root selector = Inr c"
    and "exit_code (check_exit json acc pretty (Inr c)) = 0"
  shows "\<exists>sto events a comp n. opened_store lib env root = Inr sto \<and>
    read_log (o_read_event lib) (log_path root) (env_log env) = Inr events \<and>
    (if selector \<in> artifact_ids events then a = selector else ids_at_path events selector = {a}) \<and>
    artifact_id (ct_artifact (ck_certificate c)) = a \<and>
    map cn_computation_id (filter (\<lambda>n. a \<in> set (cn_artifacts n))
      (bm_values (dg_computations (replay (o_msg lib) events (sto_coverage sto))))) = [comp] \<and>
    graph_computation (replay (o_msg lib) events (sto_coverage sto)) comp = Some n \<and>
    pb_computation_id (ct_produced_by (ck_certificate c)) = comp \<and>
    ct_depends_on (ck_certificate c) = cn_dependencies n \<and> cn_dependencies n \<noteq> [] \<and>
    (st_value (ct_status (ck_certificate c)) = Valid \<and>
       list_all (\<lambda>d. dep_trust_class d \<in> {Exact, Versioned}) (cn_dependencies n) \<or>
     st_value (ct_status (ck_certificate c)) = LikelyValid \<and> acc \<and>
       list_all (\<lambda>r. reason r \<notin> {VolatileWithinTtlUnprobed, ProbeUnknown}) (st_reasons (ct_status (ck_certificate c)))) \<and>
    (\<forall>i<length (cn_dependencies n). confirmed_now lib env i (cn_dependencies n ! i))"
proof -
  note zero = check_exit_zero_reasons[OF assms(2)]
  obtain sto :: store and events a and out :: check_outcome where
    r: "opened_store lib env root = Inr sto" "read_log (o_read_event lib) (log_path root) (env_log env) = Inr events"
      "resolve events selector = Inr a"
    and e: "fst (engine_check (o_tadd lib) (o_hex lib) (o_write_certificate lib) (env_now env) (env_world env)
        (check_engine lib env events (sto_coverage sto)) a) = Inr out" and cert: "chk_certificate out = ck_certificate c"
    using assms(1) by (rule check_run_Inr) blast
  let ?eng = "check_engine lib env events (sto_coverage sto)"
  have ok: "engine_ok (o_msg lib) (sto_coverage sto) ?eng"
    by (simp add: check_engine_def)
  have eng: "eng_registry ?eng = snd (env_probes lib env)"
      "eng_graph ?eng = replay (o_msg lib) events (sto_coverage sto)"
    by (simp_all add: check_engine_def engine_build_def)
  have usable: "is_usable (st_value (ct_status (chk_certificate out)))"
    using zero by (auto simp: is_usable_def cert)
  have reasons: "st_value (ct_status (chk_certificate out)) = Valid \<or>
      (\<forall>r\<in>set (st_reasons (ct_status (chk_certificate out))). reason r \<notin> {VolatileWithinTtlUnprobed, ProbeUnknown})"
    using zero unfolding cert by blast
  obtain comp n where k:
    "map cn_computation_id (filter (\<lambda>n. a \<in> set (cn_artifacts n)) (bm_values (dg_computations (eng_graph ?eng)))) = [comp]"
    "graph_computation (eng_graph ?eng) comp = Some n" "artifact_id (ct_artifact (chk_certificate out)) = a"
    "pb_computation_id (ct_produced_by (chk_certificate out)) = comp"
    "ct_depends_on (chk_certificate out) = cn_dependencies n" "cn_dependencies n \<noteq> []"
    and probed: "\<forall>i<length (cn_dependencies n). \<forall>d. d = cn_dependencies n ! i \<longrightarrow>
       (\<exists>sel ofp otc. select_probe (eng_registry ?eng) (dep_scheme d) (dep_key d) = Inr sel \<and>
         p_check (sel_probe sel) (env_world env i) (dep_key d) (dep_fingerprint d) (dep_ttl_seconds d) = ProbeMatch ofp otc)"
    using ok e usable reasons by (rule usable_check_confirmed)
  have named: "if selector \<in> artifact_ids events then a = selector else ids_at_path events selector = {a}"
    using r(3) unfolding resolve_iff .
  have now: "\<forall>i<length (cn_dependencies n). confirmed_now lib env i (cn_dependencies n ! i)"
  proof (intro allI impI)
    fix i assume "i < length (cn_dependencies n)"
    then obtain sel ofp otc where
      "select_probe (snd (env_probes lib env)) (dep_scheme (cn_dependencies n ! i)) (dep_key (cn_dependencies n ! i)) = Inr sel"
      "p_check (sel_probe sel) (env_world env i) (dep_key (cn_dependencies n ! i))
         (dep_fingerprint (cn_dependencies n ! i)) (dep_ttl_seconds (cn_dependencies n ! i)) = ProbeMatch ofp otc"
      using probed unfolding eng(1) by metis
    then show "confirmed_now lib env i (cn_dependencies n ! i)"
      by (rule match_confirms)
  qed
  have trusted: "list_all (\<lambda>d. dep_trust_class d \<in> {Exact, Versioned}) (cn_dependencies n)"
    if "st_value (ct_status (chk_certificate out)) = Valid"
    unfolding list_all_length
  proof (intro allI impI)
    fix i assume "i < length (cn_dependencies n)"
    then show "dep_trust_class (cn_dependencies n ! i) \<in> {Exact, Versioned}"
      using valid_dependency[OF ok e that, unfolded k(5), OF _ refl] by blast
  qed
  have status: "st_value (ct_status (ck_certificate c)) = Valid \<and>
       list_all (\<lambda>d. dep_trust_class d \<in> {Exact, Versioned}) (cn_dependencies n) \<or>
     st_value (ct_status (ck_certificate c)) = LikelyValid \<and> acc \<and>
       list_all (\<lambda>r. reason r \<notin> {VolatileWithinTtlUnprobed, ProbeUnknown}) (st_reasons (ct_status (ck_certificate c)))"
    using zero trusted unfolding cert list_all_iff by (elim disjE) simp_all
  show ?thesis
    by (rule exI[of _ sto], rule exI[of _ events], rule exI[of _ a], rule exI[of _ comp], rule exI[of _ n])
       (intro conjI, fact r(1), fact r(2), fact named, fact k(3)[unfolded cert], fact k(1)[unfolded eng(2)],
        fact k(2)[unfolded eng(2)], fact k(4)[unfolded cert], fact k(5)[unfolded cert], fact k(6), fact status, fact now)
qed

subsection \<open>A whole run\<close>

definition sample_bodies :: "string list" where
  "sample_bodies = map (\<lambda>i. replicate (i + 1) CHR ''e'') [0..<length sample_log]"

definition sample_lib :: "unit outside" where
  "sample_lib = \<lparr>o_url = \<lparr>u_parse = (\<lambda>_. None), u_scheme = (\<lambda>_. []), u_join = (\<lambda>_ _. None),
       u_host = (\<lambda>_. None), u_port = (\<lambda>_. None), u_port_or_default = (\<lambda>_. None), u_string = (\<lambda>_. [])\<rparr>,
     o_tadd = exact_clock_add, o_hex = (\<lambda>_. digest_hex zero_hash), o_msg = no_text,
     o_write_certificate = (\<lambda>_. Inr []),
     o_read_event = (\<lambda>s. if length s - 1 < length sample_log then Inr (sample_log ! (length s - 1)) else Inl []),
     o_read_registration = (\<lambda>_. Inr \<lparr>rg_registered_at = 0, rg_manifest = obs_manifest\<rparr>)\<rparr>"

definition sample_env :: "unit check_env" where
  "sample_env = \<lparr>env_log_is_file = True, env_mkdir_error = None, env_opened = Inr (lines_of sample_bodies),
     env_coverage = ReadBytes (lines_of [''m'']), env_log = ReadBytes (lines_of sample_bodies),
     env_current_dir = Some ''/'', env_https = Inl ''no client'', env_now = 5, env_world = (\<lambda>_. (one_file, ()))\<rparr>"

lemma sample_read: "read_log (o_read_event sample_lib) path (env_log sample_env) = Inr sample_log"
proof -
  have "log_holds (o_read_event sample_lib) sample_log (lines_of sample_bodies)"
    unfolding log_holds_def
    by (intro exI[of _ sample_bodies]) (simp add: sample_bodies_def sample_lib_def sample_log_def newline_def
        numeral_3_eq_3)
  then show ?thesis by (simp add: sample_env_def read_iff_holds)
qed

lemma sample_opened:
  "opened_store sample_lib sample_env root =
     Inr \<lparr>sto_root = root, sto_sink = sink_with_options (log_path root) sink_options_default (lines_of sample_bodies),
       sto_coverage = \<lparr>cr_path = Some (coverage_path root), cr_manifests = cr_manifests obs_registry\<rparr>\<rparr>"
  by (simp add: opened_store_def store_with_options_def sample_env_def registry_open_def sample_lib_def
      split_on_append[of newline "''m''" "[]"] newline_def key_of_manifest_def obs_manifest_def obs_registry_def)

lemma sample_resolved: "resolve sample_log ''art'' = Inr ''art''"
  by code_simp

definition sample_outcome :: "engine_error + check_outcome" where
  "sample_outcome = fst (engine_check (o_tadd sample_lib) (o_hex sample_lib) (o_write_certificate sample_lib)
     (env_now sample_env) (env_world sample_env) (check_engine sample_lib sample_env sample_log
       \<lparr>cr_path = Some (coverage_path ''.freshdag''), cr_manifests = cr_manifests obs_registry\<rparr>) ''art'')"

lemma sample_checked:
  "case sample_outcome of Inl _ \<Rightarrow> False
   | Inr c \<Rightarrow> st_value (ct_status (chk_certificate c)) = Valid \<and>
       map dep_key (ct_depends_on (chk_certificate c)) = [''file:///a'']"
  by code_simp

lemma case_Inr_iff: "(case r of Inl _ \<Rightarrow> False | Inr c \<Rightarrow> P c) \<longleftrightarrow> (\<exists>c. r = Inr c \<and> P c)"
  by (cases r) auto

lemma sample_run:
  "\<exists>c :: checked. check_run sample_lib sample_env ''.freshdag'' ''art'' = Inr c \<and>
     st_value (ct_status (ck_certificate c)) = Valid \<and> map dep_key (ct_depends_on (ck_certificate c)) = [''file:///a'']"
proof -
  obtain c :: check_outcome where c: "sample_outcome = Inr c" "st_value (ct_status (chk_certificate c)) = Valid"
      "map dep_key (ct_depends_on (chk_certificate c)) = [''file:///a'']"
    using sample_checked unfolding case_Inr_iff by (elim exE conjE)
  have "env_log_is_file sample_env" by (simp add: sample_env_def)
  with c show ?thesis
    by (simp add: check_run_def sample_opened sample_read sample_resolved map_err_def sample_outcome_def)
qed

definition flag_log :: "ir_event list" where
  \<comment> \<open>as the sample log, but the dependency is a probe's report of class heuristic\<close>
  "flag_log =
     [sample_event 1 1 ComputationStarted (JObj [(''recipe_hash'', JStr (hash_display sample_hash))]),
      sample_event 2 2 ProbeChecked (JObj [(''key'', JStr ''/a''), (''observed_fingerprint'', JStr (hash_display zero_hash)),
        (''scheme'', JStr ''file''), (''trust_class'', JStr ''heuristic'')]),
      sample_event 3 3 ArtifactProduced (JObj [(''artifact_id'', JStr ''art''),
        (''content_hash'', JStr (hash_display sample_hash)), (''kind'', JStr ''file'')])]"

definition flag_lib :: "unit outside" where
  "flag_lib = sample_lib\<lparr>o_read_event :=
     (\<lambda>s. if length s - 1 < length flag_log then Inr (flag_log ! (length s - 1)) else Inl [])\<rparr>"

lemma flag_read: "read_log (o_read_event flag_lib) path (env_log sample_env) = Inr flag_log"
proof -
  have "log_holds (o_read_event flag_lib) flag_log (lines_of sample_bodies)"
    unfolding log_holds_def
    by (intro exI[of _ sample_bodies]) (simp add: sample_bodies_def sample_log_def flag_lib_def flag_log_def newline_def
        numeral_3_eq_3)
  then show ?thesis by (simp add: sample_env_def read_iff_holds)
qed

lemma flag_same [simp]:
  "o_url flag_lib = o_url sample_lib" "o_tadd flag_lib = o_tadd sample_lib" "o_hex flag_lib = o_hex sample_lib"
  "o_msg flag_lib = o_msg sample_lib" "o_write_certificate flag_lib = o_write_certificate sample_lib"
  "o_read_registration flag_lib = o_read_registration sample_lib"
  by (simp_all add: flag_lib_def)

lemma flag_engine: "check_engine flag_lib env events cov = check_engine sample_lib env events cov"
  "opened_store flag_lib env root = opened_store sample_lib env root"
  by (simp_all add: check_engine_def env_probes_def opened_store_def)

definition flag_outcome :: "engine_error + check_outcome" where
  "flag_outcome = fst (engine_check (o_tadd sample_lib) (o_hex sample_lib) (o_write_certificate sample_lib)
     (env_now sample_env) (env_world sample_env) (check_engine sample_lib sample_env flag_log
       \<lparr>cr_path = Some (coverage_path ''.freshdag''), cr_manifests = cr_manifests obs_registry\<rparr>) ''art'')"

lemma flag_checked:
  "case flag_outcome of Inl _ \<Rightarrow> False
   | Inr c \<Rightarrow> st_value (ct_status (chk_certificate c)) = LikelyValid \<and>
       map reason (st_reasons (ct_status (chk_certificate c))) = [TrustClassHeuristicCapsAtLikelyValid] \<and>
       map dep_key (ct_depends_on (chk_certificate c)) = [''file:///a'']"
  by code_simp

lemma flag_run:
  "\<exists>c :: checked. check_run flag_lib sample_env ''.freshdag'' ''art'' = Inr c \<and>
     st_value (ct_status (ck_certificate c)) = LikelyValid \<and>
     map reason (st_reasons (ct_status (ck_certificate c))) = [TrustClassHeuristicCapsAtLikelyValid] \<and>
     map dep_key (ct_depends_on (ck_certificate c)) = [''file:///a'']"
proof -
  obtain c :: check_outcome where c: "flag_outcome = Inr c" "st_value (ct_status (chk_certificate c)) = LikelyValid"
      "map reason (st_reasons (ct_status (chk_certificate c))) = [TrustClassHeuristicCapsAtLikelyValid]"
      "map dep_key (ct_depends_on (chk_certificate c)) = [''file:///a'']"
    using flag_checked unfolding case_Inr_iff by (elim exE conjE)
  have "env_log_is_file sample_env" by (simp add: sample_env_def)
  moreover have "resolve flag_log ''art'' = Inr ''art''" by code_simp
  ultimately show ?thesis
    using c by (simp add: check_run_def flag_engine sample_opened flag_read map_err_def flag_outcome_def)
qed

lemma check_exit_accepted:
  "st_value (ct_status (ck_certificate c)) = LikelyValid \<Longrightarrow>
     map reason (st_reasons (ct_status (ck_certificate c))) = [TrustClassHeuristicCapsAtLikelyValid] \<Longrightarrow>
     exit_code (check_exit False acc pretty (Inr c)) = (if acc then 0 else 2)"
  by (auto simp: check_exit_def Let_def for_status_with_reasons_def map_eq_Cons_conv)

lemma sample_world:
  "env_https sample_env = Inl ''no client''" "fst (env_world sample_env 0) = one_file" "env_base sample_env = ''/''"
  by (simp_all add: sample_env_def env_base_def)

lemma art_in_logs: "''art'' \<in> artifact_ids sample_log" "''art'' \<in> artifact_ids flag_log"
  unfolding artifact_ids_def by (simp_all add: sample_log_def flag_log_def) (simp_all add: sample_event_def str_at_def)

lemma confirmed_file:
  assumes "confirmed_now lib sample_env 0 d" and "dep_key d = ''file:///a''"
  shows "\<exists>b. contents one_file ''/a'' = Some b \<and> fp_payload (dep_fingerprint d) = ''blake3:'' @ o_hex lib b"
proof -
  have "file_resolve ''/'' ''file:///a'' = ''/a''" by code_simp
  then show ?thesis
    using assms(1) unfolding confirmed_now_def sample_world assms(2) by auto
qed

theorem exit_zero_means_unchanged_witness:
  "list_all (\<lambda>(lib, acc). \<exists>(c :: checked) b. check_run lib sample_env ''.freshdag'' ''art'' = Inr c \<and>
       exit_code (check_exit False acc (\<lambda>_. Inl []) (Inr c)) = 0 \<and>
       st_value (ct_status (ck_certificate c)) = (if acc then LikelyValid else Valid) \<and>
       artifact_id (ct_artifact (ck_certificate c)) = ''art'' \<and>
       map dep_key (ct_depends_on (ck_certificate c)) = [''file:///a''] \<and>
       contents one_file ''/a'' = Some b \<and>
       map (fp_payload \<circ> dep_fingerprint) (ct_depends_on (ck_certificate c)) = [''blake3:'' @ o_hex lib b])
     [(sample_lib, False), (flag_lib, True)]"
proof -
  have "\<exists>b. artifact_id (ct_artifact (ck_certificate c)) = ''art'' \<and> contents one_file ''/a'' = Some b \<and>
       map (fp_payload \<circ> dep_fingerprint) (ct_depends_on (ck_certificate c)) = [''blake3:'' @ o_hex lib b]"
    if c: "check_run lib sample_env ''.freshdag'' ''art'' = Inr c" "map dep_key (ct_depends_on (ck_certificate c)) = [''file:///a'']"
      and x: "exit_code (check_exit False acc (\<lambda>_. Inl []) (Inr c)) = 0"
      and log: "\<And>events. read_log (o_read_event lib) (log_path ''.freshdag'') (env_log sample_env) = Inr events \<Longrightarrow>
        ''art'' \<in> artifact_ids events" for lib acc and c :: checked
  proof -
    obtain d where d: "ct_depends_on (ck_certificate c) = [d]" "dep_key d = ''file:///a''"
      using c(2) by (auto simp: map_eq_Cons_conv)
    obtain events a and n :: computation_node where
        r: "read_log (o_read_event lib) (log_path ''.freshdag'') (env_log sample_env) = Inr events"
        "if ''art'' \<in> artifact_ids events then a = ''art'' else ids_at_path events ''art'' = {a}"
        "artifact_id (ct_artifact (ck_certificate c)) = a" "ct_depends_on (ck_certificate c) = cn_dependencies n"
        "\<forall>i<length (cn_dependencies n). confirmed_now lib sample_env i (cn_dependencies n ! i)"
      using exit_zero_means_unchanged[OF c(1) x] by (elim exE conjE) (rule that)
    have "a = ''art''" using r(2) log[OF r(1)] by simp
    moreover have "confirmed_now lib sample_env 0 d"
      using r(5) unfolding r(4)[symmetric] d(1) by simp
    ultimately show ?thesis
      using confirmed_file d r(3) by auto
  qed
  note run = this
  obtain c :: checked where c: "check_run sample_lib sample_env ''.freshdag'' ''art'' = Inr c"
      "st_value (ct_status (ck_certificate c)) = Valid" "map dep_key (ct_depends_on (ck_certificate c)) = [''file:///a'']"
    using sample_run by (elim exE conjE)
  obtain f :: checked where f: "check_run flag_lib sample_env ''.freshdag'' ''art'' = Inr f"
      "st_value (ct_status (ck_certificate f)) = LikelyValid"
      "map reason (st_reasons (ct_status (ck_certificate f))) = [TrustClassHeuristicCapsAtLikelyValid]"
      "map dep_key (ct_depends_on (ck_certificate f)) = [''file:///a'']"
    using flag_run by (elim exE conjE)
  have x: "exit_code (check_exit False False (\<lambda>_. Inl []) (Inr c)) = 0"
    "exit_code (check_exit False True (\<lambda>_. Inl []) (Inr f)) = 0"
    using check_exit_valid[OF c(2)] check_exit_accepted[OF f(2,3)] by simp_all
  have l: "read_log (o_read_event sample_lib) (log_path ''.freshdag'') (env_log sample_env) = Inr events \<Longrightarrow>
        ''art'' \<in> artifact_ids events"
    "read_log (o_read_event flag_lib) (log_path ''.freshdag'') (env_log sample_env) = Inr events \<Longrightarrow>
        ''art'' \<in> artifact_ids events" for events
    using art_in_logs by (simp_all add: sample_read flag_read)
  show ?thesis
    using run[OF c(1,3) x(1) l(1)] run[OF f(1,4) x(2) l(2)] c x f by auto
qed

end
