(* ===== verification/Cli_Mark.thy ===== *)
theory Cli_Mark
  imports Cli_Check
begin

section \<open>\<open>freshdag mark\<close>\<close>

text \<open>
  \<open>crates/freshdag-cli/src/mark.rs\<close>: declaring a file to be an artifact of the computation that
  the store records writing it. The resolution of a path by the operating system is the
  function \<open>canon\<close> (\<open>fs::canonicalize\<close>), the identifier and time of the event are arguments,
  and the fates of the writes are those of \<open>Store_Log\<close>.
\<close>

definition cli_producer :: string where
  "cli_producer = ''freshdag-cli''"

definition cli_version :: string where
  "cli_version = ''0.0.0''"

datatype mark_error =
    MarkNoStore string
  | MarkStore store_error
  | Unreadable (un_path: string) (un_source: string)
  | NoRecordedWrite string
  | ContentDrifted (cd_path: string) (cd_recorded: string) (cd_on_disk: string)
  | NoComputation string
  | MarkDropped u64
  | UnverifiableWrite (uw_path: string) (uw_tool_hint: string)

fun mark_error_exit :: "mark_error \<Rightarrow> exit" where
  "mark_error_exit (MarkNoStore _) = ExitStoreError"
| "mark_error_exit (MarkStore _) = ExitStoreError"
| "mark_error_exit (MarkDropped _) = ExitStoreError"
| "mark_error_exit (Unreadable _ _) = ExitUsage"
| "mark_error_exit (NoRecordedWrite _) = ExitUsage"
| "mark_error_exit (ContentDrifted _ _ _) = ExitUsage"
| "mark_error_exit (NoComputation _) = ExitUsage"
| "mark_error_exit (UnverifiableWrite _ _) = ExitUsage"

record marked =
  mk_artifact :: artifact_id
  mk_computation :: computation_id
  mk_path :: string

subsection \<open>Attribution\<close>

definition same_file :: "(string \<Rightarrow> string + string) \<Rightarrow> string \<Rightarrow> string \<Rightarrow> bool" where
  \<comment> \<open>the first comparison is that of \<open>Path\<close>s, the second that of the resolved paths\<close>
  "same_file canon recorded target =
     (path_eq recorded target \<or>
      (case (canon recorded, canon target) of (Inr a, Inr b) \<Rightarrow> path_eq a b | _ \<Rightarrow> False))"

definition writes_path :: "(string \<Rightarrow> string + string) \<Rightarrow> string \<Rightarrow> ir_event \<Rightarrow> bool" where
  "writes_path canon path e \<longleftrightarrow> ev_kind e = FsWrite \<and>
     (case str_at (ev_payload e) ''path'' of None \<Rightarrow> False | Some p \<Rightarrow> same_file canon p path)"

definition latest_write_of :: "(string \<Rightarrow> string + string) \<Rightarrow> ir_event list \<Rightarrow> string \<Rightarrow> ir_event option" where
  "latest_write_of canon events path = find (writes_path canon path) (rev (linearize events))"

definition unverifiable_hint :: string where
  "unverifiable_hint = ''no `hash` on the recorded fs.write '' @ [CHR 0xE2, CHR 0x80, CHR 0x94] @
     '' Edit/MultiEdit/NotebookEdit payloads carry only a splice, and a denied tool call still records the write''"

definition attribute ::
  "(string \<Rightarrow> string + string) \<Rightarrow> ir_event list \<Rightarrow> string \<Rightarrow> hash \<Rightarrow> mark_error + (ir_event \<times> computation_id)" where
  \<comment> \<open>the guards of \<open>run\<close> between the reading of the log and the first write\<close>
  "attribute canon events target on_disk =
     res_bind (ok_or (NoRecordedWrite target) (latest_write_of canon events target)) (\<lambda>write.
     res_bind (ok_or (UnverifiableWrite target unverifiable_hint) (str_at (ev_payload write) ''hash'')) (\<lambda>recorded.
     if recorded \<noteq> hash_display on_disk then Inl (ContentDrifted target recorded (hash_display on_disk))
     else res_bind (ok_or (NoComputation target) (ev_computation_id write)) (\<lambda>c. Inr (write, c))))"

subsection \<open>What is recorded\<close>

definition mark_manifest :: coverage_manifest where
  "mark_manifest =
     \<lparr>cm_producer = cli_producer, cm_version = cli_version, cm_role = Adapter, cm_platforms = [''any''],
      cm_emits = [''artifact.produced''], cm_partial = [],
      cm_capabilities = [(''attributes_to'', JStr ''the most recent recorded fs.write of the marked path'')],
      cm_known_limitations =
        [''records an artifact only when a user runs `freshdag mark`; it observes nothing on its own'',
         ''attributes the artifact to the last computation the store records writing the path, and refuses when the file'' @ [CHR 0x27] @ ''s bytes no longer match that write'']\<rparr>"

definition publish_manifest ::
  "(string \<Rightarrow> string + coverage_registration) \<Rightarrow> (coverage_registration \<Rightarrow> string + string) \<Rightarrow> append_outcome
     \<Rightarrow> instant \<Rightarrow> string \<Rightarrow> read_outcome \<Rightarrow> string \<Rightarrow> (mark_error + unit) \<times> string" where
  \<comment> \<open>the reading of the registry file and its bytes; the result and its bytes afterwards\<close>
  "publish_manifest parse ser outcome now root coverage disk =
     (case registry_open parse (coverage_path root) coverage of
        Inl e \<Rightarrow> (Inl (MarkStore e), disk)
      | Inr registry \<Rightarrow>
          (if registry_manifest registry (key_of_manifest mark_manifest) \<noteq> None then (Inr (), disk)
           else
             (case register_at ser outcome mark_manifest now registry disk of
                (Inl e, disk) \<Rightarrow> (Inl (MarkStore e), disk)
              | (Inr _, disk) \<Rightarrow> (Inr (), disk))))"

definition file_name_of :: "string \<Rightarrow> string option" where
  \<comment> \<open>\<open>Path::file_name\<close>: the last component, unless it is the parent directory\<close>
  "file_name_of p =
     (case rev (snd (path_components p)) of
        [] \<Rightarrow> None
      | c # _ \<Rightarrow> if c = ''..'' \<or> c = ''.'' then None else Some c)"

definition extension_of :: "string \<Rightarrow> string option" where
  \<comment> \<open>\<open>Path::extension\<close>: what follows the last dot of the file name, which must not be its first byte\<close>
  "extension_of p =
     (case file_name_of p of
        None \<Rightarrow> None
      | Some name \<Rightarrow>
          (let ext = rev (takeWhile (\<lambda>c. c \<noteq> CHR ''.'') (rev name))
           in if length ext + 1 < length name then Some ext else None))"

definition media_types :: "(string list \<times> string) list" where
  "media_types =
     [([''md'', ''markdown''], ''text/markdown''),
      ([''txt'', ''text''], ''text/plain''),
      ([''json''], ''application/json''),
      ([''jsonl'', ''ndjson''], ''application/x-ndjson''),
      ([''csv''], ''text/csv''),
      ([''html'', ''htm''], ''text/html''),
      ([''toml''], ''application/toml''),
      ([''yaml'', ''yml''], ''application/yaml''),
      ([''rs''], ''text/x-rust''),
      ([''py''], ''text/x-python''),
      ([''js'', ''mjs''], ''text/javascript''),
      ([''ts''], ''text/x-typescript''),
      ([''sql''], ''application/sql''),
      ([''pdf''], ''application/pdf''),
      ([''png''], ''image/png''),
      ([''svg''], ''image/svg+xml'')]"

definition media_type_of :: "string \<Rightarrow> string" where
  "media_type_of path =
     (case map_option (map ascii_lower) (extension_of path) of
        None \<Rightarrow> ''application/octet-stream''
      | Some ext \<Rightarrow>
          (case find (\<lambda>(exts, _). ext \<in> set exts) media_types of
             Some (_, media_type) \<Rightarrow> media_type
           | None \<Rightarrow> ''application/octet-stream''))"

definition mark_event ::
  "uuid \<Rightarrow> instant \<Rightarrow> ir_event \<Rightarrow> computation_id \<Rightarrow> string \<Rightarrow> hash \<Rightarrow> string option \<Rightarrow> nat \<Rightarrow> ir_event" where
  "mark_event fresh_id now write c target on_disk kind nbytes =
     (let recorded_path = (case str_at (ev_payload write) ''path'' of Some p \<Rightarrow> p | None \<Rightarrow> target)
      in \<lparr>ev_event_id = fresh_id, ev_producer = cli_producer, ev_producer_version = cli_version,
          ev_session_id = ev_session_id write, ev_computation_id = Some c, ev_parent_id = None,
          ev_causal_inputs = Some [ev_event_id write], ev_ts = now, ev_kind = ArtifactProduced,
          ev_payload = json_obj [
            (''artifact_id'', JStr (hash_display on_disk)),
            (''path'', JStr recorded_path),
            (''content_hash'', JStr (hash_display on_disk)),
            (''kind'', JStr (case kind of None \<Rightarrow> media_type_of target | Some k \<Rightarrow> k)),
            (''size'', JUInt (of_nat nbytes)),
            (''produced_by'', JStr c)]\<rparr>)"

record mark_env =
  me_is_dir :: bool
  me_canon :: "string \<Rightarrow> string + string"
  me_bytes :: "string + string"        \<comment> \<open>\<open>fs::read\<close> of the resolved path\<close>
  me_mkdir_error :: "string option"
  me_opened :: "string + string"
  me_coverage :: read_outcome
  me_log :: read_outcome
  me_registry :: string                \<comment> \<open>the bytes of the registry file\<close>
  me_coverage_again :: read_outcome    \<comment> \<open>the reading of \<open>publish_manifest\<close>\<close>
  me_register :: append_outcome
  me_write :: write_fate
  me_sync_error :: "string option"
  me_fresh_id :: uuid
  me_now :: instant

record mark_disk =
  \<comment> \<open>the two files of the store afterwards\<close>
  md_log :: string
  md_registry :: string

definition mark_run ::
  "'u outside \<Rightarrow> (ir_event \<Rightarrow> string + string) \<Rightarrow> (coverage_registration \<Rightarrow> string + string)
     \<Rightarrow> (ir_event \<Rightarrow> u64 \<Rightarrow> ir_event) \<Rightarrow> mark_env \<Rightarrow> string \<Rightarrow> string \<Rightarrow> string option
     \<Rightarrow> (mark_error + marked) \<times> mark_disk" where
  "mark_run lib ser ser_reg note env root path kind =
     (let disk0 = \<lparr>md_log = (case me_opened env of Inl _ \<Rightarrow> [] | Inr d \<Rightarrow> d), md_registry = me_registry env\<rparr> in
      if \<not> me_is_dir env then (Inl (MarkNoStore root), disk0)
      else case me_canon env path of
        Inl e \<Rightarrow> (Inl (Unreadable path e), disk0)
      | Inr target \<Rightarrow>
      (case me_bytes env of
        Inl e \<Rightarrow> (Inl (Unreadable target e), disk0)
      | Inr bytes \<Rightarrow>
      (let on_disk = \<lparr>algo = Blake3, digest_hex = o_hex lib bytes\<rparr> in
       case store_with_options (o_read_registration lib) sink_options_default (me_mkdir_error env)
              (me_opened env) (me_coverage env) root of
        Inl e \<Rightarrow> (Inl (MarkStore e), disk0)
      | Inr sto \<Rightarrow>
      (case read_log (o_read_event lib) (log_path root) (me_log env) of
        Inl e \<Rightarrow> (Inl (MarkStore e), disk0)
      | Inr events \<Rightarrow>
      (case attribute (me_canon env) events target on_disk of
        Inl e \<Rightarrow> (Inl e, disk0)
      | Inr (write, c) \<Rightarrow>
      (case publish_manifest (o_read_registration lib) ser_reg (me_register env) (me_now env) root
              (me_coverage_again env) (md_registry disk0) of
        (Inl e, registry) \<Rightarrow> (Inl e, disk0\<lparr>md_registry := registry\<rparr>)
      | (Inr _, registry) \<Rightarrow>
      (let event = mark_event (me_fresh_id env) (me_now env) write c target on_disk kind (length bytes) in
       case sink_append ser note (me_write env) event (sto_sink sto) (md_log disk0) of
        (Inl e, log, _) \<Rightarrow> (Inl (MarkStore e), \<lparr>md_log = log, md_registry = registry\<rparr>)
      | (Inr (DroppedNewest n), log, _) \<Rightarrow> (Inl (MarkDropped n), \<lparr>md_log = log, md_registry = registry\<rparr>)
      | (Inr SinkAppended, log, sink) \<Rightarrow>
          (map_err MarkStore (res_bind (sink_sync (me_sync_error env) sink) (\<lambda>_.
             Inr \<lparr>mk_artifact = hash_display on_disk, mk_computation = c, mk_path = target\<rparr>)),
           \<lparr>md_log = log, md_registry = registry\<rparr>))))))))"

subsection \<open>Properties\<close>

lemma find_split:
  "find p ys = Some x \<longleftrightarrow> (\<exists>as bs. ys = as @ x # bs \<and> p x \<and> (\<forall>y\<in>set as. \<not> p y))"
proof (induction ys)
  case (Cons y ys)
  show ?case
  proof (cases "p y")
    case True
    then show ?thesis by (auto simp: Cons_eq_append_conv)
  next
    case False
    have "(\<exists>as bs. y # ys = as @ x # bs \<and> p x \<and> (\<forall>z\<in>set as. \<not> p z)) \<longleftrightarrow>
        (\<exists>as bs. ys = as @ x # bs \<and> p x \<and> (\<forall>z\<in>set as. \<not> p z))" (is "?l \<longleftrightarrow> ?r")
    proof
      assume ?l
      with False show ?r by (auto simp: Cons_eq_append_conv)
    next
      assume ?r
      then obtain as bs where "ys = as @ x # bs" "p x" "\<forall>z\<in>set as. \<not> p z" by blast
      with False show ?l by (intro exI[of _ "y # as"] exI[of _ bs]) simp
    qed
    with Cons False show ?thesis by simp
  qed
qed simp

lemma find_rev_last:
  "find p (rev xs) = Some x \<longleftrightarrow> (\<exists>as bs. xs = as @ x # bs \<and> p x \<and> (\<forall>y\<in>set bs. \<not> p y))"
proof -
  have "(\<exists>as bs. rev xs = as @ x # bs \<and> p x \<and> (\<forall>y\<in>set as. \<not> p y)) \<longleftrightarrow>
      (\<exists>as bs. xs = rev bs @ x # rev as \<and> p x \<and> (\<forall>y\<in>set as. \<not> p y))"
    by (auto simp: rev_swap)
  also have "\<dots> \<longleftrightarrow> (\<exists>as bs. xs = as @ x # bs \<and> p x \<and> (\<forall>y\<in>set bs. \<not> p y))"
    by (metis rev_rev_ident set_rev)
  finally show ?thesis unfolding find_split .
qed

lemma attribute_Inr:
  "attribute canon events target on_disk = Inr (write, c) \<longleftrightarrow>
     latest_write_of canon events target = Some write \<and>
     str_at (ev_payload write) ''hash'' = Some (hash_display on_disk) \<and> ev_computation_id write = Some c"
  by (auto simp: attribute_def ok_or_def res_bind_def split: option.splits if_splits)

lemma mark_run_Inr:
  assumes "mark_run lib ser ser_reg note env root path kind = (Inr m, d)"
  obtains target bytes sto events wr registry sk where
    "me_canon env path = Inr target" "me_bytes env = Inr bytes"
    "store_with_options (o_read_registration lib) sink_options_default (me_mkdir_error env)
       (me_opened env) (me_coverage env) root = Inr sto"
    "read_log (o_read_event lib) (log_path root) (me_log env) = Inr events"
    "attribute (me_canon env) events target \<lparr>algo = Blake3, digest_hex = o_hex lib bytes\<rparr> = Inr (wr, mk_computation m)"
    "publish_manifest (o_read_registration lib) ser_reg (me_register env) (me_now env) root
       (me_coverage_again env) (me_registry env) = (Inr (), registry)"
    "sink_append ser note (me_write env) (mark_event (me_fresh_id env) (me_now env) wr (mk_computation m) target
       \<lparr>algo = Blake3, digest_hex = o_hex lib bytes\<rparr> kind (length bytes)) (sto_sink sto)
       (case me_opened env of Inl _ \<Rightarrow> [] | Inr x \<Rightarrow> x) = (Inr SinkAppended, md_log d, sk)"
    "mk_artifact m = ''blake3:'' @ o_hex lib bytes" "mk_path m = target"
  using assms
  by (auto simp: mark_run_def Let_def map_err_def res_bind_def hash_display_def
      split: if_splits sum.splits prod.splits sink_outcome.splits)

text \<open>C22: A mark attributes an artifact on evidence only. When it succeeds, its identifier is the digest
  of the bytes now on disk, the log holds a write of that file which recorded exactly that
  digest, no later write of that file in canonical order exists, and the computation named is
  the one that write belongs to.\<close>

theorem mark_attributes_on_evidence:
  assumes "mark_run lib ser ser_reg note env root path kind = (Inr m, d)"
  shows "\<exists>target bytes events before write after.
    me_canon env path = Inr target \<and> me_bytes env = Inr bytes \<and>
    read_log (o_read_event lib) (log_path root) (me_log env) = Inr events \<and>
    linearize events = before @ write # after \<and> writes_path (me_canon env) target write \<and>
    (\<forall>e\<in>set after. \<not> writes_path (me_canon env) target e) \<and>
    mk_artifact m = ''blake3:'' @ o_hex lib bytes \<and>
    str_at (ev_payload write) ''hash'' = Some (mk_artifact m) \<and> ev_computation_id write = Some (mk_computation m)"
  using assms
proof (rule mark_run_Inr)
  fix target bytes events wr
  assume *: "me_canon env path = Inr target" "me_bytes env = Inr bytes"
    "read_log (o_read_event lib) (log_path root) (me_log env) = Inr events"
    "attribute (me_canon env) events target \<lparr>algo = Blake3, digest_hex = o_hex lib bytes\<rparr> = Inr (wr, mk_computation m)"
    "mk_artifact m = ''blake3:'' @ o_hex lib bytes"
  then obtain before after where "linearize events = before @ wr # after" "writes_path (me_canon env) target wr"
      "\<forall>e\<in>set after. \<not> writes_path (me_canon env) target e"
    unfolding attribute_Inr latest_write_of_def find_rev_last by blast
  moreover have "str_at (ev_payload wr) ''hash'' = Some (mk_artifact m)"
    "ev_computation_id wr = Some (mk_computation m)"
    using * by (simp_all add: attribute_Inr hash_display_def)
  ultimately show ?thesis using * by blast
qed

text \<open>A refused mark leaves both files of the store as they were: neither an event nor a manifest is
  written before every guard has passed.\<close>

theorem refused_mark_records_nothing:
  "mark_run lib ser ser_reg note env root path kind = (Inl e, d) \<Longrightarrow>
   (case e of MarkStore _ \<Rightarrow> False | MarkDropped _ \<Rightarrow> False | _ \<Rightarrow> True) \<Longrightarrow>
   md_log d = (case me_opened env of Inl _ \<Rightarrow> [] | Inr x \<Rightarrow> x) \<and> md_registry d = me_registry env"
  by (auto simp: mark_run_def Let_def map_err_def res_bind_def publish_manifest_def sink_sync_def
      split: if_splits sum.splits prod.splits sink_outcome.splits option.splits)

subsection \<open>From a mark to a check\<close>

lemma artifact_of_classify:
  "artifact_of (fst (classify msg e p w arts c)) =
     (if ev_kind e = ArtifactProduced then str_at (ev_payload e) ''artifact_id'' else None)"
proof (cases "ev_kind e = ArtifactProduced")
  case True
  then show ?thesis by (auto simp: classify_def classify_artifact_def split: option.splits)
next
  case False
  have "artifact_of (classify_read msg e p w arts c) = None"
    by (auto simp: classify_read_def Let_def split: sum.splits typed_payload.splits option.splits)
  moreover have "artifact_of (fst (classify_write msg e w)) = None"
    by (auto simp: classify_write_def Let_def split: sum.splits typed_payload.splits)
  moreover have "artifact_of (classify_probe e) = None"
    by (auto simp: classify_probe_def Let_def split: sum.splits option.splits)
  moreover have "artifact_of (classify_tool e) = None"
    by (auto simp: classify_tool_def split: option.splits)
  ultimately show ?thesis
    using False by (auto simp: classify_def split: event_kind.splits)
qed

lemma map_artifacts:
  "List.map_filter (artifact_of \<circ> snd) (own_outcomes msg arts c w pes) =
     List.map_filter (\<lambda>e. if ev_kind e = ArtifactProduced then str_at (ev_payload e) ''artifact_id'' else None)
       (map snd pes)"
  by (induction pes arbitrary: w) (auto simp: artifact_of_classify map_filter_Cons split: option.splits)

definition records :: "artifact_id \<Rightarrow> ir_event \<Rightarrow> bool" where
  "records a e \<longleftrightarrow> ev_kind e = ArtifactProduced \<and> str_at (ev_payload e) ''artifact_id'' = Some a"

lemma in_map_filter: "a \<in> set (List.map_filter f xs) \<longleftrightarrow> (\<exists>x\<in>set xs. f x = Some a)"
  by (induction xs) (auto simp: map_filter_Cons split: option.splits)

lemma replay_artifacts:
  assumes "graph_computation (replay msg es cov) c = Some n"
  shows "a \<in> set (cn_artifacts n) \<longleftrightarrow> (\<exists>e\<in>set es. ev_computation_id e = Some c \<and> records a e)"
proof -
  from assms have "cn_artifacts n = List.map_filter (artifact_of \<circ> snd) (replay_outcomes msg es c)"
    by (auto simp: replay_node own_node_fields split: if_splits)
  then have "cn_artifacts n = List.map_filter
      (\<lambda>e. if ev_kind e = ArtifactProduced then str_at (ev_payload e) ''artifact_id'' else None)
      (filter (\<lambda>e. ev_computation_id e = Some c) (linearize es))"
    by (simp only: node_outcomes_def map_artifacts map_snd_own_events)
  then show ?thesis
    by (auto simp: records_def in_map_filter linearize_set split: if_splits)
qed

lemma node_ids: "map cn_computation_id (bm_values (dg_computations (replay msg es cov))) =
    bm_keys (dg_computations (replay msg es cov))"
  by (auto dest!: replay_node_in[THEN iffD1] replay_node_id)

lemma sole_element: "set l = {c} \<Longrightarrow> distinct l \<Longrightarrow> l = [c]"
  by (cases l; cases "tl l") auto

lemma computation_for_unique:
  assumes "\<exists>e\<in>set es. ev_computation_id e = Some c \<and> records a e"
    and "\<And>e c'. e \<in> set es \<Longrightarrow> records a e \<Longrightarrow> ev_computation_id e = Some c' \<Longrightarrow> c' = c"
  shows "computation_for (replay msg es cov) a = Inr c"
proof -
  let ?g = "replay msg es cov"
  let ?l = "map cn_computation_id (filter (\<lambda>n. a \<in> set (cn_artifacts n)) (bm_values (dg_computations ?g)))"
  have "set ?l = {c}"
  proof (intro equalityI subsetI)
    fix c' assume "c' \<in> set ?l"
    then obtain n where "c' = cn_computation_id n" "a \<in> set (cn_artifacts n)"
      "n \<in> set (bm_values (dg_computations ?g))"
      unfolding set_map set_filter by blast
    moreover then obtain k where "graph_computation ?g k = Some n" unfolding in_bm_values by blast
    ultimately have "c' = cn_computation_id n" "a \<in> set (cn_artifacts n)" "graph_computation ?g k = Some n" by simp_all
    with replay_node_id[of msg es cov k n] have n: "graph_computation ?g c' = Some n" "a \<in> set (cn_artifacts n)"
      by simp_all
    with replay_artifacts[OF n(1)] assms(2) show "c' \<in> {c}" by blast
  next
    fix c' assume "c' \<in> {c}"
    moreover obtain n where n: "graph_computation ?g c = Some n"
      using assms(1) own_events_empty[of c es] replay_node[of msg es cov c] by metis
    moreover have "a \<in> set (cn_artifacts n)"
      using assms(1) replay_artifacts[OF n] by blast
    moreover have "n \<in> set (bm_values (dg_computations ?g))" using n unfolding in_bm_values by blast
    ultimately show "c' \<in> set ?l" using replay_node_id[OF n] by force
  qed
  moreover have "distinct ?l"
  proof -
    have "distinct (map cn_computation_id (bm_values (dg_computations ?g)))"
      unfolding node_ids using replay_computations_ok[of msg es cov] by (simp add: bm_ok_def strict_sorted_iff)
    then show ?thesis by (simp add: distinct_map_filter)
  qed
  ultimately have "?l = [c]" by (rule sole_element)
  then show ?thesis unfolding computation_for_Inr .
qed

lemma mark_event_simps [simp]:
  "ev_kind (mark_event i now w c t h k s) = ArtifactProduced"
  "ev_computation_id (mark_event i now w c t h k s) = Some c"
  "str_at (ev_payload (mark_event i now w c t h k s)) ''artifact_id'' = Some (hash_display h)"
  "str_at (ev_payload (mark_event i now w c t h k s)) ''content_hash'' = Some (hash_display h)"
  "str_at (ev_payload (mark_event i now w c t h k s)) ''produced_by'' = Some c"
  by (simp_all add: mark_event_def Let_def str_at_Some json_get_obj)

lemma mark_event_kind: "\<exists>kind. str_at (ev_payload (mark_event i now w c t h k s)) ''kind'' = Some kind"
  by (simp add: mark_event_def Let_def str_at_Some json_get_obj)

lemma records_artifact_ids: "(\<exists>e\<in>set es. records a e) \<longleftrightarrow> a \<in> artifact_ids es"
  by (auto simp: records_def artifact_ids_def)

lemma marked_is_found:
  assumes "a = hash_display h" "hash_wf h" "a \<notin> artifact_ids events"
    and ev: "ev = mark_event i now w c t h k s"
  shows "computation_for (replay msg (events @ [ev]) cov) a = Inr c \<and>
    (\<exists>art. engine_artifact_of (events @ [ev]) c a = Inr art \<and> artifact_id art = a \<and> artifact_content_hash art = h)"
proof
  have r: "records a ev" by (simp add: records_def ev assms(1))
  have n: "\<not> records a e" if "e \<in> set events" for e
    using assms(3) that by (auto simp: records_artifact_ids[symmetric])
  show "computation_for (replay msg (events @ [ev]) cov) a = Inr c"
    by (rule computation_for_unique) (use r n ev in auto)
  have "artifact_event (events @ [ev]) c a = find (\<lambda>e. records a e \<and> ev_computation_id e = Some c) (events @ [ev])"
    by (simp add: artifact_event_def records_def conj_ac)
  also have "\<dots> = Some ev"
    unfolding find_split using n r ev by (intro exI[of _ events] exI[of _ "[]"]) auto
  finally have f: "artifact_event (events @ [ev]) c a = Some ev" .
  show "\<exists>art. engine_artifact_of (events @ [ev]) c a = Inr art \<and> artifact_id art = a \<and> artifact_content_hash art = h"
  proof -
    have "parsed_hash (hash_display h) = Some h" using assms(2) by (simp add: parsed_hash_Some)
    then show ?thesis
      using mark_event_kind[of i now w c t h k s] f by (auto simp: engine_artifact_of_def ok_or_def ev)
  qed
qed

lemma resolve_id: "selector \<in> artifact_ids events \<Longrightarrow> resolve events selector = Inr selector"
  by (simp add: resolve_cases)

text \<open>C23: What mark records, check finds. After a successful mark of an artifact the log did not know,
  the log reads strictly and holds the old events and one more; over it, \<open>freshdag check\<close>
  resolves the artifact's identifier, the engine attributes it to the computation mark named,
  and the artifact it rebuilds from the log has the digest of the marked bytes.\<close>

theorem marked_artifact_can_be_checked:
  assumes "mark_run lib ser ser_reg note env root path kind = (Inr m, d)"
    and "codec_ok ser (o_read_event lib)" and "\<And>b. hash_wf \<lparr>algo = Blake3, digest_hex = o_hex lib b\<rparr>"
    and "me_opened env = Inr raw" and "me_log env = ReadBytes raw"
    and "read_log (o_read_event lib) (log_path root) (ReadBytes raw) = Inr events"
    and "mk_artifact m \<notin> artifact_ids events"
  shows "\<exists>ev art. read_log (o_read_event lib) (log_path root) (ReadBytes (md_log d)) = Inr (events @ [ev]) \<and>
    resolve (events @ [ev]) (mk_artifact m) = Inr (mk_artifact m) \<and>
    computation_for (replay msg (events @ [ev]) cov) (mk_artifact m) = Inr (mk_computation m) \<and>
    engine_artifact_of (events @ [ev]) (mk_computation m) (mk_artifact m) = Inr art \<and>
    hash_display (artifact_content_hash art) = mk_artifact m"
  using assms(1)
proof (rule mark_run_Inr)
  fix target bytes sto wr sk
  let ?h = "\<lparr>algo = Blake3, digest_hex = o_hex lib bytes\<rparr>"
  let ?ev = "mark_event (me_fresh_id env) (me_now env) wr (mk_computation m) target ?h kind (length bytes)"
  assume st: "store_with_options (o_read_registration lib) sink_options_default (me_mkdir_error env)
       (me_opened env) (me_coverage env) root = Inr sto"
    and ap: "sink_append ser note (me_write env) ?ev (sto_sink sto)
       (case me_opened env of Inl _ \<Rightarrow> [] | Inr x \<Rightarrow> x) = (Inr SinkAppended, md_log d, sk)"
    and a: "mk_artifact m = ''blake3:'' @ o_hex lib bytes"
  have a: "mk_artifact m = hash_display ?h" by (simp add: a hash_display_def)
  have "log_holds (o_read_event lib) events raw" using assms(6) by (simp add: read_iff_holds)
  from sink_append_Inr[OF assms(2) this ap[unfolded assms(4) sum.case]]
  have "read_log (o_read_event lib) (log_path root) (ReadBytes (md_log d)) = Inr (events @ [?ev])"
    by (simp add: read_iff_holds)
  moreover have "resolve (events @ [?ev]) (mk_artifact m) = Inr (mk_artifact m)"
    by (rule resolve_id) (simp add: records_artifact_ids[symmetric] records_def a)
  ultimately show ?thesis
    using marked_is_found[OF a assms(3) assms(7) refl, of msg "me_fresh_id env" "me_now env" wr "mk_computation m"
        target kind "length bytes" cov] a by metis
qed

subsection \<open>A small store\<close>

definition small_write :: ir_event where
  "small_write = (read_event 1 5 ''/a'')\<lparr>ev_kind := FsWrite,
     ev_payload := JObj [(''hash'', JStr (hash_display zero_hash)), (''path'', JStr ''/a'')]\<rparr>"

definition small_produced :: ir_event where
  "small_produced = mark_event 9 7 small_write ''comp:x'' ''/a'' zero_hash None 8"

definition small_lib :: "unit outside" where
  "small_lib = sample_lib\<lparr>o_read_event := (\<lambda>s. if s = ''w'' then Inr small_write
     else if s = ''p'' then Inr small_produced else Inl ''bad'')\<rparr>"

definition small_ser :: "ir_event \<Rightarrow> string + string" where
  "small_ser e = (if e = small_write then Inr ''w'' else if e = small_produced then Inr ''p'' else Inl ''no'')"

definition small_env :: mark_env where
  "small_env = \<lparr>me_is_dir = True, me_canon = (\<lambda>p. Inr ''/a''), me_bytes = Inr ''contents'', me_mkdir_error = None,
     me_opened = Inr (lines_of [''w'']), me_coverage = ReadNotFound, me_log = ReadBytes (lines_of [''w'']),
     me_registry = [], me_coverage_again = ReadNotFound, me_register = Appended, me_write = Written,
     me_sync_error = None, me_fresh_id = 9, me_now = 7\<rparr>"

lemma small_mark:
  "fst (mark_run small_lib small_ser (\<lambda>_. Inr ''m'') (\<lambda>e _. e) small_env ''.freshdag'' ''a'' None) =
     Inr \<lparr>mk_artifact = hash_display zero_hash, mk_computation = ''comp:x'', mk_path = ''/a''\<rparr>"
  by code_simp

lemma small_mark_run:
  "\<exists>d. mark_run small_lib small_ser (\<lambda>_. Inr ''m'') (\<lambda>e _. e) small_env ''.freshdag'' ''a'' None =
     (Inr \<lparr>mk_artifact = hash_display zero_hash, mk_computation = ''comp:x'', mk_path = ''/a''\<rparr>, d)"
  using small_mark by (metis prod.collapse)

theorem mark_attributes_on_evidence_witness:
  "\<exists>write :: ir_event. str_at (ev_payload write) ''hash'' = Some (hash_display zero_hash) \<and> ev_computation_id write = Some ''comp:x''"
proof -
  obtain d where "mark_run small_lib small_ser (\<lambda>_. Inr ''m'') (\<lambda>e _. e) small_env ''.freshdag'' ''a'' None =
     (Inr \<lparr>mk_artifact = hash_display zero_hash, mk_computation = ''comp:x'', mk_path = ''/a''\<rparr>, d)"
    using small_mark_run by (elim exE)
  from mark_attributes_on_evidence[OF this] show ?thesis unfolding marked.simps by (elim exE conjE) (rule exI, rule conjI, assumption, assumption)
qed

theorem refused_mark_records_nothing_witness:
  "\<exists>d. mark_run small_lib small_ser (\<lambda>_. Inr ''m'') (\<lambda>e _. e) (small_env\<lparr>me_bytes := Inl ''gone''\<rparr>) ''.freshdag'' ''a'' None =
      (Inl (Unreadable ''/a'' ''gone''), d) \<and> md_log d = lines_of [''w''] \<and> md_registry d = []"
proof -
  have "fst (mark_run small_lib small_ser (\<lambda>_. Inr ''m'') (\<lambda>e _. e) (small_env\<lparr>me_bytes := Inl ''gone''\<rparr>)
      ''.freshdag'' ''a'' None) = Inl (Unreadable ''/a'' ''gone'')"
    by code_simp
  then obtain d where d: "mark_run small_lib small_ser (\<lambda>_. Inr ''m'') (\<lambda>e _. e) (small_env\<lparr>me_bytes := Inl ''gone''\<rparr>)
      ''.freshdag'' ''a'' None = (Inl (Unreadable ''/a'' ''gone''), d)"
    by (metis prod.collapse)
  from refused_mark_records_nothing[OF d] d show ?thesis by (simp add: small_env_def)
qed

lemma small_codec_ok: "codec_ok small_ser (o_read_event small_lib)"
  by (simp add: codec_ok_def small_ser_def small_lib_def newline_def)

theorem marked_artifact_can_be_checked_witness:
  "\<exists>ev. resolve [small_write, ev] (hash_display zero_hash) = Inr (hash_display zero_hash) \<and>
     computation_for (replay no_text [small_write, ev] registry_in_memory) (hash_display zero_hash) = Inr ''comp:x''"
proof -
  obtain d where d: "mark_run small_lib small_ser (\<lambda>_. Inr ''m'') (\<lambda>e _. e) small_env ''.freshdag'' ''a'' None =
     (Inr \<lparr>mk_artifact = hash_display zero_hash, mk_computation = ''comp:x'', mk_path = ''/a''\<rparr>, d)"
    using small_mark_run by (elim exE)
  have h: "hash_wf \<lparr>algo = Blake3, digest_hex = o_hex small_lib b\<rparr>" for b
    by (simp add: small_lib_def sample_lib_def) code_simp
  have o: "me_opened small_env = Inr (lines_of [''w''])" "me_log small_env = ReadBytes (lines_of [''w''])"
    by (simp_all add: small_env_def)
  have r: "read_log (o_read_event small_lib) (log_path ''.freshdag'') (ReadBytes (lines_of [''w''])) = Inr [small_write]"
    unfolding read_iff_holds log_holds_def
    by (intro exI[of _ "[''w'']"]) (simp add: small_lib_def newline_def)
  have n: "mk_artifact \<lparr>mk_artifact = hash_display zero_hash, mk_computation = ''comp:x'', mk_path = ''/a''\<rparr>
      \<notin> artifact_ids [small_write]"
    by (simp add: artifact_ids_def small_write_def)
  from marked_artifact_can_be_checked[OF d small_codec_ok h o r n] show ?thesis by auto
qed

end
