(* ===== verification/Cli_Coverage.thy ===== *)
theory Cli_Coverage
  imports Cli_Check
begin

section \<open>\<open>freshdag coverage\<close>\<close>

text \<open>
  \<open>crates/freshdag-cli/src/coverage.rs\<close>: the report of how much of a session was observed, a fold
  over the derived graph and the log. Counts are natural numbers; the fraction, an \<open>f64\<close>
  quotient in the code, is kept as its two operands, which \<open>Cli_Console\<close> divides as the code does
  when it prints the report.
\<close>

datatype coverage_error =
    CoverageNoStore string
  | CoverageStore store_error
  | CoverageJson string

fun coverage_error_exit :: "coverage_error \<Rightarrow> exit" where
  "coverage_error_exit (CoverageNoStore _) = ExitUsage"
| "coverage_error_exit (CoverageStore _) = ExitStoreError"
| "coverage_error_exit (CoverageJson _) = ExitStoreError"

record report =
  rp_events :: nat
  rp_computations :: nat
  rp_deterministic :: bool
  rp_registered_producers :: "string list"
  rp_unregistered_producers :: "string list"
  rp_tool_calls :: "(string, nat) bmap"
  rp_blind_tool_calls :: nat
  rp_total_tool_calls :: nat
  rp_obligations :: nat
  rp_obligations_dischargeable :: bool
  rp_dependencies :: nat
  rp_excluded :: "(string, nat) bmap"
  rp_unproven :: nat
  rp_artifacts :: nat
  rp_computations_with_obligations :: nat
  rp_computations_with_dischargeable_obligations :: nat

definition report_default :: report where
  "report_default =
     \<lparr>rp_events = 0, rp_computations = 0, rp_deterministic = False, rp_registered_producers = [],
      rp_unregistered_producers = [], rp_tool_calls = [], rp_blind_tool_calls = 0, rp_total_tool_calls = 0,
      rp_obligations = 0, rp_obligations_dischargeable = False, rp_dependencies = 0, rp_excluded = [],
      rp_unproven = 0, rp_artifacts = 0, rp_computations_with_obligations = 0,
      rp_computations_with_dischargeable_obligations = 0\<rparr>"

definition u32_or_max :: "nat \<Rightarrow> nat" where
  \<comment> \<open>\<open>u32::try_from(n).unwrap_or(u32::MAX)\<close>\<close>
  "u32_or_max n = (if n < 2 ^ 32 then n else 2 ^ 32 - 1)"

definition observable_fraction :: "report \<Rightarrow> (nat \<times> nat) option" where
  "observable_fraction r =
     (if rp_total_tool_calls r = 0 then None
      else Some (u32_or_max (rp_total_tool_calls r - rp_blind_tool_calls r), u32_or_max (rp_total_tool_calls r)))"

fun exclusion_label :: "exclusion_reason \<Rightarrow> string" where
  "exclusion_label ReadAfterOwnWrite = ''read-after-own-write''"
| "exclusion_label Impure = ''impure''"
| "exclusion_label NoFingerprint = ''no-fingerprint''"
| "exclusion_label ExcludedNakedVolatile = ''naked-volatile''"
| "exclusion_label (MalformedPayload _) = ''malformed-payload''"

definition count_excluded :: "excluded_edge \<Rightarrow> report \<Rightarrow> report" where
  "count_excluded x r =
     (let r = r\<lparr>rp_excluded := bump (exclusion_label (xe_reason x)) (rp_excluded r)\<rparr>
      in if is_unproven_dependency (xe_reason x) then r\<lparr>rp_unproven := rp_unproven r + 1\<rparr> else r)"

definition note_unregistered :: "producer_key \<Rightarrow> report \<Rightarrow> report" where
  "note_unregistered key r =
     (let name = producer_key_display key
      in if name \<in> set (rp_unregistered_producers r) then r
         else r\<lparr>rp_unregistered_producers := rp_unregistered_producers r @ [name]\<rparr>)"

definition count_node :: "derived_graph \<Rightarrow> computation_node \<Rightarrow> report \<Rightarrow> report" where
  \<comment> \<open>one turn of the loop over \<open>graph.computations()\<close>\<close>
  "count_node g node r =
     (let r = r\<lparr>rp_computations := rp_computations r + 1,
                rp_dependencies := rp_dependencies r + length (cn_dependencies node),
                rp_obligations := rp_obligations r + length (cn_obligations node),
                rp_artifacts := rp_artifacts r + length (cn_artifacts node)\<rparr>;
          r = fold count_excluded (cn_excluded node) r
      in case graph_attribution g (cn_computation_id node) of
           None \<Rightarrow> r
         | Some attribution \<Rightarrow>
             (let r = fold note_unregistered (cc_unregistered attribution) r
              in if cn_obligations node = [] then r
                 else
                   (let r = r\<lparr>rp_computations_with_obligations := rp_computations_with_obligations r + 1\<rparr>
                    in if has_fs_covered_observer (cc_entries attribution)
                       then r\<lparr>rp_computations_with_dischargeable_obligations :=
                              rp_computations_with_dischargeable_obligations r + 1\<rparr>
                       else r)))"

definition tool_kind_of :: "ir_event \<Rightarrow> string" where
  "tool_kind_of event =
     (case str_at (ev_payload event) ''tool_kind'' of None \<Rightarrow> ''<no tool_kind>'' | Some k \<Rightarrow> k)"

definition count_tool_call :: "ir_event \<Rightarrow> report \<Rightarrow> report" where
  "count_tool_call event r =
     (if ev_kind event \<noteq> ToolInvoked then r
      else
        let kind = tool_kind_of event;
            r = r\<lparr>rp_tool_calls := bump kind (rp_tool_calls r),
                  rp_total_tool_calls := rp_total_tool_calls r + 1\<rparr>
        in if kind \<noteq> ''builtin'' then r\<lparr>rp_blind_tool_calls := rp_blind_tool_calls r + 1\<rparr> else r)"

definition report_of :: "ir_event list \<Rightarrow> coverage_registry \<Rightarrow> derived_graph \<Rightarrow> report" where
  "report_of events registry g =
     (let r = report_default\<lparr>rp_events := length events, rp_deterministic := dg_deterministic g\<rparr>;
          r = r\<lparr>rp_registered_producers := map (\<lambda>(key, _). producer_key_display key) (cr_manifests registry)\<rparr>;
          r = fold (count_node g) (bm_values (dg_computations g)) r;
          r = fold count_tool_call events r
      in r\<lparr>rp_obligations_dischargeable := rp_computations_with_obligations r > 0 \<and>
             rp_computations_with_dischargeable_obligations r = rp_computations_with_obligations r\<rparr>)"

definition coverage_run :: "'u outside \<Rightarrow> 'h check_env \<Rightarrow> string \<Rightarrow> coverage_error + report" where
  "coverage_run lib env root =
     (if \<not> env_log_is_file env then Inl (CoverageNoStore root)
      else
        res_bind (map_err CoverageStore (opened_store lib env root)) (\<lambda>sto.
        res_bind (map_err CoverageStore (read_log (o_read_event lib) (log_path root) (env_log env))) (\<lambda>events.
        Inr (report_of events (sto_coverage sto) (replay (o_msg lib) events (sto_coverage sto))))))"

definition coverage_exit :: "bool \<Rightarrow> (report \<Rightarrow> string + string) \<Rightarrow> coverage_error + report \<Rightarrow> exit" where
  \<comment> \<open>the exit of \<open>coverage_command\<close>\<close>
  "coverage_exit json pretty result =
     (case result of
        Inl e \<Rightarrow> coverage_error_exit e
      | Inr r \<Rightarrow>
          if json then (case map_err CoverageJson (pretty r) of Inl e \<Rightarrow> coverage_error_exit e | Inr _ \<Rightarrow> ExitValid)
          else ExitValid)"

subsection \<open>What the report counts\<close>

lemma map_of_bump: "map_of (bump k m) j = (if j = k then Some ((case map_of m k of None \<Rightarrow> 0 | Some n \<Rightarrow> n) + 1) else map_of m j)"
  by (simp add: bump_def bm_alter_def)

definition count_at :: "string \<Rightarrow> (string, nat) bmap \<Rightarrow> nat" where
  "count_at k m = (case map_of m k of None \<Rightarrow> 0 | Some n \<Rightarrow> n)"

lemma count_at_bump [simp]: "count_at k (bump j m) = count_at k m + (if k = j then 1 else 0)"
  by (simp add: count_at_def map_of_bump)

lemma count_excluded_fields [simp]:
  "rp_events (count_excluded x r) = rp_events r" "rp_computations (count_excluded x r) = rp_computations r"
  "rp_dependencies (count_excluded x r) = rp_dependencies r" "rp_obligations (count_excluded x r) = rp_obligations r"
  "rp_artifacts (count_excluded x r) = rp_artifacts r"
  "rp_total_tool_calls (count_excluded x r) = rp_total_tool_calls r"
  "rp_blind_tool_calls (count_excluded x r) = rp_blind_tool_calls r"
  "rp_tool_calls (count_excluded x r) = rp_tool_calls r"
  "rp_unregistered_producers (count_excluded x r) = rp_unregistered_producers r"
  "rp_computations_with_obligations (count_excluded x r) = rp_computations_with_obligations r"
  "rp_computations_with_dischargeable_obligations (count_excluded x r) = rp_computations_with_dischargeable_obligations r"
  "rp_unproven (count_excluded x r) = rp_unproven r + (if is_unproven_dependency (xe_reason x) then 1 else 0)"
  "count_at k (rp_excluded (count_excluded x r)) = count_at k (rp_excluded r) + (if exclusion_label (xe_reason x) = k then 1 else 0)"
  by (auto simp: count_excluded_def Let_def)

lemma fold_excluded:
  "rp_events (fold count_excluded xs r) = rp_events r" "rp_computations (fold count_excluded xs r) = rp_computations r"
  "rp_dependencies (fold count_excluded xs r) = rp_dependencies r" "rp_obligations (fold count_excluded xs r) = rp_obligations r"
  "rp_artifacts (fold count_excluded xs r) = rp_artifacts r"
  "rp_total_tool_calls (fold count_excluded xs r) = rp_total_tool_calls r"
  "rp_blind_tool_calls (fold count_excluded xs r) = rp_blind_tool_calls r"
  "rp_tool_calls (fold count_excluded xs r) = rp_tool_calls r"
  "rp_unregistered_producers (fold count_excluded xs r) = rp_unregistered_producers r"
  "rp_computations_with_obligations (fold count_excluded xs r) = rp_computations_with_obligations r"
  "rp_computations_with_dischargeable_obligations (fold count_excluded xs r) = rp_computations_with_dischargeable_obligations r"
  "rp_unproven (fold count_excluded xs r) = rp_unproven r + length (filter (\<lambda>x. is_unproven_dependency (xe_reason x)) xs)"
  "count_at k (rp_excluded (fold count_excluded xs r)) =
     count_at k (rp_excluded r) + length (filter (\<lambda>x. exclusion_label (xe_reason x) = k) xs)"
  by (induction xs arbitrary: r) simp_all

definition same_counts :: "report \<Rightarrow> report \<Rightarrow> bool" where
  \<comment> \<open>equal but for the unregistered producers\<close>
  "same_counts r r' \<longleftrightarrow> r\<lparr>rp_unregistered_producers := []\<rparr> = r'\<lparr>rp_unregistered_producers := []\<rparr>"

lemma fold_unregistered:
  "same_counts (fold note_unregistered ks r) r"
  "set (rp_unregistered_producers (fold note_unregistered ks r)) =
     set (rp_unregistered_producers r) \<union> producer_key_display ` set ks"
  "distinct (rp_unregistered_producers r) \<Longrightarrow> distinct (rp_unregistered_producers (fold note_unregistered ks r))"
proof (induction ks arbitrary: r)
  case Nil
  { case 1 show ?case by (simp add: same_counts_def) }
  { case 2 show ?case by simp }
  { case 3 then show ?case by simp }
next
  case (Cons k ks)
  { case 1 show ?case using Cons(1)[of "note_unregistered k r"]
      by (auto simp: same_counts_def note_unregistered_def Let_def) }
  { case 2 show ?case using Cons(2)[of "note_unregistered k r"]
      by (auto simp: note_unregistered_def Let_def) }
  { case 3 then show ?case using Cons(3)[of "note_unregistered k r"]
      by (auto simp: note_unregistered_def Let_def) }
qed

lemma same_counts_fields:
  assumes "same_counts r r'"
  shows "rp_events r = rp_events r'" "rp_computations r = rp_computations r'"
    "rp_dependencies r = rp_dependencies r'" "rp_obligations r = rp_obligations r'"
    "rp_artifacts r = rp_artifacts r'" "rp_total_tool_calls r = rp_total_tool_calls r'"
    "rp_blind_tool_calls r = rp_blind_tool_calls r'" "rp_tool_calls r = rp_tool_calls r'"
    "rp_excluded r = rp_excluded r'" "rp_unproven r = rp_unproven r'"
    "rp_computations_with_obligations r = rp_computations_with_obligations r'"
    "rp_computations_with_dischargeable_obligations r = rp_computations_with_dischargeable_obligations r'"
  using assms by (cases r; cases r'; simp add: same_counts_def)+

lemma count_node_fields:
  assumes "graph_attribution g (cn_computation_id n) = Some a"
  shows "rp_computations (count_node g n r) = rp_computations r + 1"
    "rp_dependencies (count_node g n r) = rp_dependencies r + length (cn_dependencies n)"
    "rp_obligations (count_node g n r) = rp_obligations r + length (cn_obligations n)"
    "rp_artifacts (count_node g n r) = rp_artifacts r + length (cn_artifacts n)"
    "rp_total_tool_calls (count_node g n r) = rp_total_tool_calls r"
    "rp_blind_tool_calls (count_node g n r) = rp_blind_tool_calls r"
    "rp_tool_calls (count_node g n r) = rp_tool_calls r"
    "rp_unproven (count_node g n r) = rp_unproven r +
       length (filter (\<lambda>x. is_unproven_dependency (xe_reason x)) (cn_excluded n))"
    "rp_computations_with_obligations (count_node g n r) = rp_computations_with_obligations r +
       (if cn_obligations n = [] then 0 else 1)"
    "rp_computations_with_dischargeable_obligations (count_node g n r) =
       rp_computations_with_dischargeable_obligations r +
       (if cn_obligations n \<noteq> [] \<and> has_fs_covered_observer (cc_entries a) then 1 else 0)"
    "count_at k (rp_excluded (count_node g n r)) = count_at k (rp_excluded r) +
       length (filter (\<lambda>x. exclusion_label (xe_reason x) = k) (cn_excluded n))"
  using same_counts_fields[OF fold_unregistered(1)]
  by (simp_all add: count_node_def assms fold_excluded Let_def)

lemma fold_count_node:
  assumes "\<And>n. n \<in> set ns \<Longrightarrow> graph_attribution g (cn_computation_id n) \<noteq> None"
  shows "rp_computations (fold (count_node g) ns r) = rp_computations r + length ns"
    "rp_dependencies (fold (count_node g) ns r) = rp_dependencies r + sum_list (map (\<lambda>n. length (cn_dependencies n)) ns)"
    "rp_obligations (fold (count_node g) ns r) = rp_obligations r + sum_list (map (\<lambda>n. length (cn_obligations n)) ns)"
    "rp_artifacts (fold (count_node g) ns r) = rp_artifacts r + sum_list (map (\<lambda>n. length (cn_artifacts n)) ns)"
    "rp_total_tool_calls (fold (count_node g) ns r) = rp_total_tool_calls r"
    "rp_blind_tool_calls (fold (count_node g) ns r) = rp_blind_tool_calls r"
    "rp_tool_calls (fold (count_node g) ns r) = rp_tool_calls r"
    "rp_computations_with_obligations (fold (count_node g) ns r) = rp_computations_with_obligations r +
       length (filter (\<lambda>n. cn_obligations n \<noteq> []) ns)"
    "rp_computations_with_dischargeable_obligations (fold (count_node g) ns r) =
       rp_computations_with_dischargeable_obligations r +
       length (filter (\<lambda>n. cn_obligations n \<noteq> [] \<and>
         has_fs_covered_observer (cc_entries (the (graph_attribution g (cn_computation_id n))))) ns)"
  using assms
proof (induction ns arbitrary: r)
  case (Cons n ns)
  { case 1
    then obtain a where a: "graph_attribution g (cn_computation_id n) = Some a" by fastforce
    from 1 Cons.IH(1)[of "count_node g n r"] count_node_fields[OF a] a show ?case by simp }
  { case 2
    then obtain a where a: "graph_attribution g (cn_computation_id n) = Some a" by fastforce
    from 2 Cons.IH(2)[of "count_node g n r"] count_node_fields[OF a] a show ?case by simp }
  { case 3
    then obtain a where a: "graph_attribution g (cn_computation_id n) = Some a" by fastforce
    from 3 Cons.IH(3)[of "count_node g n r"] count_node_fields[OF a] a show ?case by simp }
  { case 4
    then obtain a where a: "graph_attribution g (cn_computation_id n) = Some a" by fastforce
    from 4 Cons.IH(4)[of "count_node g n r"] count_node_fields[OF a] a show ?case by simp }
  { case 5
    then obtain a where a: "graph_attribution g (cn_computation_id n) = Some a" by fastforce
    from 5 Cons.IH(5)[of "count_node g n r"] count_node_fields[OF a] a show ?case by simp }
  { case 6
    then obtain a where a: "graph_attribution g (cn_computation_id n) = Some a" by fastforce
    from 6 Cons.IH(6)[of "count_node g n r"] count_node_fields[OF a] a show ?case by simp }
  { case 7
    then obtain a where a: "graph_attribution g (cn_computation_id n) = Some a" by fastforce
    from 7 Cons.IH(7)[of "count_node g n r"] count_node_fields[OF a] a show ?case by simp }
  { case 8
    then obtain a where a: "graph_attribution g (cn_computation_id n) = Some a" by fastforce
    from 8 Cons.IH(8)[of "count_node g n r"] count_node_fields[OF a] a show ?case by simp }
  { case 9
    then obtain a where a: "graph_attribution g (cn_computation_id n) = Some a" by fastforce
    from 9 Cons.IH(9)[of "count_node g n r"] count_node_fields[OF a] a show ?case by simp }
qed simp_all

lemma fold_tool_calls:
  "rp_total_tool_calls (fold count_tool_call es r) = rp_total_tool_calls r +
     length (filter (\<lambda>e. ev_kind e = ToolInvoked) es)"
  "rp_blind_tool_calls (fold count_tool_call es r) = rp_blind_tool_calls r +
     length (filter (\<lambda>e. ev_kind e = ToolInvoked \<and> tool_kind_of e \<noteq> ''builtin'') es)"
  "count_at k (rp_tool_calls (fold count_tool_call es r)) = count_at k (rp_tool_calls r) +
     length (filter (\<lambda>e. ev_kind e = ToolInvoked \<and> tool_kind_of e = k) es)"
  "rp_computations (fold count_tool_call es r) = rp_computations r"
  "rp_dependencies (fold count_tool_call es r) = rp_dependencies r"
  "rp_obligations (fold count_tool_call es r) = rp_obligations r"
  "rp_computations_with_obligations (fold count_tool_call es r) = rp_computations_with_obligations r"
  "rp_computations_with_dischargeable_obligations (fold count_tool_call es r) = rp_computations_with_dischargeable_obligations r"
  by (induction es arbitrary: r) (auto simp: count_tool_call_def Let_def)

lemma attributed:
  "n \<in> set (bm_values (dg_computations (replay msg es cov))) \<Longrightarrow>
     graph_attribution (replay msg es cov) (cn_computation_id n) \<noteq> None"
  unfolding in_bm_values by (auto simp: replay_attribution dest: replay_node_id)

lemma assembled_observer:
  "graph_attribution g c = Some a \<Longrightarrow>
     has_fs_covered_observer (assembled_coverage g c) = has_fs_covered_observer (cc_entries a)"
  by (simp add: assembled_coverage_def has_fs_covered_observer_def engine_coverage_entry_def
      discharges_subprocess_obligation_def)

lemma length_filter_all: "length (filter (\<lambda>x. P x \<and> Q x) xs) = length (filter P xs) \<longleftrightarrow> (\<forall>x\<in>set xs. P x \<longrightarrow> Q x)"
proof (induction xs)
  case (Cons x xs)
  have "length (filter (\<lambda>x. P x \<and> Q x) xs) \<le> length (filter P xs)"
    by (induction xs) auto
  with Cons show ?case by auto
qed simp

lemma report_dischargeable:
  fixes msg es cov
  defines "g \<equiv> replay msg es cov"
  shows "rp_obligations_dischargeable (report_of es cov g) \<longleftrightarrow>
    (\<exists>c n. graph_computation g c = Some n \<and> cn_obligations n \<noteq> []) \<and>
    \<not> (\<exists>c n. graph_computation g c = Some n \<and> cn_obligations n \<noteq> [] \<and>
         \<not> has_fs_covered_observer (assembled_coverage g c))"
proof -
  define ns where "ns = bm_values (dg_computations g)"
  define obs where "obs = (\<lambda>n :: computation_node. has_fs_covered_observer (cc_entries (the (graph_attribution g (cn_computation_id n)))))"
  have a: "graph_attribution g (cn_computation_id n) \<noteq> None" if "n \<in> set ns" for n
    using attributed that unfolding g_def ns_def by blast
  have "rp_obligations_dischargeable (report_of es cov g) \<longleftrightarrow>
      0 < length (filter (\<lambda>n. cn_obligations n \<noteq> []) ns) \<and>
      length (filter (\<lambda>n. cn_obligations n \<noteq> [] \<and> obs n) ns) = length (filter (\<lambda>n. cn_obligations n \<noteq> []) ns)"
    by (simp add: report_of_def Let_def fold_tool_calls fold_count_node[OF a] report_default_def obs_def
        ns_def[symmetric])
  also have "\<dots> \<longleftrightarrow> (\<exists>n\<in>set ns. cn_obligations n \<noteq> []) \<and> (\<forall>n\<in>set ns. cn_obligations n \<noteq> [] \<longrightarrow> obs n)"
    unfolding length_filter_all by (auto simp: filter_empty_conv simp del: length_greater_0_conv
        simp: length_greater_0_conv[symmetric])
  also have "(\<exists>n\<in>set ns. cn_obligations n \<noteq> []) \<longleftrightarrow> (\<exists>c n. graph_computation g c = Some n \<and> cn_obligations n \<noteq> [])"
    unfolding Bex_def ns_def g_def in_bm_values by blast
  also have "(\<forall>n\<in>set ns. cn_obligations n \<noteq> [] \<longrightarrow> obs n) \<longleftrightarrow>
      \<not> (\<exists>c n. graph_computation g c = Some n \<and> cn_obligations n \<noteq> [] \<and> \<not> has_fs_covered_observer (assembled_coverage g c))"
  proof -
    have "has_fs_covered_observer (assembled_coverage g c) = obs n" if n: "graph_computation g c = Some n" for c n
    proof -
      have "cn_computation_id n = c" using n unfolding g_def by (rule replay_node_id)
      moreover have "n \<in> set ns" using n unfolding ns_def g_def in_bm_values by blast
      ultimately show ?thesis using a assembled_observer unfolding obs_def by fastforce
    qed
    then show ?thesis unfolding Ball_def ns_def g_def in_bm_values by blast
  qed
  finally show ?thesis .
qed

text \<open>C24: The coverage report never contradicts the check on the same log: it calls the observation
  obligations dischargeable exactly when some computation raised one and for no computation
  that raised one the coverage the engine assembles for a check lacks an observer.\<close>

theorem report_agrees_with_check:
  "rp_obligations_dischargeable (report_of es cov (replay msg es cov)) \<longleftrightarrow>
    (\<exists>c n. graph_computation (replay msg es cov) c = Some n \<and> cn_obligations n \<noteq> []) \<and>
    \<not> (\<exists>c n. graph_computation (replay msg es cov) c = Some n \<and> cn_obligations n \<noteq> [] \<and>
         \<not> has_fs_covered_observer (assembled_coverage (replay msg es cov) c))"
  by (rule report_dischargeable)

lemma report_tool_calls:
  fixes es cov g
  defines "r \<equiv> report_of es cov g"
    and "calls \<equiv> filter (\<lambda>e. ev_kind e = ToolInvoked) es"
  shows "rp_total_tool_calls r = length calls \<and>
    rp_blind_tool_calls r = length (filter (\<lambda>e. tool_kind_of e \<noteq> ''builtin'') calls) \<and>
    (case map_of (rp_tool_calls r) k of None \<Rightarrow> 0 | Some n \<Rightarrow> n) = length (filter (\<lambda>e. tool_kind_of e = k) calls) \<and>
    observable_fraction r =
      (if calls = [] then None
       else Some (u32_or_max (length (filter (\<lambda>e. tool_kind_of e = ''builtin'') calls)), u32_or_max (length calls)))"
proof -
  have node: "rp_total_tool_calls (count_node g n s) = rp_total_tool_calls s \<and>
      rp_blind_tool_calls (count_node g n s) = rp_blind_tool_calls s \<and>
      rp_tool_calls (count_node g n s) = rp_tool_calls s" for n s
    using same_counts_fields[OF fold_unregistered(1)] fold_excluded
    by (simp add: count_node_def Let_def fold_excluded split: option.split)
  have nodes: "rp_total_tool_calls (fold (count_node g) ns s) = rp_total_tool_calls s \<and>
      rp_blind_tool_calls (fold (count_node g) ns s) = rp_blind_tool_calls s \<and>
      rp_tool_calls (fold (count_node g) ns s) = rp_tool_calls s" for ns s
    by (induction ns arbitrary: s) (simp_all add: node)
  have f: "filter (\<lambda>e. ev_kind e = ToolInvoked \<and> P e) es = filter P calls" for P
    by (simp add: calls_def conj_commute)
  have total: "rp_total_tool_calls r = length calls"
    by (simp add: r_def report_of_def Let_def fold_tool_calls nodes report_default_def calls_def)
  have blind: "rp_blind_tool_calls r = length (filter (\<lambda>e. tool_kind_of e \<noteq> ''builtin'') calls)"
    by (simp add: r_def report_of_def Let_def fold_tool_calls nodes report_default_def f)
  have kinds: "count_at k (rp_tool_calls r) = length (filter (\<lambda>e. tool_kind_of e = k) calls)"
    using fold_tool_calls(3)[of k es] by (simp add: r_def report_of_def Let_def nodes report_default_def f)
      (simp add: count_at_def)
  have "length (filter (\<lambda>e. tool_kind_of e = ''builtin'') calls) =
      length calls - length (filter (\<lambda>e. tool_kind_of e \<noteq> ''builtin'') calls)"
    using sum_length_filter_compl[of "\<lambda>e. tool_kind_of e = ''builtin''" calls] by simp
  with total blind kinds show ?thesis
    by (simp add: observable_fraction_def count_at_def)
qed

text \<open>The tool calls of the report are those of the log: the total counts the \<open>tool.invoked\<close> events,
  each kind its own, and the blind ones are all but the builtin ones, so the observable fraction
  has the builtin calls above the total, and exists exactly when there was a tool call.\<close>

theorem report_counts_tool_calls:
  "let r = report_of es cov g; calls = filter (\<lambda>e. ev_kind e = ToolInvoked) es in
    rp_total_tool_calls r = length calls \<and>
    rp_blind_tool_calls r = length (filter (\<lambda>e. tool_kind_of e \<noteq> ''builtin'') calls) \<and>
    (case map_of (rp_tool_calls r) k of None \<Rightarrow> 0 | Some n \<Rightarrow> n) = length (filter (\<lambda>e. tool_kind_of e = k) calls) \<and>
    observable_fraction r =
      (if calls = [] then None
       else Some (u32_or_max (length (filter (\<lambda>e. tool_kind_of e = ''builtin'') calls)), u32_or_max (length calls)))"
  unfolding Let_def by (rule report_tool_calls)

end
