(* ===== verification/Lines.thy ===== *)
theory Lines
  imports Coverage_Registry Text "HOL-Library.Sublist"
begin

section \<open>Lines of text\<close>

text \<open>
  What the programs use of \<open>str::lines\<close> and of padding in format strings. Text is a list of bytes
  in UTF-8, where the bytes \<open>10xxxxxx\<close> continue a
  character and every other one begins a new one.
\<close>

definition drop_cr :: "string \<Rightarrow> string" where
  "drop_cr l = (case strip_suffix [CHR 0x0D] l of None \<Rightarrow> l | Some l' \<Rightarrow> l')"

definition str_lines :: "string \<Rightarrow> string list" where
  \<comment> \<open>\<open>str::lines\<close>: a carriage return goes with its newline, and a last empty piece is no line\<close>
  "str_lines s =
     (let pieces = split_on newline s
      in map drop_cr (butlast pieces) @ (if last pieces = [] then [] else [last pieces]))"

definition char_count :: "string \<Rightarrow> nat" where
  "char_count s = length (filter (\<lambda>c. digit7 c \<longrightarrow> digit6 c) s)"

definition pad_right :: "nat \<Rightarrow> string \<Rightarrow> string" where
  \<comment> \<open>\<open>{s:<width$}\<close>\<close>
  "pad_right width s = s @ replicate (width - char_count s) CHR 0x20"

definition text_line :: "string \<Rightarrow> string" where
  \<comment> \<open>\<open>writeln!\<close> and \<open>println!\<close>\<close>
  "text_line s = s @ [newline]"

definition wrapped :: "string list \<Rightarrow> string" where
  \<comment> \<open>a literal broken by \<open>\n\<close>\<close>
  "wrapped = join_with [newline]"

lemma pieces_occur: "p \<in> set (split_on x s) \<Longrightarrow> x \<notin> set p \<and> (\<exists>a b. s = a @ p @ b)"
proof (induction s arbitrary: p)
  case (Cons c s)
  show ?case
  proof (cases "c = x \<and> p \<noteq> []")
    case True
    then have "p \<in> set (split_on x s)" using Cons.prems by auto
    then obtain a b where "x \<notin> set p" "s = a @ p @ b" using Cons.IH by blast
    then show ?thesis by (metis append_Cons)
  next
    case False
    then show ?thesis
    proof (cases "p = []")
      case False
      with \<open>\<not> (c = x \<and> p \<noteq> [])\<close> have c: "c \<noteq> x" by simp
      obtain q qs where q: "split_on x s = q # qs" by (cases "split_on x s") auto
      have first: "\<exists>b. s = q @ b"
        using q
      proof (induction s arbitrary: q qs)
        case (Cons d s)
        then show ?case by (cases "split_on x s") (auto split: if_splits)
      qed simp
      from Cons.prems c q consider "p = c # q" | "p \<in> set qs" by auto
      then show ?thesis
      proof cases
        case 1
        then show ?thesis
          using first Cons.IH[of q] q c by (metis append_Cons append_Nil list.set_intros(1) set_ConsD)
      next
        case 2
        then obtain a b where "x \<notin> set p" "s = a @ p @ b" using Cons.IH q by (metis list.set_intros(2))
        then show ?thesis by (metis append_Cons)
      qed
    qed (metis append_Nil empty_iff empty_set)
  qed
qed simp

lemma sublist_trans3: "sublist a b \<Longrightarrow> sublist b c \<Longrightarrow> sublist a c"
  by (rule sublist_order.order.trans)

lemma line_occurs:
  assumes "l \<in> set (str_lines s)"
  shows "newline \<notin> set l \<and> sublist l s"
proof -
  have piece: "newline \<notin> set p \<and> sublist p s" if "p \<in> set (split_on newline s)" for p
    using pieces_occur[OF that] by (auto simp: sublist_def)
  have cr: "set (drop_cr p) \<subseteq> set p \<and> sublist (drop_cr p) p" for p
    by (auto simp: drop_cr_def strip_suffix_Some_iff sublist_append_rightI split: option.splits)
  consider p where "l = drop_cr p" "p \<in> set (split_on newline s)" | "l \<in> set (split_on newline s)"
    using assms by (auto simp: str_lines_def Let_def dest: in_set_butlastD split: if_splits)
  then show ?thesis
  proof cases
    case 1
    then show ?thesis using piece[of p] cr[of p] sublist_trans3 by blast
  next
    case 2
    then show ?thesis using piece by blast
  qed
qed

lemma lines_of_terminated:
  assumes "\<And>l. l \<in> set ls \<Longrightarrow> newline \<notin> set l \<and> drop_cr l = l"
  shows "str_lines (concat (map (\<lambda>l. l @ [newline]) ls)) = ls"
proof -
  have "split_on newline (concat (map (\<lambda>l. l @ [newline]) ls)) = ls @ [[]]"
    using assms by (induction ls) (simp_all add: split_on_append)
  then show ?thesis using assms by (simp add: str_lines_def map_idI)
qed

lemma lines_wrapped:
  assumes "\<And>l. l \<in> set ls \<Longrightarrow> newline \<notin> set l \<and> drop_cr l = l" and "ls = [] \<or> last ls \<noteq> []"
  shows "str_lines (wrapped ls) = ls"
proof (cases "ls = []")
  case False
  have "split_on newline (join_with [newline] ls) = ls"
    using assms(1) False
  proof (induction "[newline]" ls rule: join_with.induct)
    case (3 x y ys)
    then show ?case by (simp add: split_on_append)
  qed (simp_all add: split_on_free)
  then have "str_lines (wrapped ls) = map drop_cr (butlast ls) @ [last ls]"
    using False assms(2) by (simp add: str_lines_def wrapped_def)
  moreover have "map drop_cr (butlast ls) = butlast ls"
    by (intro map_idI) (metis assms(1) in_set_butlastD)
  ultimately show ?thesis using False by simp
qed (simp add: wrapped_def str_lines_def)

end
