(* ===== verification/Cli_Render.thy ===== *)
theory Cli_Render
  imports Cli_Check Lines Messages
begin

section \<open>The report of \<open>freshdag check\<close>\<close>

text \<open>
  \<open>crates/freshdag-cli/src/render.rs\<close>: the sentence for each reason, the closing verdict, and the
  report put together from a certificate. Text is bytes in UTF-8. How the \<open>time\<close> crate formats an
  instant is the parameter \<open>rfc3339\<close>, \<open>None\<close> where it fails.
\<close>

definition em_dash :: string where
  "em_dash = [CHR 0xE2, CHR 0x80, CHR 0x94]"

definition label_width :: nat where
  "label_width = 13"

definition exit_text :: "exit \<Rightarrow> string" where
  "exit_text exit = show_nat (nat (exit_code exit))"

fun prose :: "reason_code \<Rightarrow> string" where
  "prose Drift = wrapped [
     ''This dependency changed. A probe re-read it and got a fingerprint'',
     ''that does not match the one recorded when the artifact was built.'']"
| "prose ProbeUnknown = wrapped [
     ''A probe ran for this dependency but could not decide whether it'',
     ''changed, so it contributed no evidence either way. Nothing here'',
     ''is treated as proof the dependency is unchanged.'']"
| "prose NoProbeAvailable = wrapped [
     ''No probe answered for this dependency, so it was never checked:'',
     ''either nothing is registered for its scheme, or the probe that'',
     ''recorded it has since been removed. What was not checked cannot'',
     ''be called fresh.'']"
| "prose TrustClassHeuristicCapsAtLikelyValid = wrapped [
     ''This dependency matched, but only on a heuristic signal (an mtime,'',
     ''a weak validator) that can be wrong. That is enough to say'',
     ''likely-valid and not enough to say valid.'']"
| "prose TrustClassVolatileCapsAtLikelyValid = wrapped [
     ''This dependency has no trustworthy freshness signal at all. A probe'',
     ''re-read it and agreed it is unchanged, but that signal cannot'',
     ''support more than likely-valid. It is also inside its declared'',
     ''TTL.'']"
| "prose VolatileWithinTtlUnprobed = wrapped [
     ''NOTHING CHECKED THIS DEPENDENCY. It is being treated as fresh'',
     ''purely because whoever recorded it declared a lifetime, and that'',
     ''lifetime has not elapsed. No probe is registered for its scheme,'',
     ''or the one that recorded it has since been removed. A declared'',
     ''lifetime is a promise, not an observation, so --accept-likely-valid'',
     ''will not treat this as reusable.'']"
| "prose DependencyChangedDuringComputation = wrapped [
     ''This dependency changed WHILE the agent was reading it: the same'',
     ''input was observed twice during one computation with two different'',
     ''contents. Nothing records which of the two the agent actually'',
     ''used, so the recorded fingerprint is not a statement about what'',
     ''this artifact was built from. Re-run the computation to get an'',
     ''artifact whose inputs held still.'']"
| "prose TtlExpired = wrapped [
     ''This dependency's declared TTL elapsed without it being'',
     ''re-observed, so nothing is currently known about its state.'']"
| "prose ProbeTrustDemoted = wrapped [
     ''The signal this dependency's trust class rested on has gone away.'',
     ''The recorded trust class was demoted and the dependency must be'',
     ''re-observed before it can be trusted again.'']"
| "prose CoverageDeficit = wrapped [
     ''Something happened during this computation that no registered'',
     ''producer claims to observe, so its silence cannot be read as'',
     ''\"nothing happened\". Two shapes reach here: an effect kind that'',
     ''nothing in the coverage list below declares it emits, or a'',
     ''`bash` or `task` command run with no observer-role producer'',
     ''covering the filesystem. Only a sub-agent-layer observer sees'',
     ''what a subprocess reads and writes, and where no observer'',
     ''backend covers this platform FreshDAG reports the gap rather'',
     ''than papering over it. It will not call an artifact valid on'',
     ''the strength of effects nobody watched, so this is reported as'',
     ''unknown.'']"
| "prose ProducerMissingFromCoverage = wrapped [
     ''An event here came from a producer that never registered a'',
     ''coverage manifest. Without one, FreshDAG cannot tell what that'',
     ''producer would have reported from what it never watches, so its'',
     ''silence carries no information.'']"
| "prose NoDependenciesObserved = wrapped [
     ''This computation produced an artifact without a single observed'',
     ''dependency. Absence of evidence is not evidence of freshness.'']"
| "prose UnprovenDependency = wrapped [
     ''Something this computation read could not be fingerprinted, so it'',
     ''is an input whose state is unknown. It is not listed among the'',
     ''dependencies below, because recording it as one would mean'',
     ''inventing evidence about it '' @ em_dash @ '' but it exists, and it was not'',
     ''checked.'']"
| "prose RecipeIdentityUnavailable = wrapped [
     ''This computation carries no recipe identity, so nothing can tie'',
     ''the artifact to a reproducible way of making it. Its dependencies'',
     ''may all have verified; what is missing is the identity of the'',
     ''computation they belong to. Some runtimes cannot supply one at'',
     ''all, in which case this caps every artifact they produce.'']"

fun verdict :: "validity_status \<Rightarrow> exit \<Rightarrow> string" where
  "verdict Valid exit = (let code = exit_text exit in wrapped [
     ''Verdict: valid '' @ em_dash @ '' every dependency was verified unchanged at exact'',
     ''or versioned trust. Safe to reuse. (exit '' @ code @ '')''])"
| "verdict LikelyValid exit = (let code = exit_text exit in
     if exit = ExitValid then wrapped [
     ''Verdict: likely-valid '' @ em_dash @ '' nothing drifted, but at least one'',
     ''dependency could only be verified heuristically, so this is not a'',
     ''proof. Treated as reusable because --accept-likely-valid was'',
     ''passed. (exit '' @ code @ '')'']
     else wrapped [
     ''Verdict: likely-valid '' @ em_dash @ '' nothing drifted, but at least one'',
     ''dependency could only be verified heuristically, so this is not a'',
     ''proof. FreshDAG will not report it as reusable; exit '' @ code @ '' is'',
     ''deliberate. Pass --accept-likely-valid to accept it anyway.''])"
| "verdict Stale exit = (let code = exit_text exit in wrapped [
     ''Verdict: stale '' @ em_dash @ '' at least one dependency changed since this'',
     ''artifact was built. Recompute it. (exit '' @ code @ '')''])"
| "verdict UnknownStatus exit = (let code = exit_text exit in wrapped [
     ''Verdict: unknown '' @ em_dash @ '' FreshDAG could not prove this artifact is'',
     ''still valid. Unknown is not fresh: do not reuse it on the'',
     ''strength of this check. (exit '' @ code @ '')''])"

fun status_word :: "validity_status \<Rightarrow> string" where
  "status_word Valid = ''valid''"
| "status_word LikelyValid = ''likely-valid''"
| "status_word Stale = ''stale''"
| "status_word UnknownStatus = ''unknown''"

fun trust_word :: "trust_class \<Rightarrow> string" where
  "trust_word Exact = ''exact''"
| "trust_word Versioned = ''versioned''"
| "trust_word Heuristic = ''heuristic''"
| "trust_word Volatile = ''volatile''"

fun role_word :: "producer_role \<Rightarrow> string" where
  "role_word Adapter = ''adapter''"
| "role_word Observer = ''observer''"
| "role_word ProbeRole = ''probe''"

definition timestamp :: "(instant \<Rightarrow> string option) \<Rightarrow> instant \<Rightarrow> string" where
  "timestamp rfc3339 ts = (case rfc3339 ts of None \<Rightarrow> ''<unformattable timestamp>'' | Some s \<Rightarrow> s)"

definition indent :: "string \<Rightarrow> nat \<Rightarrow> string" where
  "indent block spaces = concat (map (\<lambda>l. text_line (replicate spaces CHR 0x20 @ l)) (str_lines block))"

definition field_text :: "string \<Rightarrow> string \<Rightarrow> string" where
  "field_text label v = text_line (pad_right label_width label @ v)"

definition optional_field :: "string \<Rightarrow> string option \<Rightarrow> string" where
  \<comment> \<open>\<open>if let Some(v) = .. { field(out, label, v) }\<close>\<close>
  "optional_field label v = (case v of None \<Rightarrow> [] | Some v \<Rightarrow> field_text label v)"

definition header_text :: "(instant \<Rightarrow> string option) \<Rightarrow> certificate \<Rightarrow> string" where
  "header_text rfc3339 cert =
     field_text ''Artifact'' (artifact_id (ct_artifact cert)) @
     optional_field ''Path'' (artifact_path (ct_artifact cert)) @
     field_text ''Status'' (status_word (st_value (ct_status cert))) @
     field_text ''Checked'' (timestamp rfc3339 (st_checked (ct_status cert))) @
     optional_field ''Recipe'' (pb_recipe (ct_produced_by cert)) @
     field_text ''Certificate'' (hash_display (ct_cert_id cert))"

definition reason_scope :: "validity_reason \<Rightarrow> string" where
  "reason_scope r = (if is_artifact_scoped (reason r) then ''(this artifact as a whole)'' else dependency_key r)"

definition reason_heading :: "nat \<Rightarrow> validity_reason \<Rightarrow> string" where
  "reason_heading i r =
     text_line (''  '' @ show_nat (i + 1) @ ''. '' @ reason_wire (reason r) @ ''  '' @ em_dash @ ''  '' @ reason_scope r)"

definition reason_block :: "nat \<Rightarrow> nat \<times> validity_reason \<Rightarrow> string" where
  \<comment> \<open>one turn of the loop, for a certificate with \<open>n\<close> reasons\<close>
  "reason_block n = (\<lambda>(i, r).
     reason_heading i r @ indent (prose (reason r)) 5 @
     (case detail r of None \<Rightarrow> [] | Some d \<Rightarrow> text_line (''     context: '' @ d)) @
     (if i + 1 < n then [newline] else []))"

definition reasons_text :: "certificate \<Rightarrow> string" where
  "reasons_text cert =
     (let rs = st_reasons (ct_status cert); n = length rs in
      if rs = [] then newline # text_line ''Reasons: none. A valid certificate carries no reasons.''
      else newline # text_line (''Why ('' @ show_nat n @ '' '' @ (if n = 1 then ''reason'' else ''reasons'') @
             '', in the certificate's contractual order):'' @ [newline]) @
           concat (map (reason_block n) (enumerate 0 rs)))"

definition dependency_line :: "dependency \<Rightarrow> string" where
  "dependency_line dep = text_line (''  '' @ pad_right 10 (trust_word (dep_trust_class dep)) @ '' '' @ dep_key dep)"

definition dependencies_text :: "dependency list \<Rightarrow> string" where
  "dependencies_text deps =
     (if deps = [] then newline # text_line ''Dependencies: none were observed.''
      else newline # text_line (''Dependencies ('' @ show_nat (length deps) @ ''):'') @ concat (map dependency_line deps))"

definition entry_lines :: "coverage_entry \<Rightarrow> string" where
  "entry_lines entry =
     text_line (''  '' @ ce_producer entry @ '' '' @ ce_version entry @ '' ('' @ role_word (ce_role entry) @ '')'') @
     concat (map (\<lambda>l. text_line (''      known limitation: '' @ l)) (ce_known_limitations entry))"

definition coverage_text :: "coverage_entry list \<Rightarrow> string" where
  "coverage_text entries =
     (if entries = [] then newline # text_line ''Observed by: nothing declared coverage for this computation.''
      else newline # text_line ''Observed by:'' @ concat (map entry_lines entries))"

definition certificate_text :: "(instant \<Rightarrow> string option) \<Rightarrow> certificate \<Rightarrow> exit \<Rightarrow> string" where
  "certificate_text rfc3339 cert exit =
     header_text rfc3339 cert @ reasons_text cert @ dependencies_text (ct_depends_on cert) @
     coverage_text (ct_observation_coverage cert) @ newline # text_line (verdict (st_value (ct_status cert)) exit)"

end
