(* ===== verification/Cli_Console.thy ===== *)
theory Cli_Console
  imports Cli_Mark Cli_Coverage Cli_Render
begin

section \<open>What the command line prints\<close>

text \<open>
  \<open>crates/freshdag-cli/src/main.rs\<close>, the messages of the errors of \<open>check.rs\<close>, \<open>mark.rs\<close> and
  \<open>coverage.rs\<close>, and the printed coverage report. A command is a function from the result of its
  run to what it writes on standard output and standard error and the code it exits with. What
  \<open>clap\<close> makes of the arguments is the argument \<open>parsed\<close>: a command, or a message with whether it
  goes to standard error. \<open>quoted\<close> is \<open>{:?}\<close> of a string, \<open>pretty\<close> the JSON printer.
\<close>

subsection \<open>Messages\<close>

definition on_lines :: "string list \<Rightarrow> string" where
  \<comment> \<open>each on an indented line of its own\<close>
  "on_lines items = concat (map (\<lambda>i. newline # ''  '' @ i) items)"

fun check_error_display :: "(string \<Rightarrow> string) \<Rightarrow> check_error \<Rightarrow> string" where
  "check_error_display quoted (CheckNoStore path) =
     ''no FreshDAG store at `'' @ path @ ''` (expected `'' @ log_file_name @ ''` inside it)''"
| "check_error_display quoted (CheckStore e) = ''store error: '' @ store_error_display e"
| "check_error_display quoted (CheckJson e) = ''the certificate could not be serialized: '' @ e"
| "check_error_display quoted (CheckEngine e) =
     ''the engine refused to emit a certificate: '' @ engine_error_display quoted e @ newline #
     ''This is a tool failure, not a verdict about the artifact.''"
| "check_error_display quoted (NoSuchArtifact requested known) =
     ''no artifact `'' @ requested @ ''` in this store'' @
     (if known = [] then ''; the store records no artifacts at all'' else ''. Known artifacts:'' @ on_lines known)"
| "check_error_display quoted (AmbiguousSelector requested matches) =
     ''`'' @ requested @ ''` names '' @ show_nat (length matches) @ '' artifacts; re-run with the one you mean:'' @
     on_lines matches"

fun coverage_error_display :: "coverage_error \<Rightarrow> string" where
  "coverage_error_display (CoverageNoStore path) =
     ''no FreshDAG store at `'' @ path @ ''` (expected `'' @ log_file_name @ ''` inside it)''"
| "coverage_error_display (CoverageStore e) = ''store error: '' @ store_error_display e"
| "coverage_error_display (CoverageJson e) = ''the report could not be serialized: '' @ e"

fun mark_error_display :: "mark_error \<Rightarrow> string" where
  "mark_error_display (MarkNoStore path) = ''no FreshDAG store at '' @ path"
| "mark_error_display (MarkStore e) = store_error_display e"
| "mark_error_display (Unreadable path e) = ''cannot read '' @ path @ '': '' @ e"
| "mark_error_display (NoRecordedWrite path) =
     ''nothing in this store records writing '' @ path @
     ''. `mark` attributes an artifact to the computation that produced it, and will not invent one''"
| "mark_error_display (ContentDrifted path recorded on_disk) =
     path @ '' has changed since the computation that wrote it: recorded='' @ recorded @ '' on-disk='' @ on_disk @
     ''. That computation did not produce these bytes, so attributing them to it would be false''"
| "mark_error_display (NoComputation path) =
     ''the recorded write of '' @ path @
     '' carries no computation_id, so there is nothing to attribute the artifact to''"
| "mark_error_display (MarkDropped n) =
     ''the store dropped the artifact.produced event under its byte budget ('' @ show_nat (unat n) @
     '' dropped so far), so nothing was recorded''"
| "mark_error_display (UnverifiableWrite path tool_hint) =
     ''the most recent recorded write of '' @ path @ '' ('' @ tool_hint @
     '') carries no content hash, so nothing can show the bytes on disk are the ones that '' @
     ''computation wrote. Attributing them to it would be a guess''"

subsection \<open>The coverage report\<close>

definition round_even :: "nat \<Rightarrow> nat \<Rightarrow> nat" where
  \<comment> \<open>the quotient to the nearest integer, a tie to the even one\<close>
  "round_even n d =
     (let q = n div d; r = n mod d in if 2 * r < d \<or> 2 * r = d \<and> even q then q else q + 1)"

definition f64_scales :: "nat list" where
  "f64_scales = [0..<1075]"

definition f64_of :: "nat \<Rightarrow> nat \<Rightarrow> nat \<times> nat" where
  \<comment> \<open>the \<open>f64\<close> next to a quotient below \<open>2^53\<close>, as \<open>m / 2^e\<close> with 53 significant bits\<close>
  "f64_of n d =
     (case find (\<lambda>e. 2 ^ 52 * d \<le> n * 2 ^ e) f64_scales of
        None \<Rightarrow> (0, 0)
      | Some e \<Rightarrow> (round_even (n * 2 ^ e) d, e))"

definition percentage :: "nat \<times> nat \<Rightarrow> nat" where
  \<comment> \<open>\<open>{:.0}\<close> of \<open>seen / total * 100.0\<close>, with the two roundings of \<open>f64\<close>\<close>
  "percentage = (\<lambda>(seen, total).
     (let (m, e) = f64_of seen total; (m', e') = f64_of (m * 100) (2 ^ e) in round_even m' (2 ^ e')))"

definition tool_line :: "string \<times> nat \<Rightarrow> string" where
  "tool_line = (\<lambda>(kind, count).
     text_line (''  '' @ pad_right 16 kind @ ''  '' @ show_nat count @
       (if kind = ''builtin'' then [] else if kind \<in> {''bash'', ''task''} then ''  <- blind inside''
        else ''  <- no fs evidence'')))"

definition tools_text :: "report \<Rightarrow> string" where
  "tools_text r =
     (if rp_total_tool_calls r = 0 then text_line ''  no tool calls recorded''
      else concat (map tool_line (rp_tool_calls r)) @
        (case observable_fraction r of
           None \<Rightarrow> []
         | Some fraction \<Rightarrow>
             text_line (newline # ''  '' @ show_nat (rp_total_tool_calls r - rp_blind_tool_calls r) @ '' of '' @
               show_nat (rp_total_tool_calls r) @ '' tool calls could yield filesystem evidence ('' @
               show_nat (percentage fraction) @ ''%). Upper bound: not every one of them does.'')))"

definition excluded_text :: "report \<Rightarrow> string" where
  "excluded_text r =
     (if rp_excluded r = [] then text_line ''  excluded          none''
      else concat (map (\<lambda>(why, count). text_line (''  excluded          '' @ show_nat count @ '' x '' @ why)) (rp_excluded r)) @
        text_line (''  of those, '' @ show_nat (rp_unproven r) @ '' still imply a dependency exists but unproven''))"

definition dischargeable_text :: "report \<Rightarrow> string" where
  "dischargeable_text r =
     (if rp_computations_with_obligations r = 0 then ''n/a '' @ em_dash @ '' no computation raised one''
      else if rp_obligations_dischargeable r
      then ''yes '' @ em_dash @ '' every computation that raised one had an fs-covering observer''
      else ''NO '' @ em_dash @ '' only '' @ show_nat (rp_computations_with_dischargeable_obligations r) @ '' of '' @
        show_nat (rp_computations_with_obligations r) @ '' such computations had an fs-covering observer'')"

definition tier1_metrics :: string where
  "tier1_metrics =
     text_line (''Tier-1 metrics (docs/EVALUATION.md '' @ [CHR 0xC2, CHR 0xA7] @ ''3)'') @
     text_line (''  coverage silence rate      not computable '' @ em_dash @
       '' needs per-edge producer attribution, which the store does not record'') @
     text_line (''  cache hit rate             not computable '' @ em_dash @
       '' `check` does not record its own results yet (BUILD_PLAN W10)'') @
     text_line (''  wall time saved            not computable '' @ em_dash @
       '' the adapter reports duration_ms: 0 (duration_observed: false)'') @
     text_line (''  $ saved                    not computable '' @ em_dash @ '' no token-cost signal reaches the IR'') @
     text_line (''  replay determinism rate    fixture-suite metric, not a store metric; '' @
       ''this store's own replay is reported above'') @
     text_line (''  undeclared-dep catch count not computable '' @ em_dash @
       '' requires an observer to contradict the adapter'')"

definition report_text :: "report \<Rightarrow> string" where
  "report_text r =
     text_line ''Store'' @
     text_line (''  events            '' @ show_nat (rp_events r)) @
     text_line (''  computations      '' @ show_nat (rp_computations r)) @
     text_line (''  replay            '' @
       (if rp_deterministic r then ''deterministic''
        else ''NOT REPRODUCIBLE '' @ em_dash @ '' a duplicate event_id carried different content'')) @
     concat (map (\<lambda>p. text_line (''  producer          '' @ p)) (rp_registered_producers r)) @
     concat (map (\<lambda>p. text_line (''  producer          '' @ p @ ''  (NO MANIFEST '' @ em_dash @ '' its silence means nothing)''))
       (rp_unregistered_producers r)) @
     newline # text_line ''What FreshDAG could see'' @
     tools_text r @
     newline # text_line ''What reached the graph'' @
     text_line (''  dependency edges  '' @ show_nat (rp_dependencies r)) @
     text_line (''  artifacts         '' @ show_nat (rp_artifacts r)) @
     excluded_text r @
     newline # text_line ''Observation obligations (bash/task)'' @
     text_line (''  raised            '' @ show_nat (rp_obligations r)) @
     text_line (''  raised by         '' @ show_nat (rp_computations_with_obligations r) @ '' of '' @
       show_nat (rp_computations r) @ '' computations'') @
     text_line (''  dischargeable     '' @ dischargeable_text r) @
     tier1_metrics"

subsection \<open>The commands\<close>

record console =
  con_out :: string
  con_err :: string
  con_exit :: exit

definition command_failed :: "string \<Rightarrow> string \<Rightarrow> exit \<Rightarrow> console" where
  \<comment> \<open>\<open>eprintln!("freshdag {name}: {err}")\<close>\<close>
  "command_failed name message exit =
     \<lparr>con_out = [], con_err = text_line (''freshdag '' @ name @ '': '' @ message), con_exit = exit\<rparr>"

definition check_command ::
  "(string \<Rightarrow> string) \<Rightarrow> (instant \<Rightarrow> string option) \<Rightarrow> (certificate \<Rightarrow> string + string) \<Rightarrow> bool \<Rightarrow> bool
     \<Rightarrow> check_error + checked \<Rightarrow> console" where
  "check_command quoted rfc3339 pretty json accept_likely_valid result =
     (case result of
        Inl e \<Rightarrow> command_failed ''check'' (check_error_display quoted e) (check_error_exit e)
      | Inr c \<Rightarrow>
          (let warnings = concat (map (\<lambda>w. text_line (''freshdag check: warning: '' @ w)) (ck_warnings c));
               s = ct_status (ck_certificate c);
               exit = for_status_with_reasons (st_value s) (st_reasons s) accept_likely_valid
           in if json then
                (case map_err CheckJson (pretty (ck_certificate c)) of
                   Inr text \<Rightarrow> \<lparr>con_out = text_line text, con_err = warnings, con_exit = exit\<rparr>
                 | Inl e \<Rightarrow>
                     (let f = command_failed ''check'' (check_error_display quoted e) (check_error_exit e)
                      in f\<lparr>con_err := warnings @ con_err f\<rparr>))
              else \<lparr>con_out = certificate_text rfc3339 (ck_certificate c) exit, con_err = warnings, con_exit = exit\<rparr>))"

definition mark_command :: "mark_error + marked \<Rightarrow> console" where
  "mark_command result =
     (case result of
        Inr m \<Rightarrow> \<lparr>con_out = text_line (''marked '' @ mk_path m) @ text_line (''  artifact    '' @ mk_artifact m) @
            text_line (''  computation '' @ mk_computation m), con_err = [], con_exit = ExitValid\<rparr>
      | Inl e \<Rightarrow> command_failed ''mark'' (mark_error_display e) (mark_error_exit e))"

definition coverage_command :: "(report \<Rightarrow> string + string) \<Rightarrow> bool \<Rightarrow> coverage_error + report \<Rightarrow> console" where
  "coverage_command pretty json result =
     (case result of
        Inl e \<Rightarrow> command_failed ''coverage'' (coverage_error_display e) (coverage_error_exit e)
      | Inr r \<Rightarrow>
          (if json then
             (case map_err CoverageJson (pretty r) of
                Inr text \<Rightarrow> \<lparr>con_out = text_line text, con_err = [], con_exit = ExitValid\<rparr>
              | Inl e \<Rightarrow> command_failed ''coverage'' (coverage_error_display e) (coverage_error_exit e))
           else \<lparr>con_out = report_text r, con_err = [], con_exit = ExitValid\<rparr>))"

definition unimplemented_command :: "string \<Rightarrow> string option \<Rightarrow> console" where
  "unimplemented_command name artifact =
     \<lparr>con_out = [],
      con_err = text_line (''freshdag '' @ name @ '': not implemented yet'' @
          (case artifact of None \<Rightarrow> [] | Some a \<Rightarrow> '' ('' @ a @ '')'')) @
        text_line (''freshdag '' @ name @ '': exiting '' @ exit_text NotImplemented @ '' '' @ em_dash @
          '' an unimplemented command must not report success.''),
      con_exit = NotImplemented\<rparr>"

datatype cli_command =
    CheckCommand (cc_artifact: string) (cc_store: string) (cc_json: bool) (cc_accept: bool)
  | MarkCommand (cm_path: string) (cm_store: string) (cm_kind: "string option")
  | CoverageCommand (cv_store: string) (cv_json: bool)
  | WhyCommand string
  | CertCommand string
  | GraphCommand
  | WatchCommand

record ('u, 'h) cli_world =
  \<comment> \<open>the libraries, and what each command finds\<close>
  cw_lib :: "'u outside"
  cw_check :: "string \<Rightarrow> 'h check_env"  \<comment> \<open>by store root\<close>
  cw_mark :: "string \<Rightarrow> mark_env"
  cw_write_event :: "ir_event \<Rightarrow> string + string"
  cw_write_registration :: "coverage_registration \<Rightarrow> string + string"
  cw_drop_notice :: "ir_event \<Rightarrow> u64 \<Rightarrow> ir_event"
  cw_quoted :: "string \<Rightarrow> string"
  cw_rfc3339 :: "instant \<Rightarrow> string option"
  cw_pretty_certificate :: "certificate \<Rightarrow> string + string"
  cw_pretty_report :: "report \<Rightarrow> string + string"

fun run_command :: "('u, 'h) cli_world \<Rightarrow> cli_command option \<Rightarrow> console" where
  "run_command w (Some (CheckCommand artifact root json accept)) =
     check_command (cw_quoted w) (cw_rfc3339 w) (cw_pretty_certificate w) json accept
       (check_run (cw_lib w) (cw_check w root) root artifact)"
| "run_command w (Some (MarkCommand path root kind)) =
     mark_command (fst (mark_run (cw_lib w) (cw_write_event w) (cw_write_registration w) (cw_drop_notice w)
       (cw_mark w root) root path kind))"
| "run_command w (Some (CoverageCommand root json)) =
     coverage_command (cw_pretty_report w) json (coverage_run (cw_lib w) (cw_check w root) root)"
| "run_command w (Some (WhyCommand artifact)) = unimplemented_command ''why'' (Some artifact)"
| "run_command w (Some (CertCommand artifact)) = unimplemented_command ''cert'' (Some artifact)"
| "run_command w (Some GraphCommand) = unimplemented_command ''graph'' None"
| "run_command w (Some WatchCommand) = unimplemented_command ''watch'' None"
| "run_command w None =
     \<lparr>con_out = [], con_err = text_line ''freshdag: run `freshdag --help` to see available commands.'',
      con_exit = ExitUsage\<rparr>"

definition cli_run :: "('u, 'h) cli_world \<Rightarrow> (string \<times> bool) + cli_command option \<Rightarrow> string \<times> string \<times> int" where
  \<comment> \<open>standard output, standard error, and the code of the process\<close>
  "cli_run w parsed =
     (case parsed of
        Inl (message, use_stderr) \<Rightarrow>
          if use_stderr then ([], message, exit_code ExitUsage) else (message, [], 0)
      | Inr command \<Rightarrow>
          (let c = run_command w command in (con_out c, con_err c, exit_code (con_exit c))))"

end
