(* ===== verification/Cli_Console_Facts.thy ===== *)
theory Cli_Console_Facts
  imports Cli_Console
begin

section \<open>What the printed text says, and what the exit code says\<close>

text \<open>
  The closing line of the report against the exit code, the places where the two contradict each
  other, the channels a tool error and a verdict go to, what the code of the process means, and
  what the report shows of a certificate.
\<close>

subsection \<open>The closing line\<close>

definition claims_reuse :: "string \<Rightarrow> bool" where
  "claims_reuse v \<longleftrightarrow> sublist ''Safe to reuse.'' v \<or> sublist ''Treated as reusable'' v"

definition retry_advice :: string where
  "retry_advice = ''Pass --accept-likely-valid to accept it anyway.''"

definition no_basis :: "validity_reason \<Rightarrow> bool" where
  \<comment> \<open>nothing but a declared lifetime stands behind the dependency\<close>
  "no_basis r \<longleftrightarrow> reason r \<in> {VolatileWithinTtlUnprobed, ProbeUnknown}"

lemma status_exits:
  "for_status_with_reasons Valid rs accept = ExitValid" "for_status_with_reasons Stale rs accept = ExitStale"
  "for_status_with_reasons UnknownStatus rs accept = ExitUnknown"
  "for_status_with_reasons LikelyValid rs accept =
     (if accept \<and> \<not> list_ex no_basis rs then ExitValid else ExitUnknown)"
  by (auto simp: for_status_with_reasons_def no_basis_def[abs_def])

lemma closing_lines:
  "claims_reuse (verdict Valid ExitValid)" "claims_reuse (verdict LikelyValid ExitValid)"
  "\<not> claims_reuse (verdict LikelyValid ExitUnknown)" "\<not> claims_reuse (verdict Stale ExitStale)"
  "\<not> claims_reuse (verdict UnknownStatus ExitUnknown)"
  by code_simp+

lemma closing_codes:
  "sublist ''exit 0'' (verdict Valid ExitValid)" "sublist ''exit 0'' (verdict LikelyValid ExitValid)"
  "sublist ''exit 2'' (verdict LikelyValid ExitUnknown)" "sublist ''exit 1'' (verdict Stale ExitStale)"
  "sublist ''exit 2'' (verdict UnknownStatus ExitUnknown)"
  by code_simp+

lemma closing_advice: "suffix retry_advice (verdict LikelyValid ExitUnknown)"
  by code_simp

lemma exit_texts: "exit_text ExitValid = ''0''" "exit_text ExitStale = ''1''" "exit_text ExitUnknown = ''2''"
  by code_simp+

lemma closing_status: "starts_with (''Verdict: '' @ status_word status @ '' '') (verdict status exit)"
  by (cases status; cases "exit = ExitValid"; simp add: starts_with_def wrapped_def Let_def)

text \<open>C15: The words of the report and the exit code agree: the closing line names the status of the
  certificate and the code of the process, and it calls the artifact reusable exactly when that code
  is 0, with and without \<open>--accept-likely-valid\<close>.\<close>

theorem verdict_matches_exit:
  fixes status reasons accept
  defines "exit \<equiv> for_status_with_reasons status reasons accept"
  shows "(claims_reuse (verdict status exit) \<longleftrightarrow> exit_code exit = 0) \<and>
    sublist (''exit '' @ exit_text exit) (verdict status exit) \<and>
    starts_with (''Verdict: '' @ status_word status @ '' '') (verdict status exit)"
proof -
  have e: "exit = for_status_with_reasons status reasons accept" by (simp only: exit_def)
  have l: "for_status_with_reasons LikelyValid reasons accept = ExitValid \<or>
      for_status_with_reasons LikelyValid reasons accept = ExitUnknown" by (simp add: status_exits)
  consider "status = Valid" "exit = ExitValid" | "status = LikelyValid" "exit = ExitValid"
    | "status = LikelyValid" "exit = ExitUnknown" | "status = Stale" "exit = ExitStale"
    | "status = UnknownStatus" "exit = ExitUnknown"
    unfolding e using l by (cases status) (auto simp: status_exits(1-3))
  then have "(claims_reuse (verdict status exit) \<longleftrightarrow> exit_code exit = 0) \<and>
      sublist (''exit '' @ exit_text exit) (verdict status exit)"
    using closing_lines closing_codes by cases (simp_all only: exit_texts exit_code.simps append.simps; simp)+
  then show ?thesis using closing_status by blast
qed

text \<open>C20: Under the floor the advice is wrong. When a LikelyValid certificate rests on a dependency that no
  probe backs, the command exits 2 with and without the flag, and both times the report ends by
  telling the user to pass \<open>--accept-likely-valid\<close> to accept the artifact anyway.\<close>

theorem retry_advice_under_the_floor:
  fixes cert rfc3339 accept
  defines "exit \<equiv> for_status_with_reasons (st_value (ct_status cert)) (st_reasons (ct_status cert)) accept"
  assumes "st_value (ct_status cert) = LikelyValid" and "r \<in> set (st_reasons (ct_status cert))" and "no_basis r"
  shows "exit_code exit = 2 \<and> (\<exists>a. certificate_text rfc3339 cert exit = a @ retry_advice @ [newline])"
proof -
  have "list_ex no_basis (st_reasons (ct_status cert))"
    using assms(3,4) by (auto simp: list_ex_iff)
  then have e: "exit = ExitUnknown"
    unfolding exit_def by (simp add: assms(2) status_exits)
  obtain a where "verdict LikelyValid ExitUnknown = a @ retry_advice"
    using closing_advice by (auto simp: suffix_def)
  then show ?thesis
    unfolding e certificate_text_def assms(2) text_line_def by simp
qed

subsection \<open>The channels\<close>

lemma text_line_nonempty [simp]: "text_line s \<noteq> []"
  by (simp add: text_line_def)

lemma certificate_text_nonempty: "certificate_text rfc3339 cert exit \<noteq> []"
  by (simp add: certificate_text_def)

lemma check_command_exit:
  "con_exit (check_command quoted rfc3339 pretty json accept result) = check_exit json accept pretty result"
  by (auto simp: check_command_def check_exit_def command_failed_def Let_def split: sum.splits)

lemma coverage_command_exit: "con_exit (coverage_command pretty json result) = coverage_exit json pretty result"
  by (auto simp: coverage_command_def coverage_exit_def command_failed_def split: sum.splits)

lemma error_exits: "exit_code (check_error_exit e) > 2"
  by (cases e) simp_all

lemma verdict_exits: "exit_code (for_status_with_reasons status reasons accept) \<le> 2"
  by (cases status) (simp_all add: status_exits)

text \<open>C17: A verdict and a tool error never share a channel: the check command exits with a code above 2
  exactly when it prints nothing on standard output, and then it says why on standard error.\<close>

theorem verdict_on_stdout_or_error_on_stderr:
  fixes quoted rfc3339 pretty json accept result
  defines "c \<equiv> check_command quoted rfc3339 pretty json accept result"
  shows "(exit_code (con_exit c) > 2 \<longleftrightarrow> con_out c = []) \<and> \<not> (con_out c = [] \<and> con_err c = [])"
  using error_exits verdict_exits certificate_text_nonempty
  by (auto simp: c_def check_command_def command_failed_def Let_def not_less[symmetric] split: sum.splits)

lemma exit_zero_iff: "exit_code e = 0 \<longleftrightarrow> e = ExitValid"
  by (cases e) simp_all

lemma exit_verdict_iff: "exit_code e \<in> {1, 2} \<longleftrightarrow> e \<in> {ExitStale, ExitUnknown}"
  by (cases e) simp_all

lemma mark_exits: "con_exit (mark_command r) = ExitValid \<longleftrightarrow> (\<exists>m. r = Inr m)"
  "con_exit (mark_command r) \<notin> {ExitStale, ExitUnknown}"
proof -
  have "mark_error_exit e \<notin> {ExitValid, ExitStale, ExitUnknown}" for e by (cases e) simp_all
  then show "con_exit (mark_command r) = ExitValid \<longleftrightarrow> (\<exists>m. r = Inr m)"
    "con_exit (mark_command r) \<notin> {ExitStale, ExitUnknown}"
    by (auto simp: mark_command_def command_failed_def split: sum.splits)
qed

lemma coverage_exits:
  "con_exit (coverage_command pretty json r) = ExitValid \<longleftrightarrow>
     (\<exists>rep. r = Inr rep \<and> (if json then \<exists>t. pretty rep = Inr t else True))"
  "con_exit (coverage_command pretty json r) \<notin> {ExitStale, ExitUnknown}"
proof -
  have "coverage_error_exit e \<notin> {ExitValid, ExitStale, ExitUnknown}" for e by (cases e) simp_all
  then show "con_exit (coverage_command pretty json r) = ExitValid \<longleftrightarrow>
     (\<exists>rep. r = Inr rep \<and> (if json then \<exists>t. pretty rep = Inr t else True))"
    "con_exit (coverage_command pretty json r) \<notin> {ExitStale, ExitUnknown}"
    by (auto simp: coverage_command_def command_failed_def map_err_def split: sum.splits)
qed

lemma process_code:
  "snd (snd (cli_run w (Inr command))) = exit_code (con_exit (run_command w command))"
  "snd (snd (cli_run w (Inl (message, use_stderr)))) = (if use_stderr then 5 else 0)"
  by (simp_all add: cli_run_def Let_def)

definition checks_to ::
  "('u, 'h) cli_world \<Rightarrow> (string \<times> bool) + cli_command option \<Rightarrow> exit set \<Rightarrow> bool" where
  \<comment> \<open>the command line asks for a check, and the check ends with one of these codes\<close>
  "checks_to w parsed exits \<longleftrightarrow>
     (\<exists>artifact root json accept. parsed = Inr (Some (CheckCommand artifact root json accept)) \<and>
       check_exit json accept (cw_pretty_certificate w) (check_run (cw_lib w) (cw_check w root) root artifact) \<in> exits)"

text \<open>C16: What the code of the process means, whatever the command line. 1 and 2 come from a check that
  reached that verdict and from nothing else; 0 comes from a check that did, from a mark that
  recorded its artifact, from a coverage report that was printed, or from the help text. No command
  that is not implemented, and no mistyped one, ends with a code of a verdict.\<close>

theorem process_codes:
  "(snd (snd (cli_run w parsed)) \<in> {1, 2} \<longleftrightarrow> checks_to w parsed {ExitStale, ExitUnknown}) \<and>
   (snd (snd (cli_run w parsed)) = 0 \<longleftrightarrow>
      (\<exists>message. parsed = Inl (message, False)) \<or> checks_to w parsed {ExitValid} \<or>
      (\<exists>path root kind m. parsed = Inr (Some (MarkCommand path root kind)) \<and>
         fst (mark_run (cw_lib w) (cw_write_event w) (cw_write_registration w) (cw_drop_notice w)
           (cw_mark w root) root path kind) = Inr m) \<or>
      (\<exists>root json r. parsed = Inr (Some (CoverageCommand root json)) \<and>
         coverage_run (cw_lib w) (cw_check w root) root = Inr r \<and>
         (if json then \<exists>t. cw_pretty_report w r = Inr t else True)))"
proof (cases parsed)
  case (Inl m)
  then show ?thesis by (cases m) (auto simp: process_code checks_to_def)
next
  case (Inr command)
  have "(exit_code (con_exit (run_command w command)) \<in> {1, 2} \<longleftrightarrow> checks_to w parsed {ExitStale, ExitUnknown}) \<and>
     (exit_code (con_exit (run_command w command)) = 0 \<longleftrightarrow> checks_to w parsed {ExitValid} \<or>
      (\<exists>path root kind m. command = Some (MarkCommand path root kind) \<and>
         fst (mark_run (cw_lib w) (cw_write_event w) (cw_write_registration w) (cw_drop_notice w)
           (cw_mark w root) root path kind) = Inr m) \<or>
      (\<exists>root json r. command = Some (CoverageCommand root json) \<and>
         coverage_run (cw_lib w) (cw_check w root) root = Inr r \<and>
         (if json then \<exists>t. cw_pretty_report w r = Inr t else True)))"
    unfolding exit_zero_iff exit_verdict_iff Inr checks_to_def
    by (cases "(w, command)" rule: run_command.cases)
       (use mark_exits coverage_exits in \<open>auto simp: check_command_exit unimplemented_command_def simp del: insert_iff\<close>)
  then show ?thesis unfolding Inr process_code by simp
qed

subsection \<open>What the report shows\<close>

lemma sublist_concat: "x \<in> set xs \<Longrightarrow> sublist (f x) (concat (map f xs))"
  by (metis concat.simps(2) concat_append list.simps(9) map_append split_list sublist_appendI)

lemma sublist_part: "sublist a b \<Longrightarrow> sublist a (x @ b @ y)"
  by (meson sublist_appendI sublist_order.order.trans)

definition written :: "string list \<Rightarrow> string" where
  "written ls = concat (map (\<lambda>l. l @ [newline]) ls)"

lemma written_simps [simp]:
  "written [] = []" "written (l # ls) = l @ newline # written ls" "written (ls @ ms) = written ls @ written ms"
  by (simp_all add: written_def)

lemma written_ends: "ls \<noteq> [] \<Longrightarrow> \<exists>z. written ls = z @ [newline]"
  by (cases ls rule: rev_cases) auto

definition shows_lines :: "string list \<Rightarrow> string \<Rightarrow> bool" where
  \<comment> \<open>these stand in the text one after the other, each as a line of its own\<close>
  "shows_lines ls text \<longleftrightarrow> sublist (newline # written ls) text"

lemma shows_lines_part: "shows_lines ls b \<Longrightarrow> sublist b text \<Longrightarrow> shows_lines ls text"
  unfolding shows_lines_def by (rule sublist_order.order.trans)

lemma block_shown:
  assumes "x \<in> set xs" and "\<And>y. y \<in> set xs \<Longrightarrow> \<exists>z. f y = z @ [newline]"
  shows "sublist (newline # f x) (newline # concat (map f xs))"
proof -
  obtain as bs where xs: "xs = as @ x # bs"
    using assms(1) by (meson split_list)
  show ?thesis
  proof (cases as rule: rev_cases)
    case Nil
    then show ?thesis by (simp add: xs sublist_def) (metis append_Nil append_Cons)
  next
    case (snoc cs y)
    then obtain z where "f y = z @ [newline]" using assms(2)[of y] xs by auto
    then have "newline # concat (map f xs) = (newline # concat (map f cs) @ z) @ (newline # f x) @ concat (map f bs)"
      by (simp add: xs snoc)
    then show ?thesis by (metis sublist_appendI)
  qed
qed

lemma after_heading: "sublist (newline # rest) (newline # text_line heading @ rest)"
  by (metis append.assoc append_Cons append_Nil sublist_append_leftI text_line_def)

lemma heading_shown: "shows_lines [l] (newline # text_line l @ rest)"
  by (metis append.assoc append_Cons shows_lines_def sublist_append_rightI text_line_def written_simps(1,2))

definition reason_lines :: "nat \<times> validity_reason \<Rightarrow> string list" where
  \<comment> \<open>what the report is to say of the \<open>i\<close>-th reason, counting from 0\<close>
  "reason_lines = (\<lambda>(i, r).
     (''  '' @ show_nat (i + 1) @ ''. '' @ reason_wire (reason r) @ ''  '' @ em_dash @ ''  '' @
        (if is_artifact_scoped (reason r) then ''(this artifact as a whole)'' else dependency_key r)) #
     map (\<lambda>l. ''     '' @ l) (str_lines (prose (reason r))) @
     (case detail r of None \<Rightarrow> [] | Some d \<Rightarrow> [''     context: '' @ d]))"

lemma reason_block_lines:
  "reason_block n ir = written (reason_lines ir) @ (if fst ir + 1 < n then [newline] else [])"
proof -
  have five: "replicate 5 CHR 0x20 = ''     ''"
    by (simp add: numeral_eq_Suc)
  obtain i r where "ir = (i, r)" by (cases ir)
  then show ?thesis
    by (cases "detail r") (simp_all add: reason_block_def reason_lines_def reason_heading_def reason_scope_def
        indent_def text_line_def five comp_def written_def)
qed

definition reasons_heading :: "nat \<Rightarrow> string" where
  "reasons_heading n = ''Why ('' @ show_nat n @ (if n = 1 then '' reason'' else '' reasons'') @
     '', in the certificate's contractual order):''"

lemma reasons_text_split:
  assumes "st_reasons (ct_status cert) \<noteq> []"
  shows "reasons_text cert = newline # text_line (reasons_heading (length (st_reasons (ct_status cert)))) @ newline #
    concat (map (reason_block (length (st_reasons (ct_status cert)))) (enumerate 0 (st_reasons (ct_status cert))))"
  using assms unfolding reasons_text_def reasons_heading_def Let_def text_line_def by simp

lemma reason_shown:
  assumes "ir \<in> set (enumerate 0 (st_reasons (ct_status cert)))"
  shows "shows_lines (reason_lines ir) (reasons_text cert)"
proof -
  let ?rs = "st_reasons (ct_status cert)"
  let ?n = "length ?rs"
  have "reason_lines y \<noteq> []" for y
    by (simp add: reason_lines_def split_beta)
  then have ends: "\<exists>z. reason_block ?n y = z @ [newline]" for y
    using written_ends[of "reason_lines y"] by (simp add: reason_block_lines)
  have "?rs \<noteq> []"
    using assms by auto
  then have "sublist (newline # concat (map (reason_block ?n) (enumerate 0 ?rs))) (reasons_text cert)"
    unfolding reasons_text_split[OF \<open>?rs \<noteq> []\<close>] by (metis append_Cons sublist_append_leftI)
  moreover have "sublist (newline # reason_block ?n ir) (newline # concat (map (reason_block ?n) (enumerate 0 ?rs)))"
    by (rule block_shown[OF assms ends])
  moreover have "shows_lines (reason_lines ir) (newline # reason_block ?n ir)"
    unfolding shows_lines_def reason_block_lines by (metis append_Cons sublist_append_rightI)
  ultimately show ?thesis
    using shows_lines_part by blast
qed

definition dependency_lines :: "dependency \<Rightarrow> string list" where
  "dependency_lines d =
     [(case dep_trust_class d of
         Exact \<Rightarrow> ''  exact      '' | Versioned \<Rightarrow> ''  versioned  ''
       | Heuristic \<Rightarrow> ''  heuristic  '' | Volatile \<Rightarrow> ''  volatile   '') @ dep_key d]"

lemma dependency_line_lines: "dependency_line d = written (dependency_lines d)"
proof -
  have pads: "pad_right 10 ''exact'' = ''exact     ''" "pad_right 10 ''versioned'' = ''versioned ''"
    "pad_right 10 ''heuristic'' = ''heuristic ''" "pad_right 10 ''volatile'' = ''volatile  ''"
    by code_simp+
  show ?thesis
    by (cases "dep_trust_class d") (simp_all add: dependency_line_def dependency_lines_def text_line_def pads)
qed

definition producer_lines :: "coverage_entry \<Rightarrow> string list" where
  "producer_lines e =
     (''  '' @ ce_producer e @ '' '' @ ce_version e @
        (case ce_role e of Adapter \<Rightarrow> '' (adapter)'' | Observer \<Rightarrow> '' (observer)'' | ProbeRole \<Rightarrow> '' (probe)'')) #
     map (\<lambda>l. ''      known limitation: '' @ l) (ce_known_limitations e)"

lemma entry_lines_lines: "entry_lines e = written (producer_lines e)"
  by (cases "ce_role e") (simp_all add: entry_lines_def producer_lines_def text_line_def comp_def written_def)

lemma listed_shown:
  assumes "x \<in> set xs" and "\<And>y. f y = written (lines y)" and "\<And>y. lines y \<noteq> []"
  shows "shows_lines (lines x) (newline # concat (map f xs))"
proof -
  have "\<exists>z. f y = z @ [newline]" for y
    using written_ends assms(2,3) by metis
  from block_shown[of x xs f, OF assms(1) this] show ?thesis
    by (simp add: shows_lines_def assms(2))
qed

lemma dependency_shown:
  assumes "d \<in> set deps"
  shows "shows_lines (dependency_lines d) (dependencies_text deps)"
proof -
  have "shows_lines (dependency_lines d) (newline # concat (map dependency_line deps))"
    by (rule listed_shown[OF assms dependency_line_lines]) (simp add: dependency_lines_def)
  moreover have "sublist (newline # concat (map dependency_line deps)) (dependencies_text deps)"
    using assms after_heading by (auto simp: dependencies_text_def)
  ultimately show ?thesis by (rule shows_lines_part)
qed

lemma producer_shown:
  assumes "e \<in> set entries"
  shows "shows_lines (producer_lines e) (coverage_text entries)"
proof -
  have "shows_lines (producer_lines e) (newline # concat (map entry_lines entries))"
    by (rule listed_shown[OF assms entry_lines_lines]) (simp add: producer_lines_def)
  moreover have "sublist (newline # concat (map entry_lines entries)) (coverage_text entries)"
    using assms after_heading by (auto simp: coverage_text_def)
  ultimately show ?thesis by (rule shows_lines_part)
qed

lemma reasons_head:
  "shows_lines [if st_reasons (ct_status cert) = [] then ''Reasons: none. A valid certificate carries no reasons.''
      else ''Why ('' @ show_nat (length (st_reasons (ct_status cert))) @
        (if length (st_reasons (ct_status cert)) = 1 then '' reason'' else '' reasons'') @
        '', in the certificate's contractual order):''] (reasons_text cert)"
proof (cases "st_reasons (ct_status cert) = []")
  case True
  then show ?thesis
    using heading_shown[of _ "[]"] by (simp add: reasons_text_def)
next
  case False
  then show ?thesis
    using heading_shown unfolding reasons_text_split[OF False] reasons_heading_def by simp
qed

lemma dependencies_head:
  "shows_lines [if deps = [] then ''Dependencies: none were observed.''
      else ''Dependencies ('' @ show_nat (length deps) @ ''):''] (dependencies_text deps)"
  using heading_shown[of _ "[]"] heading_shown by (simp add: dependencies_text_def)

lemma coverage_head:
  "shows_lines [if entries = [] then ''Observed by: nothing declared coverage for this computation.''
      else ''Observed by:''] (coverage_text entries)"
  using heading_shown[of _ "[]"] heading_shown by (simp add: coverage_text_def)

definition all_codes :: "reason_code list" where
  "all_codes = [Drift, ProbeUnknown, NoProbeAvailable, TrustClassHeuristicCapsAtLikelyValid,
     TrustClassVolatileCapsAtLikelyValid, VolatileWithinTtlUnprobed, TtlExpired, ProbeTrustDemoted, CoverageDeficit,
     ProducerMissingFromCoverage, NoDependenciesObserved, DependencyChangedDuringComputation,
     RecipeIdentityUnavailable, UnprovenDependency]"

lemma every_code: "c \<in> set all_codes"
  by (cases c) (simp_all add: all_codes_def)

lemma prose_distinct: "distinct (map prose all_codes)"
  by code_simp

lemma wires_distinct: "distinct (map reason_wire all_codes)"
  by code_simp

lemma prose_fits: "list_all (\<lambda>c. list_all (\<lambda>l. char_count l + 5 \<le> 79) (str_lines (prose c))) all_codes"
  by code_simp

lemma prose_explains: "list_all (\<lambda>c. \<not> sublist (reason_wire c) (prose c)) all_codes"
  by code_simp

text \<open>C18: The report hides nothing of a certificate. It opens with the artifact. For each reason, in order,
  it shows whole lines in one block: the number, the code and the dependency (or that the reason
  concerns the artifact as a whole), the sentence of the code indented by five, and the context if
  there is one. For each dependency it shows a line with the recorded trust class and the
  key, under a line that counts them; for each producer a line with its name, version and role,
  followed by every limitation it declared. Where there are no reasons, dependencies or producers it says so.
  Distinct codes have distinct words and distinct sentences, which fit in 79 columns and never
  merely restate the code.\<close>

theorem report_explains_every_reason:
  fixes cert rfc3339 exit
  defines "text \<equiv> certificate_text rfc3339 cert exit"
  shows "prefix (''Artifact     '' @ artifact_id (ct_artifact cert) @ [newline]) text \<and>
    list_all (\<lambda>(i, r). shows_lines
      ((''  '' @ show_nat (i + 1) @ ''. '' @ reason_wire (reason r) @ ''  '' @ em_dash @ ''  '' @
          (if is_artifact_scoped (reason r) then ''(this artifact as a whole)'' else dependency_key r)) #
       map (\<lambda>l. ''     '' @ l) (str_lines (prose (reason r))) @
       (case detail r of None \<Rightarrow> [] | Some d \<Rightarrow> [''     context: '' @ d])) text)
      (enumerate 0 (st_reasons (ct_status cert))) \<and>
    list_all (\<lambda>d. shows_lines
      [(case dep_trust_class d of
          Exact \<Rightarrow> ''  exact      '' | Versioned \<Rightarrow> ''  versioned  ''
        | Heuristic \<Rightarrow> ''  heuristic  '' | Volatile \<Rightarrow> ''  volatile   '') @ dep_key d] text) (ct_depends_on cert) \<and>
    list_all (\<lambda>e. shows_lines
      ((''  '' @ ce_producer e @ '' '' @ ce_version e @
          (case ce_role e of Adapter \<Rightarrow> '' (adapter)'' | Observer \<Rightarrow> '' (observer)'' | ProbeRole \<Rightarrow> '' (probe)'')) #
       map (\<lambda>l. ''      known limitation: '' @ l) (ce_known_limitations e)) text) (ct_observation_coverage cert) \<and>
    shows_lines [if st_reasons (ct_status cert) = [] then ''Reasons: none. A valid certificate carries no reasons.''
      else ''Why ('' @ show_nat (length (st_reasons (ct_status cert))) @
        (if length (st_reasons (ct_status cert)) = 1 then '' reason'' else '' reasons'') @
        '', in the certificate's contractual order):''] text \<and>
    shows_lines [if ct_depends_on cert = [] then ''Dependencies: none were observed.''
      else ''Dependencies ('' @ show_nat (length (ct_depends_on cert)) @ ''):''] text \<and>
    shows_lines [if ct_observation_coverage cert = [] then ''Observed by: nothing declared coverage for this computation.''
      else ''Observed by:''] text \<and>
    inj reason_wire \<and> inj prose \<and>
    list_all (\<lambda>l. char_count l + 5 \<le> 79) (str_lines (prose c)) \<and> \<not> sublist (reason_wire c) (prose c)"
proof -
  have parts: "sublist (reasons_text cert) text" "sublist (dependencies_text (ct_depends_on cert)) text"
    "sublist (coverage_text (ct_observation_coverage cert)) text"
    unfolding text_def certificate_text_def sublist_def by (metis append.assoc)+
  have "pad_right label_width ''Artifact'' = ''Artifact     ''" by code_simp
  then have first: "prefix (''Artifact     '' @ artifact_id (ct_artifact cert) @ [newline]) text"
    by (simp add: text_def certificate_text_def header_text_def field_text_def text_line_def prefix_def)
  have reasons: "list_all (\<lambda>ir. shows_lines (reason_lines ir) text) (enumerate 0 (st_reasons (ct_status cert)))"
    using shows_lines_part[OF reason_shown parts(1)] by (simp add: list_all_iff)
  have deps: "list_all (\<lambda>d. shows_lines (dependency_lines d) text) (ct_depends_on cert)"
    using shows_lines_part[OF dependency_shown parts(2)] by (simp add: list_all_iff)
  have producers: "list_all (\<lambda>e. shows_lines (producer_lines e) text) (ct_observation_coverage cert)"
    using shows_lines_part[OF producer_shown parts(3)] by (simp add: list_all_iff)
  have heads: "shows_lines [if st_reasons (ct_status cert) = [] then ''Reasons: none. A valid certificate carries no reasons.''
      else ''Why ('' @ show_nat (length (st_reasons (ct_status cert))) @
        (if length (st_reasons (ct_status cert)) = 1 then '' reason'' else '' reasons'') @
        '', in the certificate's contractual order):''] text"
    "shows_lines [if ct_depends_on cert = [] then ''Dependencies: none were observed.''
      else ''Dependencies ('' @ show_nat (length (ct_depends_on cert)) @ ''):''] text"
    "shows_lines [if ct_observation_coverage cert = [] then ''Observed by: nothing declared coverage for this computation.''
      else ''Observed by:''] text"
    using shows_lines_part[OF reasons_head parts(1)] shows_lines_part[OF dependencies_head parts(2)]
      shows_lines_part[OF coverage_head parts(3)] by blast+
  have "inj prose" "inj reason_wire"
    using prose_distinct wires_distinct every_code by (auto simp: distinct_map inj_on_def)
  then show ?thesis
    using first reasons deps producers heads prose_fits prose_explains every_code[of c]
    unfolding list_all_iff reason_lines_def dependency_lines_def producer_lines_def split_beta by blast
qed

subsection \<open>A concrete report\<close>

definition unprobed_certificate :: certificate where
  \<comment> \<open>a volatile dependency within its declared lifetime, for whose scheme there is no probe\<close>
  "unprobed_certificate =
     \<lparr>ct_cert_id = zero_hash, ct_schema = certificate_schema_v0_1,
      ct_artifact = \<lparr>artifact_id = ''art'', artifact_path = None, artifact_kind = ''text/plain'',
        artifact_content_hash = zero_hash, artifact_size = 0\<rparr>,
      ct_produced_by = \<lparr>pb_computation_id = ''comp:x'', pb_recipe = None, pb_recipe_hash = Some zero_hash,
        pb_adapter = ''claude-code'', pb_started = 0, pb_ended = 0\<rparr>,
      ct_depends_on = [], ct_comparator = None,
      ct_status = \<lparr>st_value = LikelyValid, st_checked = 0,
        st_reasons = [\<lparr>dependency_key = ''attio://company/acme'', reason = VolatileWithinTtlUnprobed, detail = None\<rparr>]\<rparr>,
      ct_observation_coverage = []\<rparr>"

theorem retry_advice_under_the_floor_witness:
  "exit_code (for_status_with_reasons LikelyValid (st_reasons (ct_status unprobed_certificate)) True) = 2 \<and>
   (\<exists>a. certificate_text (\<lambda>_. None) unprobed_certificate
      (for_status_with_reasons LikelyValid (st_reasons (ct_status unprobed_certificate)) True) =
      a @ retry_advice @ [newline])"
proof -
  let ?r = "\<lparr>dependency_key = ''attio://company/acme'', reason = VolatileWithinTtlUnprobed, detail = None\<rparr>"
  have v: "st_value (ct_status unprobed_certificate) = LikelyValid"
    "?r \<in> set (st_reasons (ct_status unprobed_certificate))" "no_basis ?r"
    by (simp_all add: unprobed_certificate_def no_basis_def)
  from retry_advice_under_the_floor[OF v, of True "\<lambda>_. None"] show ?thesis unfolding v(1) .
qed

end
