(* ===== verification/Coverage_Percent.thy ===== *)
theory Coverage_Percent
  imports Cli_Console Complex_Main
begin

section \<open>The percentage of the coverage report\<close>

text \<open>
  The report prints a quotient of counts as a percentage, after two roundings to \<open>f64\<close> (of the
  quotient, and of its product with 100) and one to an integer. Each rounding to \<open>f64\<close> is off by
  at most one part in \<open>2^53\<close>, which is too little to move a quotient of 32-bit counts across the
  middle between two integers.
\<close>

lemma round_even_near:
  assumes "d > 0"
  shows "2 * \<bar>int n - int d * int (round_even n d)\<bar> \<le> int d"
proof -
  define q r where "q = n div d" and "r = n mod d"
  have n: "int n = int d * int q + int r" unfolding q_def r_def by (metis mult_div_mod_eq of_nat_add of_nat_mult)
  have "r < d" using assms by (simp add: r_def)
  have e: "round_even n d = (if 2 * r < d \<or> 2 * r = d \<and> even q then q else q + 1)"
    by (simp add: round_even_def q_def r_def Let_def)
  consider "round_even n d = q" "2 * r \<le> d" | "round_even n d = q + 1" "d \<le> 2 * r"
    unfolding e by (cases "2 * r < d \<or> 2 * r = d \<and> even q") auto
  then show ?thesis
  proof cases
    case 1
    then show ?thesis using n by simp
  next
    case 2
    then show ?thesis using n \<open>r < d\<close> by (simp add: distrib_left)
  qed
qed

lemma round_even_real:
  assumes "d > 0"
  shows "\<bar>real n / real d - real (round_even n d)\<bar> \<le> 1 / 2"
proof -
  have "2 * \<bar>real n - real d * real (round_even n d)\<bar> \<le> real d"
    using round_even_near[OF assms, of n] by (metis (mono_tags, opaque_lifting) of_int_abs of_int_diff of_int_le_iff of_int_mult of_int_numeral of_int_of_nat_eq)
  moreover have "real n / real d - real (round_even n d) = (real n - real d * real (round_even n d)) / real d"
    using assms by (simp add: field_simps)
  ultimately show ?thesis using assms by (simp add: field_simps)
qed

lemma scales_iff: "e \<in> set f64_scales \<longleftrightarrow> e < 1075"
  unfolding f64_scales_def by (simp only: set_upt atLeastLessThan_iff zero_le simp_thms)

lemma f64_near:
  assumes "d > 0" and "2 ^ 52 * d \<le> n * 2 ^ k" and "k < 1075" and "f64_of n d = (m, e)"
  shows "\<bar>real n / real d - real m / 2 ^ e\<bar> \<le> real n / real d / 2 ^ 53" and "2 ^ 52 \<le> m" and "e < 1075"
proof -
  have "find (\<lambda>e. 2 ^ 52 * d \<le> n * 2 ^ e) f64_scales \<noteq> None"
    using assms(2,3) unfolding find_None_iff scales_iff by blast
  then obtain e' where f: "find (\<lambda>e. 2 ^ 52 * d \<le> n * 2 ^ e) f64_scales = Some e'" by blast
  then have e: "e' = e" "m = round_even (n * 2 ^ e) d"
    using assms(4) by (auto simp: f64_of_def)
  from f obtain i where i: "2 ^ 52 * d \<le> n * 2 ^ (f64_scales ! i)" "i < length f64_scales" "e = f64_scales ! i"
    unfolding e(1) find_Some_iff by blast
  have b: "2 ^ 52 * d \<le> n * 2 ^ e" "e < 1075"
    using i(1) nth_mem[OF i(2)] unfolding i(3)[symmetric] scales_iff .
  then have r: "2 ^ 52 * real d \<le> real n * 2 ^ e" 
    by (simp only: of_nat_le_iff[where 'a = real, symmetric] of_nat_mult of_nat_numeral of_nat_power)
  have near: "\<bar>real n * 2 ^ e / real d - real m\<bar> \<le> 1 / 2"
    using round_even_real[OF assms(1), of "n * 2 ^ e"] by (simp add: e(2))
  have "real n / real d - real m / 2 ^ e = (real n * 2 ^ e / real d - real m) / 2 ^ e"
    by (simp add: field_simps)
  then have "\<bar>real n / real d - real m / 2 ^ e\<bar> = \<bar>real n * 2 ^ e / real d - real m\<bar> / 2 ^ e"
    by (simp add: abs_divide)
  also have "\<dots> \<le> 1 / 2 / 2 ^ e" by (rule divide_right_mono[OF near]) simp
  also have "\<dots> \<le> real n / real d / 2 ^ 53"
    using r assms(1) by (simp add: field_simps)
  finally show "\<bar>real n / real d - real m / 2 ^ e\<bar> \<le> real n / real d / 2 ^ 53" .
  have "2 ^ 52 \<le> real n * 2 ^ e / real d"
    using r assms(1) by (simp add: field_simps)
  then have "2 ^ 52 - 1 / 2 \<le> real m" using near by linarith
  then have "real (2 ^ 52 - 1) < real m" by simp
  then show "2 ^ 52 \<le> m" unfolding of_nat_less_iff by simp
  show "e < 1075" by (rule b)
qed

lemma percentage_near:
  assumes "0 < seen" and "seen \<le> calls" and "calls < 2 ^ 32"
  shows "\<bar>100 * real seen / real calls - real (percentage (seen, calls))\<bar> \<le> 1 / 2 + 1 / 2 ^ 44"
proof -
  define x where "x = real seen / real calls"
  have x: "0 < x" "x \<le> 1" using assms by (simp_all add: x_def)
  obtain m e where f: "f64_of seen calls = (m, e)" by fastforce
  obtain m' e' where g: "f64_of (m * 100) (2 ^ e) = (m', e')" by fastforce
  have "2 ^ 52 * calls \<le> 1 * 2 ^ 84" using assms(3) by simp
  also have "\<dots> \<le> seen * 2 ^ 84" using assms(1) by (intro mult_le_mono1) simp
  finally have h: "2 ^ 52 * calls \<le> seen * 2 ^ 84" .
  have "calls > 0" "(84::nat) < 1075" using assms by simp_all
  from f64_near[OF this(1) h this(2) f]
  have m: "\<bar>x - real m / 2 ^ e\<bar> \<le> x / 2 ^ 53" "2 ^ 52 \<le> m" "e < 1075" by (simp_all add: x_def)
  have "(2::nat) ^ 52 * 2 ^ e \<le> 2 ^ 52 * 2 ^ 1074" using m(3) by (intro mult_le_mono2 power_increasing) simp_all
  also have "\<dots> \<le> m * 100 * 2 ^ 1074" using m(2) by (intro mult_le_mono1) linarith
  finally have h': "2 ^ 52 * 2 ^ e \<le> m * 100 * 2 ^ 1074" .
  have "(2::nat) ^ e > 0" "(1074::nat) < 1075" by simp_all
  from f64_near(1)[OF this(1) h' this(2) g]
  have m': "\<bar>100 * (real m / 2 ^ e) - real m' / 2 ^ e'\<bar> \<le> 100 * (real m / 2 ^ e) / 2 ^ 53" by (simp add: mult.commute)
  have p: "\<bar>real m' / 2 ^ e' - real (percentage (seen, calls))\<bar> \<le> 1 / 2"
    using round_even_real[of "2 ^ e'" m'] by (simp add: percentage_def f g)
  have "x / 2 ^ 53 \<le> 1" using x by simp
  then have "real m / 2 ^ e \<le> 2" using m(1) x unfolding abs_le_iff by linarith
  then have "100 * (real m / 2 ^ e) / 2 ^ 53 \<le> 200 / 2 ^ 53" by simp
  moreover have "x / 2 ^ 53 \<le> 1 / 2 ^ 53" using x(2) by (rule divide_right_mono) simp
  then have "\<bar>x - real m / 2 ^ e\<bar> \<le> 1 / 2 ^ 53" using m(1) by linarith
  ultimately have "\<bar>100 * x - real (percentage (seen, calls))\<bar> \<le> 1 / 2 + 200 / 2 ^ 53 + 100 / 2 ^ 53"
    using m' p by argo
  moreover have "200 / 2 ^ 53 + 100 / 2 ^ 53 \<le> 1 / (2::real) ^ 44" by simp
  ultimately show ?thesis by (simp only: x_def times_divide_eq_right)
qed

lemma f64_zero: "d > 0 \<Longrightarrow> f64_of 0 d = (0, 0)"
proof -
  assume "d > 0"
  then have "find (\<lambda>e. 2 ^ 52 * d \<le> 0 * 2 ^ e) f64_scales = None"
    unfolding find_None_iff by simp
  then show ?thesis unfolding f64_of_def by simp
qed

lemma percentage_zero: "calls > 0 \<Longrightarrow> percentage (0, calls) = 0"
  by (simp add: percentage_def f64_zero round_even_def)

lemma too_far: "101 * c \<le> y \<Longrightarrow> s \<le> c \<Longrightarrow> 0 < c \<Longrightarrow> 2 * \<bar>100 * s - y\<bar> \<le> c \<Longrightarrow> False" for c s y :: int
  by (cases "0 \<le> 100 * s - y") auto

text \<open>C19: The percentage in the coverage report is the exact share of tool calls the adapter sees into,
  rounded to the nearest integer, for any report of fewer than \<open>2^32\<close> tool calls: the two roundings
  to \<open>f64\<close> never change the result by more than the choice at a tie. It never exceeds 100.\<close>

theorem percentage_is_nearest:
  assumes "observable_fraction r = Some fraction" and "rp_blind_tool_calls r \<le> rp_total_tool_calls r"
    and "rp_total_tool_calls r < 2 ^ 32"
  shows "2 * \<bar>100 * (int (rp_total_tool_calls r) - int (rp_blind_tool_calls r)) -
      int (percentage fraction) * int (rp_total_tool_calls r)\<bar> \<le> int (rp_total_tool_calls r) \<and>
    percentage fraction \<le> 100"
proof -
  define seen calls where "seen = rp_total_tool_calls r - rp_blind_tool_calls r" and "calls = rp_total_tool_calls r"
  define p where "p = percentage fraction"
  have c: "seen \<le> calls" "calls < 2 ^ 32" "calls > 0" "fraction = (seen, calls)"
    using assms by (auto simp: observable_fraction_def u32_or_max_def seen_def calls_def split: if_splits)
  have near: "2 * \<bar>100 * int seen - int p * int calls\<bar> \<le> int calls"
  proof (cases "seen = 0")
    case True
    then show ?thesis using c by (simp add: p_def percentage_zero)
  next
    case False
    have "\<bar>100 * real seen / real calls - real p\<bar> \<le> 1 / 2 + 1 / 2 ^ 44"
      using percentage_near[of seen calls] False c by (simp add: p_def)
    then have "real calls * \<bar>100 * real seen / real calls - real p\<bar> \<le> real calls * (1 / 2 + 1 / 2 ^ 44)"
      by (rule mult_left_mono) simp
    moreover have "real calls * \<bar>100 * real seen / real calls - real p\<bar> = \<bar>100 * real seen - real p * real calls\<bar>"
      using c(3) by (simp add: abs_mult_pos' right_diff_distrib mult.commute)
    moreover have "real calls / 2 ^ 44 < 1 / 2"
    proof -
      have "real calls < 2 ^ 32" using c(2) by (simp add: numeral_power_eq_of_nat_cancel_iff)
      then show ?thesis by simp
    qed
    ultimately have "2 * \<bar>100 * real seen - real p * real calls\<bar> < real calls + 1"
      by (simp add: distrib_left)
    then have "real_of_int (2 * \<bar>100 * int seen - int p * int calls\<bar>) < real_of_int (int calls + 1)" by simp
    then show ?thesis unfolding of_int_less_iff by simp
  qed
  have "p \<le> 100"
  proof (rule ccontr)
    assume "\<not> p \<le> 100"
    then have "101 * int calls \<le> int p * int calls" by (intro mult_right_mono) auto
    moreover have "int seen \<le> int calls" "0 < int calls" using c(1,3) by simp_all
    ultimately show False using near by (rule too_far)
  qed
  moreover have "int seen = int (rp_total_tool_calls r) - int (rp_blind_tool_calls r)"
    using assms(2) by (simp add: seen_def)
  ultimately show ?thesis using near by (simp add: p_def calls_def)
qed

theorem percentage_is_nearest_witness:
  "2 * \<bar>100 * (3 - 1) - int (percentage (2, 3)) * 3\<bar> \<le> 3 \<and> percentage (2, 3) \<le> 100"
  using percentage_is_nearest[of "report_default\<lparr>rp_total_tool_calls := 3, rp_blind_tool_calls := 1\<rparr>" "(2, 3)"]
  by (simp add: observable_fraction_def report_default_def u32_or_max_def)

end
