(* ===== verification/Observer.thy ===== *)
theory Observer
  imports Ir_Encoding Lines
begin

section \<open>Observers\<close>

text \<open>
  \<open>crates/freshdag-observer\<close>: the interface of an observer (\<open>observer.rs\<close>), the observer that
  only runs the command (\<open>stub.rs\<close>), the one that reads an \<open>fsatrace\<close> log (\<open>linux.rs\<close>)
  and the scripted one (\<open>replay.rs\<close>). Running a process, the lossy decoding of its output, the
  trace file, the environment and the platform are the record \<open>process_world\<close>; clock and
  identifiers are functions of the number of events made.
\<close>

subsection \<open>The interface\<close>

record command_invocation =
  ci_program :: string
  ci_args :: "string list"
  ci_cwd :: string
  ci_env :: "(string \<times> string) list"

definition invocation_new :: "string \<Rightarrow> string \<Rightarrow> command_invocation" where
  "invocation_new program cwd = \<lparr>ci_program = program, ci_args = [], ci_cwd = cwd, ci_env = []\<rparr>"

definition invocation_arg :: "string \<Rightarrow> command_invocation \<Rightarrow> command_invocation" where
  "invocation_arg a i = i\<lparr>ci_args := ci_args i @ [a]\<rparr>"

record observation_run =
  ru_exit_code :: "int option"
  ru_combined_output :: string
  ru_events :: "ir_event list"

datatype observer_error =
    NotSupportedOnPlatform string
  | BackendMissing string
  | SpawnFailed string
  | MalformedObservation string

fun observer_error_display :: "observer_error \<Rightarrow> string" where
  "observer_error_display (NotSupportedOnPlatform s) = ''observer backend does not support this platform: '' @ s"
| "observer_error_display (BackendMissing s) = ''observer backend dependency missing: '' @ s"
| "observer_error_display (SpawnFailed s) = ''failed to spawn observed process: '' @ s"
| "observer_error_display (MalformedObservation s) = ''failed to interpret observation output: '' @ s"

record 'w observer =
  obs_coverage :: coverage_manifest
  obs_observe :: "'w \<Rightarrow> command_invocation \<Rightarrow> observer_error + observation_run"

record process_output =
  po_exit :: "int option"
  po_stdout :: string
  po_stderr :: string

record process_world =
  \<comment> \<open>what running the arguments in a directory with extra variables yields, and the rest of the outside\<close>
  pw_run :: "string list \<Rightarrow> string \<Rightarrow> (string \<times> string) list \<Rightarrow> string + process_output"
  pw_lossy :: "string \<Rightarrow> string"
  pw_linux :: bool
  pw_os :: string
  pw_fresh_uuid :: string
  pw_read :: "string \<Rightarrow> string + string"
  pw_path_dirs :: "string list option"  \<comment> \<open>\<open>$PATH\<close>, split\<close>
  pw_is_file :: "string \<Rightarrow> bool"
  pw_clock :: "nat \<Rightarrow> instant"
  pw_ids :: "nat \<Rightarrow> uuid"

definition combined :: "process_world \<Rightarrow> process_output \<Rightarrow> string" where
  "combined w output = pw_lossy w (po_stdout output) @ pw_lossy w (po_stderr output)"

definition observer_version :: string where
  "observer_version = ''0.0.0''"

subsection \<open>The stub\<close>

definition stub_coverage :: "string \<Rightarrow> coverage_manifest" where
  "stub_coverage version =
     \<lparr>cm_producer = ''freshdag-observer-stub'', cm_version = version, cm_role = Observer,
      cm_platforms = [''any''], cm_emits = [], cm_partial = [],
      cm_capabilities = fold (\<lambda>(k, v). bm_put k v)
        [(''fs.read'', JBool False), (''fs.write'', JBool False), (''proc.spawn'', JBool False),
         (''net.connect'', JBool False)] [],
      cm_known_limitations =
        [''stub observer: runs the subprocess without instrumentation'',
         ''certificates for computations that invoke bash/task on this platform MUST be capped at `unknown` by the '' @
         ''engine's coverage-deficit rule'']\<rparr>"

definition stub_observe :: "process_world \<Rightarrow> command_invocation \<Rightarrow> observer_error + observation_run" where
  "stub_observe w i =
     (case pw_run w (ci_program i # ci_args i) (ci_cwd i) (ci_env i) of
        Inl e \<Rightarrow> Inl (SpawnFailed e)
      | Inr output \<Rightarrow>
          Inr \<lparr>ru_exit_code = po_exit output, ru_combined_output = combined w output, ru_events = []\<rparr>)"

definition stub_observer :: "process_world observer" where
  "stub_observer = \<lparr>obs_coverage = stub_coverage observer_version, obs_observe = stub_observe\<rparr>"

subsection \<open>The trace\<close>

definition fsatrace_producer :: string where
  "fsatrace_producer = ''freshdag-observer-fsatrace''"

definition mode_for_op :: "string \<Rightarrow> string" where
  "mode_for_op op = (if op = ''m'' then ''append'' else if op = ''t'' then ''create'' else ''truncate'')"

definition trace_fields :: "string \<Rightarrow> (string \<times> string \<times> string option) option" where
  \<comment> \<open>the operation, the path, and the second path of a move\<close>
  "trace_fields line =
     (case split_once ''|'' line of
        None \<Rightarrow> None
      | Some (op, rest) \<Rightarrow>
          (let rest = trim rest in
           if rest = [] then None
           else (let (path, second) = (case split_once ''|'' rest of
                     Some (first, second) \<Rightarrow> (trim first, Some (trim second))
                   | None \<Rightarrow> (rest, None))
                 in if path = [] then None else Some (op, path, second))))"

definition trace_event :: "string \<Rightarrow> (event_kind \<times> json) option" where
  \<comment> \<open>the kind and payload the \<open>match\<close> on the operation emits\<close>
  "trace_event line =
     (case trace_fields line of
        None \<Rightarrow> None
      | Some (op, path, second) \<Rightarrow>
          if op = ''r'' then
            Some (FsRead, json_obj [(''path'', JStr path), (''size'', JUInt 0), (''raw_path'', JStr path),
              (''read_kind'', JStr ''direct''), (''impure'', JBool False)])
          else if op = ''m'' \<and> second \<noteq> None then None
          else if op \<in> {''w'', ''m'', ''t''} then
            Some (FsWrite, json_obj [(''path'', JStr path), (''size'', JUInt 0), (''mode'', JStr (mode_for_op op))])
          else None)"

definition make_event ::
  "string \<Rightarrow> string \<Rightarrow> event_kind \<Rightarrow> json \<Rightarrow> instant \<Rightarrow> uuid \<Rightarrow> ir_event" where
  "make_event session_id version kind payload now fresh_id =
     \<lparr>ev_event_id = fresh_id, ev_producer = fsatrace_producer, ev_producer_version = version,
      ev_session_id = session_id, ev_computation_id = None, ev_parent_id = None, ev_causal_inputs = None,
      ev_ts = now, ev_kind = kind, ev_payload = payload\<rparr>"

fun parse_lines ::
  "string \<Rightarrow> string \<Rightarrow> (nat \<Rightarrow> instant) \<Rightarrow> (nat \<Rightarrow> uuid) \<Rightarrow> nat \<Rightarrow> string list \<Rightarrow> ir_event list" where
  "parse_lines session_id version clock ids made [] = []"
| "parse_lines session_id version clock ids made (line # rest) =
     (case trace_event line of
        None \<Rightarrow> parse_lines session_id version clock ids made rest
      | Some (kind, payload) \<Rightarrow>
          make_event session_id version kind payload (clock made) (ids made) #
          parse_lines session_id version clock ids (made + 1) rest)"

definition parse_fsatrace_lines_with ::
  "string \<Rightarrow> string \<Rightarrow> string \<Rightarrow> (nat \<Rightarrow> instant) \<Rightarrow> (nat \<Rightarrow> uuid) \<Rightarrow> ir_event list" where
  "parse_fsatrace_lines_with trace session_id version clock ids =
     parse_lines session_id version clock ids 0 (str_lines trace)"

subsection \<open>The \<open>fsatrace\<close> backend\<close>

record fsatrace_observer =
  fo_binary :: string
  fo_session_id :: string
  fo_version :: string

definition with_binary :: "string \<Rightarrow> string \<Rightarrow> fsatrace_observer" where
  "with_binary path session_id = \<lparr>fo_binary = path, fo_session_id = session_id, fo_version = observer_version\<rparr>"

definition path_join :: "string \<Rightarrow> string \<Rightarrow> string" where
  \<comment> \<open>\<open>Path::join\<close> with a relative right side\<close>
  "path_join a b = (if a = [] \<or> last a = CHR ''/'' then a @ b else a @ ''/'' @ b)"

definition which :: "process_world \<Rightarrow> string \<Rightarrow> string option" where
  "which w bin = Option.bind (pw_path_dirs w) (\<lambda>dirs. find (pw_is_file w) (map (\<lambda>d. path_join d bin) dirs))"

definition linux_only :: "process_world \<Rightarrow> observer_error" where
  "linux_only w = NotSupportedOnPlatform (''fsatrace is Linux-only; current target is '' @ pw_os w)"

definition discover :: "process_world \<Rightarrow> string \<Rightarrow> observer_error + fsatrace_observer" where
  "discover w session_id =
     (if \<not> pw_linux w then Inl (linux_only w)
      else case which w ''fsatrace'' of
          None \<Rightarrow> Inl (BackendMissing
            ''fsatrace binary not found on $PATH; install fsatrace or use with_binary()'')
        | Some path \<Rightarrow> Inr (with_binary path session_id))"

definition note_preload_blind :: string where
  "note_preload_blind =
     ''LD_PRELOAD interception is ABSENT BY CONSTRUCTION for whole classes of child process: setuid/setgid '' @
     ''binaries (the loader drops it), sanitized environments, raw `syscall()` callers, and statically linked '' @
     ''binaries. Those processes are wholly unobserved, not partially observed, and no change to this backend '' @
     ''reaches them '' @ [CHR 0xE2, CHR 0x80, CHR 0x94] @
     '' closing this requires the strace/eBPF-LSM tier in observer-contract '' @ [CHR 0xC2, CHR 0xA7] @
     ''Platform Matrix. Separately and less severely, reads are reported without '' @ [CHR 0xC2, CHR 0xA7] @
     ''Required Behavior #4's `read_kind: \"mmap-pessimistic\"` or a content hash: `read_kind` is hardcoded '' @
     ''`direct` and `size` is 0, so an emitted read is coarser than reality even where interception does reach.''"

definition note_rename_target :: string where
  "note_rename_target =
     ''rename-atomic writes are emitted against the temporary path only; the synthetic fs.write at the rename '' @
     ''target required by observer-contract '' @ [CHR 0xC2, CHR 0xA7] @ ''Required Behavior #3 is not yet implemented''"

definition fsatrace_platforms :: "string list" where
  "fsatrace_platforms = [''linux-x86_64'', ''linux-arm64'']"

definition fsatrace_coverage :: "bool \<Rightarrow> string \<Rightarrow> string \<Rightarrow> coverage_manifest" where
  \<comment> \<open>on Linux or not, on which system, for which version\<close>
  "fsatrace_coverage linux os version =
     (if \<not> linux then
        \<lparr>cm_producer = fsatrace_producer, cm_version = version, cm_role = Observer,
         cm_platforms = fsatrace_platforms, cm_emits = [], cm_partial = [],
         cm_capabilities = fold (\<lambda>k. bm_put k (JBool False))
           [''fs.read'', ''fs.write'', ''fs.rename'', ''fs.stat'', ''fs.dirlist'', ''proc.spawn'', ''net.connect''] [],
         cm_known_limitations =
           [''fsatrace is Linux-only; current target is '' @ os @ '' '' @ [CHR 0xE2, CHR 0x80, CHR 0x94] @
            '' this backend emits nothing here and declares no coverage'']\<rparr>
      else
        \<lparr>cm_producer = fsatrace_producer, cm_version = version, cm_role = Observer,
         cm_platforms = fsatrace_platforms, cm_emits = [''fs.read'', ''fs.write''],
         cm_partial = fold (\<lambda>(k, v). bm_put k v)
           [(''fs.read'', partial_coverage_new BlindInScope note_preload_blind),
            (''fs.write'', partial_coverage_new UnderApproximates note_rename_target)] [],
         cm_capabilities = fold (\<lambda>(k, v). bm_put k v)
           [(''fs.read'', JBool True), (''fs.write'', JBool True), (''fs.rename'', JBool False),
            (''fs.stat'', JBool False), (''fs.dirlist'', JBool False), (''proc.spawn'', JBool False),
            (''net.connect'', JBool False),
            (''symlink_resolution'', JStr ''at-observation-time-not-yet-implemented''),
            (''mmap_reads'', JStr ''not-yet-covered'')] [],
         cm_known_limitations =
           [''glibc only; musl targets require strace fallback'',
            ''W6.1 only emits fs.read and fs.write; renames/mmap/stat land later'',
            ''cannot observe processes that fork before LD_PRELOAD attaches'',
            ''fsatrace delete (`d`) and query (`q`) trace ops are parsed but dropped; '' @
            ''no fs.unlink / fs.stat events are emitted'']\<rparr>)"

definition fsatrace_observe ::
  "fsatrace_observer \<Rightarrow> process_world \<Rightarrow> command_invocation \<Rightarrow> observer_error + observation_run" where
  "fsatrace_observe fo w i =
     (if \<not> pw_linux w then Inl (linux_only w)
      else
        (let trace_path = path_join (ci_cwd i) (''.freshdag-fsatrace.'' @ pw_fresh_uuid w @ ''.log'') in
         case pw_run w ([fo_binary fo, ''rwmdt'', trace_path, ''--'', ci_program i] @ ci_args i) (ci_cwd i) (ci_env i) of
           Inl e \<Rightarrow> Inl (SpawnFailed e)
         | Inr output \<Rightarrow>
             (case pw_read w trace_path of
                Inl e \<Rightarrow> Inl (MalformedObservation (''could not read fsatrace log '' @ trace_path @ '': '' @ e))
              | Inr trace \<Rightarrow>
                  Inr \<lparr>ru_exit_code = po_exit output, ru_combined_output = combined w output,
                    ru_events = parse_fsatrace_lines_with trace (fo_session_id fo) (fo_version fo)
                      (pw_clock w) (pw_ids w)\<rparr>)))"

definition fsatrace_observer_of :: "bool \<Rightarrow> string \<Rightarrow> fsatrace_observer \<Rightarrow> process_world observer" where
  "fsatrace_observer_of linux os fo =
     \<lparr>obs_coverage = fsatrace_coverage linux os (fo_version fo), obs_observe = fsatrace_observe fo\<rparr>"

subsection \<open>The scripted observer\<close>

record scripted_observer =
  sc_events :: "ir_event list"
  sc_coverage :: coverage_manifest
  sc_exit_code :: "int option"
  sc_output :: string

definition scripted_observer_new :: "ir_event list \<Rightarrow> coverage_manifest \<Rightarrow> scripted_observer" where
  "scripted_observer_new events coverage =
     \<lparr>sc_events = events, sc_coverage = coverage, sc_exit_code = Some 0, sc_output = []\<rparr>"

definition with_exit_code :: "int option \<Rightarrow> scripted_observer \<Rightarrow> scripted_observer" where
  "with_exit_code code s = s\<lparr>sc_exit_code := code\<rparr>"

definition with_output :: "string \<Rightarrow> scripted_observer \<Rightarrow> scripted_observer" where
  "with_output out s = s\<lparr>sc_output := out\<rparr>"

definition zero_coverage :: "string \<Rightarrow> coverage_manifest" where
  "zero_coverage producer =
     \<lparr>cm_producer = producer, cm_version = ''test'', cm_role = Observer, cm_platforms = [''any''],
      cm_emits = [], cm_partial = [], cm_capabilities = [],
      cm_known_limitations = [''scripted test double'',
        ''declares zero coverage: any silence from this producer is uninterpretable'']\<rparr>"

definition full_fs_coverage :: "string \<Rightarrow> coverage_manifest" where
  "full_fs_coverage producer =
     \<lparr>cm_producer = producer, cm_version = ''test'', cm_role = Observer, cm_platforms = [''any''],
      cm_emits = [''fs.*''], cm_partial = [], cm_capabilities = [],
      cm_known_limitations = [''scripted test double'',
        ''claims blanket fs.* coverage; no real v0 backend does'']\<rparr>"

definition scripted_observe :: "scripted_observer \<Rightarrow> 'w \<Rightarrow> command_invocation \<Rightarrow> observer_error + observation_run" where
  "scripted_observe s w i =
     Inr \<lparr>ru_exit_code = sc_exit_code s, ru_combined_output = sc_output s, ru_events = sc_events s\<rparr>"

definition scripted_observer_of :: "scripted_observer \<Rightarrow> 'w observer" where
  "scripted_observer_of s = \<lparr>obs_coverage = sc_coverage s, obs_observe = scripted_observe s\<rparr>"

end
