(* ===== verification/Observer_Facts.thy ===== *)
theory Observer_Facts
  imports Observer Graph_Queries
begin

section \<open>What an observer's events are worth\<close>

text \<open>
  The events read from an \<open>fsatrace\<close> log: they name only paths of the log, they decode, and the
  log is read line by line. Then what the store makes of them: an event that belongs to no
  computation and produces no artifact leaves every computation as it was, which is proved by
  renumbering the canonical order (\<open>rank\<close>); and no manifest of the crate lets the silence of an
  observer count.
\<close>

subsection \<open>The trace\<close>

lemma trim_sublist: "sublist (trim s) s"
  using trim_infix[of s] by (auto simp: sublist_def)

lemma trim_subset: "set (trim s) \<subseteq> set s"
  using trim_infix[of s] by (metis Un_iff set_append subsetI)

lemma trace_path:
  assumes "trace_fields line = Some (op, path, second)"
  shows "path \<noteq> [] \<and> CHR ''|'' \<notin> set path \<and> sublist path line"
proof -
  obtain rest where r: "split_once ''|'' line = Some (op, rest)" "trim rest \<noteq> []"
    using assms by (auto simp: trace_fields_def Let_def split: option.splits if_splits)
  have line: "sublist (trim rest) line"
    using split_once_sound[OF r(1)] sublist_trans3[OF trim_sublist sublist_appendI[of rest "op @ ''|''" "[]"]]
    by simp
  show ?thesis
  proof (cases "split_once ''|'' (trim rest)")
    case None
    then have "CHR ''|'' \<notin> set (trim rest)" by (rule split_once_char_None[THEN iffD1])
    then show ?thesis
      using assms r line None by (auto simp: trace_fields_def Let_def split: if_splits)
  next
    case (Some ab)
    then obtain a b where ab: "split_once ''|'' (trim rest) = Some (a, b)" by (cases ab) auto
    have "CHR ''|'' \<notin> set (trim a)"
      using split_once_char_absent[OF ab] trim_subset[of a] by blast
    moreover have "sublist (trim a) line"
      using split_once_sound[OF ab] line
        sublist_trans3[OF sublist_trans3[OF trim_sublist sublist_append_rightI[of a "''|'' @ b"]]] by simp
    ultimately show ?thesis
      using assms r ab by (auto simp: trace_fields_def Let_def split: if_splits)
  qed
qed

lemma parse_lines_in:
  "e \<in> set (parse_lines s v clock ids n ls) \<Longrightarrow>
     \<exists>l\<in>set ls. \<exists>k p m. trace_event l = Some (k, p) \<and> e = make_event s v k p (clock m) (ids m)"
proof (induction ls arbitrary: n)
  case (Cons l ls)
  show ?case
  proof (cases "trace_event l")
    case None
    then show ?thesis using Cons by fastforce
  next
    case (Some kp)
    then obtain k p where t: "trace_event l = Some (k, p)" by (cases kp) auto
    then consider "e = make_event s v k p (clock n) (ids n)" | "e \<in> set (parse_lines s v clock ids (n + 1) ls)"
      using Cons.prems by auto
    then show ?thesis
    proof cases
      case 1
      with t show ?thesis by auto
    next
      case 2
      from Cons.IH[OF this] show ?thesis by auto
    qed
  qed
qed simp

lemma obj_lookup: "\<exists>m. json_obj kvs = JObj m \<and> (\<forall>k. map_of m k = map_of (rev kvs) k)"
  by (metis json_get.simps(1) json_get_obj json_obj_def)

lemma read_payload_decodes:
  "de_fs_read (json_obj [(''path'', JStr path), (''size'', JUInt 0), (''raw_path'', JStr path),
      (''read_kind'', JStr ''direct''), (''impure'', JBool False)]) =
   Some \<lparr>fr_path = path, fr_size = 0, fr_hash = None, fr_follow_symlink_target = None, fr_raw_path = Some path,
     fr_read_kind = DirectRead, fr_impure = False\<rparr>" (is "de_fs_read ?r = _")
proof -
  obtain m where m: "?r = JObj m" "\<And>k. map_of m k = map_of (rev [(''path'', JStr path), (''size'', JUInt 0),
      (''raw_path'', JStr path), (''read_kind'', JStr ''direct''), (''impure'', JBool False)]) k"
    using obj_lookup by blast
  show ?thesis
    unfolding m(1) de_fs_read_def
    by (simp add: req_field_def maybe_field_def default_field_def m(2) de_fs_read_kind_def de_enum_def)
qed

lemma write_payload_decodes:
  "\<exists>mode. de_fs_write (json_obj [(''path'', JStr path), (''size'', JUInt 0), (''mode'', JStr (mode_for_op op))]) =
   Some \<lparr>fw_path = path, fw_size = 0, fw_hash = None, fw_mode = mode, fw_raw_path = None\<rparr>"
  (is "\<exists>mode. de_fs_write ?w = _ mode")
proof -
  obtain m where m: "?w = JObj m" "\<And>k. map_of m k = map_of (rev [(''path'', JStr path), (''size'', JUInt 0),
      (''mode'', JStr (mode_for_op op))]) k"
    using obj_lookup by blast
  show ?thesis
    unfolding m(1) de_fs_write_def
    by (simp add: req_field_def maybe_field_def default_field_def m(2) de_fs_write_mode_def de_enum_def mode_for_op_def)
qed

lemma trace_payload:
  assumes "trace_event line = Some (k, v)"
  obtains path where "str_at v ''path'' = Some path" "path \<noteq> []" "CHR ''|'' \<notin> set path" "sublist path line"
    "k = FsRead \<and> de_fs_read v \<noteq> None \<or> k = FsWrite \<and> de_fs_write v \<noteq> None"
proof -
  obtain op path second where f: "trace_fields line = Some (op, path, second)"
    using assms by (auto simp: trace_event_def split: option.splits)
  let ?r = "json_obj [(''path'', JStr path), (''size'', JUInt 0), (''raw_path'', JStr path),
      (''read_kind'', JStr ''direct''), (''impure'', JBool False)]"
  let ?w = "json_obj [(''path'', JStr path), (''size'', JUInt 0), (''mode'', JStr (mode_for_op op))]"
  from assms f consider "k = FsRead" "v = ?r" | "k = FsWrite" "v = ?w"
    by (auto simp: trace_event_def split: if_splits)
  then show thesis
    using trace_path[OF f] read_payload_decodes[of path] write_payload_decodes[of path op]
    by cases (intro that[of path]; auto simp: str_at_def json_get_obj)+
qed

text \<open>C13: An \<open>fsatrace\<close> log is never embellished: each event read from it is a read or a write that
  decodes, belongs to no computation, and names a non-empty path that occurs in the log as it
  stands, within one line and free of the separator. So the two paths of a move are never joined
  into one.\<close>

theorem observed_paths_occur:
  assumes "e \<in> set (parse_fsatrace_lines_with trace session_id version clock ids)"
  shows "ev_computation_id e = None \<and>
    (\<exists>path. str_at (ev_payload e) ''path'' = Some path \<and> path \<noteq> [] \<and> sublist path trace \<and>
      CHR ''|'' \<notin> set path \<and> newline \<notin> set path) \<and>
    (\<exists>p. decode_payload msg e = Inr p \<and> typed_kind p = ev_kind e \<and> ev_kind e \<in> {FsRead, FsWrite})"
proof -
  from parse_lines_in[OF assms[unfolded parse_fsatrace_lines_with_def]] obtain l k v m where
    l: "l \<in> set (str_lines trace)" "trace_event l = Some (k, v)"
      "e = make_event session_id version k v (clock m) (ids m)" by blast
  from l(2) obtain path where p: "str_at v ''path'' = Some path" "path \<noteq> []" "CHR ''|'' \<notin> set path" "sublist path l"
    "k = FsRead \<and> de_fs_read v \<noteq> None \<or> k = FsWrite \<and> de_fs_write v \<noteq> None"
    by (rule trace_payload)
  have "newline \<notin> set path" "sublist path trace"
    using line_occurs[OF l(1)] p(4) set_mono_sublist[OF p(4)] sublist_trans3 by blast+
  moreover have "\<exists>q. decode_payload msg e = Inr q \<and> typed_kind q = ev_kind e \<and> ev_kind e \<in> {FsRead, FsWrite}"
    using p(5) by (auto simp: l(3) make_event_def decode_payload_def typed_or_def typed_kind_def)
  ultimately show ?thesis
    using p by (auto simp: l(3) make_event_def)
qed

definition clean_path :: "string \<Rightarrow> bool" where
  "clean_path p \<longleftrightarrow> p \<noteq> [] \<and> plain_end (hd p) \<and> plain_end (last p) \<and> newline \<notin> set p \<and> CHR ''|'' \<notin> set p"

definition trace_line :: "string \<times> string \<Rightarrow> string" where
  "trace_line = (\<lambda>(op, path). op @ ''|'' @ path)"

definition entry_event :: "string \<times> string \<Rightarrow> (event_kind \<times> json) option" where
  \<comment> \<open>what an operation on one path stands for\<close>
  "entry_event = (\<lambda>(op, path).
     if op = ''r'' then
       Some (FsRead, json_obj [(''path'', JStr path), (''size'', JUInt 0), (''raw_path'', JStr path),
         (''read_kind'', JStr ''direct''), (''impure'', JBool False)])
     else if op \<in> {''w'', ''m'', ''t''} then
       Some (FsWrite, json_obj [(''path'', JStr path), (''size'', JUInt 0), (''mode'', JStr (mode_for_op op))])
     else None)"

lemma cr_is_space: "\<not> plain_end (CHR 0x0D)"
  by (simp add: plain_end_def white_space_def)

lemma clean_line:
  assumes "CHR ''|'' \<notin> set op" and "newline \<notin> set op" and "clean_path path"
  shows "trace_event (trace_line (op, path)) = entry_event (op, path)"
    and "drop_cr (trace_line (op, path)) = trace_line (op, path)" and "newline \<notin> set (trace_line (op, path))"
proof -
  have p: "trim path = path" "path \<noteq> []" "split_once ''|'' path = None"
    using assms(3) trim_id[of path] by (auto simp: clean_path_def split_once_char_None)
  show "trace_event (trace_line (op, path)) = entry_event (op, path)"
    using assms(1) p by (simp add: trace_event_def trace_fields_def trace_line_def entry_event_def)
  have "last path \<noteq> CHR 0x0D" using assms(3) cr_is_space by (auto simp: clean_path_def)
  then have "strip_suffix [CHR 0x0D] (op @ ''|'' @ path) = None"
  proof (cases "strip_suffix [CHR 0x0D] (op @ ''|'' @ path)")
    case (Some r)
    then have "last (op @ ''|'' @ path) = CHR 0x0D" unfolding strip_suffix_Some_iff by (simp only: last_snoc)
    with p(2) \<open>last path \<noteq> CHR 0x0D\<close> show ?thesis by simp
  qed
  then show "drop_cr (trace_line (op, path)) = trace_line (op, path)"
    by (simp add: drop_cr_def trace_line_def)
  show "newline \<notin> set (trace_line (op, path))"
    using assms by (auto simp: trace_line_def clean_path_def newline_def)
qed

lemma parse_lines_events:
  "map (\<lambda>e. (ev_kind e, ev_payload e)) (parse_lines s v clock ids n ls) = List.map_filter trace_event ls"
  by (induction ls arbitrary: n) (auto simp: map_filter_Cons make_event_def split: option.splits)

text \<open>C14: The log is read line by line and in order: written out as one line per operation and path,
  a sequence of operations comes back as the reads and writes it stands for, deletions and queries
  left out. The paths must be free of newlines and separators and neither begin nor end with white
  space.\<close>

theorem trace_is_read_in_order:
  assumes "\<And>op path. (op, path) \<in> set entries \<Longrightarrow> CHR ''|'' \<notin> set op \<and> newline \<notin> set op \<and> clean_path path"
  shows "map (\<lambda>e. (ev_kind e, ev_payload e))
      (parse_fsatrace_lines_with (concat (map (\<lambda>(op, path). op @ ''|'' @ path @ [newline]) entries))
        session_id version clock ids) =
    List.map_filter entry_event entries"
proof -
  have c: "concat (map (\<lambda>(op, path). op @ ''|'' @ path @ [newline]) entries) =
      concat (map (\<lambda>l. l @ [newline]) (map trace_line entries))"
    by (intro arg_cong[of _ _ concat]) (auto simp: trace_line_def)
  have "str_lines (concat (map (\<lambda>l. l @ [newline]) (map trace_line entries))) = map trace_line entries"
    by (rule lines_of_terminated) (use assms clean_line in fastforce)
  moreover have "List.map_filter trace_event (map trace_line entries) = List.map_filter entry_event entries"
  proof -
    have "trace_event (trace_line en) = entry_event en" if "en \<in> set entries" for en
      using assms that clean_line(1) by (cases en) blast
    then show ?thesis by (induction entries) (auto simp: map_filter_Cons split: option.splits)
  qed
  ultimately show ?thesis
    unfolding parse_fsatrace_lines_with_def c parse_lines_events by simp
qed

subsection \<open>Events outside every computation\<close>

definition loud :: "ir_event \<Rightarrow> bool" where
  \<comment> \<open>it belongs to a computation, or produces an artifact\<close>
  "loud e \<longleftrightarrow> ev_computation_id e \<noteq> None \<or> ev_kind e = ArtifactProduced"

definition rank :: "ir_event list \<Rightarrow> nat \<Rightarrow> nat" where
  \<comment> \<open>the position among the loud events\<close>
  "rank es i = length (filter loud (take i es))"

definition reranked :: "ir_event list \<Rightarrow> nat \<times> ir_event \<Rightarrow> nat \<times> ir_event" where
  "reranked es = (\<lambda>(i, e). (rank es i, e))"

lemma enumerate_bound: "(i, e) \<in> set (enumerate 0 es) \<Longrightarrow> i < length es \<and> es ! i = e"
  by (auto simp: in_set_enumerate_eq)

lemma enumerate_loud:
  "enumerate 0 (filter loud es) = map (reranked es) (filter (\<lambda>p. loud (snd p)) (enumerate 0 es))"
proof (induction es rule: rev_induct)
  case (snoc e es)
  have "rank (es @ [e]) i = rank es i" if "(i, x) \<in> set (enumerate 0 es)" for i x
    using enumerate_bound[OF that] by (simp add: rank_def)
  then have "map (reranked (es @ [e])) (filter (\<lambda>p. loud (snd p)) (enumerate 0 es)) =
      map (reranked es) (filter (\<lambda>p. loud (snd p)) (enumerate 0 es))"
    by (intro map_cong) (auto simp: reranked_def)
  then show ?case
    using snoc by (simp add: enumerate_append_eq reranked_def rank_def)
qed simp

lemma rank_less:
  assumes "p < length es" and "loud (es ! p)"
  shows "rank es p < rank es i \<longleftrightarrow> p < i"
proof (cases "p < i")
  case True
  have "p < length (take i es)" using assms(1) True by simp
  from id_take_nth_drop[OF this] have "take i es = take p es @ es ! p # drop (Suc p) (take i es)"
    using True by (simp add: min_def)
  then have "filter loud (take i es) = filter loud (take p es) @ es ! p # filter loud (drop (Suc p) (take i es))"
    using assms(2) by (metis filter.simps(2) filter_append)
  then show ?thesis using True by (simp add: rank_def)
next
  case False
  then have "take p es = take i es @ drop i (take p es)"
    by (metis append_take_drop_id min.absorb1 not_less take_take)
  then have "rank es i \<le> rank es p"
    unfolding rank_def by (metis filter_append le_add1 length_append)
  then show ?thesis using False by simp
qed

definition moved :: "ir_event list \<Rightarrow> artifact_at \<Rightarrow> artifact_at" where
  "moved es a = a\<lparr>aa_position := rank es (aa_position a)\<rparr>"

lemma collected_loud: "collect_artifact_paths (filter loud es) = map (moved es) (collect_artifact_paths es)"
proof -
  define f :: "nat \<times> ir_event \<Rightarrow> artifact_at option" where "f = (\<lambda>(position, event).
       if ev_kind event \<noteq> ArtifactProduced then None
       else case (str_at (ev_payload event) ''artifact_id'', str_at (ev_payload event) ''path'') of
           (Some i, Some path) \<Rightarrow> Some \<lparr>aa_position = position, aa_path = path, aa_artifact = i,
                                  aa_computation = ev_computation_id event\<rparr>
         | _ \<Rightarrow> None)"
  have quiet: "f q = None" if "\<not> loud (snd q)" for q :: "nat \<times> ir_event"
    using that by (cases q) (simp add: f_def loud_def)
  have renumbered: "f (reranked es q) = map_option (moved es) (f q)" for q :: "nat \<times> ir_event"
    by (cases q) (auto simp: f_def reranked_def moved_def split: option.splits)
  have "List.map_filter f (map (reranked es) (filter (\<lambda>p. loud (snd p)) ps)) = map (moved es) (List.map_filter f ps)" for ps
    by (induction ps) (auto simp: map_filter_Cons renumbered quiet split: option.splits)
  then show ?thesis
    unfolding collect_artifact_paths_def f_def[symmetric] enumerate_loud .
qed

lemma collected_position:
  assumes "a \<in> set (collect_artifact_paths es)"
  shows "aa_position a < length es \<and> loud (es ! aa_position a)"
proof -
  obtain i e where e: "(i, e) \<in> set (enumerate 0 es)" "ev_kind e = ArtifactProduced" "aa_position a = i"
    using assms
    by (auto simp: collect_artifact_paths_def List.map_filter_def split: if_splits option.splits)
  from enumerate_bound[OF e(1)] e(2,3) show ?thesis by (auto simp: loud_def)
qed

lemma producing_loud:
  "producing_artifact (map (moved es) (collect_artifact_paths es)) path (rank es i) c =
     producing_artifact (collect_artifact_paths es) path i c"
proof -
  have f: "find P (map (moved es) as) = map_option (moved es) (find Q as)"
    if "\<And>a. a \<in> set as \<Longrightarrow> P (moved es a) = Q a" for P Q as
    using that by (induction as) auto
  have "find (\<lambda>a. aa_position a < rank es i \<and> path_eq (aa_path a) path \<and> aa_computation a \<noteq> Some c)
      (map (moved es) (rev (collect_artifact_paths es))) =
    map_option (moved es) (find (\<lambda>a. aa_position a < i \<and> path_eq (aa_path a) path \<and> aa_computation a \<noteq> Some c)
      (rev (collect_artifact_paths es)))"
    by (rule f) (use collected_position rank_less in \<open>auto simp: moved_def\<close>)
  then show ?thesis
    by (simp add: producing_artifact_def rev_map option.map_comp comp_def) (simp add: moved_def)
qed

lemma classify_loud:
  "classify msg e (rank es i) w (map (moved es) (collect_artifact_paths es)) c =
     classify msg e i w (collect_artifact_paths es) c"
proof -
  have eq: "classify_read msg e (rank es i) w (map (moved es) (collect_artifact_paths es)) c =
      classify_read msg e i w (collect_artifact_paths es) c"
    unfolding classify_read_def producing_loud ..
  show ?thesis unfolding classify_def eq ..
qed

lemma own_outcomes_loud:
  "own_outcomes msg (map (moved es) (collect_artifact_paths es)) c w (map (reranked es) pes) =
     own_outcomes msg (collect_artifact_paths es) c w pes"
  by (induction pes arbitrary: w) (auto simp: reranked_def classify_loud)

lemma own_events_loud: "own_events c (filter loud es) = map (reranked es) (own_events c es)"
proof -
  have "filter (\<lambda>p. ev_computation_id (snd p) = Some c) (map (reranked es) (filter (\<lambda>p. loud (snd p)) ps)) =
      map (reranked es) (filter (\<lambda>p. ev_computation_id (snd p) = Some c) ps)" for ps
    by (induction ps) (auto simp: reranked_def loud_def)
  then show ?thesis by (simp add: own_events_def enumerate_loud)
qed

lemma own_node_loud:
  "own_node msg (collect_artifact_paths (filter loud es)) (filter loud es) c =
     own_node msg (collect_artifact_paths es) es c"
proof -
  have "key_of_event \<circ> snd \<circ> reranked es = key_of_event \<circ> snd"
    by (auto simp: reranked_def)
  then show ?thesis
    unfolding own_node_absorb node_outcomes_def own_events_loud collected_loud own_outcomes_loud map_map by simp
qed

lemma linearize_loud: "linearize (filter loud es) = filter loud (linearize es)"
  by (simp add: linearize_def filter_sort)

lemma computation_loud: "graph_computation (replay msg (filter loud es) cov) c = graph_computation (replay msg es cov) c"
  by (simp add: replay_node linearize_loud own_node_loud own_events_loud)

lemma attribution_loud: "graph_attribution (replay msg (filter loud es) cov) c = graph_attribution (replay msg es cov) c"
proof -
  have "filter (\<lambda>e. ev_computation_id e = Some c) (filter loud xs) = filter (\<lambda>e. ev_computation_id e = Some c) xs" for xs
    by (induction xs) (auto simp: loud_def)
  then show ?thesis
    by (simp add: replay_attribution computation_loud computation_coverage_of_def coverage_for_computation_def linearize_loud)
qed

text \<open>C12: What the shipped observer reports never reaches a computation: appending to a log any events
  read from an \<open>fsatrace\<close> log leaves the node of every computation, with its dependencies,
  exclusions and obligations, and its coverage exactly as they were.\<close>

theorem observed_events_change_no_computation:
  fixes es trace session_id version clock ids
  defines "log \<equiv> es @ parse_fsatrace_lines_with trace session_id version clock ids"
  shows "graph_computation (replay msg log cov) c = graph_computation (replay msg es cov) c \<and>
    graph_attribution (replay msg log cov) c = graph_attribution (replay msg es cov) c"
proof -
  have "\<not> loud e" if "e \<in> set (parse_fsatrace_lines_with trace session_id version clock ids)" for e
    using parse_lines_in[OF that[unfolded parse_fsatrace_lines_with_def]]
    by (auto simp: loud_def make_event_def elim!: trace_payload)
  then have "filter loud log = filter loud es"
    by (auto simp: log_def filter_empty_conv)
  then show ?thesis
    using computation_loud[of msg log cov c] computation_loud[of msg es cov c]
      attribution_loud[of msg log cov c] attribution_loud[of msg es cov c] by simp
qed

subsection \<open>The manifests\<close>

lemma fsatrace_blind: "\<not> manifest_discharges (fsatrace_coverage linux os version) k"
proof (cases "linux \<and> k \<in> {FsRead, FsWrite}")
  case True
  have p: "cm_partial (fsatrace_coverage True os version) =
      [(''fs.read'', partial_coverage_new BlindInScope note_preload_blind),
       (''fs.write'', partial_coverage_new UnderApproximates note_rename_target)]"
    by (simp add: fsatrace_coverage_def less_char_def)
  have m: "partial_key_matches (event_wire k) k" by (simp add: partial_key_matches_def)
  show ?thesis
    using True m
    by (auto simp: manifest_discharges_def declares_dischargeable_def p matching_partial_def pc_discharges_def
        partial_coverage_new_def)
next
  case False
  have "\<not> pattern_matches ''fs.read'' k \<and> \<not> pattern_matches ''fs.write'' k" if "k \<notin> {FsRead, FsWrite}"
    using that by (cases k; simp add: pattern_matches_def strip_suffix_def starts_with_def)
  then show ?thesis
    using False by (auto simp: manifest_discharges_def declares_dischargeable_def fsatrace_coverage_def)
qed

text \<open>No observer that ships lets its silence count: neither the stub nor the \<open>fsatrace\<close> backend,
  on any platform and in any version, discharges any kind of event; so neither can discharge the
  obligation of a subprocess. The scripted manifest that claims all of \<open>fs.*\<close> would.\<close>

theorem shipped_observers_discharge_nothing:
  "\<not> manifest_discharges (stub_coverage version) k \<and>
   \<not> manifest_discharges (fsatrace_coverage linux os version) k \<and>
   \<not> manifest_discharges (zero_coverage producer) k \<and>
   discharges_subprocess_obligation (entry_from_manifest (full_fs_coverage producer))"
proof -
  have "pattern_matches ''fs.*'' FsRead" by (simp add: pattern_matches_def strip_suffix_def starts_with_def)
  then show ?thesis
    using fsatrace_blind
    by (auto simp: stub_coverage_def zero_coverage_def full_fs_coverage_def manifest_discharges_def
        declares_dischargeable_def discharges_subprocess_obligation_def entry_discharges_def entry_from_manifest_def
        matching_partial_def)
qed

subsection \<open>The contract of an observer\<close>

text \<open>The \<open>Observer\<close> trait as an interface: every event an observer returns has a kind its manifest
  covers and carries the identity of the manifest, whose role is that of an observer. Then an
  observer that declares nothing returns nothing, and once its manifest is registered none of its
  events comes from an unknown producer.\<close>

locale observer_contract =
  fixes published :: "'w \<Rightarrow> coverage_manifest"
    and observe :: "'w \<Rightarrow> command_invocation \<Rightarrow> observer_error + observation_run"
  assumes role: "cm_role (published w) = Observer"
    and declared: "observe w i = Inr run \<Longrightarrow> e \<in> set (ru_events run) \<Longrightarrow>
      manifest_covers (published w) (ev_kind e) \<and> key_of_event e = key_of_manifest (published w)"
begin

lemma silent_without_coverage:
  assumes "observe w i = Inr run" and "cm_emits (published w) = []"
  shows "ru_events run = []"
proof -
  have "\<not> manifest_covers (published w) k" for k
    using assms(2) by (simp add: manifest_covers_def)
  then show ?thesis using declared[OF assms(1)] by (cases "ru_events run") auto
qed

lemma never_unregistered:
  assumes "observe w i = Inr run" and "registry_manifest cov (key_of_manifest (published w)) \<noteq> None"
  shows "list_all (\<lambda>e. registry_manifest cov (key_of_event e) \<noteq> None) (ru_events run)"
  using declared[OF assms(1)] assms(2) by (simp add: list_all_iff)

end

lemma fsatrace_declares:
  assumes "fsatrace_observe fo w i = Inr run" and "e \<in> set (ru_events run)"
  shows "manifest_covers (fsatrace_coverage (pw_linux w) (pw_os w) (fo_version fo)) (ev_kind e) \<and>
    key_of_event e = key_of_manifest (fsatrace_coverage (pw_linux w) (pw_os w) (fo_version fo))"
proof -
  obtain trace where linux: "pw_linux w"
    and "ru_events run = parse_fsatrace_lines_with trace (fo_session_id fo) (fo_version fo) (pw_clock w) (pw_ids w)"
    using assms(1) by (auto simp: fsatrace_observe_def Let_def split: if_splits sum.splits)
  with assms(2) obtain k v m l where e: "trace_event l = Some (k, v)"
      "e = make_event (fo_session_id fo) (fo_version fo) k v (pw_clock w m) (pw_ids w m)"
    by (auto simp: parse_fsatrace_lines_with_def dest: parse_lines_in)
  have "k \<in> {FsRead, FsWrite}"
    using e(1) by (auto elim: trace_payload)
  then show ?thesis
    using linux
    by (auto simp: e(2) make_event_def fsatrace_coverage_def manifest_covers_def key_of_event_def key_of_manifest_def
        pattern_matches_def strip_suffix_def starts_with_def)
qed

interpretation stub_obs: observer_contract "\<lambda>_. stub_coverage observer_version" stub_observe
  by unfold_locales (auto simp: stub_coverage_def stub_observe_def split: sum.splits)

interpretation fsatrace_obs:
  observer_contract "\<lambda>w. fsatrace_coverage (pw_linux w) (pw_os w) (fo_version fo)" "fsatrace_observe fo" for fo
proof unfold_locales
  show "cm_role (fsatrace_coverage (pw_linux w) (pw_os w) (fo_version fo)) = Observer" for w
    by (simp add: fsatrace_coverage_def)
qed (rule fsatrace_declares)

lemma off_linux_observes_nothing:
  "\<not> pw_linux w \<Longrightarrow> \<exists>why. fsatrace_observe fo w i = Inl (NotSupportedOnPlatform why)"
  by (simp add: fsatrace_observe_def linux_only_def)

text \<open>Every event of the observers that ship is covered by the manifest its observer publishes on
  that platform and carries the manifest's identity; so whatever the registry holds, once it holds
  that manifest no event of the run has an unknown producer.\<close>

lemma fsatrace_events_registered:
  assumes "fsatrace_observe fo w i = Inr run"
    and "registry_manifest cov (key_of_manifest (fsatrace_coverage (pw_linux w) (pw_os w) (fo_version fo))) \<noteq> None"
  shows "list_all (\<lambda>e. registry_manifest cov (key_of_event e) \<noteq> None) (ru_events run)"
  using assms by (rule fsatrace_obs.never_unregistered)

definition a_trace :: string where
  "a_trace = ''r|/a'' @ [newline] @ ''m|/b|/c'' @ [newline] @ ''w|/d'' @ [newline]"

theorem observed_paths_occur_witness:
  "\<exists>e\<in>set (parse_fsatrace_lines_with a_trace ''s'' ''1'' (\<lambda>_. 0) of_nat). ev_computation_id e = None \<and>
    (\<exists>path. str_at (ev_payload e) ''path'' = Some path \<and> sublist path a_trace)"
proof -
  let ?es = "parse_fsatrace_lines_with a_trace ''s'' ''1'' (\<lambda>_. 0) of_nat"
  have "?es \<noteq> []" by code_simp
  then have "hd ?es \<in> set ?es" by simp
  from observed_paths_occur[OF this] this show ?thesis by blast
qed

theorem trace_is_read_in_order_witness:
  "map (\<lambda>e. (ev_kind e, ev_payload e))
     (parse_fsatrace_lines_with (''r|/a'' @ [newline] @ ''d|/b'' @ [newline]) ''s'' ''1'' (\<lambda>_. 0) of_nat) =
   List.map_filter entry_event [(''r'', ''/a''), (''d'', ''/b'')]"
proof -
  have "clean_path ''/a''" "clean_path ''/b''" by code_simp+
  then have h: "CHR ''|'' \<notin> set op \<and> newline \<notin> set op \<and> clean_path path"
    if "(op, path) \<in> set [(''r'', ''/a''), (''d'', ''/b'')]" for op path
    using that by (auto simp: newline_def)
  show ?thesis
    using trace_is_read_in_order[of "[(''r'', ''/a''), (''d'', ''/b'')]" "''s''" "''1''" "\<lambda>_. 0" of_nat, OF h] by simp
qed

end
