(* ===== verification/Reqwest_Transport.thy ===== *)
theory Reqwest_Transport
  imports Https_Facts Ir "HOL-Library.Sublist"
begin

section \<open>The production transport\<close>

text \<open>
  \<open>crates/freshdag-probes/src/https/reqwest_transport.rs\<close>, and the coverage manifest of the https
  probe. The \<open>reqwest\<close> client is the parameter \<open>client\<close>: from a method, a URL and the header
  fields to an answer. An error is what the code asks of it: its six predicates, its text and the
  texts of its sources. \<open>lower\<close> is \<open>to_lowercase\<close> and \<open>to_str\<close> the text of a header value, if it
  has one.
\<close>

subsection \<open>Errors\<close>

record reqwest_error =
  re_timeout :: bool
  re_body :: bool
  re_decode :: bool
  re_builder :: bool
  re_connect :: bool
  re_request :: bool
  re_display :: string
  re_sources :: "string list"

definition error_chain_text :: "(string \<Rightarrow> string) \<Rightarrow> reqwest_error \<Rightarrow> string" where
  "error_chain_text lower e = lower (fold (\<lambda>s text. text @ ''; '' @ s) (re_sources e) (re_display e))"

definition mentions :: "string \<Rightarrow> string list \<Rightarrow> bool" where
  \<comment> \<open>\<open>chain.contains(..) || ..\<close>\<close>
  "mentions text needles \<longleftrightarrow> list_ex (\<lambda>n. sublist n text) needles"

definition dns_words :: "string list" where
  "dns_words = [''dns error'', ''failed to lookup address'', ''name or service not known'', ''nodename nor servname'']"

definition tls_words :: "string list" where
  "tls_words = [''certificate'', ''tls'', ''handshake'', ''invalid peer'']"

definition classify_error :: "(string \<Rightarrow> string) \<Rightarrow> reqwest_error \<Rightarrow> transport_error" where
  "classify_error lower e =
     (if re_timeout e then TransportTimeout
      else if re_body e \<or> re_decode e then TransportBody
      else if re_builder e then TransportInvalidRequest
      else if re_connect e then
        (let chain = error_chain_text lower e in
         if mentions chain dns_words then TransportDns
         else if mentions chain tls_words then TransportTls
         else TransportConnect)
      else if re_request e then TransportConnect
      else TransportOther)"

subsection \<open>Requests\<close>

record reqwest_response =
  rr_status :: u16
  rr_headers :: headers  \<comment> \<open>the values as bytes\<close>
  rr_body :: "string option list"

type_synonym 'w client = "'w \<Rightarrow> string \<Rightarrow> string \<Rightarrow> headers \<Rightarrow> (reqwest_error + reqwest_response) \<times> 'w"

definition kept_headers :: "(string \<Rightarrow> string option) \<Rightarrow> headers \<Rightarrow> headers" where
  \<comment> \<open>the fields whose value has a text\<close>
  "kept_headers to_str raw =
     fold (\<lambda>(name, v) h. case to_str v of None \<Rightarrow> h | Some v \<Rightarrow> headers_push name v h) raw []"

definition reqwest_execute ::
  "(string \<Rightarrow> string) \<Rightarrow> (string \<Rightarrow> string option) \<Rightarrow> 'w client \<Rightarrow> 'w transport" where
  "reqwest_execute lower to_str client w request =
     (case client w (http_method_str (rq_method request)) (rq_url request) (rq_headers request) of
        (Inl e, w) \<Rightarrow> (Inl (classify_error lower e), w)
      | (Inr response, w) \<Rightarrow>
          (Inr \<lparr>rs_status = rr_status response, rs_headers = kept_headers to_str (rr_headers response),
             rs_body = (if rq_method request = GetMethod \<and> rr_status response \<noteq> 304
               then Some (rr_body response) else None)\<rparr>, w))"

definition default_timeout_secs :: u64 where
  "default_timeout_secs = 10"

definition with_timeout ::
  "(string \<Rightarrow> string) \<Rightarrow> (string \<Rightarrow> string option) \<Rightarrow> (u64 \<Rightarrow> string \<Rightarrow> string + 'w client) \<Rightarrow> u64
     \<Rightarrow> transport_error + 'w transport" where
  \<comment> \<open>\<open>build\<close> is the client builder, given the timeout and the user agent, told to follow no redirect\<close>
  "with_timeout lower to_str build timeout =
     (case build timeout ''freshdag-probes/0.0.0'' of
        Inl _ \<Rightarrow> Inl TransportInvalidRequest
      | Inr client \<Rightarrow> Inr (reqwest_execute lower to_str client))"

definition reqwest_new ::
  "(string \<Rightarrow> string) \<Rightarrow> (string \<Rightarrow> string option) \<Rightarrow> (u64 \<Rightarrow> string \<Rightarrow> string + 'w client)
     \<Rightarrow> transport_error + 'w transport" where
  "reqwest_new lower to_str build = with_timeout lower to_str build default_timeout_secs"

subsection \<open>The manifest of the https probe\<close>

definition https_coverage_manifest :: coverage_manifest where
  "https_coverage_manifest =
     \<lparr>cm_producer = ''freshdag-probes/https'', cm_version = ''0.0.0'', cm_role = ProbeRole, cm_platforms = [],
      cm_emits = [''probe.checked''], cm_partial = [],
      cm_capabilities = fold (\<lambda>(k, v). bm_put k v)
        [(''conditional_requests'', JBool True), (''content_hash_fallback'', JBool True), (''auth'', JBool False)] [],
      cm_known_limitations =
        [''No credential support: endpoints requiring authentication return Unknown { retryable: false }.'',
         ''Content-hash fallback hashes raw response octets with no canonicalization, so identical resources '' @
         ''served with different Content-Encoding hash differently (pessimistic by design; '' @
         ''canonicalization is escalated to the comparator subsystem).'',
         ''The probe is stateless: cross-check ETag churn is visible to the engine's anti-thrash policy, not to this probe.'',
         ''ttl_hint is not used to shorten work; a probe cannot prove freshness from a TTL it did not itself observe the start of.'']\<rparr>"

subsection \<open>What a failure becomes\<close>

lemma not_retried_iff:
  "\<not> transport_retryable (classify_error lower e) \<longleftrightarrow>
     \<not> re_timeout e \<and> \<not> re_body e \<and> \<not> re_decode e \<and>
     (re_builder e \<or> re_connect e \<and> \<not> mentions (error_chain_text lower e) dns_words \<and>
        mentions (error_chain_text lower e) tls_words)"
  by (auto simp: classify_error_def Let_def)

lemma kept_headers_eq:
  "kept_headers to_str raw = List.map_filter (\<lambda>(name, v). map_option (Pair name) (to_str v)) raw"
proof -
  have "fold (\<lambda>(name, v) h. case to_str v of None \<Rightarrow> h | Some v \<Rightarrow> headers_push name v h) raw h =
      h @ List.map_filter (\<lambda>(name, v). map_option (Pair name) (to_str v)) raw" for h
    by (induction raw arbitrary: h)
       (auto simp: headers_push_def List.map_filter_def split: option.splits)
  then show ?thesis by (simp add: kept_headers_def)
qed

lemma executed_response:
  assumes "answered (reqwest_execute lower to_str client) request r"
  shows "\<exists>v response. fst (client v (http_method_str (rq_method request)) (rq_url request) (rq_headers request)) =
    Inr response \<and> rr_status response = rs_status r"
proof -
  from assms obtain v v' where "reqwest_execute lower to_str client v request = (Inr r, v')"
    by (auto simp: answered_def)
  then show ?thesis
    by (auto simp: reqwest_execute_def split: prod.splits sum.splits intro!: exI[of _ v])
qed

text \<open>Over the production transport, too, a verdict rests on a response: whenever the https probe
  reports a match or a drift, the client returned a response, with status 304 or in the 200s, to a
  request of the probe. No failure of the client, however classified, decides anything.\<close>

lemma decided_response:
  assumes "https_check ops hex (reqwest_execute lower to_str client) cfg w key fp ttl = res"
    and "\<And>why y. res \<noteq> ProbeUndecided why y"
  shows "\<exists>v (request :: http_request) response. fst (client v (http_method_str (rq_method request)) (rq_url request) (rq_headers request)) =
      Inr response \<and> (rr_status response = 304 \<or> 200 \<le> rr_status response \<and> rr_status response \<le> 299)"
  using assms
proof (rule run_decided)
  fix original pl s u m cl cx cx1 cx2
  assume s: "settled_ok s"
    "answered (reqwest_execute lower to_str client) (request_for ops pl u m) (settled_response s)"
  from s(1) have st: "rs_status (settled_response s) = 304 \<or>
      200 \<le> rs_status (settled_response s) \<and> rs_status (settled_response s) \<le> 299"
    by (cases s) (simp_all add: settled_ok_def)
  from executed_response[OF s(2)] obtain v response where
    "fst (client v (http_method_str (rq_method (request_for ops pl u m))) (rq_url (request_for ops pl u m))
       (rq_headers (request_for ops pl u m))) = Inr response" "rr_status response = rs_status (settled_response s)"
    by blast
  with st show ?thesis
    by (intro exI[of _ v] exI[of _ "request_for ops pl u m"] exI[of _ response] conjI) simp_all
qed

definition refused :: "string \<Rightarrow> reqwest_error" where
  \<comment> \<open>a refused connection, as \<open>reqwest\<close> prints it\<close>
  "refused url = \<lparr>re_timeout = False, re_body = False, re_decode = False, re_builder = False, re_connect = True,
     re_request = True, re_display = ''error sending request for url ('' @ url @ '')'',
     re_sources = [''client error (Connect)'', ''tcp connect error'', ''Connection refused (os error 111)'']\<rparr>"

text \<open>A refused connection is retried or not depending on the name of the page: the text that is
  searched for words of TLS contains the URL, so a refusal by a server whose URL contains
  \<open>certificate\<close> or \<open>tls\<close> is taken for a failure of TLS.\<close>

lemma refusal_depends_on_the_url:
  "classify_error id (refused ''https://example.org/a'') = TransportConnect"
  "classify_error id (refused ''https://example.org/certificates'') = TransportTls"
  by code_simp+

end
