(* ===== verification/End_To_End.thy ===== *)
theory End_To_End
  imports Claude_Facts Engine_Facts Cli_Mark Observer_Facts Reqwest_Transport
begin

section \<open>From a hook payload to a check\<close>

text \<open>
  Properties that span the adapter, the store, the engine and the command line: what a tool call
  compiled by the adapter makes of the checks and marks that later read the log. The log is any log
  that holds the compiled events; nothing is assumed of its other events.
\<close>

subsection \<open>Delegations and observers\<close>

lemma in_assembled:
  assumes "x \<in> set (assembled_coverage (replay msg es cov) c)" and "x \<noteq> engine_coverage_entry"
  shows "\<exists>e\<in>set es. \<exists>m. ev_computation_id e = Some c \<and> registry_manifest cov (key_of_event e) = Some m \<and>
    x = entry_from_manifest m"
  using assms
  by (force simp: assembled_coverage_def replay_attribution computation_coverage_of_def Let_def
      coverage_for_computation_def lookup_entries_in split: option.splits if_splits)

lemma observer_took_part:
  assumes "has_fs_covered_observer (assembled_coverage (replay msg es cov) c)"
  shows "\<exists>e\<in>set es. \<exists>m. ev_computation_id e = Some c \<and> registry_manifest cov (key_of_event e) = Some m \<and>
    cm_role m = Observer \<and> manifest_discharges m FsRead"
proof -
  obtain x where x: "x \<in> set (assembled_coverage (replay msg es cov) c)" "discharges_subprocess_obligation x"
    using assms by (auto simp: has_fs_covered_observer_def list_ex_iff)
  then have "x \<noteq> engine_coverage_entry"
    by (auto simp: engine_coverage_entry_def discharges_subprocess_obligation_def)
  from in_assembled[OF x(1) this] obtain e m where em: "e \<in> set es" "ev_computation_id e = Some c"
      "registry_manifest cov (key_of_event e) = Some m" "x = entry_from_manifest m"
    by blast
  moreover have "cm_role m = Observer \<and> manifest_discharges m FsRead"
    using x(2) unfolding em(4) discharges_subprocess_obligation_def entry_from_manifest_agree
    by (simp add: entry_from_manifest_def)
  ultimately show ?thesis by blast
qed

lemma delegation_recorded:
  assumes "str_at payload ''hook_event_name'' = Some ''PreToolUse''" and "str_at payload ''session_id'' = Some s"
    and "str_at payload ''tool_name'' = Some raw" and "raw \<in> {''Bash'', ''Task'', ''Agent''}"
    and "\<not> list_ex (\<lambda>p. pattern_matches p ToolInvoked) (ac_suppressed_kinds (cp_config cp))"
  shows "\<exists>e\<in>set (fst (compile_value cp payload)).
    spawns_subprocess e \<and> ev_computation_id e = Some (computation_of cp s)"
proof -
  have "payload_hook payload = Some PreToolUse"
    using assms(1,2) by (simp add: payload_hook_def hook_event_parse_def)
  then have "\<exists>e\<in>set (fst (compile_value cp payload)). spawns_subprocess e"
    using assms(3-5) by (simp add: value_spawns inner_spawns kind_suppressed_def delegating_tools_def)
  moreover have "payload_who cp payload = (s, Some (computation_of cp s))"
    using assms(1,2) by (simp add: payload_who_def)
  ultimately show ?thesis
    using value_attributed[of _ cp payload] by auto
qed

lemma delegation_observed:
  assumes "engine_ok msg cov eng"
    and "fst (engine_check tadd hex to_vec now world eng a) = Inr out"
    and "is_usable (st_value (ct_status (chk_certificate out)))"
    and "computation_for (eng_graph eng) a = Inr (computation_of cp s)"
    and "str_at payload ''hook_event_name'' = Some ''PreToolUse''" and "str_at payload ''session_id'' = Some s"
    and "str_at payload ''tool_name'' = Some raw" and "raw \<in> {''Bash'', ''Task'', ''Agent''}"
    and "\<not> list_ex (\<lambda>p. pattern_matches p ToolInvoked) (ac_suppressed_kinds (cp_config cp))"
    and "set (fst (compile_value cp payload)) \<subseteq> set (eng_events eng)"
  shows "\<exists>e\<in>set (eng_events eng). \<exists>m. ev_computation_id e = Some (computation_of cp s) \<and>
    registry_manifest cov (key_of_event e) = Some m \<and> cm_role m = Observer \<and> manifest_discharges m FsRead"
proof -
  have g: "eng_graph eng = replay msg (eng_events eng) cov"
    using assms(1) by (simp add: engine_ok_def)
  obtain n where n: "graph_computation (eng_graph eng) (computation_of cp s) = Some n"
      "cn_obligations n = [] \<or> has_fs_covered_observer (assembled_coverage (eng_graph eng) (computation_of cp s))"
    using usable_check[OF assms(1-3)] assms(4) by (metis sum.inject(2))
  have "has_coverage_obligation n"
    using node_obligations[OF n(1)[unfolded g]] delegation_recorded[OF assms(5-9)] assms(10) by blast
  then have "has_fs_covered_observer (assembled_coverage (eng_graph eng) (computation_of cp s))"
    using n(2) by (simp add: has_coverage_obligation_def)
  then show ?thesis unfolding g by (rule observer_took_part)
qed

text \<open>C2: A session that delegated is judged only with an observer. Let the log hold what the adapter
  compiled from a \<open>PreToolUse\<close> payload of session \<open>s\<close> for \<open>Bash\<close>, \<open>Task\<close> or
  \<open>Agent\<close> (and \<open>tool.invoked\<close> not be suppressed). Then each check that calls an artifact of
  the session's computation Valid or LikelyValid rests on an event of that computation whose
  producer is registered as an observer and answers for file reads; neither the adapter's own
  manifest nor that of the command line or the engine will do.\<close>

theorem delegation_needs_an_observer:
  assumes "engine_ok msg cov eng"
    and "fst (engine_check tadd hex to_vec now world eng a) = Inr out"
    and "is_usable (st_value (ct_status (chk_certificate out)))"
    and "computation_for (eng_graph eng) a = Inr (computation_of cp s)"
    and "str_at payload ''hook_event_name'' = Some ''PreToolUse''" and "str_at payload ''session_id'' = Some s"
    and "str_at payload ''tool_name'' = Some raw" and "raw \<in> {''Bash'', ''Task'', ''Agent''}"
    and "\<not> list_ex (\<lambda>p. pattern_matches p ToolInvoked) (ac_suppressed_kinds (cp_config cp))"
    and "set (fst (compile_value cp payload)) \<subseteq> set (eng_events eng)"
  shows "\<exists>e\<in>set (eng_events eng). \<exists>m. ev_computation_id e = Some (computation_of cp s) \<and>
    registry_manifest cov (key_of_event e) = Some m \<and> cm_role m = Observer \<and> manifest_discharges m FsRead"
  by (rule delegation_observed[OF assms])

definition shipped :: "coverage_manifest \<Rightarrow> bool" where
  \<comment> \<open>the manifests the adapter, the command line, the https probe and the observers publish\<close>
  "shipped m \<longleftrightarrow> m = mark_manifest \<or> m = https_coverage_manifest \<or> (\<exists>config. m = coverage_manifest_for config) \<or>
     (\<exists>version. m = stub_coverage version) \<or> (\<exists>linux os version. m = fsatrace_coverage linux os version)"

lemma shipped_blind: "shipped m \<Longrightarrow> \<not> (cm_role m = Observer \<and> manifest_discharges m FsRead)"
proof -
  have "cm_role (coverage_manifest_for config) = Adapter" for config
    by (simp add: coverage_manifest_for_def manifest_with_version_def Let_def)
  moreover have "cm_role mark_manifest = Adapter" "cm_role https_coverage_manifest = ProbeRole"
    by (simp_all add: mark_manifest_def https_coverage_manifest_def)
  moreover have "\<not> manifest_discharges (stub_coverage version) FsRead" for version
    by (simp add: stub_coverage_def manifest_discharges_def declares_dischargeable_def)
  ultimately show "shipped m \<Longrightarrow> \<not> (cm_role m = Observer \<and> manifest_discharges m FsRead)"
    using fsatrace_blind by (auto simp: shipped_def)
qed

text \<open>C1: With what ships, a session that delegated is never fresh. If every registered manifest is one
  that the adapter, \<open>freshdag mark\<close>, the https probe, the stub or the \<open>fsatrace\<close> observer publishes, then no
  artifact of a session whose log holds a \<open>Bash\<close>, \<open>Task\<close> or \<open>Agent\<close> call is
  Valid or LikelyValid, whatever else the log holds and whatever the probes answer.\<close>

theorem delegated_session_is_never_fresh:
  assumes "engine_ok msg cov eng" and "\<And>k m. registry_manifest cov k = Some m \<Longrightarrow> shipped m"
    and "fst (engine_check tadd hex to_vec now world eng a) = Inr out"
    and "computation_for (eng_graph eng) a = Inr (computation_of cp s)"
    and "str_at payload ''hook_event_name'' = Some ''PreToolUse''" and "str_at payload ''session_id'' = Some s"
    and "str_at payload ''tool_name'' = Some raw" and "raw \<in> {''Bash'', ''Task'', ''Agent''}"
    and "\<not> list_ex (\<lambda>p. pattern_matches p ToolInvoked) (ac_suppressed_kinds (cp_config cp))"
    and "set (fst (compile_value cp payload)) \<subseteq> set (eng_events eng)"
  shows "st_value (ct_status (chk_certificate out)) \<in> {Stale, UnknownStatus}"
proof (rule ccontr)
  assume "st_value (ct_status (chk_certificate out)) \<notin> {Stale, UnknownStatus}"
  then have "is_usable (st_value (ct_status (chk_certificate out)))"
    by (cases "st_value (ct_status (chk_certificate out))") (auto simp: is_usable_def)
  from delegation_observed[OF assms(1,3) this assms(4-10)] assms(2) shipped_blind show False by blast
qed

subsection \<open>Writes and marks\<close>

lemma written_payload:
  assumes "str_at payload ''hook_event_name'' = Some ''PreToolUse''" and "str_at payload ''session_id'' = Some s"
    and "str_at payload ''tool_name'' = Some raw"
    and "e \<in> set (fst (compile_value cp payload))" and "ev_kind e = FsWrite"
  shows "fs_of cp (context_for cp s payload) payload raw = Some (FsWrite, ev_payload e) \<and>
    ev_computation_id e = Some (computation_of cp s)"
proof
  let ?ctx = "context_for cp s payload"
  have "payload_hook payload = Some PreToolUse"
    using assms(1,2) by (simp add: payload_hook_def hook_event_parse_def)
  then have i: "compile_inner cp payload = compile_pre_tool_use cp ?ctx payload"
    using assms(2) by (simp add: compile_inner_event compile_hook_event_def)
  have "e \<in> set (fst (compile_pre_tool_use cp ?ctx payload))"
    using assms(4,5) by (cases rule: compile_value_cases[of cp payload]) (auto simp: passed_def i)
  then show "fs_of cp ?ctx payload raw = Some (FsWrite, ev_payload e)"
    using assms(5)
    by (rule_tac pre_tool_use_eq[OF assms(3), of cp ?ctx])
       (auto simp: Let_def compiler_event_eq dest!: diagnostics_shape split: option.splits)
  have "payload_who cp payload = (s, Some (computation_of cp s))"
    using assms(1,2) by (simp add: payload_who_def)
  then show "ev_computation_id e = Some (computation_of cp s)"
    using value_attributed[OF assms(4)] by simp
qed

lemma written_hash:
  "str_at (snd (fst (synthesize_write hex raw input r))) ''hash'' =
     map_option (\<lambda>c. ''blake3:'' @ hex c) (write_content raw input)"
proof -
  have get: "json_get (json_insert k v j) ''hash'' = json_get j ''hash''" if "k \<noteq> ''hash''" "\<exists>m. j = JObj m" for k v j
    using that by auto
  show ?thesis
    by (cases "write_content raw input")
       (simp_all add: synthesize_write_eq str_at_def get inserted_decodes ser_is_obj ser_fs_write_lookup write_of_def
        hash_display_def hash_algo_wire.simps del: json_insert.simps)
qed

text \<open>C3: What \<open>mark\<close> makes of a file the adapter saw written. When the latest write of the file in
  the log is one the adapter compiled from a tool call of session \<open>s\<close>, then after a
  \<open>Write\<close> with the contents in its input the file is attributed to the session's computation
  exactly when its bytes have the digest of those contents, and otherwise refused as drifted; after
  an edit, or a \<open>Write\<close> without contents, it is refused as unverifiable, whatever the
  bytes.\<close>

theorem adapter_write_can_be_marked:
  assumes "str_at payload ''hook_event_name'' = Some ''PreToolUse''" and "str_at payload ''session_id'' = Some s"
    and "str_at payload ''tool_name'' = Some raw" and "json_get payload ''tool_input'' = Some input"
    and "latest_write_of canon events target = Some e" and "e \<in> set (fst (compile_value cp payload))"
  shows "attribute canon events target \<lparr>algo = Blake3, digest_hex = cp_hex cp bytes\<rparr> =
    (case (if raw = ''Write'' then str_at input ''content'' else None) of
       None \<Rightarrow> Inl (UnverifiableWrite target unverifiable_hint)
     | Some body \<Rightarrow>
         if cp_hex cp body = cp_hex cp bytes then Inr (e, computation_of cp s)
         else Inl (ContentDrifted target (''blake3:'' @ cp_hex cp body) (''blake3:'' @ cp_hex cp bytes)))"
proof -
  have "ev_kind e = FsWrite"
    using assms(5) unfolding latest_write_of_def find_Some_iff by (auto simp: writes_path_def)
  from written_payload[OF assms(1-3,6) this]
  have w: "fs_of cp (context_for cp s payload) payload raw = Some (FsWrite, ev_payload e)"
    "ev_computation_id e = Some (computation_of cp s)" by simp_all
  have "str_at (ev_payload e) ''hash'' = map_option (\<lambda>c. ''blake3:'' @ cp_hex cp c) (write_content raw input)"
    using w(1)
  proof (cases rule: fs_of_cases)
    case (wrote raw_path r)
    then have "ev_payload e = snd (fst (synthesize_write (cp_hex cp) raw (hook_input payload) r))"
      by (metis snd_conv)
    then show ?thesis using assms(4) by (simp add: written_hash hook_input_def)
  qed simp
  then show ?thesis
    using assms(5) w(2)
    by (auto simp: attribute_def ok_or_def res_bind_def write_content_def hash_display_def split: option.splits)
qed

subsection \<open>Concrete sessions\<close>

definition x_compiler :: compiler where
  \<comment> \<open>its session's computation is that of the sample log\<close>
  "x_compiler = compiler_production (\<lambda>_. ''x'') (\<lambda>n. int n + 10) (\<lambda>n. of_nat (n + 100)) small_disk adapter_config_new"

definition bash_payload :: json where
  "bash_payload = JObj [(''hook_event_name'', JStr ''PreToolUse''), (''session_id'', JStr ''s''),
     (''tool_input'', JObj [(''command'', JStr ''make'')]), (''tool_name'', JStr ''Bash'')]"

definition write_payload :: json where
  "write_payload = JObj [(''hook_event_name'', JStr ''PreToolUse''), (''session_id'', JStr ''s''),
     (''tool_input'', JObj [(''content'', JStr ''body''), (''file_path'', JStr ''/a'')]), (''tool_name'', JStr ''Write'')]"

definition tool_manifest :: coverage_manifest where
  "tool_manifest = \<lparr>cm_producer = claude_producer, cm_version = claude_version, cm_role = Adapter,
     cm_platforms = [], cm_emits = [''tool.*''], cm_partial = [], cm_capabilities = [], cm_known_limitations = []\<rparr>"

definition session_registry :: coverage_registry where
  "session_registry = \<lparr>cr_path = None, cr_manifests =
     [(key_of_manifest tool_manifest, tool_manifest), (ProducerKey ''obs'' ''1'', obs_manifest)]\<rparr>"

definition session_engine :: "unit engine" where
  "session_engine = engine_build no_text (sample_log @ fst (compile_value x_compiler bash_payload)) session_registry
     (snd (register_probe (file_stub unchanged) [])) (Some 60)"

lemma session_check:
  "case sample_check session_engine ''art'' of Inl _ \<Rightarrow> False
   | Inr out \<Rightarrow> st_value (ct_status (chk_certificate out)) = Valid"
  by code_simp

lemma session_computation: "computation_for (eng_graph session_engine) ''art'' = Inr (computation_of x_compiler ''s'')"
  by code_simp

lemma x_compiler_simps:
  "ac_suppressed_kinds (cp_config x_compiler) = []" "cp_hex x_compiler b = ''x''"
  by (simp_all add: x_compiler_def compiler_production_def with_content_def compiler_new_def adapter_config_new_def)

theorem delegation_needs_an_observer_witness:
  "\<exists>e\<in>set (eng_events session_engine). \<exists>m. ev_computation_id e = Some (computation_of x_compiler ''s'') \<and>
    registry_manifest session_registry (key_of_event e) = Some m \<and> cm_role m = Observer \<and> manifest_discharges m FsRead"
proof -
  obtain out where out: "sample_check session_engine ''art'' = Inr out"
      "is_usable (st_value (ct_status (chk_certificate out)))"
    using session_check by (cases "sample_check session_engine ''art''") (auto simp: is_usable_def)
  have ok: "engine_ok no_text session_registry session_engine"
    by (simp add: session_engine_def engine_ok_build)
  have p: "str_at bash_payload ''hook_event_name'' = Some ''PreToolUse''" "str_at bash_payload ''session_id'' = Some ''s''"
    "str_at bash_payload ''tool_name'' = Some ''Bash''"
    by (simp_all add: bash_payload_def str_at_def)
  have sub: "set (fst (compile_value x_compiler bash_payload)) \<subseteq> set (eng_events session_engine)"
    by (simp add: session_engine_def engine_build_def)
  show ?thesis
    by (rule delegation_needs_an_observer[OF ok out(1)[unfolded sample_check_def] out(2) session_computation p _ _ sub])
       (simp_all add: x_compiler_simps)
qed

definition marked_registry :: coverage_registry where
  \<comment> \<open>the manifest of \<open>mark\<close> only\<close>
  "marked_registry = \<lparr>cr_path = None, cr_manifests = [(key_of_manifest mark_manifest, mark_manifest)]\<rparr>"

definition unobserved_engine :: "unit engine" where
  "unobserved_engine = engine_build no_text (sample_log @ fst (compile_value x_compiler bash_payload)) marked_registry
     (snd (register_probe (file_stub unchanged) [])) (Some 60)"

theorem delegated_session_is_never_fresh_witness:
  "\<exists>out. sample_check unobserved_engine ''art'' = Inr out \<and>
     st_value (ct_status (chk_certificate out)) \<in> {Stale, UnknownStatus}"
proof -
  have "case sample_check unobserved_engine ''art'' of Inl _ \<Rightarrow> False | Inr out \<Rightarrow> True"
    by code_simp
  then obtain out where out: "sample_check unobserved_engine ''art'' = Inr out"
    by (cases "sample_check unobserved_engine ''art''") auto
  have c: "computation_for (eng_graph unobserved_engine) ''art'' = Inr (computation_of x_compiler ''s'')"
    by code_simp
  have ok: "engine_ok no_text marked_registry unobserved_engine"
    by (simp add: unobserved_engine_def engine_ok_build)
  have sh: "shipped m" if "registry_manifest marked_registry k = Some m" for k m
    using that by (auto simp: registry_manifest_def marked_registry_def shipped_def split: if_splits)
  have p: "str_at bash_payload ''hook_event_name'' = Some ''PreToolUse''" "str_at bash_payload ''session_id'' = Some ''s''"
    "str_at bash_payload ''tool_name'' = Some ''Bash''"
    by (simp_all add: bash_payload_def str_at_def)
  have sub: "set (fst (compile_value x_compiler bash_payload)) \<subseteq> set (eng_events unobserved_engine)"
    by (simp add: unobserved_engine_def engine_build_def)
  have "st_value (ct_status (chk_certificate out)) \<in> {Stale, UnknownStatus}"
    by (rule delegated_session_is_never_fresh[OF ok sh out[unfolded sample_check_def] c p _ _ sub])
       (simp_all add: x_compiler_simps)
  with out show ?thesis by blast
qed

theorem adapter_write_can_be_marked_witness:
  "\<exists>e. attribute Inr (fst (compile_value x_compiler write_payload)) ''/a'' \<lparr>algo = Blake3, digest_hex = ''x''\<rparr> =
     Inr (e, computation_of x_compiler ''s'')"
proof -
  let ?es = "fst (compile_value x_compiler write_payload)"
  have "latest_write_of Inr ?es ''/a'' \<noteq> None" by code_simp
  then obtain e where e: "latest_write_of Inr ?es ''/a'' = Some e" by blast
  then have "e \<in> set ?es"
    unfolding latest_write_of_def find_Some_iff by (metis linearize_set nth_mem set_rev)
  from adapter_write_can_be_marked[OF _ _ _ _ e this, of "''s''" "''Write''" _ "''bytes''"]
  show ?thesis by (simp add: write_payload_def str_at_def x_compiler_simps)
qed

end
