(* ===== verification/Spec2Isabelle.thy ===== *)
theory Spec2Isabelle
  imports Engine_Doubles Probe_Contract Determinism Claude_Hook_Facts Cli_Console_Facts Coverage_Percent
    Observer_Facts End_To_End
begin

text \<open>
  A verification development for freshdag (Rust, \<open>crates/\<close>), which decides whether an artifact an
  agent produced may be reused.

  \<^bold>\<open>The program.\<close> Producers append events to a log: the Claude adapter compiles the hook payloads of a
  session into reads, writes and tool calls, observers add what they see of subprocesses, and
  \<open>freshdag mark\<close> declares a file to be an artifact. Each producer registers a coverage manifest, in
  which it says for which kinds of event its silence means that nothing happened. The store replays
  the log into one node per computation, with its dependencies, conflicts, excluded observations and
  obligations (a tool call that ran a subprocess nobody may have watched). The engine checks an
  artifact: it asks a probe about each dependency, folds the answers through a trust ledger, adds the
  reasons that concern the artifact as a whole, and seals a certificate whose status is Valid,
  LikelyValid, Stale or Unknown. The command line turns the certificate into a report and an exit
  code. The central promise is that absence of evidence is never taken for freshness.

  \<^bold>\<open>Theories and sources.\<close> In the order of their imports; a group of definitions follows the source file
  it is named after, and keeps its names where HOL allows it.

  \<^item> \<open>Prelude\<close>, \<open>Text\<close>, \<open>Lines\<close>, \<open>Json\<close>: what the programs use of Rust's standard library (byte
    strings, trimming, decimal and \<open>u64\<close> text, lines, padding, \<open>BTreeMap\<close> and \<open>BTreeSet\<close>) and of
    \<open>serde_json::Value\<close>.
  \<^item> \<open>Fingerprints\<close>, \<open>Validity\<close>, \<open>Ir\<close>, \<open>Ir_Encoding\<close>, \<open>Certificate\<close>, \<open>Determinism\<close>: \<open>freshdag-core\<close>
    (hashes and fingerprints with their parsers; trust classes, verdicts and the aggregation of
    statuses; event kinds, coverage manifests, typed payloads with their decoders and encoders;
    certificates and their self-checks; the injected clock and identifiers).
  \<^item> \<open>Order\<close>, \<open>Coverage_Registry\<close>, \<open>Graph\<close>, \<open>Store_Log\<close>, \<open>Store\<close>: \<open>freshdag-store\<close> (the canonical
    order, the registry of manifests, the derived graph, reader and sink of the log file, and the
    store with its disposable derived state); facts in \<open>Graph_Facts\<close>, \<open>Graph_Queries\<close>, \<open>Log_Facts\<close>.
  \<^item> \<open>Probe_Registry\<close>, \<open>Antithrash\<close>, \<open>Engine_Coverage\<close>, \<open>Seal\<close>, \<open>Engine_Edge\<close>, \<open>Engine\<close>,
    \<open>Engine_Doubles\<close>: \<open>freshdag-engine\<close> (arbitration of probes, the trust ledger, deficits and
    obligations, sealing, the decision for one dependency, the whole check, and its test doubles);
    facts in \<open>Edge_Facts\<close>, \<open>Engine_Facts\<close>.
  \<^item> \<open>File_Probe\<close>, \<open>Http\<close>, \<open>Https_Probe\<close>, \<open>Reqwest_Transport\<close>: \<open>freshdag-probes\<close>; facts in
    \<open>Https_Facts\<close>; \<open>Probe_Contract\<close> states what the engine may rely on and discharges it for both.
  \<^item> \<open>Claude_Vocabulary\<close>, \<open>Claude_Paths\<close>, \<open>Claude_Compile\<close>, \<open>Claude_Coverage\<close>, \<open>Claude_Hook\<close>:
    \<open>freshdag-adapter-claude\<close> with the hook binary; facts in \<open>Claude_Facts\<close>, \<open>Claude_Hook_Facts\<close>.
  \<^item> \<open>Observer\<close>: \<open>freshdag-observer\<close>; facts in \<open>Observer_Facts\<close>, with the interface of an observer.
  \<^item> \<open>Messages\<close>, \<open>Cli_Check\<close>, \<open>Cli_Mark\<close>, \<open>Cli_Coverage\<close>, \<open>Cli_Render\<close>, \<open>Cli_Console\<close>: \<open>freshdag-cli\<close>
    and the texts of the errors it prints; facts beside them, in \<open>Cli_Console_Facts\<close> and
    \<open>Coverage_Percent\<close>.
  \<^item> \<open>End_To_End\<close>: from a hook payload to the check or mark that later reads the log.

  \<^bold>\<open>How the code is modelled.\<close> Structs are records, enums datatypes, \<open>Result\<close> a sum and \<open>Option\<close> an option;
  \<open>u8\<close> to \<open>u64\<close> are words where arithmetic can wrap or saturate, counts of \<open>usize\<close> are naturals. A
  \<open>String\<close> is the list of its UTF-8 bytes; an instant is its number of nanoseconds; a UUID is a
  \<open>128 word\<close>, whose order is that of its bytes; a \<open>BTreeMap\<close> is an association list kept strictly
  sorted (\<open>bm_put\<close>, \<open>bm_alter\<close>). State is passed explicitly: the compiler of the adapter, the
  ledger, the sinks, the probe's context. A panic, or a lock a panic has poisoned, is \<open>None\<close>. A file
  is its bytes, and what the operating system does with a call (the whole record, a part of it, an
  error) is an argument.

  \<^bold>\<open>Parameters.\<close> Code outside the repository is an argument of the definitions that use it: BLAKE3
  (\<open>hex\<close>, from bytes to the printed digest), the JSON codecs (\<open>ser\<close>, \<open>parse\<close>, \<open>to_vec\<close>, \<open>pretty\<close>)
  and the texts of their errors (\<open>msg\<close>), the \<open>url\<close> crate (\<open>url_ops\<close>), the HTTP client, the checked
  addition and the formatting of the \<open>time\<close> crate (\<open>tadd\<close>, \<open>rfc3339\<close>), \<open>clap\<close> (the parsed command),
  the file system, processes and the environment (\<open>file_system\<close>, \<open>check_env\<close>, \<open>mark_env\<close>,
  \<open>hook_env\<close>, \<open>process_world\<close>), and the world a probe sees (\<open>'w\<close>). Where a theorem needs a law of such
  code it is a hypothesis (that a written event parses back to itself and takes one line, say), and
  its witness satisfies it with a concrete function.

  \<^bold>\<open>Bounds.\<close> No definition runs on fuel: every loop is structural or has a measure. The loop of the
  https probe is bounded by the redirects left and the one retry of a refused HEAD. Bounds the code
  states (the byte cap of the sink, redirects, the length of a reason, 4096 event identifiers per
  check and millisecond, 32-bit counters) are proved as such, with what happens past them.

  \<^bold>\<open>What is shown.\<close>

  \<^item> Soundness of a check: a usable certificate is never issued over incomplete evidence, and each
    dependency of a Valid one was confirmed by the probe that arbitration selects, on evidence from
    the file or the server (\<open>Engine_Facts\<close>, \<open>Probe_Contract\<close>, \<open>Https_Facts\<close>); sealing never fails on
    what the engine hands it and its audits are unreachable (\<open>Seal\<close>, \<open>Engine_Facts\<close>).
  \<^item> The log: what was appended is read back, a torn write is never read as an event, every byte is
    accounted for, and derived state is a function of the log, and of no physical order when its
    replay is deterministic (\<open>Log_Facts\<close>, \<open>Store\<close>, \<open>Graph_Queries\<close>); each edge, conflict, exclusion and obligation of the graph is exactly
    what the events of the computation say (\<open>Graph_Facts\<close>).
  \<^item> The ledger implements a protocol without counters; aggregation is the minimum of an order.
  \<^item> The adapter: every payload leaves an event, of the right session, that decodes; a delegation
    raises an obligation; a configuration never suppresses silently or claims what it suppresses;
    the sink and the hook only append and never block a tool call; an invocation goes past the
    capped stream by the one record of what it dropped.
  \<^item> Composition: a read the adapter fingerprints becomes a dependency the file probe confirms; a
    file it saw written can be marked and then checked; and with the manifests that ship a session
    that delegated is never Valid or LikelyValid, as no observer's silence counts and no event of the
    \<open>fsatrace\<close> observer reaches a computation.
  \<^item> The command line: the exit code, the wording of the report and the channel of the output agree,
    codes 1 and 2 are verdicts and nothing else, and code 0 of a check means that every dependency of
    the named artifact was confirmed in that run, by evidence of a weaker class only where the user
    accepted it.

  Where the code does not do what it or its documentation says, a lemma of the component states what
  it does: a 304 to an unconditional request is an exact match (\<open>Https_Facts\<close>), a file recorded by
  SHA-256 always drifts (\<open>File_Probe\<close>), an append after a torn tail is lost (\<open>Log_Facts\<close>), a refused
  connection can be taken for a failure of TLS (\<open>Reqwest_Transport\<close>), the first manifest of a
  producer version stays in force (\<open>Claude_Hook_Facts\<close>), the report advises a flag that cannot help
  (\<open>Cli_Console_Facts\<close>), and others.

  \<^bold>\<open>Not modelled.\<close> The system clock and the random identifiers (\<open>determinism.rs\<close> of the adapter and the
  observer: one call each); the HTTP client inside \<open>reqwest\<close> and the parsing of arguments inside
  \<open>clap\<close>; \<open>tracing\<close> output and \<open>Debug\<close> instances; accessors and builder setters that only read or set
  one field of a record; test code and its helpers (\<open>store/src/testing.rs\<close>, the repeating body
  reader of the transport). Concurrency is limited to what the code does with it: a lock is taken for
  one operation, so interleavings are orders of operations.
\<close>

end
